(* ===== verification/Prelude.thy ===== *)
theory Prelude
  imports Main "HOL-Library.Word"
begin

text \<open>
  What every component of the model shares: machine integers, the exceptions of the node as
  values, ordered maps and multimaps (\<open>std::map\<close>, \<open>std::multimap\<close>) as sorted association
  lists, little-endian bytes, decimal numbers as text, and locales for invariants and refinement of runs.
\<close>

named_theorems omap_simps \<open>lookup, domain and order of the ordered maps\<close>
named_theorems bytes_simps \<open>lengths and round trips of byte encodings\<close>

section \<open>Machine integers and exceptions\<close>

type_synonym u8 = "8 word"
type_synonym u16 = "16 word"
type_synonym u32 = "32 word"
type_synonym u64 = "64 word"
type_synonym bytes = "u8 list"

lemma unat_of_nat_words [simp]:
  "n < 2 ^ 64 \<Longrightarrow> unat (word_of_nat n :: u64) = n"
  "n < 2 ^ 32 \<Longrightarrow> unat (word_of_nat n :: u32) = n"
  "n < 2 ^ 16 \<Longrightarrow> unat (word_of_nat n :: u16) = n"
  "n < 2 ^ 8 \<Longrightarrow> unat (word_of_nat n :: u8) = n"
  by (simp_all add: unat_of_nat)

lemma unat_bounds:
  "unat (a :: u64) < 2 ^ 64" "unat (b :: u32) < 2 ^ 32" "unat (c :: u16) < 2 ^ 16" "unat (d :: u8) < 2 ^ 8"
  using unsigned_less [of a, where ?'a = nat] unsigned_less [of b, where ?'a = nat]
    unsigned_less [of c, where ?'a = nat] unsigned_less [of d, where ?'a = nat] by simp_all

text \<open>
  The exception classes the node throws (all derived from \<open>GradidoBlockchainException\<close>), the
  standard exceptions it lets through, and the two ways a call can go wrong without an exception:
  a failed \<open>assert\<close> (assertions are modelled as enabled, as in the Debug build) and undefined
  behaviour (a null pointer, an iterator past the end, memory outside a buffer).
\<close>

datatype gradido_exception =
    ClassAlreadyInitalized
  | ClassNotInitalized
  | AlreadyExist
  | DictionaryInvalidNewKey u32 u32
  | DictionaryNotFound
  | InvalidData
  | BlockIndexError
  | BlockIndexInvalidFileCursor
  | LockFailed
  | EndReaching
  | InvalidReadBlockSize
  | HashMismatch
  | UnknownEnum
  | UnhandledEnum
  | BufferOverflow u64 u64
  | BlockchainOrder
  | TransactionNotFound
  | CannotLockMutex
  | GroupNotFound
  | CommunityNotFound
  | NullPointer
  | InvalidGradidoTransaction
  | LevelDBStatus
  | NotImplemented
  | FileNotFound
  | MissingParameter
  | ValidationFailed
  | InvalidMember
  | OpenFile
  | ParseError
  | InvalidJsonResponse
  | InvalidHieroId
  | ChannelError
  | SSLError

datatype std_exception = RuntimeError | InvalidArgument | OutOfRange | BadOptionalAccess | LengthError | FilesystemError

datatype error =
    Gradido gradido_exception
  | Std std_exception
  | AssertFailed
  | UndefinedBehaviour

type_synonym 'a result = "error + 'a"

definition is_ok :: "'a result \<Rightarrow> bool" where
  "is_ok r = (case r of Inl _ \<Rightarrow> False | Inr _ \<Rightarrow> True)"

lemma is_ok_simps [simp]: "is_ok (Inr a)" "\<not> is_ok (Inl e)"
  by (simp_all add: is_ok_def)

text \<open>\<open>std::optional::value\<close>, and sequencing without a state.\<close>

definition opt_value :: "'a option \<Rightarrow> 'a result" where
  "opt_value x = (case x of None \<Rightarrow> Inl (Std BadOptionalAccess) | Some a \<Rightarrow> Inr a)"

definition bindR :: "'a result \<Rightarrow> ('a \<Rightarrow> 'b result) \<Rightarrow> 'b result" where
  "bindR r f = (case r of Inl e \<Rightarrow> Inl e | Inr a \<Rightarrow> f a)"

fun mapR :: "('a \<Rightarrow> 'b result) \<Rightarrow> 'a list \<Rightarrow> 'b list result" where
  "mapR f [] = Inr []"
| "mapR f (a # as) = bindR (f a) (\<lambda>b. bindR (mapR f as) (\<lambda>bs. Inr (b # bs)))"

lemma opt_value_simps [simp]: "opt_value None = Inl (Std BadOptionalAccess)" "opt_value (Some a) = Inr a"
  by (simp_all add: opt_value_def)

lemma bindR_simps [simp]: "bindR (Inl e) f = Inl e" "bindR (Inr a) f = f a"
  by (simp_all add: bindR_def)

lemma mapR_map: "(\<And>a. a \<in> set as \<Longrightarrow> f (g a) = Inr (h a)) \<Longrightarrow> mapR f (map g as) = Inr (map h as)"
  by (induction as) auto

text \<open>
  Sequencing: an exception ends it and keeps the state as it is at that moment.
\<close>

definition bindS :: "('s \<Rightarrow> 'a result \<times> 's) \<Rightarrow> ('a \<Rightarrow> 's \<Rightarrow> 'b result \<times> 's) \<Rightarrow> 's \<Rightarrow> 'b result \<times> 's" where
  "bindS m f s = (case m s of (Inl e, s') \<Rightarrow> (Inl e, s') | (Inr a, s') \<Rightarrow> f a s')"

definition returnS :: "'a \<Rightarrow> 's \<Rightarrow> 'a result \<times> 's" where
  "returnS a s = (Inr a, s)"

definition throwS :: "error \<Rightarrow> 's \<Rightarrow> 'a result \<times> 's" where
  "throwS e s = (Inl e, s)"

lemma bindS_simps [simp]:
  "m s = (Inr a, s') \<Longrightarrow> bindS m f s = f a s'"
  "m s = (Inl e, s') \<Longrightarrow> bindS m f s = (Inl e, s')"
  "returnS a s = (Inr a, s)" "throwS e s = (Inl e, s)"
  by (simp_all add: bindS_def returnS_def throwS_def)

section \<open>Ordered maps\<close>

text \<open>\<open>std::map\<close> as a list of pairs in ascending order of the keys.\<close>

definition omap_ok :: "('k::linorder \<times> 'v) list \<Rightarrow> bool" where
  "omap_ok m = sorted_wrt (<) (map fst m)"

fun omap_put :: "'k::linorder \<Rightarrow> 'v \<Rightarrow> ('k \<times> 'v) list \<Rightarrow> ('k \<times> 'v) list" where
  "omap_put k v [] = [(k, v)]"
| "omap_put k v ((k', v') # m) =
     (if k < k' then (k, v) # (k', v') # m
      else if k = k' then (k, v) # m
      else (k', v') # omap_put k v m)"

text \<open>\<open>std::map::insert\<close> leaves an entry that is already there.\<close>

definition omap_insert :: "'k::linorder \<Rightarrow> 'v \<Rightarrow> ('k \<times> 'v) list \<Rightarrow> ('k \<times> 'v) list" where
  "omap_insert k v m = (case map_of m k of None \<Rightarrow> omap_put k v m | Some _ \<Rightarrow> m)"

definition omap_erase :: "'k \<Rightarrow> ('k \<times> 'v) list \<Rightarrow> ('k \<times> 'v) list" where
  "omap_erase k m = filter (\<lambda>p. fst p \<noteq> k) m"

lemma omap_ok_Nil [simp, intro]: "omap_ok []"
  by (simp add: omap_ok_def)

lemma omap_ok_Cons [omap_simps]:
  "omap_ok ((k, v) # m) \<longleftrightarrow> (\<forall>k' \<in> fst ` set m. k < k') \<and> omap_ok m"
  by (auto simp: omap_ok_def)

lemma omap_ok_distinct: "omap_ok m \<Longrightarrow> distinct (map fst m)"
  by (simp add: omap_ok_def strict_sorted_iff)

lemma fst_set_omap_put [omap_simps]: "fst ` set (omap_put k v m) = insert k (fst ` set m)"
  by (induction k v m rule: omap_put.induct) (auto split: if_splits)

lemma map_of_omap_put [omap_simps]:
  "omap_ok m \<Longrightarrow> map_of (omap_put k v m) = (map_of m)(k \<mapsto> v)"
  by (induction k v m rule: omap_put.induct) (auto simp: omap_ok_Cons fun_eq_iff)

lemma omap_ok_put [omap_simps, intro]: "omap_ok m \<Longrightarrow> omap_ok (omap_put k v m)"
  by (induction k v m rule: omap_put.induct) (auto simp: omap_ok_Cons fst_set_omap_put)

lemma omap_put_not_Nil [simp]: "omap_put k v m \<noteq> []"
  by (induction k v m rule: omap_put.induct) auto

lemma length_omap_put_new:
  "map_of m k = None \<Longrightarrow> length (omap_put k v m) = Suc (length m)"
  by (induction k v m rule: omap_put.induct) (auto split: if_splits)

lemma omap_ok_insert [omap_simps, intro]: "omap_ok m \<Longrightarrow> omap_ok (omap_insert k v m)"
  by (auto simp: omap_insert_def split: option.split)

lemma map_of_omap_insert [omap_simps]:
  "omap_ok m \<Longrightarrow> map_of (omap_insert k v m)
     = (case map_of m k of None \<Rightarrow> (map_of m)(k \<mapsto> v) | Some _ \<Rightarrow> map_of m)"
  by (auto simp: omap_insert_def map_of_omap_put split: option.split)

lemma map_of_omap_erase [omap_simps]: "map_of (omap_erase k m) = (map_of m)(k := None)"
  by (induction m) (auto simp: omap_erase_def fun_eq_iff)

lemma omap_ok_erase [omap_simps, intro]: "omap_ok m \<Longrightarrow> omap_ok (omap_erase k m)"
  by (induction m) (auto simp: omap_erase_def omap_ok_def)

text \<open>A key above every other one goes to the end.\<close>

lemma omap_put_last:
  "\<forall>k' \<in> fst ` set m. k' < k \<Longrightarrow> omap_put k v m = m @ [(k, v)]"
  by (induction k v m rule: omap_put.induct) auto

section \<open>Ordered multimaps\<close>

text \<open>\<open>std::multimap\<close>: a new entry goes behind the ones with an equal key.\<close>

definition mm_ok :: "('k::linorder \<times> 'v) list \<Rightarrow> bool" where
  "mm_ok m = sorted (map fst m)"

fun mm_insert :: "'k::linorder \<Rightarrow> 'v \<Rightarrow> ('k \<times> 'v) list \<Rightarrow> ('k \<times> 'v) list" where
  "mm_insert k v [] = [(k, v)]"
| "mm_insert k v ((k', v') # m) =
     (if k < k' then (k, v) # (k', v') # m else (k', v') # mm_insert k v m)"

text \<open>\<open>equal_range\<close>, \<open>lower_bound\<close> and \<open>upper_bound\<close> on a sorted list.\<close>

definition mm_equal_range :: "'k \<Rightarrow> ('k \<times> 'v) list \<Rightarrow> 'v list" where
  "mm_equal_range k m = map snd (filter (\<lambda>p. fst p = k) m)"

definition mm_lower_bound :: "'k::linorder \<Rightarrow> ('k \<times> 'v) list \<Rightarrow> ('k \<times> 'v) list" where
  "mm_lower_bound k m = dropWhile (\<lambda>p. fst p < k) m"

lemma set_mm_insert [omap_simps]: "set (mm_insert k v m) = insert (k, v) (set m)"
  by (induction k v m rule: mm_insert.induct) auto

lemma mm_insert_not_Nil [simp]: "mm_insert k v m \<noteq> []"
  by (induction k v m rule: mm_insert.induct) auto

lemma length_mm_insert [omap_simps]: "length (mm_insert k v m) = Suc (length m)"
  by (induction k v m rule: mm_insert.induct) auto

lemma mm_ok_Nil [simp, intro]: "mm_ok []"
  by (simp add: mm_ok_def)

lemma mm_ok_Cons [omap_simps]: "mm_ok (p # m) \<longleftrightarrow> (\<forall>q \<in> set m. fst p \<le> fst q) \<and> mm_ok m"
  by (auto simp: mm_ok_def)

lemma mm_ok_insert [omap_simps, intro]: "mm_ok m \<Longrightarrow> mm_ok (mm_insert k v m)"
proof (induction k v m rule: mm_insert.induct)
  case (1 k v)
  show ?case by (simp add: mm_ok_Cons)
next
  case (2 k v k' v' m)
  then show ?case by (fastforce simp: mm_ok_Cons set_mm_insert)
qed

lemma mm_ok_filter [omap_simps, intro]: "mm_ok m \<Longrightarrow> mm_ok (filter P m)"
  by (induction m) (auto simp: mm_ok_Cons)

lemma mm_equal_range_insert [omap_simps]:
  assumes "mm_ok m"
  shows "mm_equal_range k' (mm_insert k v m)
     = mm_equal_range k' m @ (if k' = k then [v] else [])"
  using assms
proof (induction k v m rule: mm_insert.induct)
  case (1 k v)
  show ?case by (simp add: mm_equal_range_def)
next
  case (2 k v k2 v2 m)
  have none: "filter (\<lambda>p. fst p = k) m = []" if "k < k2"
    using that 2(2) by (fastforce simp: mm_ok_Cons filter_empty_conv)
  from 2 show ?case
    by (auto simp: mm_equal_range_def mm_ok_Cons none)
qed

lemma mm_lower_bound_sorted:
  "mm_ok m \<Longrightarrow> mm_lower_bound k m = filter (\<lambda>p. k \<le> fst p) m"
proof (induction m)
  case Nil
  show ?case by (simp add: mm_lower_bound_def)
next
  case (Cons p m)
  have "filter (\<lambda>q. k \<le> fst q) m = m" if "k \<le> fst p"
    using that Cons.prems by (fastforce simp: mm_ok_Cons filter_id_conv)
  with Cons show ?case by (auto simp: mm_lower_bound_def mm_ok_Cons)
qed

section \<open>Little-endian bytes\<close>

text \<open>\<open>memcpy\<close> of an integer of \<open>n\<close> bytes on the little-endian targets of the node.\<close>

fun le_bytes :: "nat \<Rightarrow> nat \<Rightarrow> bytes" where
  "le_bytes 0 x = []"
| "le_bytes (Suc n) x = word_of_nat (x mod 256) # le_bytes n (x div 256)"

fun le_nat :: "bytes \<Rightarrow> nat" where
  "le_nat [] = 0"
| "le_nat (b # bs) = unat b + 256 * le_nat bs"

lemma length_le_bytes [simp, bytes_simps]: "length (le_bytes n x) = n"
  by (induction n x rule: le_bytes.induct) auto

lemma le_nat_le_bytes [bytes_simps]: "le_nat (le_bytes n x) = x mod 256 ^ n"
proof (induction n arbitrary: x)
  case 0
  show ?case by simp
next
  case (Suc n)
  then show ?case
    by (simp add: unat_of_nat mod_mult2_eq add.commute)
qed

lemma le_nat_bound: "le_nat bs < 256 ^ length bs"
proof (induction bs)
  case Nil
  show ?case by simp
next
  case (Cons b bs)
  have "unat b < 256" using unsigned_less [of b, where ?'a = nat] by simp
  with Cons show ?case by simp
qed

lemma le_bytes_le_nat [bytes_simps]: "le_bytes (length bs) (le_nat bs) = bs"
proof (induction bs)
  case Nil
  show ?case by simp
next
  case (Cons b bs)
  have "unat b < 256" using unsigned_less [of b, where ?'a = nat] by simp
  with Cons show ?case by simp
qed

definition bytes_of_u64 :: "u64 \<Rightarrow> bytes" where "bytes_of_u64 w = le_bytes 8 (unat w)"
definition bytes_of_u32 :: "u32 \<Rightarrow> bytes" where "bytes_of_u32 w = le_bytes 4 (unat w)"
definition bytes_of_u16 :: "u16 \<Rightarrow> bytes" where "bytes_of_u16 w = le_bytes 2 (unat w)"

definition u64_of_bytes :: "bytes \<Rightarrow> u64" where "u64_of_bytes bs = word_of_nat (le_nat bs)"
definition u32_of_bytes :: "bytes \<Rightarrow> u32" where "u32_of_bytes bs = word_of_nat (le_nat bs)"
definition u16_of_bytes :: "bytes \<Rightarrow> u16" where "u16_of_bytes bs = word_of_nat (le_nat bs)"

lemma length_bytes_of [simp, bytes_simps]:
  "length (bytes_of_u64 a) = 8" "length (bytes_of_u32 b) = 4" "length (bytes_of_u16 c) = 2"
  by (simp_all add: bytes_of_u64_def bytes_of_u32_def bytes_of_u16_def)

lemma u64_of_bytes_of [simp, bytes_simps]: "u64_of_bytes (bytes_of_u64 w) = w"
proof -
  have "unat w < 256 ^ 8" using unsigned_less [of w, where ?'a = nat] by simp
  then show ?thesis
    by (simp add: u64_of_bytes_def bytes_of_u64_def le_nat_le_bytes)
qed

lemma u32_of_bytes_of [simp, bytes_simps]: "u32_of_bytes (bytes_of_u32 w) = w"
proof -
  have "unat w < 256 ^ 4" using unsigned_less [of w, where ?'a = nat] by simp
  then show ?thesis
    by (simp add: u32_of_bytes_def bytes_of_u32_def le_nat_le_bytes)
qed

lemma u16_of_bytes_of [simp, bytes_simps]: "u16_of_bytes (bytes_of_u16 w) = w"
proof -
  have "unat w < 256 ^ 2" using unsigned_less [of w, where ?'a = nat] by simp
  then show ?thesis
    by (simp add: u16_of_bytes_def bytes_of_u16_def le_nat_le_bytes)
qed

section \<open>Numbers as text\<close>

definition digit_char :: "nat \<Rightarrow> char" where
  "digit_char d = char_of (48 + d)"

definition is_digit :: "char \<Rightarrow> bool" where
  "is_digit c = (48 \<le> (of_char c :: nat) \<and> (of_char c :: nat) \<le> 57)"

definition digit_val :: "char \<Rightarrow> nat" where
  "digit_val c = of_char c - 48"

text \<open>\<open>std::to_string\<close> of an unsigned value, and of a signed one.\<close>

fun to_string :: "nat \<Rightarrow> string" where
  "to_string n = (if n < 10 then [digit_char n] else to_string (n div 10) @ [digit_char (n mod 10)])"

declare to_string.simps [simp del]

definition to_string_int :: "int \<Rightarrow> string" where
  "to_string_int i = (if i < 0 then CHR ''-'' # to_string (nat (- i)) else to_string (nat i))"

text \<open>The digits at the front of a text, as \<open>strtoul\<close> and its kin read them.\<close>

fun parse_digits :: "nat \<Rightarrow> string \<Rightarrow> nat" where
  "parse_digits acc [] = acc"
| "parse_digits acc (c # cs) =
     (if is_digit c then parse_digits (acc * 10 + digit_val c) cs else acc)"

definition is_space :: "char \<Rightarrow> bool" where
  "is_space c = ((of_char c :: nat) = 32 \<or> (9 \<le> (of_char c :: nat) \<and> (of_char c :: nat) \<le> 13))"

definition split_sign :: "string \<Rightarrow> bool \<times> string" where
  "split_sign s = (case s of [] \<Rightarrow> (False, [])
     | c # cs \<Rightarrow> if c = CHR ''-'' then (True, cs) else if c = CHR ''+'' then (False, cs) else (False, s))"

text \<open>\<open>strtoul(s, \<dots>, 10)\<close> (64 bit): leading space and a sign are skipped, the value saturates.\<close>

definition strtoul :: "string \<Rightarrow> u64" where
  "strtoul s = (case split_sign (dropWhile is_space s) of (neg, ds) \<Rightarrow>
     let n = parse_digits 0 ds in
     if 2 ^ 64 \<le> n then - 1 else if neg then - word_of_nat n else word_of_nat n)"

text \<open>\<open>std::stoull\<close>: no digit and a value out of range are exceptions.\<close>

definition stoull :: "string \<Rightarrow> u64 result" where
  "stoull s = (case split_sign (dropWhile is_space s) of (neg, ds) \<Rightarrow>
     if ds = [] \<or> \<not> is_digit (hd ds) then Inl (Std InvalidArgument)
     else let n = parse_digits 0 ds in
       if 2 ^ 64 \<le> n then Inl (Std OutOfRange)
       else if neg then Inr (- word_of_nat n) else Inr (word_of_nat n))"

text \<open>\<open>strtoll(s, nullptr, 10)\<close> saturates at both ends; \<open>atoi\<close> is undefined out of range.\<close>

definition strtoll :: "string \<Rightarrow> int" where
  "strtoll s = (case split_sign (dropWhile is_space s) of (neg, ds) \<Rightarrow>
     let n = int (parse_digits 0 ds) in
     if neg then max (- n) (- (2 ^ 63)) else min n (2 ^ 63 - 1))"

definition atoi :: "string \<Rightarrow> int result" where
  "atoi s = (case split_sign (dropWhile is_space s) of (neg, ds) \<Rightarrow>
     let n = (if neg then - int (parse_digits 0 ds) else int (parse_digits 0 ds)) in
     if - (2 ^ 31) \<le> n \<and> n < 2 ^ 31 then Inr n else Inl UndefinedBehaviour)"

text \<open>\<open>std::stoi\<close>, the same for \<open>int\<close>.\<close>

definition stoi :: "string \<Rightarrow> int result" where
  "stoi s = (case split_sign (dropWhile is_space s) of (neg, ds) \<Rightarrow>
     if ds = [] \<or> \<not> is_digit (hd ds) then Inl (Std InvalidArgument)
     else let n = (if neg then - int (parse_digits 0 ds) else int (parse_digits 0 ds)) in
       if - (2 ^ 31) \<le> n \<and> n < 2 ^ 31 then Inr n else Inl (Std OutOfRange))"

lemma digit_char_simps:
  assumes "d < 10"
  shows "is_digit (digit_char d)" "digit_val (digit_char d) = d"
    "\<not> is_space (digit_char d)" "digit_char d \<noteq> CHR ''-''" "digit_char d \<noteq> CHR ''+''"
proof -
  have oc: "(of_char (digit_char d) :: nat) = 48 + d"
    using assms by (simp add: digit_char_def)
  show "is_digit (digit_char d)" "digit_val (digit_char d) = d" "\<not> is_space (digit_char d)"
    using assms by (simp_all add: is_digit_def digit_val_def is_space_def oc)
  have "(of_char (CHR ''-'') :: nat) = 45" "(of_char (CHR ''+'') :: nat) = 43" by simp_all
  then show "digit_char d \<noteq> CHR ''-''" "digit_char d \<noteq> CHR ''+''"
    using oc by (auto dest: arg_cong [where f = "of_char :: char \<Rightarrow> nat"])
qed

lemma to_string_digits: "\<exists>d cs. to_string n = digit_char d # cs \<and> d < 10"
proof (induction n rule: to_string.induct)
  case (1 n)
  show ?case
  proof (cases "n < 10")
    case True
    then show ?thesis by (auto simp: to_string.simps [of n])
  next
    case False
    with 1 obtain d cs where "to_string (n div 10) = digit_char d # cs" "d < 10" by auto
    with False show ?thesis by (auto simp: to_string.simps [of n])
  qed
qed

lemma to_string_not_Nil [simp]: "to_string n \<noteq> []"
  using to_string_digits [of n] by auto

lemma to_string_all_digits: "list_all is_digit (to_string n)"
proof (induction n rule: to_string.induct)
  case (1 n)
  then show ?case
    by (cases "n < 10") (simp_all add: to_string.simps [of n] digit_char_simps)
qed

lemma parse_digits_append:
  "list_all is_digit xs \<Longrightarrow> parse_digits acc (xs @ ys) = parse_digits (parse_digits acc xs) ys"
  by (induction acc xs rule: parse_digits.induct) auto

lemma parse_digits_to_string [simp]: "parse_digits 0 (to_string n) = n"
proof (induction n rule: to_string.induct)
  case (1 n)
  show ?case
  proof (cases "n < 10")
    case True
    then show ?thesis by (simp add: to_string.simps [of n] digit_char_simps)
  next
    case False
    with 1 have "parse_digits 0 (to_string (n div 10)) = n div 10" by simp
    with False show ?thesis
      by (simp add: to_string.simps [of n] parse_digits_append to_string_all_digits digit_char_simps)
  qed
qed

lemma to_string_inject [simp]: "to_string m = to_string n \<longleftrightarrow> m = n"
  by (metis parse_digits_to_string)

lemma split_sign_to_string [simp]:
  "split_sign (dropWhile is_space (to_string n)) = (False, to_string n)"
  using to_string_digits [of n] by (auto simp: split_sign_def digit_char_simps)

lemma strtoul_to_string [simp]: "n < 2 ^ 64 \<Longrightarrow> strtoul (to_string n) = word_of_nat n"
  by (simp add: strtoul_def)

lemma stoull_to_string [simp]: "n < 2 ^ 64 \<Longrightarrow> stoull (to_string n) = Inr (word_of_nat n)"
  using to_string_digits [of n] by (auto simp: stoull_def digit_char_simps Let_def)

lemma stoull_to_string_unat [simp]: "stoull (to_string (unat (w :: u64))) = Inr w"
proof -
  have "unat w < 2 ^ 64" using unsigned_less [of w, where ?'a = nat] by simp
  then show ?thesis by simp
qed

lemma strtoll_to_string: "n < 2 ^ 63 \<Longrightarrow> strtoll (to_string n) = int n"
  by (simp add: strtoll_def)

lemma atoi_to_string: "n < 2 ^ 31 \<Longrightarrow> atoi (to_string n) = Inr (int n)"
  by (simp add: atoi_def)

section \<open>Invariants of runs\<close>

text \<open>
  A component with one state and a set of operations: an operation takes the state to the next
  one, a run is a list of operations. What every operation keeps, every run keeps.
\<close>

locale step_invariant =
  fixes step :: "'e \<Rightarrow> 's \<Rightarrow> 's"
    and inv :: "'s \<Rightarrow> bool"
  assumes step_inv: "inv s \<Longrightarrow> inv (step e s)"
begin

lemma run_inv: "inv s \<Longrightarrow> inv (fold step es s)"
  by (induction es arbitrary: s) (auto intro: step_inv)

end

text \<open>A run in which every step keeps a relation to the start, for instance an order of growth.\<close>

locale step_monotone = step_invariant +
  fixes le :: "'s \<Rightarrow> 's \<Rightarrow> bool"
  assumes le_refl: "le s s"
    and le_trans: "le s t \<Longrightarrow> le t u \<Longrightarrow> le s u"
    and step_le: "inv s \<Longrightarrow> le s (step e s)"
begin

lemma run_le: "inv s \<Longrightarrow> le s (fold step es s)"
proof (induction es arbitrary: s)
  case Nil
  show ?case by (simp add: le_refl)
next
  case (Cons e es)
  then have "le (step e s) (fold step es (step e s))" by (simp add: step_inv)
  with Cons.prems show ?case by (auto intro: le_trans step_le)
qed

end

section \<open>Refinement\<close>

text \<open>
  A program whose steps answer, run on a list of operations; and the operations an abstract program
  allows, state by state.
\<close>

fun run_steps :: "('e \<Rightarrow> 's \<Rightarrow> 'r \<times> 's) \<Rightarrow> 'e list \<Rightarrow> 's \<Rightarrow> 'r list \<times> 's" where
  "run_steps step [] s = ([], s)"
| "run_steps step (e # es) s =
     (case step e s of (r, s') \<Rightarrow> case run_steps step es s' of (rs, s'') \<Rightarrow> (r # rs, s''))"

fun run_allowed :: "('e \<Rightarrow> 'a \<Rightarrow> bool) \<Rightarrow> ('e \<Rightarrow> 'a \<Rightarrow> 'r \<times> 'a) \<Rightarrow> 'e list \<Rightarrow> 'a \<Rightarrow> bool" where
  "run_allowed ok step [] a = True"
| "run_allowed ok step (e # es) a = (ok e a \<and> run_allowed ok step es (snd (step e a)))"

text \<open>A forward simulation: related states answer alike and stay related.\<close>

locale simulation =
  fixes cstep :: "'e \<Rightarrow> 'c \<Rightarrow> 'r \<times> 'c" and astep :: "'e \<Rightarrow> 'a \<Rightarrow> 'r \<times> 'a"
    and ok :: "'e \<Rightarrow> 'a \<Rightarrow> bool" and sim :: "'a \<Rightarrow> 'c \<Rightarrow> bool"
  assumes sim_step: "sim a c \<Longrightarrow> ok e a \<Longrightarrow>
    fst (cstep e c) = fst (astep e a) \<and> sim (snd (astep e a)) (snd (cstep e c))"
begin

lemma run_sim:
  "sim a c \<Longrightarrow> run_allowed ok astep es a \<Longrightarrow>
   fst (run_steps cstep es c) = fst (run_steps astep es a) \<and>
   sim (snd (run_steps astep es a)) (snd (run_steps cstep es c))"
proof (induction es arbitrary: a c)
  case Nil
  then show ?case by simp
next
  case (Cons e es)
  then have now: "fst (cstep e c) = fst (astep e a)" "sim (snd (astep e a)) (snd (cstep e c))"
    using sim_step by auto
  from Cons.IH [OF now(2)] Cons.prems(2) now(1) show ?case by (simp add: case_prod_beta)
qed

end

end
