(* ===== verification/Files.thy ===== *)
theory Files
  imports Prelude
begin

text \<open>
  The files of the node: \<open>FileLockManager\<close> (\<open>src/SingletonManager/FileLockManager.cpp\<close>), which
  keeps one flag per file name, and \<open>VirtualFile\<close> (\<open>src/lib/VirtualFile.cpp\<close>), a buffer with a
  cursor that is written to and read from a file under that lock. The file system is a map from
  names to contents.
\<close>

section \<open>FileLockManager\<close>

type_synonym locks = "string \<rightharpoonup> bool"

definition FileLockManager_isLock :: "string \<Rightarrow> locks \<Rightarrow> bool \<times> locks" where
  "FileLockManager_isLock file mFiles =
     (case mFiles file of
        Some b \<Rightarrow> (b, mFiles)
      | None \<Rightarrow> (False, mFiles(file \<mapsto> False)))"

definition FileLockManager_tryLock :: "string \<Rightarrow> locks \<Rightarrow> bool \<times> locks" where
  "FileLockManager_tryLock file mFiles =
     (case mFiles file of
        Some b \<Rightarrow> (if \<not> b then (True, mFiles(file \<mapsto> True)) else (False, mFiles))
      | None \<Rightarrow> (True, mFiles(file \<mapsto> True)))"

text \<open>
  The loop of \<open>tryLockTimeout\<close>. While it sleeps, other threads run: \<open>env n\<close> is what they do to
  the flags during the sleep that leaves \<open>n\<close> rounds.
\<close>

fun tryLock_rounds :: "(nat \<Rightarrow> locks \<Rightarrow> locks) \<Rightarrow> string \<Rightarrow> nat \<Rightarrow> locks \<Rightarrow> bool \<times> locks" where
  "tryLock_rounds env file 0 mFiles = (False, mFiles)"
| "tryLock_rounds env file (Suc n) mFiles =
     (case FileLockManager_tryLock file mFiles of
        (True, mFiles') \<Rightarrow> (True, mFiles')
      | (False, mFiles') \<Rightarrow> tryLock_rounds env file n (env n mFiles'))"

definition FileLockManager_tryLockTimeout ::
    "(nat \<Rightarrow> locks \<Rightarrow> locks) \<Rightarrow> string \<Rightarrow> int \<Rightarrow> locks \<Rightarrow> bool result \<times> locks" where
  "FileLockManager_tryLockTimeout env file tryCount mFiles =
     (case tryLock_rounds env file (nat tryCount) mFiles of
        (fileLocked, mFiles') \<Rightarrow>
          (if \<not> fileLocked then Inl (Gradido LockFailed) else Inr True, mFiles'))"

definition FileLockManager_unlock :: "string \<Rightarrow> locks \<Rightarrow> unit result \<times> locks" where
  "FileLockManager_unlock file mFiles =
     (case mFiles file of
        None \<Rightarrow> (Inl AssertFailed, mFiles)
      | Some _ \<Rightarrow> (Inr (), mFiles(file \<mapsto> False)))"

definition held :: "string \<Rightarrow> locks \<Rightarrow> bool" where
  "held file mFiles = (mFiles file = Some True)"

lemma tryLock_held: "held file m \<Longrightarrow> FileLockManager_tryLock file m = (False, m)"
  by (simp add: held_def FileLockManager_tryLock_def)

lemma tryLock_free: "\<not> held file m \<Longrightarrow> FileLockManager_tryLock file m = (True, m(file \<mapsto> True))"
  by (auto simp: held_def FileLockManager_tryLock_def split: option.split)

lemma tryLock_other: "FileLockManager_tryLock file m = (b, m') \<Longrightarrow> g \<noteq> file \<Longrightarrow> m' g = m g"
  by (auto simp: FileLockManager_tryLock_def split: option.splits if_splits)

lemma unlock_after_lock:
  "FileLockManager_tryLock file m = (True, m') \<Longrightarrow>
   FileLockManager_unlock file m' = (Inr (), m(file \<mapsto> False))"
  by (auto simp: FileLockManager_tryLock_def FileLockManager_unlock_def
      split: option.splits if_splits)

text \<open>Nobody else runs: a free file is taken at once.\<close>

lemma tryLockTimeout_free:
  "\<not> held file m \<Longrightarrow> 0 < n \<Longrightarrow>
   FileLockManager_tryLockTimeout env file n m = (Inr True, m(file \<mapsto> True))"
  by (cases "nat n") (simp_all add: FileLockManager_tryLockTimeout_def tryLock_free)

text \<open>A holder that never lets go during the rounds makes every caller give up.\<close>

lemma tryLock_rounds_held:
  "(\<And>n m. held file m \<Longrightarrow> held file (env n m)) \<Longrightarrow> held file m \<Longrightarrow>
   fst (tryLock_rounds env file n m) = False"
  by (induction n arbitrary: m) (simp_all add: tryLock_held)

text \<open>
  The lock excludes: whoever gets it turns a flag that was not set into a set one, and keeps every
  other file's flag, whatever other threads do to that file's flag meanwhile.
\<close>

lemma tryLock_rounds_success:
  "tryLock_rounds env file n m = (True, m') \<Longrightarrow>
   \<exists>m0. \<not> held file m0 \<and> m' = m0(file \<mapsto> True)"
proof (induction n arbitrary: m)
  case 0
  then show ?case by simp
next
  case (Suc n)
  show ?case
  proof (cases "held file m")
    case True
    with Suc show ?thesis by (simp add: tryLock_held)
  next
    case False
    with Suc.prems show ?thesis by (auto simp: tryLock_free)
  qed
qed

section \<open>VirtualFile\<close>

text \<open>
  \<open>mBuffer = None\<close> is the null pointer. The bytes of freshly allocated memory are unknown: the
  constructor takes them as \<open>junk\<close>.
\<close>

record VirtualFile =
  mBuffer :: "bytes option"
  mBufferSize :: u64
  mCursor :: u64

definition VirtualFile_new :: "(nat \<Rightarrow> u8) \<Rightarrow> u64 \<Rightarrow> VirtualFile" where
  "VirtualFile_new junk bufferSize =
     \<lparr>mBuffer = Some (map junk [0..<unat bufferSize]), mBufferSize = bufferSize, mCursor = 0\<rparr>"

definition VirtualFile_take :: "bytes option \<Rightarrow> u64 \<Rightarrow> VirtualFile" where
  "VirtualFile_take buffer bufferSize =
     \<lparr>mBuffer = buffer, mBufferSize = bufferSize, mCursor = 0\<rparr>"

text \<open>
  \<open>mCursor + size\<close> is computed in \<open>size_t\<close>, so it wraps; the \<open>memcpy\<close> behind the check is
  undefined when it leaves the buffer.
\<close>

definition VirtualFile_read :: "u64 \<Rightarrow> VirtualFile \<Rightarrow> bytes result \<times> VirtualFile" where
  "VirtualFile_read sz vf =
     (case mBuffer vf of
        None \<Rightarrow> (Inl AssertFailed, vf)
      | Some buf \<Rightarrow>
          if mCursor vf + sz > mBufferSize vf then
            (Inl (Gradido (BufferOverflow (mBufferSize vf) (mCursor vf + sz))), vf)
          else if unat (mCursor vf) + unat sz > length buf then (Inl UndefinedBehaviour, vf)
          else (Inr (take (unat sz) (drop (unat (mCursor vf)) buf)),
                vf\<lparr>mCursor := mCursor vf + sz\<rparr>))"

definition VirtualFile_write :: "bytes \<Rightarrow> u64 \<Rightarrow> VirtualFile \<Rightarrow> unit result \<times> VirtualFile" where
  "VirtualFile_write src sz vf =
     (case mBuffer vf of
        None \<Rightarrow> (Inl AssertFailed, vf)
      | Some buf \<Rightarrow>
          if mCursor vf + sz > mBufferSize vf then
            (Inl (Gradido (BufferOverflow (mBufferSize vf) (mCursor vf + sz))), vf)
          else if unat (mCursor vf) + unat sz > length buf \<or> unat sz > length src then
            (Inl UndefinedBehaviour, vf)
          else (Inr (),
                vf\<lparr>mBuffer := Some (take (unat (mCursor vf)) buf @ take (unat sz) src
                                   @ drop (unat (mCursor vf) + unat sz) buf),
                   mCursor := mCursor vf + sz\<rparr>))"

definition VirtualFile_setCursor :: "u64 \<Rightarrow> VirtualFile \<Rightarrow> bool result \<times> VirtualFile" where
  "VirtualFile_setCursor dst vf =
     (if mBuffer vf = None then (Inl AssertFailed, vf)
      else if dst > mBufferSize vf then (Inr False, vf)
      else (Inr True, vf\<lparr>mCursor := dst\<rparr>))"

text \<open>
  Files and their locks. \<open>writeToFile\<close> and \<open>readFromFile\<close> take the lock with 100 rounds, and the
  exception of \<open>tryLockTimeout\<close> leaves them as it is. For a file that is not there, \<open>tellg\<close>
  gives -1, which is not 0: the buffer is the null pointer and its size is the largest
  \<open>size_t\<close>.
\<close>

record node_fs =
  fs_locks :: locks
  fs_files :: "string \<rightharpoonup> bytes"

definition VirtualFile_writeToFile ::
    "(nat \<Rightarrow> locks \<Rightarrow> locks) \<Rightarrow> string \<Rightarrow> VirtualFile \<Rightarrow> node_fs \<Rightarrow> unit result \<times> node_fs" where
  "VirtualFile_writeToFile env filename vf fs =
     (case FileLockManager_tryLockTimeout env filename 100 (fs_locks fs) of
        (Inl e, l) \<Rightarrow> (Inl e, fs\<lparr>fs_locks := l\<rparr>)
      | (Inr b, l) \<Rightarrow>
          (case mBuffer vf of
             None \<Rightarrow> (if mCursor vf = 0 then Inr () else Inl UndefinedBehaviour,
                      fs\<lparr>fs_locks := l(filename \<mapsto> False), fs_files := (fs_files fs)(filename \<mapsto> [])\<rparr>)
           | Some buf \<Rightarrow>
               (case FileLockManager_unlock filename l of
                  (r, l') \<Rightarrow> (r, fs\<lparr>fs_locks := l',
                     fs_files := (fs_files fs)(filename \<mapsto> take (unat (mCursor vf)) buf)\<rparr>))))"

definition VirtualFile_readFromFile ::
    "(nat \<Rightarrow> locks \<Rightarrow> locks) \<Rightarrow> string \<Rightarrow> node_fs \<Rightarrow> VirtualFile option result \<times> node_fs" where
  "VirtualFile_readFromFile env filename fs =
     (case FileLockManager_tryLockTimeout env filename 100 (fs_locks fs) of
        (Inl e, l) \<Rightarrow> (Inl e, fs\<lparr>fs_locks := l\<rparr>)
      | (Inr b, l) \<Rightarrow>
          (case FileLockManager_unlock filename l of
             (Inl e, l') \<Rightarrow> (Inl e, fs\<lparr>fs_locks := l'\<rparr>)
           | (Inr _, l') \<Rightarrow>
               (case fs_files fs filename of
                  None \<Rightarrow> (Inr (Some (VirtualFile_take None (- 1))), fs\<lparr>fs_locks := l'\<rparr>)
                | Some content \<Rightarrow>
                    (if content = [] then (Inr None, fs\<lparr>fs_locks := l'\<rparr>)
                     else (Inr (Some (VirtualFile_take (Some content)
                             (word_of_nat (length content)))), fs\<lparr>fs_locks := l'\<rparr>)))))"

text \<open>A buffer is as long as its size says and the cursor stays inside.\<close>

definition vf_ok :: "VirtualFile \<Rightarrow> bool" where
  "vf_ok vf = (\<exists>buf. mBuffer vf = Some buf \<and> length buf = unat (mBufferSize vf)
                \<and> mCursor vf \<le> mBufferSize vf)"

lemma VirtualFile_new_simps [simp]:
  "mBufferSize (VirtualFile_new junk n) = n" "mCursor (VirtualFile_new junk n) = 0"
  by (simp_all add: VirtualFile_new_def)

lemma vf_ok_new [simp]: "vf_ok (VirtualFile_new junk n)"
  by (simp add: vf_ok_def VirtualFile_new_def)

text \<open>The space between the cursor and the end.\<close>

definition vf_space :: "VirtualFile \<Rightarrow> nat" where
  "vf_space vf = unat (mBufferSize vf) - unat (mCursor vf)"

lemma vf_ok_fits:
  assumes ok: "vf_ok vf" and fits: "unat sz \<le> vf_space vf"
  shows "\<not> mCursor vf + sz > mBufferSize vf"
    "unat (mCursor vf + sz) = unat (mCursor vf) + unat sz"
    "unat (mCursor vf) + unat sz \<le> unat (mBufferSize vf)"
proof -
  from ok have cur: "unat (mCursor vf) \<le> unat (mBufferSize vf)"
    by (auto simp: vf_ok_def word_le_nat_alt)
  with fits show le: "unat (mCursor vf) + unat sz \<le> unat (mBufferSize vf)"
    by (simp add: vf_space_def)
  have "unat (mBufferSize vf) < 2 ^ 64"
    using unsigned_less [of "mBufferSize vf", where ?'a = nat] by simp
  with le show sum: "unat (mCursor vf + sz) = unat (mCursor vf) + unat sz"
    by (simp add: unat_word_ariths)
  show "\<not> mCursor vf + sz > mBufferSize vf"
    using le by (simp add: word_less_nat_alt sum)
qed

text \<open>Behaviour of a write that fits, of one that does not (and does not wrap), and of a read.\<close>

lemma VirtualFile_write_fits:
  assumes ok: "vf_ok vf" and len: "length src = unat sz" and fits: "unat sz \<le> vf_space vf"
    and buf: "mBuffer vf = Some buf"
  shows "VirtualFile_write src sz vf =
     (Inr (), vf\<lparr>mBuffer := Some (take (unat (mCursor vf)) buf @ src
                 @ drop (unat (mCursor vf) + unat sz) buf), mCursor := mCursor vf + sz\<rparr>)"
  using vf_ok_fits [OF ok fits] ok len buf
  by (auto simp: VirtualFile_write_def vf_ok_def)

lemma VirtualFile_write_ok:
  assumes ok: "vf_ok vf" and len: "length src = unat sz" and fits: "unat sz \<le> vf_space vf"
  shows "\<exists>vf'. VirtualFile_write src sz vf = (Inr (), vf') \<and> vf_ok vf' \<and>
     mBufferSize vf' = mBufferSize vf \<and> mCursor vf' = mCursor vf + sz \<and>
     unat (mCursor vf') = unat (mCursor vf) + unat sz \<and>
     take (unat (mCursor vf')) (the (mBuffer vf')) = take (unat (mCursor vf)) (the (mBuffer vf)) @ src"
proof -
  from ok obtain buf where buf: "mBuffer vf = Some buf" "length buf = unat (mBufferSize vf)"
    "mCursor vf \<le> mBufferSize vf"
    by (auto simp: vf_ok_def)
  note f = vf_ok_fits [OF ok fits]
  have "vf_ok (vf\<lparr>mBuffer := Some (take (unat (mCursor vf)) buf @ src
                 @ drop (unat (mCursor vf) + unat sz) buf), mCursor := mCursor vf + sz\<rparr>)"
    using f buf len by (auto simp: vf_ok_def not_less)
  then show ?thesis
    using VirtualFile_write_fits [OF ok len fits buf(1)] f buf len by auto
qed

lemma VirtualFile_read_fits:
  assumes ok: "vf_ok vf" and fits: "unat sz \<le> vf_space vf" and buf: "mBuffer vf = Some buf"
  shows "VirtualFile_read sz vf =
     (Inr (take (unat sz) (drop (unat (mCursor vf)) buf)), vf\<lparr>mCursor := mCursor vf + sz\<rparr>)"
  using vf_ok_fits [OF ok fits] ok buf by (auto simp: VirtualFile_read_def vf_ok_def)

lemma VirtualFile_read_overflow:
  assumes ok: "vf_ok vf" and more: "vf_space vf < unat sz"
    and nowrap: "unat (mCursor vf) + unat sz < 2 ^ 64"
  shows "VirtualFile_read sz vf =
     (Inl (Gradido (BufferOverflow (mBufferSize vf) (mCursor vf + sz))), vf)"
proof -
  from nowrap have "unat (mCursor vf + sz) = unat (mCursor vf) + unat sz"
    by (simp add: unat_word_ariths)
  with ok more have "mCursor vf + sz > mBufferSize vf"
    by (auto simp: vf_ok_def vf_space_def word_less_nat_alt word_le_nat_alt)
  with ok show ?thesis by (auto simp: VirtualFile_read_def vf_ok_def)
qed

text \<open>A run of writes leaves the concatenation of what was written before the cursor.\<close>

fun VirtualFile_writes :: "bytes list \<Rightarrow> VirtualFile \<Rightarrow> unit result \<times> VirtualFile" where
  "VirtualFile_writes [] vf = (Inr (), vf)"
| "VirtualFile_writes (x # xs) vf =
     (case VirtualFile_write x (word_of_nat (length x)) vf of
        (Inl e, vf') \<Rightarrow> (Inl e, vf')
      | (Inr _, vf') \<Rightarrow> VirtualFile_writes xs vf')"

lemma VirtualFile_writes_append:
  "VirtualFile_writes (xs @ ys) vf =
     (case VirtualFile_writes xs vf of (Inl e, vf') \<Rightarrow> (Inl e, vf') | (Inr _, vf') \<Rightarrow> VirtualFile_writes ys vf')"
  by (induction xs arbitrary: vf) (auto split: prod.split sum.split)

lemma VirtualFile_writes_ok:
  assumes "vf_ok vf" and "length (concat xs) \<le> vf_space vf"
  shows "\<exists>vf'. VirtualFile_writes xs vf = (Inr (), vf') \<and> vf_ok vf' \<and>
     mBufferSize vf' = mBufferSize vf \<and>
     unat (mCursor vf') = unat (mCursor vf) + length (concat xs) \<and>
     take (unat (mCursor vf')) (the (mBuffer vf')) =
       take (unat (mCursor vf)) (the (mBuffer vf)) @ concat xs"
  using assms
proof (induction xs arbitrary: vf)
  case Nil
  then show ?case by auto
next
  case (Cons x xs)
  have "unat (mBufferSize vf) < 2 ^ 64"
    using unsigned_less [of "mBufferSize vf", where ?'a = nat] by simp
  with Cons.prems have len: "unat (word_of_nat (length x) :: u64) = length x"
    by (simp add: vf_space_def)
  with Cons.prems obtain vf1 where w: "VirtualFile_write x (word_of_nat (length x)) vf = (Inr (), vf1)"
      "vf_ok vf1" "mBufferSize vf1 = mBufferSize vf"
      "unat (mCursor vf1) = unat (mCursor vf) + length x"
      "take (unat (mCursor vf1)) (the (mBuffer vf1)) = take (unat (mCursor vf)) (the (mBuffer vf)) @ x"
    using VirtualFile_write_ok [of vf x "word_of_nat (length x)"] by auto
  from w Cons.prems have "length (concat xs) \<le> vf_space vf1"
    by (simp add: vf_space_def)
  from Cons.IH [OF w(2) this] w show ?case by auto
qed

text \<open>And a run of reads of the same sizes gives the pieces back.\<close>

fun VirtualFile_reads :: "nat list \<Rightarrow> VirtualFile \<Rightarrow> bytes list result \<times> VirtualFile" where
  "VirtualFile_reads [] vf = (Inr [], vf)"
| "VirtualFile_reads (n # ns) vf =
     (case VirtualFile_read (word_of_nat n) vf of
        (Inl e, vf') \<Rightarrow> (Inl e, vf')
      | (Inr x, vf') \<Rightarrow>
          (case VirtualFile_reads ns vf' of
             (Inl e, vf'') \<Rightarrow> (Inl e, vf'')
           | (Inr xs, vf'') \<Rightarrow> (Inr (x # xs), vf'')))"

lemma VirtualFile_reads_ok:
  assumes "vf_ok vf" and "mBuffer vf = Some buf"
    and "drop (unat (mCursor vf)) buf = concat xs @ rest"
  shows "\<exists>vf'. VirtualFile_reads (map length xs) vf = (Inr xs, vf') \<and> vf_ok vf' \<and>
     mBuffer vf' = Some buf \<and> drop (unat (mCursor vf')) buf = rest"
  using assms
proof (induction xs arbitrary: vf)
  case Nil
  then show ?case by auto
next
  case (Cons x xs)
  have size: "length buf = unat (mBufferSize vf)" "mCursor vf \<le> mBufferSize vf"
    using Cons.prems by (auto simp: vf_ok_def)
  have "unat (mBufferSize vf) < 2 ^ 64"
    using unsigned_less [of "mBufferSize vf", where ?'a = nat] by simp
  moreover have spc: "length x + length (concat xs @ rest) = vf_space vf"
    using Cons.prems(3) size
    by (metis append.assoc concat.simps(2) length_append length_drop vf_space_def)
  ultimately have len: "unat (word_of_nat (length x) :: u64) = length x"
    by (simp add: vf_space_def)
  with spc have fits: "unat (word_of_nat (length x) :: u64) \<le> vf_space vf" by simp
  let ?vf1 = "vf\<lparr>mCursor := mCursor vf + word_of_nat (length x)\<rparr>"
  note f = vf_ok_fits [OF Cons.prems(1) fits]
  have rd: "VirtualFile_read (word_of_nat (length x)) vf = (Inr x, ?vf1)"
    using VirtualFile_read_fits [OF Cons.prems(1) fits Cons.prems(2)] Cons.prems(3) len by simp
  have "vf_ok ?vf1" using Cons.prems(1,2) f by (auto simp: vf_ok_def not_less)
  moreover have "mBuffer ?vf1 = Some buf" using Cons.prems by simp
  moreover have "drop (unat (mCursor ?vf1)) buf = concat xs @ rest"
  proof -
    have "drop (unat (mCursor ?vf1)) buf = drop (length x) (drop (unat (mCursor vf)) buf)"
      using f(2) len by (simp add: add.commute)
    with Cons.prems(3) show ?thesis by simp
  qed
  ultimately obtain vf' where "VirtualFile_reads (map length xs) ?vf1 = (Inr xs, vf')" "vf_ok vf'"
      "mBuffer vf' = Some buf" "drop (unat (mCursor vf')) buf = rest"
    using Cons.IH by blast
  with rd show ?case by simp
qed

text \<open>The file of a buffer holds the bytes before the cursor, and the lock is free again.\<close>

lemma writeToFile_ok:
  assumes "vf_ok vf" and "\<not> held f (fs_locks fs)"
  shows "VirtualFile_writeToFile env f vf fs =
     (Inr (), \<lparr>fs_locks = (fs_locks fs)(f \<mapsto> False),
        fs_files = (fs_files fs)(f \<mapsto> take (unat (mCursor vf)) (the (mBuffer vf)))\<rparr>)"
  using assms tryLockTimeout_free [of f "fs_locks fs" 100 env]
  by (auto simp: VirtualFile_writeToFile_def vf_ok_def FileLockManager_unlock_def)

lemma readFromFile_ok:
  assumes "fs_files fs f = Some content" and "content \<noteq> []" and "\<not> held f (fs_locks fs)"
  shows "VirtualFile_readFromFile env f fs =
     (Inr (Some (VirtualFile_take (Some content) (word_of_nat (length content)))),
      fs\<lparr>fs_locks := (fs_locks fs)(f \<mapsto> False)\<rparr>)"
  using assms tryLockTimeout_free [of f "fs_locks fs" 100 env]
  by (auto simp: VirtualFile_readFromFile_def FileLockManager_unlock_def)

lemma readFromFile_empty:
  assumes "fs_files fs f = Some []" and "\<not> held f (fs_locks fs)"
  shows "VirtualFile_readFromFile env f fs =
     (Inr None, fs\<lparr>fs_locks := (fs_locks fs)(f \<mapsto> False)\<rparr>)"
  using assms tryLockTimeout_free [of f "fs_locks fs" 100 env]
  by (auto simp: VirtualFile_readFromFile_def FileLockManager_unlock_def)

lemma vf_ok_take: "length content < 2 ^ 64 \<Longrightarrow>
  vf_ok (VirtualFile_take (Some content) (word_of_nat (length content)))"
  by (simp add: vf_ok_def VirtualFile_take_def)

section \<open>A file of known content\<close>

text \<open>
  The buffer \<open>readFromFile\<close> returns for a content \<open>buf\<close>, with the cursor at \<open>k\<close>: reading from it is
  taking bytes from the list, so that parsers can be followed on lists of bytes.
\<close>

definition vf_view :: "bytes \<Rightarrow> nat \<Rightarrow> VirtualFile" where
  "vf_view buf k = \<lparr>mBuffer = Some buf, mBufferSize = word_of_nat (length buf), mCursor = word_of_nat k\<rparr>"

lemma vf_view_take: "VirtualFile_take (Some buf) (word_of_nat (length buf)) = vf_view buf 0"
  by (simp add: vf_view_def VirtualFile_take_def)

lemma vf_view_ok: "length buf < 2 ^ 64 \<Longrightarrow> k \<le> length buf \<Longrightarrow> vf_ok (vf_view buf k)"
  by (simp add: vf_ok_def vf_view_def word_le_nat_alt)

lemma vf_view_sizes:
  "mBufferSize (vf_view buf k) = word_of_nat (length buf)" "mCursor (vf_view buf k) = word_of_nat k"
  by (simp_all add: vf_view_def)

lemma vf_view_more:
  "length buf < 2 ^ 64 \<Longrightarrow> k \<le> length buf \<Longrightarrow>
   mCursor (vf_view buf k) < mBufferSize (vf_view buf k) \<longleftrightarrow> k < length buf"
  by (simp add: vf_view_def word_less_nat_alt)

lemma read_view:
  assumes "length buf < 2 ^ 64" and "k + n \<le> length buf" and "sz = word_of_nat n"
  shows "VirtualFile_read sz (vf_view buf k) = (Inr (take n (drop k buf)), vf_view buf (k + n))"
proof -
  have "n < 2 ^ 64" using assms by simp
  with assms VirtualFile_read_fits [OF vf_view_ok, of buf k sz buf] show ?thesis
    by (simp add: vf_view_def vf_space_def)
qed

lemma read_view_overflow:
  assumes "length buf < 2 ^ 64" and "k \<le> length buf" and "length buf < k + n" and "k + n < 2 ^ 64"
    and "sz = word_of_nat n"
  shows "VirtualFile_read sz (vf_view buf k) =
    (Inl (Gradido (BufferOverflow (word_of_nat (length buf)) (word_of_nat (k + n)))), vf_view buf k)"
proof -
  have "n < 2 ^ 64" using assms by simp
  with assms VirtualFile_read_overflow [OF vf_view_ok, of buf k sz] show ?thesis
    by (simp add: vf_view_def vf_space_def)
qed

text \<open>Whatever is read without an error moves the cursor by as much, inside the content.\<close>

lemma read_view_Inr:
  assumes "length buf < 2 ^ 64" and "k \<le> length buf"
    and "VirtualFile_read sz (vf_view buf k) = (Inr x, v)"
  shows "v = vf_view buf (k + unat sz) \<and> k + unat sz \<le> length buf"
  using assms by (auto simp: VirtualFile_read_def vf_view_def split: if_splits)

text \<open>Reading the next piece of a content that is known piece by piece.\<close>

lemma read_view_piece:
  assumes "length buf < 2 ^ 64" and "k \<le> length buf" and "drop k buf = x @ rest" and "length x = n"
  shows "VirtualFile_read (word_of_nat n) (vf_view buf k) = (Inr x, vf_view buf (k + n))"
    and "drop (k + n) buf = rest" and "k + n \<le> length buf"
proof -
  have "length (drop k buf) = length x + length rest" using assms(3) by simp
  with assms(2,4) show le: "k + n \<le> length buf" by simp
  show "VirtualFile_read (word_of_nat n) (vf_view buf k) = (Inr x, vf_view buf (k + n))"
    using read_view [OF assms(1) le refl] assms(3,4) by simp
  have "drop (k + n) buf = drop n (drop k buf)" by (simp add: add.commute)
  with assms(3,4) show "drop (k + n) buf = rest" by simp
qed

section \<open>Properties\<close>

text \<open>What a run of writes puts into a fresh buffer that is large enough is, after
  \<open>writeToFile\<close> and \<open>readFromFile\<close> under the file's lock, what reads of the same sizes give back,
  piece by piece, and the lock is free again.\<close>

theorem VirtualFile_file_roundtrip:
  assumes "unat n = length (concat xs)" and "concat xs \<noteq> []" and "\<not> held f (fs_locks fs)"
  shows "\<exists>vf fs' vf' vf'' fs''.
     VirtualFile_writes xs (VirtualFile_new junk n) = (Inr (), vf) \<and>
     VirtualFile_writeToFile env f vf fs = (Inr (), fs') \<and>
     VirtualFile_readFromFile env f fs' = (Inr (Some vf'), fs'') \<and>
     VirtualFile_reads (map length xs) vf' = (Inr xs, vf'') \<and>
     \<not> held f (fs_locks fs'')"
proof -
  have "vf_space (VirtualFile_new junk n) = unat n" by (simp add: vf_space_def)
  then obtain vf where w: "VirtualFile_writes xs (VirtualFile_new junk n) = (Inr (), vf)" "vf_ok vf"
      "take (unat (mCursor vf)) (the (mBuffer vf)) = concat xs"
    using VirtualFile_writes_ok [of "VirtualFile_new junk n" xs] assms(1)
    by auto
  let ?fs' = "\<lparr>fs_locks = (fs_locks fs)(f \<mapsto> False), fs_files = (fs_files fs)(f \<mapsto> concat xs)\<rparr>"
  let ?vf' = "VirtualFile_take (Some (concat xs)) (word_of_nat (length (concat xs)))"
  have wf: "VirtualFile_writeToFile env f vf fs = (Inr (), ?fs')"
    using writeToFile_ok [OF w(2) assms(3)] w(3) by simp
  have rf: "VirtualFile_readFromFile env f ?fs' =
      (Inr (Some ?vf'), ?fs'\<lparr>fs_locks := (fs_locks ?fs')(f \<mapsto> False)\<rparr>)"
    by (rule readFromFile_ok) (use assms in \<open>auto simp: held_def\<close>)
  have "length (concat xs) < 2 ^ 64"
    using assms(1) unsigned_less [of n, where ?'a = nat] by simp
  then have "vf_ok ?vf'" by (rule vf_ok_take)
  then obtain vf'' where "VirtualFile_reads (map length xs) ?vf' = (Inr xs, vf'')"
    using VirtualFile_reads_ok [of ?vf' "concat xs" xs "[]"] by (auto simp: VirtualFile_take_def)
  with w(1) wf rf show ?thesis by (auto simp: held_def)
qed

lemma VirtualFile_file_roundtrip_witness:
  "\<exists>vf fs' vf' vf'' fs''.
     VirtualFile_writes [[1, 2], [3]] (VirtualFile_new (\<lambda>_. 0) 3) = (Inr (), vf) \<and>
     VirtualFile_writeToFile (\<lambda>_ l. l) ''a'' vf \<lparr>fs_locks = Map.empty, fs_files = Map.empty\<rparr> = (Inr (), fs') \<and>
     VirtualFile_readFromFile (\<lambda>_ l. l) ''a'' fs' = (Inr (Some vf'), fs'') \<and>
     VirtualFile_reads (map length [[1, 2], [3 :: u8]]) vf' = (Inr [[1, 2], [3]], vf'') \<and>
     \<not> held ''a'' (fs_locks fs'')"
  by (rule VirtualFile_file_roundtrip [where junk = "\<lambda>_. 0"]) (simp_all add: held_def)

text \<open>A read or a write of a size that does not wrap around the cursor never leaves the buffer:
  it succeeds exactly when the bytes fit, and otherwise throws \<open>BufferOverflowException\<close> and
  changes nothing.\<close>

theorem VirtualFile_read_in_bounds:
  assumes "vf_ok vf" and "unat (mCursor vf) + unat sz < 2 ^ 64"
  shows "fst (VirtualFile_read sz vf) \<noteq> Inl UndefinedBehaviour \<and>
    (is_ok (fst (VirtualFile_read sz vf)) = (unat sz \<le> vf_space vf)) \<and>
    (if is_ok (fst (VirtualFile_read sz vf)) then vf_ok (snd (VirtualFile_read sz vf))
     else snd (VirtualFile_read sz vf) = vf)"
proof (cases "unat sz \<le> vf_space vf")
  case True
  from assms(1) obtain buf where "mBuffer vf = Some buf" by (auto simp: vf_ok_def)
  with VirtualFile_read_fits [OF assms(1) True] vf_ok_fits [OF assms(1) True] True assms(1)
  show ?thesis by (auto simp: vf_ok_def not_less)
next
  case False
  with VirtualFile_read_overflow [OF assms(1) _ assms(2)] show ?thesis by simp
qed

lemma VirtualFile_read_in_bounds_witness:
  "fst (VirtualFile_read 2 (VirtualFile_new (\<lambda>_. 7) 3)) \<noteq> Inl UndefinedBehaviour \<and>
    (is_ok (fst (VirtualFile_read 2 (VirtualFile_new (\<lambda>_. 7) 3))) =
       (unat (2 :: u64) \<le> vf_space (VirtualFile_new (\<lambda>_. 7) 3))) \<and>
    (if is_ok (fst (VirtualFile_read 2 (VirtualFile_new (\<lambda>_. 7) 3)))
     then vf_ok (snd (VirtualFile_read 2 (VirtualFile_new (\<lambda>_. 7) 3)))
     else snd (VirtualFile_read 2 (VirtualFile_new (\<lambda>_. 7) 3)) = VirtualFile_new (\<lambda>_. 7) 3)"
  by (rule VirtualFile_read_in_bounds) (simp_all add: VirtualFile_new_def vf_ok_def)

text \<open>Reading a file that does not exist is not reported as such: \<open>readFromFile\<close> returns a
  buffer whose pointer is null and whose size is the largest \<open>size_t\<close>, and the first read of it
  fails the assertion.\<close>

theorem VirtualFile_missing_file:
  assumes "fs_files fs f = None" and "\<not> held f (fs_locks fs)"
  shows "\<exists>vf fs'. VirtualFile_readFromFile env f fs = (Inr (Some vf), fs') \<and>
     mBufferSize vf = - 1 \<and> fst (VirtualFile_read sz vf) = Inl AssertFailed"
  using assms tryLockTimeout_free [of f "fs_locks fs" 100 env]
  by (auto simp: VirtualFile_readFromFile_def FileLockManager_unlock_def VirtualFile_take_def
      VirtualFile_read_def)

lemma VirtualFile_missing_file_witness:
  "\<exists>vf fs'. VirtualFile_readFromFile (\<lambda>_ l. l) ''a'' \<lparr>fs_locks = Map.empty, fs_files = Map.empty\<rparr>
       = (Inr (Some vf), fs') \<and>
     mBufferSize vf = - 1 \<and> fst (VirtualFile_read 1 vf) = Inl AssertFailed"
  by (rule VirtualFile_missing_file) (simp_all add: held_def)

text \<open>\<open>tryLockTimeout\<close> always returns; when it succeeds the flag was free just before and is set
  now, and while another thread keeps the flag it throws \<open>LockException\<close> and never reports
  success.\<close>

theorem FileLockManager_mutual_exclusion:
  "(case FileLockManager_tryLockTimeout env f n m of
      (Inr b, m') \<Rightarrow> b \<and> (\<exists>m0. \<not> held f m0 \<and> m' = m0(f \<mapsto> True))
    | (Inl e, m') \<Rightarrow> e = Gradido LockFailed) \<and>
   ((\<forall>i l. held f l \<longrightarrow> held f (env i l)) \<longrightarrow> held f m \<longrightarrow>
      fst (FileLockManager_tryLockTimeout env f n m) = Inl (Gradido LockFailed))"
proof -
  obtain b m' where r: "tryLock_rounds env f (nat n) m = (b, m')" by (cases "tryLock_rounds env f (nat n) m")
  have "b \<Longrightarrow> \<exists>m0. \<not> held f m0 \<and> m' = m0(f \<mapsto> True)"
    using tryLock_rounds_success [of env f "nat n" m m'] r by auto
  moreover have "(\<forall>i l. held f l \<longrightarrow> held f (env i l)) \<Longrightarrow> held f m \<Longrightarrow> \<not> b"
    using tryLock_rounds_held [of f env m "nat n"] r by auto
  ultimately show ?thesis
    by (auto simp: FileLockManager_tryLockTimeout_def r)
qed

lemma FileLockManager_mutual_exclusion_witness:
  "fst (FileLockManager_tryLockTimeout (\<lambda>_ l. l) ''a'' 2 [''a'' \<mapsto> True]) = Inl (Gradido LockFailed)"
  using FileLockManager_mutual_exclusion [where env = "\<lambda>_ l. l" and f = "''a''" and n = 2
      and m = "[''a'' \<mapsto> True]"]
  by (simp add: held_def)

end
