(* ===== verification/KeyValue.thy ===== *)
theory KeyValue
  imports Files
begin

text \<open>
  The key-value files of the node. \<open>LevelDBWrapper\<close> (\<open>src/model/files/LevelDBWrapper.cpp\<close>) opens,
  closes and resets a LevelDB folder and reads and writes single keys; \<open>cache::State\<close>
  (\<open>src/cache/State.cpp\<close>, locked by \<open>StateThreadSafe.h\<close>) keeps named numbers and texts in one.
  LevelDB itself is a parameter \<open>L\<close>; what its documentation promises is \<open>leveldb_laws L\<close>.
\<close>

named_theorems kv_simps \<open>behaviour of the key-value files under the laws of LevelDB\<close>

section \<open>LevelDB as a parameter\<close>

datatype leveldb_status = LDB_Ok | LDB_IOError | LDB_Other

text \<open>
  \<open>db_open n locked d\<close> is the status of \<open>leveldb::DB::Open\<close> on a folder with the content \<open>d\<close>, with
  \<open>n\<close> tries left, when this process already has the folder open (\<open>locked\<close>) or not.
  \<open>db_put\<close> gives \<open>None\<close> for a status that is not ok, \<open>db_entries\<close> for an iterator that ends with such
  a status.
\<close>

record 'db leveldb =
  db_open :: "nat \<Rightarrow> bool \<Rightarrow> 'db \<Rightarrow> leveldb_status"
  db_get :: "'db \<Rightarrow> string \<Rightarrow> string option"
  db_put :: "'db \<Rightarrow> string \<Rightarrow> string \<Rightarrow> 'db option"
  db_delete :: "'db \<Rightarrow> string \<Rightarrow> 'db"
  db_entries :: "'db \<Rightarrow> (string \<times> string) list option"
  db_empty :: "'db"

definition leveldb_laws :: "'db leveldb \<Rightarrow> bool" where
  "leveldb_laws L =
     ((\<forall>k. db_get L (db_empty L) k = None) \<and>
      (\<forall>d k v d' k'. db_put L d k v = Some d' \<longrightarrow>
          db_get L d' k' = (if k' = k then Some v else db_get L d k')) \<and>
      (\<forall>d k k'. db_get L (db_delete L d k) k' = (if k' = k then None else db_get L d k')) \<and>
      (\<forall>d es. db_entries L d = Some es \<longrightarrow> distinct (map fst es) \<and> map_of es = db_get L d) \<and>
      (\<forall>n d. db_open L n True d \<noteq> LDB_Ok))"

lemma leveldb_lawsD:
  assumes "leveldb_laws L"
  shows "db_get L (db_empty L) k = None"
    and "db_put L d k v = Some d' \<Longrightarrow> db_get L d' k' = (if k' = k then Some v else db_get L d k')"
    and "db_get L (db_delete L d k) k' = (if k' = k then None else db_get L d k')"
    and "db_entries L d = Some es \<Longrightarrow> distinct (map fst es)"
    and "db_entries L d = Some es \<Longrightarrow> map_of es = db_get L d"
    and "db_open L n True d \<noteq> LDB_Ok"
  using assms by (auto simp: leveldb_laws_def)

text \<open>A concrete LevelDB that keeps the laws: an association list that never fails.\<close>

definition alist_leveldb :: "((string \<times> string) list) leveldb" where
  "alist_leveldb = \<lparr>
     db_open = (\<lambda>_ locked _. if locked then LDB_IOError else LDB_Ok),
     db_get = map_of,
     db_put = (\<lambda>d k v. Some ((k, v) # filter (\<lambda>p. fst p \<noteq> k) d)),
     db_delete = (\<lambda>d k. filter (\<lambda>p. fst p \<noteq> k) d),
     db_entries = (\<lambda>d. if distinct (map fst d) then Some d else None),
     db_empty = []\<rparr>"

lemma map_of_filter_neq: "map_of (filter (\<lambda>p. fst p \<noteq> k) d) = (map_of d)(k := None)"
  by (induction d) (auto simp: fun_eq_iff)

lemma alist_leveldb_laws [simp]: "leveldb_laws alist_leveldb"
  by (auto simp: leveldb_laws_def alist_leveldb_def map_of_filter_neq split: if_splits)

section \<open>LevelDBWrapper\<close>

text \<open>
  \<open>disk\<close> is the content of the folder and \<open>folderLocked\<close> tells that a database object of this
  process has it open. The pointer \<open>mLevelDB\<close> is set or null: an \<open>Open\<close> that fails stores the null
  pointer, and an object it pointed to before stays open.
\<close>

record 'db LevelDBWrapper =
  mFolderName :: string
  block_cache :: "u64 option"
  mLevelDB :: bool
  folderLocked :: bool
  disk :: 'db

definition LevelDBWrapper_new :: "string \<Rightarrow> 'db \<Rightarrow> 'db LevelDBWrapper" where
  "LevelDBWrapper_new folderName d =
     \<lparr>mFolderName = folderName, block_cache = None, mLevelDB = False, folderLocked = False, disk = d\<rparr>"

text \<open>The retries of \<open>init\<close>, while the status is an IO error, at most 100.\<close>

fun LevelDBWrapper_init_loop :: "(nat \<Rightarrow> leveldb_status) \<Rightarrow> leveldb_status \<Rightarrow> nat \<Rightarrow> leveldb_status" where
  "LevelDBWrapper_init_loop openDb status 0 = status"
| "LevelDBWrapper_init_loop openDb status (Suc maxTry) =
     (if status = LDB_IOError then LevelDBWrapper_init_loop openDb (openDb maxTry) maxTry else status)"

definition LevelDBWrapper_init ::
    "'db leveldb \<Rightarrow> u64 \<Rightarrow> 'db LevelDBWrapper \<Rightarrow> bool \<times> 'db LevelDBWrapper" where
  "LevelDBWrapper_init L cacheInByte w =
     (let w1 = (if cacheInByte \<noteq> 0 then w\<lparr>block_cache := Some cacheInByte\<rparr> else w);
          openDb = (\<lambda>n. db_open L n (folderLocked w) (disk w));
          status = LevelDBWrapper_init_loop openDb (openDb 100) 100
      in (status = LDB_Ok,
          w1\<lparr>mLevelDB := (status = LDB_Ok), folderLocked := (folderLocked w \<or> status = LDB_Ok)\<rparr>))"

definition LevelDBWrapper_exit :: "'db LevelDBWrapper \<Rightarrow> 'db LevelDBWrapper" where
  "LevelDBWrapper_exit w =
     (if mLevelDB w then w\<lparr>mLevelDB := False, folderLocked := False, block_cache := None\<rparr> else w)"

definition LevelDBWrapper_reset :: "'db leveldb \<Rightarrow> 'db LevelDBWrapper \<Rightarrow> 'db LevelDBWrapper" where
  "LevelDBWrapper_reset L w =
     snd (LevelDBWrapper_init L 0 ((LevelDBWrapper_exit w)\<lparr>disk := db_empty L\<rparr>))"

text \<open>A key is a C string: it ends at the first null character.\<close>

definition c_str :: "string \<Rightarrow> string" where
  "c_str s = takeWhile (\<lambda>c. c \<noteq> CHR 0x00) s"

definition LevelDBWrapper_getValueForKey ::
    "'db leveldb \<Rightarrow> string \<Rightarrow> 'db LevelDBWrapper \<Rightarrow> string option result" where
  "LevelDBWrapper_getValueForKey L key w =
     (if \<not> mLevelDB w then Inl UndefinedBehaviour else Inr (db_get L (disk w) (c_str key)))"

definition LevelDBWrapper_setKeyValue ::
    "'db leveldb \<Rightarrow> string \<Rightarrow> string \<Rightarrow> 'db LevelDBWrapper \<Rightarrow> unit result \<times> 'db LevelDBWrapper" where
  "LevelDBWrapper_setKeyValue L key value w =
     (if \<not> mLevelDB w then (Inl UndefinedBehaviour, w)
      else case db_put L (disk w) (c_str key) value of
          None \<Rightarrow> (Inl (Gradido LevelDBStatus), w)
        | Some d \<Rightarrow> (Inr (), w\<lparr>disk := d\<rparr>))"

definition LevelDBWrapper_removeKey ::
    "'db leveldb \<Rightarrow> string \<Rightarrow> 'db LevelDBWrapper \<Rightarrow> unit result \<times> 'db LevelDBWrapper" where
  "LevelDBWrapper_removeKey L key w =
     (if \<not> mLevelDB w then (Inl UndefinedBehaviour, w)
      else (Inr (), w\<lparr>disk := db_delete L (disk w) (c_str key)\<rparr>))"

text \<open>
  \<open>iterate\<close> runs a callback that changes the caller's state on every entry in the order of the
  file; an exception of the callback ends it.
\<close>

fun iterate_entries :: "(string \<Rightarrow> string \<Rightarrow> 's \<Rightarrow> unit result \<times> 's) \<Rightarrow> (string \<times> string) list \<Rightarrow> 's
    \<Rightarrow> unit result \<times> 's" where
  "iterate_entries callback [] s = (Inr (), s)"
| "iterate_entries callback ((k, v) # es) s =
     (case callback k v s of
        (Inl e, s') \<Rightarrow> (Inl e, s')
      | (Inr _, s') \<Rightarrow> iterate_entries callback es s')"

definition LevelDBWrapper_iterate ::
    "'db leveldb \<Rightarrow> (string \<Rightarrow> string \<Rightarrow> 's \<Rightarrow> unit result \<times> 's) \<Rightarrow> 'db LevelDBWrapper \<Rightarrow> 's
       \<Rightarrow> unit result \<times> 's" where
  "LevelDBWrapper_iterate L callback w s =
     (if \<not> mLevelDB w then (Inl UndefinedBehaviour, s)
      else case db_entries L (disk w) of
          None \<Rightarrow> (Inl (Gradido LevelDBStatus), s)
        | Some es \<Rightarrow> iterate_entries callback es s)"

subsection \<open>Opening\<close>

lemma init_loop_not_ioerror:
  "status \<noteq> LDB_IOError \<Longrightarrow> LevelDBWrapper_init_loop openDb status n = status"
  by (cases n) simp_all

lemma init_loop_ok_iff:
  "LevelDBWrapper_init_loop openDb (openDb n) n = LDB_Ok \<longleftrightarrow>
   (\<exists>i\<le>n. openDb i = LDB_Ok \<and> (\<forall>j\<le>n. i < j \<longrightarrow> openDb j = LDB_IOError))"
proof (induction n)
  case 0
  show ?case by simp
next
  case (Suc n)
  show ?case
  proof (cases "openDb (Suc n) = LDB_IOError")
    case True
    have "(\<exists>i\<le>Suc n. openDb i = LDB_Ok \<and> (\<forall>j\<le>Suc n. i < j \<longrightarrow> openDb j = LDB_IOError)) \<longleftrightarrow>
        (\<exists>i\<le>n. openDb i = LDB_Ok \<and> (\<forall>j\<le>n. i < j \<longrightarrow> openDb j = LDB_IOError))"
      using True by (metis le_Suc_eq leveldb_status.distinct(1) nle_le le_SucI)
    with Suc True show ?thesis by simp
  next
    case False
    then show ?thesis by (auto simp: le_Suc_eq) 
  qed
qed

lemma init_locked [kv_simps]:
  "leveldb_laws L \<Longrightarrow> folderLocked w \<Longrightarrow> fst (LevelDBWrapper_init L n w) = False"
  using init_loop_ok_iff [of "\<lambda>n. db_open L n True (disk w)" 100]
  by (auto simp: LevelDBWrapper_init_def leveldb_lawsD(6))

text \<open>A handle that is set belongs to a folder that is open.\<close>

definition wrapper_ok :: "'db LevelDBWrapper \<Rightarrow> bool" where
  "wrapper_ok w = (mLevelDB w \<longrightarrow> folderLocked w)"

lemma LevelDBWrapper_new_simps [simp]:
  "disk (LevelDBWrapper_new f d) = d" "mLevelDB (LevelDBWrapper_new f d) = False"
  by (simp_all add: LevelDBWrapper_new_def)

lemma wrapper_ok_new [simp]: "wrapper_ok (LevelDBWrapper_new f d)"
  by (simp add: wrapper_ok_def LevelDBWrapper_new_def)

lemma wrapper_ok_init [simp]: "wrapper_ok (snd (LevelDBWrapper_init L n w))"
  by (auto simp: wrapper_ok_def LevelDBWrapper_init_def Let_def)

lemma wrapper_ok_exit [simp]: "wrapper_ok w \<Longrightarrow> wrapper_ok (LevelDBWrapper_exit w)"
  by (simp add: wrapper_ok_def LevelDBWrapper_exit_def)

lemma wrapper_ok_reset [simp]: "wrapper_ok (LevelDBWrapper_reset L w)"
  by (simp add: LevelDBWrapper_reset_def)

lemma init_disk [simp]: "disk (snd (LevelDBWrapper_init L n w)) = disk w"
  by (simp add: LevelDBWrapper_init_def Let_def)

lemma init_handle [simp]: "mLevelDB (snd (LevelDBWrapper_init L n w)) = fst (LevelDBWrapper_init L n w)"
  by (simp add: LevelDBWrapper_init_def Let_def)

lemma exit_disk [simp]: "disk (LevelDBWrapper_exit w) = disk w"
  "mLevelDB (LevelDBWrapper_exit w) = False"
  by (simp_all add: LevelDBWrapper_exit_def)

lemma reset_disk [simp]: "disk (LevelDBWrapper_reset L w) = db_empty L"
  by (simp add: LevelDBWrapper_reset_def)

lemma iterate_open:
  "mLevelDB w \<Longrightarrow> db_entries L (disk w) = Some es \<Longrightarrow>
   LevelDBWrapper_iterate L cb w s = iterate_entries cb es s"
  by (simp add: LevelDBWrapper_iterate_def)

lemma iterate_entries_total:
  "(\<And>k v s. callback k v s = (Inr (), f k v s)) \<Longrightarrow>
   iterate_entries callback es s = (Inr (), fold (\<lambda>(k, v). f k v) es s)"
  by (induction es arbitrary: s) auto

lemma c_str_no_nul [simp]: "CHR 0x00 \<notin> set s \<Longrightarrow> c_str s = s"
  by (auto simp: c_str_def takeWhile_eq_all_conv)

lemma nul_to_string [simp]: "CHR 0x00 \<notin> set (to_string n)"
proof
  assume "CHR 0x00 \<in> set (to_string n)"
  then have "is_digit (CHR 0x00)" using to_string_all_digits [of n] by (simp add: list_all_iff)
  then show False by (simp add: is_digit_def)
qed

section \<open>The interface of a key-value store\<close>

text \<open>
  What the clients of \<open>LevelDBWrapper\<close> and \<open>State\<close> rely on. Keys with the same \<open>canon\<close> name the same
  entry; an operation that fails leaves every entry.
\<close>

locale key_value_store =
  fixes ok :: "'s \<Rightarrow> bool"
    and canon :: "string \<Rightarrow> string"
    and lookup :: "'s \<Rightarrow> string \<Rightarrow> string option"
    and put :: "string \<Rightarrow> string \<Rightarrow> 's \<Rightarrow> unit result \<times> 's"
    and remove :: "string \<Rightarrow> 's \<Rightarrow> unit result \<times> 's"
  assumes put_ok: "ok s \<Longrightarrow> put k v s = (Inr (), s') \<Longrightarrow>
      lookup s' k' = (if canon k' = canon k then Some v else lookup s k')"
    and put_error: "ok s \<Longrightarrow> put k v s = (Inl e, s') \<Longrightarrow> lookup s' k' = lookup s k'"
    and put_keeps: "ok s \<Longrightarrow> ok (snd (put k v s))"
    and remove_ok: "ok s \<Longrightarrow> remove k s = (Inr (), s') \<Longrightarrow>
      lookup s' k' = (if canon k' = canon k then None else lookup s k')"
    and remove_error: "ok s \<Longrightarrow> remove k s = (Inl e, s') \<Longrightarrow> lookup s' k' = lookup s k'"
    and remove_keeps: "ok s \<Longrightarrow> ok (snd (remove k s))"
begin

text \<open>An operation of a run: a value to put, or \<open>None\<close> to remove.\<close>

definition step :: "string \<times> string option \<Rightarrow> 's \<Rightarrow> unit result \<times> 's" where
  "step kv s = (case snd kv of Some v \<Rightarrow> put (fst kv) v s | None \<Rightarrow> remove (fst kv) s)"

fun run :: "(string \<times> string option) list \<Rightarrow> 's \<Rightarrow> (bool list) \<times> 's" where
  "run [] s = ([], s)"
| "run (x # xs) s = (case step x s of (r, s1) \<Rightarrow> case run xs s1 of (rs, s2) \<Rightarrow> (is_ok r # rs, s2))"

lemma step_ok: "ok s \<Longrightarrow> ok (snd (step x s))"
  by (auto simp: step_def put_keeps remove_keeps split: option.split)

lemma step_lookup:
  assumes "ok s"
  shows "lookup (snd (step (k, x) s)) k' =
     (if is_ok (fst (step (k, x) s)) \<and> canon k' = canon k then x else lookup s k')"
proof (cases "step (k, x) s")
  case (Pair r s')
  show ?thesis
  proof (cases r)
    case (Inl e)
    with Pair assms show ?thesis
      by (cases x) (simp_all add: step_def put_error remove_error)
  next
    case (Inr u)
    with Pair assms show ?thesis
      by (cases x) (simp_all add: step_def put_ok remove_ok)
  qed
qed

text \<open>After a run, a key has the value of the last operation on it that succeeded.\<close>

definition last_write :: "bool list \<Rightarrow> (string \<times> string option) list \<Rightarrow> string \<Rightarrow> string option \<Rightarrow> string option" where
  "last_write rs xs k old =
     fold (\<lambda>(r, (k', x)) acc. if r \<and> canon k = canon k' then x else acc) (zip rs xs) old"

lemma run_lookup:
  "ok s \<Longrightarrow> run xs s = (rs, s') \<Longrightarrow> lookup s' k = last_write rs xs k (lookup s k) \<and> ok s'"
proof (induction xs arbitrary: s rs s')
  case Nil
  then show ?case by (simp add: last_write_def)
next
  case (Cons x xs)
  obtain k1 v1 where x: "x = (k1, v1)" by (cases x)
  obtain r s1 where st: "step x s = (r, s1)" by (cases "step x s")
  obtain rs1 s2 where rn: "run xs s1 = (rs1, s2)" by (cases "run xs s1")
  from Cons.prems st rn have eq: "rs = is_ok r # rs1" "s' = s2" by simp_all
  have ok1: "ok s1" using step_ok [OF Cons.prems(1), of x] st by simp
  from Cons.IH [OF ok1 rn] have ih: "lookup s2 k = last_write rs1 xs k (lookup s1 k)" "ok s2" by simp_all
  from step_lookup [OF Cons.prems(1), of k1 v1 k] st x
  have "lookup s1 k = (if is_ok r \<and> canon k = canon k1 then v1 else lookup s k)" by simp
  with ih eq x show ?case by (simp add: last_write_def)
qed

end

definition wrapper_lookup :: "'db leveldb \<times> 'db LevelDBWrapper \<Rightarrow> string \<Rightarrow> string option" where
  "wrapper_lookup s k = db_get (fst s) (disk (snd s)) (c_str k)"

interpretation wrapper_kv: key_value_store
  "\<lambda>(L, w). leveldb_laws L" c_str wrapper_lookup
  "\<lambda>k v (L, w). map_prod id (Pair L) (LevelDBWrapper_setKeyValue L k v w)"
  "\<lambda>k (L, w). map_prod id (Pair L) (LevelDBWrapper_removeKey L k w)"
  by unfold_locales
    (auto simp: LevelDBWrapper_setKeyValue_def LevelDBWrapper_removeKey_def wrapper_lookup_def
      leveldb_lawsD split: if_splits option.splits)

section \<open>State\<close>

datatype DefaultStateKeys = LAST_ADDRESS_INDEX | LAST_BLOCK_NR | LAST_TRANSACTION_ID
  | LAST_HIERO_TOPIC_SEQUENCE_NUMBER | LAST_HIERO_TOPIC_ID | DefaultStateKeys_MAX

fun enum_name :: "DefaultStateKeys \<Rightarrow> string" where
  "enum_name LAST_ADDRESS_INDEX = ''LAST_ADDRESS_INDEX''"
| "enum_name LAST_BLOCK_NR = ''LAST_BLOCK_NR''"
| "enum_name LAST_TRANSACTION_ID = ''LAST_TRANSACTION_ID''"
| "enum_name LAST_HIERO_TOPIC_SEQUENCE_NUMBER = ''LAST_HIERO_TOPIC_SEQUENCE_NUMBER''"
| "enum_name LAST_HIERO_TOPIC_ID = ''LAST_HIERO_TOPIC_ID''"
| "enum_name DefaultStateKeys_MAX = ''MAX''"

lemma enum_name_inject: "enum_name a = enum_name b \<longleftrightarrow> a = b"
  by (cases a; cases b) simp_all

lemma enum_name_c_str [simp]: "c_str (enum_name a) = enum_name a"
  by (cases a) simp_all

record 'db State =
  mInitalized_State :: bool
  mStateFile :: "'db LevelDBWrapper"

definition State_new :: "string \<Rightarrow> 'db \<Rightarrow> 'db State" where
  "State_new folder d = \<lparr>mInitalized_State = False, mStateFile = LevelDBWrapper_new folder d\<rparr>"

definition State_init :: "'db leveldb \<Rightarrow> u64 \<Rightarrow> 'db State \<Rightarrow> bool result \<times> 'db State" where
  "State_init L cacheInBytes st =
     (if mInitalized_State st then (Inl (Gradido ClassAlreadyInitalized), st)
      else case LevelDBWrapper_init L cacheInBytes (mStateFile st) of
          (False, w) \<Rightarrow> (Inr False, st\<lparr>mStateFile := w\<rparr>)
        | (True, w) \<Rightarrow> (Inr True, st\<lparr>mInitalized_State := True, mStateFile := w\<rparr>))"

definition State_exit :: "'db State \<Rightarrow> 'db State" where
  "State_exit st = st\<lparr>mInitalized_State := False, mStateFile := LevelDBWrapper_exit (mStateFile st)\<rparr>"

definition State_reset :: "'db leveldb \<Rightarrow> 'db State \<Rightarrow> 'db State" where
  "State_reset L st = st\<lparr>mStateFile := LevelDBWrapper_reset L (mStateFile st)\<rparr>"

definition State_updateState ::
    "'db leveldb \<Rightarrow> string \<Rightarrow> string \<Rightarrow> 'db State \<Rightarrow> unit result \<times> 'db State" where
  "State_updateState L key value st =
     (if \<not> mInitalized_State st then (Inl (Gradido ClassNotInitalized), st)
      else case LevelDBWrapper_setKeyValue L key value (mStateFile st) of
          (r, w) \<Rightarrow> (r, st\<lparr>mStateFile := w\<rparr>))"

definition State_updateState_int32 ::
    "'db leveldb \<Rightarrow> string \<Rightarrow> u32 \<Rightarrow> 'db State \<Rightarrow> unit result \<times> 'db State" where
  "State_updateState_int32 L key value st =
     (if \<not> mInitalized_State st then (Inl (Gradido ClassNotInitalized), st)
      else case LevelDBWrapper_setKeyValue L key (to_string_int (sint value)) (mStateFile st) of
          (r, w) \<Rightarrow> (r, st\<lparr>mStateFile := w\<rparr>))"

definition State_updateState_uint32 ::
    "'db leveldb \<Rightarrow> string \<Rightarrow> u32 \<Rightarrow> 'db State \<Rightarrow> unit result \<times> 'db State" where
  "State_updateState_uint32 L key value st =
     (if \<not> mInitalized_State st then (Inl (Gradido ClassNotInitalized), st)
      else case LevelDBWrapper_setKeyValue L key (to_string (unat value)) (mStateFile st) of
          (r, w) \<Rightarrow> (r, st\<lparr>mStateFile := w\<rparr>))"

definition State_updateState_int64 ::
    "'db leveldb \<Rightarrow> string \<Rightarrow> u64 \<Rightarrow> 'db State \<Rightarrow> unit result \<times> 'db State" where
  "State_updateState_int64 L key value st =
     (if \<not> mInitalized_State st then (Inl (Gradido ClassNotInitalized), st)
      else case LevelDBWrapper_setKeyValue L key (to_string_int (sint value)) (mStateFile st) of
          (r, w) \<Rightarrow> (r, st\<lparr>mStateFile := w\<rparr>))"

definition State_updateState_uint64 ::
    "'db leveldb \<Rightarrow> string \<Rightarrow> u64 \<Rightarrow> 'db State \<Rightarrow> unit result \<times> 'db State" where
  "State_updateState_uint64 L key value st =
     (if \<not> mInitalized_State st then (Inl (Gradido ClassNotInitalized), st)
      else case LevelDBWrapper_setKeyValue L key (to_string (unat value)) (mStateFile st) of
          (r, w) \<Rightarrow> (r, st\<lparr>mStateFile := w\<rparr>))"

definition State_removeState :: "'db leveldb \<Rightarrow> string \<Rightarrow> 'db State \<Rightarrow> unit result \<times> 'db State" where
  "State_removeState L key st =
     (if mInitalized_State st then
        (case LevelDBWrapper_removeKey L key (mStateFile st) of (r, w) \<Rightarrow> (r, st\<lparr>mStateFile := w\<rparr>))
      else (Inr (), st))"

definition State_readState :: "'db leveldb \<Rightarrow> string \<Rightarrow> string \<Rightarrow> 'db State \<Rightarrow> string result" where
  "State_readState L key defaultValue st =
     (if \<not> mInitalized_State st then Inr defaultValue
      else case LevelDBWrapper_getValueForKey L key (mStateFile st) of
          Inl e \<Rightarrow> Inl e
        | Inr (Some tmp) \<Rightarrow> Inr tmp
        | Inr None \<Rightarrow> Inr defaultValue)"

definition State_readInt32State :: "'db leveldb \<Rightarrow> string \<Rightarrow> u32 \<Rightarrow> 'db State \<Rightarrow> u32 result" where
  "State_readInt32State L key defaultValue st =
     (if \<not> mInitalized_State st then Inr defaultValue
      else case LevelDBWrapper_getValueForKey L key (mStateFile st) of
          Inl e \<Rightarrow> Inl e
        | Inr (Some tmp) \<Rightarrow> map_sum id word_of_int (atoi tmp)
        | Inr None \<Rightarrow> Inr defaultValue)"

definition State_readInt64State :: "'db leveldb \<Rightarrow> string \<Rightarrow> u64 \<Rightarrow> 'db State \<Rightarrow> u64 result" where
  "State_readInt64State L key defaultValue st =
     (if \<not> mInitalized_State st then Inr defaultValue
      else case LevelDBWrapper_getValueForKey L key (mStateFile st) of
          Inl e \<Rightarrow> Inl e
        | Inr (Some tmp) \<Rightarrow> Inr (word_of_int (strtoll tmp))
        | Inr None \<Rightarrow> Inr defaultValue)"

text \<open>An initialised state has an open file; nothing else is asked of it.\<close>

definition State_ok :: "'db State \<Rightarrow> bool" where
  "State_ok st = (wrapper_ok (mStateFile st) \<and> (mInitalized_State st \<longrightarrow> mLevelDB (mStateFile st)))"

definition State_lookup :: "'db leveldb \<times> 'db State \<Rightarrow> string \<Rightarrow> string option" where
  "State_lookup s k = wrapper_lookup (fst s, mStateFile (snd s)) k"

lemma State_ok_new [simp]: "State_ok (State_new f d)"
  by (simp add: State_ok_def State_new_def)

lemma State_ok_init: "State_ok st \<Longrightarrow> State_ok (snd (State_init L n st))"
  using wrapper_ok_init [of L n "mStateFile st"] init_handle [of L n "mStateFile st"]
  by (cases "LevelDBWrapper_init L n (mStateFile st)")
    (auto simp: State_init_def State_ok_def split: bool.split)

lemma State_ok_exit: "State_ok st \<Longrightarrow> State_ok (State_exit st)"
  by (simp add: State_ok_def State_exit_def)

lemma State_ok_update: "State_ok st \<Longrightarrow> State_ok (snd (State_updateState L k v st))"
  by (auto simp: State_updateState_def State_ok_def wrapper_ok_def LevelDBWrapper_setKeyValue_def
      split: option.split)

lemma State_ok_remove: "State_ok st \<Longrightarrow> State_ok (snd (State_removeState L k st))"
  by (auto simp: State_removeState_def State_ok_def wrapper_ok_def LevelDBWrapper_removeKey_def)

interpretation state_kv: key_value_store
  "\<lambda>(L, st). leveldb_laws L \<and> State_ok st \<and> mInitalized_State st" c_str State_lookup
  "\<lambda>k v (L, st). map_prod id (Pair L) (State_updateState L k v st)"
  "\<lambda>k (L, st). map_prod id (Pair L) (State_removeState L k st)"
proof unfold_locales
  fix s :: "'a leveldb \<times> 'a State" and k v e s' k'
  assume *: "case s of (L, st) \<Rightarrow> leveldb_laws L \<and> State_ok st \<and> mInitalized_State st"
  show "(case s of (L, st) \<Rightarrow> map_prod id (Pair L) (State_updateState L k v st)) = (Inr (), s') \<Longrightarrow>
      State_lookup s' k' = (if c_str k' = c_str k then Some v else State_lookup s k')"
    using * by (auto simp: State_updateState_def State_lookup_def wrapper_lookup_def
        LevelDBWrapper_setKeyValue_def leveldb_lawsD split: if_splits option.splits)
  show "(case s of (L, st) \<Rightarrow> map_prod id (Pair L) (State_updateState L k v st)) = (Inl e, s') \<Longrightarrow>
      State_lookup s' k' = State_lookup s k'"
    using * by (auto simp: State_updateState_def State_lookup_def wrapper_lookup_def
        LevelDBWrapper_setKeyValue_def split: if_splits option.splits)
  show "(case s of (L, st) \<Rightarrow> map_prod id (Pair L) (State_removeState L k st)) = (Inr (), s') \<Longrightarrow>
      State_lookup s' k' = (if c_str k' = c_str k then None else State_lookup s k')"
    using * by (auto simp: State_removeState_def State_lookup_def wrapper_lookup_def
        LevelDBWrapper_removeKey_def leveldb_lawsD State_ok_def split: if_splits)
  show "(case s of (L, st) \<Rightarrow> map_prod id (Pair L) (State_removeState L k st)) = (Inl e, s') \<Longrightarrow>
      State_lookup s' k' = State_lookup s k'"
    using * by (auto simp: State_removeState_def State_lookup_def wrapper_lookup_def
        LevelDBWrapper_removeKey_def split: if_splits)
  show "case snd (case s of (L, st) \<Rightarrow> map_prod id (Pair L) (State_updateState L k v st)) of
      (L, st) \<Rightarrow> leveldb_laws L \<and> State_ok st \<and> mInitalized_State st"
    using * State_ok_update [of "snd s" "fst s" k v]
    by (auto simp: State_updateState_def split: prod.splits)
  show "case snd (case s of (L, st) \<Rightarrow> map_prod id (Pair L) (State_removeState L k st)) of
      (L, st) \<Rightarrow> leveldb_laws L \<and> State_ok st \<and> mInitalized_State st"
    using * State_ok_remove [of "snd s" "fst s" k]
    by (auto simp: State_removeState_def split: prod.splits)
qed

lemma readState_lookup [kv_simps]:
  "State_ok st \<Longrightarrow> mInitalized_State st \<Longrightarrow>
   State_readState L k d st = Inr (case State_lookup (L, st) k of None \<Rightarrow> d | Some v \<Rightarrow> v)"
  by (auto simp: State_readState_def LevelDBWrapper_getValueForKey_def State_lookup_def
      wrapper_lookup_def State_ok_def split: option.split)

lemma readInt32_lookup [kv_simps]:
  "State_ok st \<Longrightarrow> mInitalized_State st \<Longrightarrow>
   State_readInt32State L k d st =
     (case State_lookup (L, st) k of None \<Rightarrow> Inr d | Some v \<Rightarrow> map_sum id word_of_int (atoi v))"
  by (auto simp: State_readInt32State_def LevelDBWrapper_getValueForKey_def State_lookup_def
      wrapper_lookup_def State_ok_def split: option.split)

lemma readInt64_lookup [kv_simps]:
  "State_ok st \<Longrightarrow> mInitalized_State st \<Longrightarrow>
   State_readInt64State L k d st =
     (case State_lookup (L, st) k of None \<Rightarrow> Inr d | Some v \<Rightarrow> Inr (word_of_int (strtoll v)))"
  by (auto simp: State_readInt64State_def LevelDBWrapper_getValueForKey_def State_lookup_def
      wrapper_lookup_def State_ok_def split: option.split)

text \<open>The typed updates are updates with the printed number.\<close>

lemma typed_updates:
  "State_updateState_int32 L k i st = State_updateState L k (to_string_int (sint i)) st"
  "State_updateState_uint32 L k i st = State_updateState L k (to_string (unat i)) st"
  "State_updateState_int64 L k j st = State_updateState L k (to_string_int (sint j)) st"
  "State_updateState_uint64 L k j st = State_updateState L k (to_string (unat j)) st"
  by (simp_all add: State_updateState_int32_def State_updateState_uint32_def
      State_updateState_int64_def State_updateState_uint64_def State_updateState_def)

lemma update_lookup:
  assumes "leveldb_laws L" and "State_ok st" and "State_updateState L k v st = (Inr (), st')"
  shows "mInitalized_State st" "mInitalized_State st'" "State_ok st'"
    "State_lookup (L, st') k' = (if c_str k' = c_str k then Some v else State_lookup (L, st) k')"
proof -
  show init: "mInitalized_State st" "mInitalized_State st'"
    using assms(3) by (auto simp: State_updateState_def split: if_splits prod.splits)
  show "State_ok st'" using State_ok_update [OF assms(2), of L k v] assms(3) by simp
  show "State_lookup (L, st') k' = (if c_str k' = c_str k then Some v else State_lookup (L, st) k')"
    using state_kv.put_ok [of "(L, st)" k v "(L, st')" k'] assms init by simp
qed

section \<open>Numbers in a state\<close>

lemma not_space_minus [simp]: "\<not> is_space (CHR ''-'')"
  by (simp add: is_space_def)

lemma split_sign_to_string_neg [simp]:
  "split_sign (CHR ''-'' # to_string n) = (True, to_string n)"
  by (simp add: split_sign_def)

lemma atoi_to_string_int:
  "- (2 ^ 31) \<le> i \<Longrightarrow> i < 2 ^ 31 \<Longrightarrow> atoi (to_string_int i) = Inr i"
  by (cases "i < 0") (simp_all add: to_string_int_def atoi_def)

lemma strtoll_to_string_int:
  "- (2 ^ 63) \<le> i \<Longrightarrow> i < 2 ^ 63 \<Longrightarrow> strtoll (to_string_int i) = i"
  by (cases "i < 0") (simp_all add: to_string_int_def strtoll_def)

lemma sint_range_words:
  "- (2 ^ 31) \<le> sint (i :: u32)" "sint i < 2 ^ 31" "- (2 ^ 63) \<le> sint (j :: u64)" "sint j < 2 ^ 63"
  using sint_greater_eq [of i] sint_less [of i] sint_greater_eq [of j] sint_less [of j] by simp_all

lemma parse_printed_words [simp]:
  "atoi (to_string_int (sint (i :: u32))) = Inr (sint i)"
  "strtoll (to_string_int (sint (j :: u64))) = sint j"
  by (rule atoi_to_string_int strtoll_to_string_int; rule sint_range_words)+

section \<open>Properties\<close>

text \<open>What is written to an initialised state is what is read back, whatever the default: a
  text, an \<open>int32\<close>, an \<open>int64\<close>, an \<open>uint64\<close> below 2^63 and an \<open>uint32\<close> below 2^31, each printed in
  decimal and parsed again; and the values of all other keys stay.\<close>

theorem State_numbers_roundtrip:
  assumes "leveldb_laws L" and "State_ok st"
  shows "(\<forall>v st'. State_updateState L k v st = (Inr (), st') \<longrightarrow>
      (\<forall>d. State_readState L k d st' = Inr v) \<and>
      (\<forall>k' d. c_str k' \<noteq> c_str k \<longrightarrow> State_readState L k' d st' = State_readState L k' d st)) \<and>
    (\<forall>i st'. State_updateState_int32 L k i st = (Inr (), st') \<longrightarrow>
      (\<forall>d. State_readInt32State L k d st' = Inr i)) \<and>
    (\<forall>i st'. State_updateState_uint32 L k i st = (Inr (), st') \<longrightarrow> unat i < 2 ^ 31 \<longrightarrow>
      (\<forall>d. State_readInt32State L k d st' = Inr i)) \<and>
    (\<forall>j st'. State_updateState_int64 L k j st = (Inr (), st') \<longrightarrow>
      (\<forall>d. State_readInt64State L k d st' = Inr j)) \<and>
    (\<forall>j st'. State_updateState_uint64 L k j st = (Inr (), st') \<longrightarrow> unat j < 2 ^ 63 \<longrightarrow>
      (\<forall>d. State_readInt64State L k d st' = Inr j))"
  using update_lookup [OF assms] assms(2)
  by (auto simp: typed_updates kv_simps atoi_to_string strtoll_to_string)

lemma State_numbers_roundtrip_witness:
  "\<exists>st'. State_updateState_int32 alist_leveldb ''a'' (- 5) (snd (State_init alist_leveldb 0 (State_new ''f'' [])))
      = (Inr (), st') \<and> State_readInt32State alist_leveldb ''a'' 7 st' = Inr (- 5)"
proof -
  let ?st = "snd (State_init alist_leveldb 0 (State_new ''f'' []))"
  have "State_ok ?st" by (rule State_ok_init) simp
  note rt = State_numbers_roundtrip [OF alist_leveldb_laws this, of "''a''"]
  have "fst (State_updateState_int32 alist_leveldb ''a'' (- 5) ?st) = Inr ()"
    by (simp add: State_updateState_int32_def State_init_def State_new_def LevelDBWrapper_init_def
        LevelDBWrapper_new_def alist_leveldb_def init_loop_not_ioerror LevelDBWrapper_setKeyValue_def)
  then obtain st' where "State_updateState_int32 alist_leveldb ''a'' (- 5) ?st = (Inr (), st')"
    by (metis prod.collapse)
  with rt show ?thesis by blast
qed

text \<open>\<open>init\<close> of a LevelDB folder opens it at most 101 times and succeeds exactly when one of the
  attempts succeeds after only IO errors before it; it then holds an open handle, leaves the content
  of the folder, and otherwise holds no handle. A folder that this process already holds open cannot
  be opened again.\<close>

theorem LevelDBWrapper_init_retries:
  "fst (LevelDBWrapper_init L n w) =
     (\<exists>i\<le>100. db_open L i (folderLocked w) (disk w) = LDB_Ok \<and>
        (\<forall>j\<le>100. i < j \<longrightarrow> db_open L j (folderLocked w) (disk w) = LDB_IOError)) \<and>
   mLevelDB (snd (LevelDBWrapper_init L n w)) = fst (LevelDBWrapper_init L n w) \<and>
   disk (snd (LevelDBWrapper_init L n w)) = disk w \<and>
   (leveldb_laws L \<and> folderLocked w \<longrightarrow> \<not> fst (LevelDBWrapper_init L n w))"
proof (intro conjI impI)
  show "fst (LevelDBWrapper_init L n w) =
     (\<exists>i\<le>100. db_open L i (folderLocked w) (disk w) = LDB_Ok \<and>
        (\<forall>j\<le>100. i < j \<longrightarrow> db_open L j (folderLocked w) (disk w) = LDB_IOError))"
    using init_loop_ok_iff [of "\<lambda>n. db_open L n (folderLocked w) (disk w)" 100]
    by (simp add: LevelDBWrapper_init_def Let_def)
  show "leveldb_laws L \<and> folderLocked w \<Longrightarrow> \<not> fst (LevelDBWrapper_init L n w)"
    by (simp add: kv_simps)
qed simp_all

lemma LevelDBWrapper_init_retries_witness:
  "\<not> fst (LevelDBWrapper_init alist_leveldb 0
      (snd (LevelDBWrapper_init alist_leveldb 0 (LevelDBWrapper_new ''f'' []))))"
proof -
  have "folderLocked (snd (LevelDBWrapper_init alist_leveldb 0 (LevelDBWrapper_new ''f'' [])))"
    by (simp add: LevelDBWrapper_init_def LevelDBWrapper_new_def alist_leveldb_def init_loop_not_ioerror)
  with LevelDBWrapper_init_retries [of alist_leveldb 0
      "snd (LevelDBWrapper_init alist_leveldb 0 (LevelDBWrapper_new ''f'' []))"] alist_leveldb_laws
  show ?thesis by blast
qed

text \<open>\<open>reset\<close> of a state that was never initialised opens a fresh file but leaves the state
  uninitialised: every update after it throws \<open>ClassNotInitalizedException\<close>, every read gives the
  default, and the next \<open>init\<close> fails, because the handle of the reset still holds the folder.\<close>

theorem State_reset_before_init:
  assumes "leveldb_laws L" and "\<not> mInitalized_State st" and "mLevelDB (mStateFile (State_reset L st))"
  shows "fst (State_updateState L k v (State_reset L st)) = Inl (Gradido ClassNotInitalized) \<and>
    State_readState L k d (State_reset L st) = Inr d \<and>
    fst (State_init L n (State_reset L st)) = Inr False"
proof -
  let ?w = "mStateFile (State_reset L st)"
  have "wrapper_ok ?w" by (simp add: State_reset_def)
  with assms(3) have "folderLocked ?w" by (simp add: wrapper_ok_def)
  from init_locked [OF assms(1) this, of n] have "\<not> fst (LevelDBWrapper_init L n ?w)" by simp
  then show ?thesis using assms(2)
    by (cases "LevelDBWrapper_init L n ?w")
      (auto simp: State_updateState_def State_readState_def State_init_def State_reset_def)
qed

lemma State_reset_before_init_witness:
  "fst (State_init alist_leveldb 0 (State_reset alist_leveldb (State_new ''f'' []))) = Inr False"
proof -
  have "mLevelDB (mStateFile (State_reset alist_leveldb (State_new ''f'' [])))"
    by (simp add: State_reset_def State_new_def LevelDBWrapper_reset_def LevelDBWrapper_exit_def
        LevelDBWrapper_new_def LevelDBWrapper_init_def alist_leveldb_def init_loop_not_ioerror)
  moreover have "\<not> mInitalized_State (State_new ''f'' [])" by (simp add: State_new_def)
  ultimately show ?thesis
    using State_reset_before_init [of alist_leveldb "State_new ''f'' []" "''a''" "''b''" "''c''" 0] alist_leveldb_laws
    by blast
qed

end
