(* ===== verification/Timer.thy ===== *)
theory Timer
  imports Prelude
begin

text \<open>
  \<open>FuzzyTimer\<close> (\<open>src/lib/FuzzyTimer.h\<close>, \<open>src/lib/FuzzyTimer.cpp\<close>): callbacks in a multimap sorted
  by the millisecond at which they are due, of which the timer's thread runs at most one per
  \<open>move\<close>. A callback object is a number, its \<open>callFromTimer\<close> a parameter that acts on the state \<open>'w\<close>
  of the rest of the node. The mutex makes the operations sequential; a callback runs under it and
  cannot call the timer.
\<close>

section \<open>State and operations\<close>

datatype TimerReturn = GO_ON | REMOVE_ME | REPORT_ERROR | TimerReturn_EXCEPTION | NOT_SET

text \<open>
  The counters are \<open>int\<close>; where they would overflow the behaviour of the code is undefined.
\<close>

record TimerEntry =
  callback :: "nat option"
  timeInterval :: int
  initLoopCount :: int
  currentLoopCount :: int
  timer_name :: string

definition TimerEntry_new :: "nat option \<Rightarrow> int \<Rightarrow> int \<Rightarrow> string \<Rightarrow> TimerEntry" where
  "TimerEntry_new cb interval loopCount name =
     \<lparr>callback = cb, timeInterval = interval, initLoopCount = loopCount,
      currentLoopCount = 0, timer_name = name\<rparr>"

definition TimerEntry_nextLoop :: "TimerEntry \<Rightarrow> bool \<times> TimerEntry" where
  "TimerEntry_nextLoop e =
     (let e' = e\<lparr>currentLoopCount := currentLoopCount e + 1\<rparr> in
      (if initLoopCount e' < 0 \<or> initLoopCount e' - 1 > currentLoopCount e' then True else False, e'))"

record FuzzyTimer =
  mRegisteredAtTimer :: "(int \<times> TimerEntry) list"
  exit_Timer :: bool

definition FuzzyTimer_new :: FuzzyTimer where
  "FuzzyTimer_new = \<lparr>mRegisteredAtTimer = [], exit_Timer = False\<rparr>"

definition FuzzyTimer_addTimer ::
    "int \<Rightarrow> string \<Rightarrow> nat option \<Rightarrow> int \<Rightarrow> int \<Rightarrow> FuzzyTimer \<Rightarrow> bool \<times> FuzzyTimer" where
  "FuzzyTimer_addTimer now name callbackObject interval loopCount ft =
     (if exit_Timer ft then (False, ft)
      else (True, ft\<lparr>mRegisteredAtTimer := mm_insert (now + interval)
              (TimerEntry_new callbackObject interval loopCount name) (mRegisteredAtTimer ft)\<rparr>))"

text \<open>
  \<open>removeTimer\<close> throws when the mutex is taken at that moment (\<open>locked\<close>), for instance because a
  callback is running.
\<close>

definition FuzzyTimer_removeTimer :: "bool \<Rightarrow> string \<Rightarrow> FuzzyTimer \<Rightarrow> int result \<times> FuzzyTimer" where
  "FuzzyTimer_removeTimer locked name ft =
     (if locked then (Inl (Gradido CannotLockMutex), ft)
      else if exit_Timer ft then (Inr (- 1), ft)
      else (Inr (int (length (filter (\<lambda>p. timer_name (snd p) = name) (mRegisteredAtTimer ft)))),
            ft\<lparr>mRegisteredAtTimer := filter (\<lambda>p. timer_name (snd p) \<noteq> name) (mRegisteredAtTimer ft)\<rparr>))"

text \<open>
  \<open>move\<close> catches the node's own exceptions and \<open>std::runtime_error\<close>; any other one leaves the
  function, with the entry still in place.
\<close>

definition FuzzyTimer_move ::
    "(nat \<Rightarrow> 'w \<Rightarrow> TimerReturn result \<times> 'w) \<Rightarrow> int \<Rightarrow> FuzzyTimer \<times> 'w \<Rightarrow> bool result \<times> FuzzyTimer \<times> 'w" where
  "FuzzyTimer_move callFromTimer nowMilliseconds s =
     (case s of (ft, w) \<Rightarrow>
      if exit_Timer ft then (Inr False, ft, w)
      else case mRegisteredAtTimer ft of
          [] \<Rightarrow> (Inr True, ft, w)
        | (k, e) # rest \<Rightarrow>
            if k \<le> nowMilliseconds then
              (case callback e of
                 None \<Rightarrow> (Inr True, ft\<lparr>mRegisteredAtTimer := rest\<rparr>, w)
               | Some c \<Rightarrow>
                   (case callFromTimer c w of (r, w') \<Rightarrow>
                    let caught = (case r of
                          Inr ret \<Rightarrow> Inr ret
                        | Inl (Gradido ex) \<Rightarrow> Inr TimerReturn_EXCEPTION
                        | Inl (Std RuntimeError) \<Rightarrow> Inr TimerReturn_EXCEPTION
                        | Inl ex \<Rightarrow> Inl ex)
                    in (case caught of
                          Inl ex \<Rightarrow> (Inl ex, ft, w')
                        | Inr ret \<Rightarrow>
                            (case TimerEntry_nextLoop e of (again, e') \<Rightarrow>
                              (Inr True,
                               ft\<lparr>mRegisteredAtTimer :=
                                  (if again \<and> ret = GO_ON
                                   then mm_insert (nowMilliseconds + timeInterval e') e' rest
                                   else rest)\<rparr>, w')))))
            else (Inr True, ft, w))"

definition FuzzyTimer_stop :: "FuzzyTimer \<Rightarrow> FuzzyTimer" where
  "FuzzyTimer_stop ft = ft\<lparr>exit_Timer := True\<rparr>"

text \<open>
  The thread's loop, for the moments at which it gets to call \<open>move\<close>: it ends when \<open>move\<close> says so,
  and an exception that \<open>move\<close> does not catch ends it too.
\<close>

fun FuzzyTimer_run ::
    "(nat \<Rightarrow> 'w \<Rightarrow> TimerReturn result \<times> 'w) \<Rightarrow> int list \<Rightarrow> FuzzyTimer \<times> 'w \<Rightarrow> unit result \<times> FuzzyTimer \<times> 'w" where
  "FuzzyTimer_run call [] s = (Inr (), s)"
| "FuzzyTimer_run call (now # nows) s =
     (case FuzzyTimer_move call now s of
        (Inl ex, s') \<Rightarrow> (Inl ex, s')
      | (Inr goOn, s') \<Rightarrow> if \<not> goOn then (Inr (), s') else FuzzyTimer_run call nows s')"

section \<open>Lemmas\<close>

text \<open>What other threads and the timer's own thread do to the timer, one operation at a time.\<close>

datatype timer_event =
    TMove int
  | TAdd int string "nat option" int int
  | TRemove bool string
  | TStop

fun FuzzyTimer_step :: "(nat \<Rightarrow> 'w \<Rightarrow> TimerReturn result \<times> 'w) \<Rightarrow> timer_event \<Rightarrow> FuzzyTimer \<times> 'w \<Rightarrow> FuzzyTimer \<times> 'w" where
  "FuzzyTimer_step call (TMove now) s = snd (FuzzyTimer_move call now s)"
| "FuzzyTimer_step call (TAdd now name cb interval loops) (ft, w) =
     (snd (FuzzyTimer_addTimer now name cb interval loops ft), w)"
| "FuzzyTimer_step call (TRemove locked name) (ft, w) = (snd (FuzzyTimer_removeTimer locked name ft), w)"
| "FuzzyTimer_step call TStop (ft, w) = (FuzzyTimer_stop ft, w)"

lemma nextLoop_simps [simp]:
  "timer_name (snd (TimerEntry_nextLoop e)) = timer_name e"
  "timeInterval (snd (TimerEntry_nextLoop e)) = timeInterval e"
  "callback (snd (TimerEntry_nextLoop e)) = callback e"
  "initLoopCount (snd (TimerEntry_nextLoop e)) = initLoopCount e"
  "currentLoopCount (snd (TimerEntry_nextLoop e)) = currentLoopCount e + 1"
  by (simp_all add: TimerEntry_nextLoop_def Let_def)

text \<open>The four things a \<open>move\<close> can do to the entries.\<close>

lemma move_entries:
  "mRegisteredAtTimer (fst (snd (FuzzyTimer_move call now (ft, w)))) = mRegisteredAtTimer ft \<or>
   (\<exists>k e rest. mRegisteredAtTimer ft = (k, e) # rest \<and> k \<le> now \<and>
      (mRegisteredAtTimer (fst (snd (FuzzyTimer_move call now (ft, w)))) = rest \<or>
       mRegisteredAtTimer (fst (snd (FuzzyTimer_move call now (ft, w)))) =
         mm_insert (now + timeInterval e) (snd (TimerEntry_nextLoop e)) rest))"
proof (cases "mRegisteredAtTimer ft")
  case Nil
  then show ?thesis by (simp add: FuzzyTimer_move_def)
next
  case (Cons p rest)
  obtain k e where p: "p = (k, e)" by (cases p)
  note nl = nextLoop_simps(2) [of e]
  show ?thesis
    by (cases "TimerEntry_nextLoop e")
      (use Cons p nl in \<open>auto simp: FuzzyTimer_move_def Let_def
        split: option.split prod.split sum.split\<close>)
qed

lemma move_exit_flag [simp]: "exit_Timer (fst (snd (FuzzyTimer_move call now (ft, w)))) = exit_Timer ft"
  by (auto simp: FuzzyTimer_move_def Let_def split: list.split option.split prod.split sum.split)

text \<open>The entries stay sorted by their due time, in every run.\<close>

definition timer_ok :: "FuzzyTimer \<times> 'w \<Rightarrow> bool" where
  "timer_ok s = mm_ok (mRegisteredAtTimer (fst s))"

lemma timer_ok_step: "timer_ok s \<Longrightarrow> timer_ok (FuzzyTimer_step call ev s)"
proof (cases s)
  case (Pair ft w)
  assume "timer_ok s"
  with Pair have ok: "mm_ok (mRegisteredAtTimer ft)" by (simp add: timer_ok_def)
  show ?thesis
  proof (cases ev)
    case (TMove now)
    from move_entries [of call now ft w] ok show ?thesis
      by (auto simp: Pair TMove timer_ok_def mm_ok_Cons intro: mm_ok_insert)
  qed (use ok Pair in \<open>auto simp: timer_ok_def FuzzyTimer_addTimer_def FuzzyTimer_removeTimer_def
      FuzzyTimer_stop_def\<close>)
qed

interpretation timer_sorted: step_invariant "FuzzyTimer_step call" timer_ok
  by unfold_locales (rule timer_ok_step)

text \<open>A name that is gone stays gone as long as nobody adds it again.\<close>

definition no_timer :: "string \<Rightarrow> FuzzyTimer \<Rightarrow> bool" where
  "no_timer name ft = (\<forall>p \<in> set (mRegisteredAtTimer ft). timer_name (snd p) \<noteq> name)"

fun adds :: "string \<Rightarrow> timer_event \<Rightarrow> bool" where
  "adds name (TAdd now n cb interval loops) = (n = name)"
| "adds name _ = False"

lemma no_timer_step:
  assumes "no_timer name (fst s)" and "\<not> adds name ev"
  shows "no_timer name (fst (FuzzyTimer_step call ev s))"
proof (cases s)
  case (Pair ft w)
  show ?thesis
  proof (cases ev)
    case (TMove now)
    from move_entries [of call now ft w] assms show ?thesis
      by (fastforce simp: Pair TMove no_timer_def set_mm_insert)
  qed (use assms Pair in \<open>auto simp: no_timer_def FuzzyTimer_addTimer_def FuzzyTimer_removeTimer_def
      FuzzyTimer_stop_def TimerEntry_new_def set_mm_insert\<close>)
qed

lemma no_timer_run:
  "no_timer name (fst s) \<Longrightarrow> \<forall>ev \<in> set es. \<not> adds name ev \<Longrightarrow>
   no_timer name (fst (fold (FuzzyTimer_step call) es s))"
proof (induction es arbitrary: s)
  case Nil
  then show ?case by simp
next
  case (Cons ev es)
  from Cons.prems have "no_timer name (fst (FuzzyTimer_step call ev s))"
    by (simp add: no_timer_step)
  from Cons.IH [OF this] Cons.prems(2) show ?case by simp
qed

text \<open>One entry that always goes on: how often it is called.\<close>

fun spaced :: "int \<Rightarrow> int \<Rightarrow> int list \<Rightarrow> bool" where
  "spaced due interval [] = True"
| "spaced due interval (now # nows) = (due \<le> now \<and> spaced (now + interval) interval nows)"

lemma run_no_entry:
  "FuzzyTimer_run call nows (\<lparr>mRegisteredAtTimer = [], exit_Timer = False\<rparr>, w) =
     (Inr (), \<lparr>mRegisteredAtTimer = [], exit_Timer = False\<rparr>, w)"
  by (induction nows) (simp_all add: FuzzyTimer_move_def)

lemma run_one_entry:
  assumes "spaced due (timeInterval e) nows" and "callback e = Some c" and "0 \<le> currentLoopCount e"
    and "\<And>w. call c w = (Inr GO_ON, w + 1)"
  shows "snd (snd (FuzzyTimer_run call nows (\<lparr>mRegisteredAtTimer = [(due, e)], exit_Timer = False\<rparr>, w)))
    = w + (if initLoopCount e < 0 then length nows
           else min (length nows) (max 1 (nat (initLoopCount e - 1 - currentLoopCount e))))"
  using assms(1-3)
proof (induction nows arbitrary: due e w)
  case Nil
  then show ?case by simp
next
  case (Cons now nows)
  let ?e = "snd (TimerEntry_nextLoop e)"
  have due: "due \<le> now" and sp: "spaced (now + timeInterval e) (timeInterval e) nows"
    using Cons.prems(1) by simp_all
  show ?case
  proof (cases "fst (TimerEntry_nextLoop e)")
    case True
    then have nl: "TimerEntry_nextLoop e = (True, ?e)" by (metis prod.collapse)
    have mv: "FuzzyTimer_move call now (\<lparr>mRegisteredAtTimer = [(due, e)], exit_Timer = False\<rparr>, w)
        = (Inr True, \<lparr>mRegisteredAtTimer = [(now + timeInterval e, ?e)], exit_Timer = False\<rparr>, w + 1)"
      using due Cons.prems(2) assms(4) nl by (simp add: FuzzyTimer_move_def)
        (simp add: TimerEntry_nextLoop_def Let_def)
    have more: "initLoopCount e < 0 \<or> initLoopCount e - 1 > currentLoopCount e + 1"
      using True by (simp add: TimerEntry_nextLoop_def Let_def split: if_splits)
    show ?thesis
      using Cons.IH [of "now + timeInterval e" ?e "w + 1"] Cons.prems sp mv more by auto
  next
    case False
    have mv: "FuzzyTimer_move call now (\<lparr>mRegisteredAtTimer = [(due, e)], exit_Timer = False\<rparr>, w)
        = (Inr True, \<lparr>mRegisteredAtTimer = [], exit_Timer = False\<rparr>, w + 1)"
      using due Cons.prems(2) assms(4) False
      by (cases "TimerEntry_nextLoop e") (simp add: FuzzyTimer_move_def)
    have less: "\<not> initLoopCount e < 0" "initLoopCount e - 1 \<le> currentLoopCount e + 1"
      using False by (simp_all add: TimerEntry_nextLoop_def Let_def split: if_splits)
    then have "max 1 (nat (initLoopCount e - 1 - currentLoopCount e)) = 1" by simp
    with less(1) mv show ?thesis by (simp add: run_no_entry)
  qed
qed

section \<open>Properties\<close>

text \<open>A timer added with the loop count n whose callback always goes on, and whose thread gets to
  run after every interval, is called every time for a negative n and exactly max(1, n - 1) times
  otherwise: once for n = 0, 1 and 2, and one time fewer than n from there on.\<close>

theorem FuzzyTimer_loop_count:
  assumes "spaced (now + interval) interval nows" and "\<And>w. call c w = (Inr GO_ON, w + (1 :: nat))"
  shows "snd (snd (FuzzyTimer_run call nows
      (snd (FuzzyTimer_addTimer now name (Some c) interval n FuzzyTimer_new), 0)))
    = (if n < 0 then length nows else min (length nows) (max 1 (nat (n - 1))))"
  using run_one_entry [of "now + interval" "TimerEntry_new (Some c) interval n name" nows c call 0] assms
  by (simp add: FuzzyTimer_addTimer_def FuzzyTimer_new_def TimerEntry_new_def)

lemma FuzzyTimer_loop_count_witness:
  "snd (snd (FuzzyTimer_run (\<lambda>_ w. (Inr GO_ON, w + 1)) [100, 200, 300, 400]
      (snd (FuzzyTimer_addTimer 0 ''a'' (Some 0) 100 3 FuzzyTimer_new), 0))) = (2 :: nat)"
  using FuzzyTimer_loop_count [of 0 100 "[100, 200, 300, 400]" "\<lambda>_ w. (Inr GO_ON, w + 1)" 0 "''a''" 3]
  by simp



end
