(* ===== verification/Dict.thy ===== *)
theory Dict
  imports KeyValue
begin

text \<open>
  \<open>cache::Dictionary\<close> (\<open>src/cache/Dictionary.cpp\<close>): numbers for strings. A LevelDB file maps the
  decimal index to the string; in memory a hash map takes the \<open>SignatureOctet\<close> of a string (its
  first eight bytes, a type of the blockchain library: the parameter \<open>octet\<close>) to its index.
\<close>

section \<open>State and operations\<close>

text \<open>
  \<open>mValueKeyReverseLookup\<close> is an \<open>unordered_map\<close>: its keys are unique and \<open>insert\<close> leaves an entry
  that is there. It is a list of pairs with distinct keys, so that \<open>size\<close> is its length.
\<close>

record ('db, 'o) Dictionary =
  mLastIndex :: u32
  mDictionaryFile :: "'db LevelDBWrapper"
  mValueKeyReverseLookup :: "('o \<times> u32) list"

definition umap_insert :: "'o \<Rightarrow> u32 \<Rightarrow> ('o \<times> u32) list \<Rightarrow> ('o \<times> u32) list" where
  "umap_insert o1 i m = (case map_of m o1 of None \<Rightarrow> (o1, i) # m | Some _ \<Rightarrow> m)"

definition Dictionary_new :: "string \<Rightarrow> 'db \<Rightarrow> ('db, 'o) Dictionary" where
  "Dictionary_new fileName d =
     \<lparr>mLastIndex = 0, mDictionaryFile = LevelDBWrapper_new fileName d, mValueKeyReverseLookup = []\<rparr>"

definition Dictionary_init ::
    "'db leveldb \<Rightarrow> (string \<Rightarrow> 'o) \<Rightarrow> u64 \<Rightarrow> ('db, 'o) Dictionary \<Rightarrow> bool result \<times> ('db, 'o) Dictionary" where
  "Dictionary_init L octet cacheInBytes d =
     (case LevelDBWrapper_init L cacheInBytes (mDictionaryFile d) of
        (False, w) \<Rightarrow> (Inr False, d\<lparr>mDictionaryFile := w\<rparr>)
      | (True, w) \<Rightarrow>
          (case LevelDBWrapper_iterate L
                  (\<lambda>k v m. (Inr (), umap_insert (octet v) (ucast (strtoul k)) m))
                  w (mValueKeyReverseLookup d) of
             (Inl e, m) \<Rightarrow> (Inl e, d\<lparr>mDictionaryFile := w, mValueKeyReverseLookup := m\<rparr>)
           | (Inr _, m) \<Rightarrow>
               (Inr True, d\<lparr>mDictionaryFile := w, mValueKeyReverseLookup := m,
                            mLastIndex := word_of_nat (length m)\<rparr>)))"

definition Dictionary_exit :: "('db, 'o) Dictionary \<Rightarrow> ('db, 'o) Dictionary" where
  "Dictionary_exit d = d\<lparr>mDictionaryFile := LevelDBWrapper_exit (mDictionaryFile d)\<rparr>"

definition Dictionary_reset :: "'db leveldb \<Rightarrow> ('db, 'o) Dictionary \<Rightarrow> ('db, 'o) Dictionary" where
  "Dictionary_reset L d = d\<lparr>mDictionaryFile := LevelDBWrapper_reset L (mDictionaryFile d), mLastIndex := 0\<rparr>"

definition Dictionary_hasStringIndexPair ::
    "(string \<Rightarrow> 'o) \<Rightarrow> string \<Rightarrow> u32 \<Rightarrow> ('db, 'o) Dictionary \<Rightarrow> bool" where
  "Dictionary_hasStringIndexPair octet str index d =
     (case map_of (mValueKeyReverseLookup d) (octet str) of None \<Rightarrow> False | Some i \<Rightarrow> i = index)"

definition Dictionary_findIndexForString ::
    "'db leveldb \<Rightarrow> (string \<Rightarrow> 'o) \<Rightarrow> string \<Rightarrow> ('db, 'o) Dictionary \<Rightarrow> u32 result" where
  "Dictionary_findIndexForString L octet str d =
     (if str = [] then Inl (Gradido InvalidData)
      else case map_of (mValueKeyReverseLookup d) (octet str) of
          None \<Rightarrow> Inr 0
        | Some i \<Rightarrow>
            (case LevelDBWrapper_getValueForKey L (to_string (unat i)) (mDictionaryFile d) of
               Inl e \<Rightarrow> Inl e
             | Inr None \<Rightarrow> Inr 0
             | Inr (Some value) \<Rightarrow> if str = value then Inr i else Inr 0))"

definition Dictionary_hasString ::
    "'db leveldb \<Rightarrow> (string \<Rightarrow> 'o) \<Rightarrow> string \<Rightarrow> ('db, 'o) Dictionary \<Rightarrow> bool result" where
  "Dictionary_hasString L octet str d =
     (case Dictionary_findIndexForString L octet str d of Inl e \<Rightarrow> Inl e | Inr i \<Rightarrow> Inr (i \<noteq> 0))"

definition Dictionary_addStringIndex ::
    "'db leveldb \<Rightarrow> (string \<Rightarrow> 'o) \<Rightarrow> string \<Rightarrow> u32 \<Rightarrow> ('db, 'o) Dictionary
       \<Rightarrow> bool result \<times> ('db, 'o) Dictionary" where
  "Dictionary_addStringIndex L octet str index d =
     (if Dictionary_hasStringIndexPair octet str index d then (Inr False, d)
      else if mLastIndex d + 1 \<noteq> index then
        (Inl (Gradido (DictionaryInvalidNewKey index (mLastIndex d))), d)
      else case LevelDBWrapper_setKeyValue L (to_string (unat index)) str (mDictionaryFile d) of
          (Inl e, w) \<Rightarrow> (Inl e, d\<lparr>mLastIndex := index, mDictionaryFile := w\<rparr>)
        | (Inr _, w) \<Rightarrow>
            (Inr True, d\<lparr>mLastIndex := index, mDictionaryFile := w,
               mValueKeyReverseLookup := umap_insert (octet str) index (mValueKeyReverseLookup d)\<rparr>))"

definition Dictionary_getIndexForString ::
    "'db leveldb \<Rightarrow> (string \<Rightarrow> 'o) \<Rightarrow> string \<Rightarrow> ('db, 'o) Dictionary \<Rightarrow> u32 result" where
  "Dictionary_getIndexForString L octet str d =
     (case Dictionary_findIndexForString L octet str d of
        Inl e \<Rightarrow> Inl e
      | Inr i \<Rightarrow> if i = 0 then Inl (Gradido DictionaryNotFound) else Inr i)"

definition Dictionary_getStringForIndex ::
    "'db leveldb \<Rightarrow> u32 \<Rightarrow> ('db, 'o) Dictionary \<Rightarrow> string result" where
  "Dictionary_getStringForIndex L index d =
     (case LevelDBWrapper_getValueForKey L (to_string (unat index)) (mDictionaryFile d) of
        Inl e \<Rightarrow> Inl e
      | Inr None \<Rightarrow> Inl (Gradido DictionaryNotFound)
      | Inr (Some value) \<Rightarrow> Inr value)"

definition Dictionary_hasIndex :: "'db leveldb \<Rightarrow> u32 \<Rightarrow> ('db, 'o) Dictionary \<Rightarrow> bool result" where
  "Dictionary_hasIndex L index d =
     (case LevelDBWrapper_getValueForKey L (to_string (unat index)) (mDictionaryFile d) of
        Inl e \<Rightarrow> Inl e
      | Inr v \<Rightarrow> Inr (v \<noteq> None))"

definition Dictionary_getOrAddIndexForString ::
    "'db leveldb \<Rightarrow> (string \<Rightarrow> 'o) \<Rightarrow> string \<Rightarrow> ('db, 'o) Dictionary \<Rightarrow> u32 result \<times> ('db, 'o) Dictionary" where
  "Dictionary_getOrAddIndexForString L octet str d =
     (case Dictionary_findIndexForString L octet str d of
        Inl e \<Rightarrow> (Inl e, d)
      | Inr found \<Rightarrow>
          if found \<noteq> 0 then (Inr found, d)
          else let index = mLastIndex d + 1 in
            (case LevelDBWrapper_setKeyValue L (to_string (unat index)) str (mDictionaryFile d) of
               (Inl e, w) \<Rightarrow> (Inl e, d\<lparr>mLastIndex := index, mDictionaryFile := w\<rparr>)
             | (Inr _, w) \<Rightarrow>
                 (Inr index, d\<lparr>mLastIndex := index, mDictionaryFile := w,
                    mValueKeyReverseLookup := umap_insert (octet str) index (mValueKeyReverseLookup d)\<rparr>)))"

section \<open>The list of strings a dictionary stands for\<close>

text \<open>
  A dictionary stands for a list of strings: the i-th string has the index i + 1. \<open>file_of\<close> is the
  content of its file, \<open>reverse_of\<close> the reverse lookup, in which the first string with an octet wins.
\<close>

definition file_of :: "string list \<Rightarrow> (string \<times> string) list" where
  "file_of xs = map (\<lambda>i. (to_string (Suc i), xs ! i)) [0..<length xs]"

definition reverse_of :: "(string \<Rightarrow> 'o) \<Rightarrow> string list \<Rightarrow> ('o \<times> u32) list" where
  "reverse_of octet xs = map (\<lambda>i. (octet (xs ! i), word_of_nat (Suc i))) [0..<length xs]"

definition dict_rep :: "'db leveldb \<Rightarrow> (string \<Rightarrow> 'o) \<Rightarrow> string list \<Rightarrow> ('db, 'o) Dictionary \<Rightarrow> bool" where
  "dict_rep L octet xs d =
     (leveldb_laws L \<and> mLevelDB (mDictionaryFile d) \<and> length xs < 2 ^ 32 \<and>
      mLastIndex d = word_of_nat (length xs) \<and>
      db_get L (disk (mDictionaryFile d)) = map_of (file_of xs) \<and>
      map_of (mValueKeyReverseLookup d) = map_of (reverse_of octet xs))"

lemma file_of_snoc: "file_of (xs @ [s]) = file_of xs @ [(to_string (Suc (length xs)), s)]"
  by (simp add: file_of_def nth_append)

lemma reverse_of_snoc:
  "reverse_of octet (xs @ [s]) = reverse_of octet xs @ [(octet s, word_of_nat (Suc (length xs)))]"
  by (simp add: reverse_of_def nth_append)

lemma map_of_file_of:
  "map_of (file_of xs) (to_string j) = (if 0 < j \<and> j \<le> length xs then Some (xs ! (j - 1)) else None)"
proof (induction xs rule: rev_induct)
  case Nil
  show ?case by (auto simp: file_of_def)
next
  case (snoc s xs)
  then show ?case
    by (cases "0 < j") (auto simp: file_of_snoc map_add_def nth_append split: option.split)
qed

lemma map_of_reverse_of:
  assumes "map_of (reverse_of octet xs) k = Some w" and "length xs < 2 ^ 32"
  shows "\<exists>i < length xs. w = word_of_nat (Suc i) \<and> unat w = Suc i \<and> octet (xs ! i) = k"
proof -
  from map_of_SomeD [OF assms(1)] obtain i where i: "i < length xs" "w = word_of_nat (Suc i)" "octet (xs ! i) = k"
    by (auto simp: reverse_of_def)
  from i(1) assms(2) have "Suc i < 2 ^ 32" by linarith
  from unat_of_nat_words(2) [OF this] i show ?thesis by blast
qed

lemma fst_reverse_of: "map fst (reverse_of octet xs) = map octet xs"
  by (rule nth_equalityI) (auto simp: reverse_of_def)

lemma keys_reverse_of: "fst ` set (reverse_of octet xs) = octet ` set xs"
  by (metis fst_reverse_of list.set_map)

lemma map_of_reverse_of_None:
  "map_of (reverse_of octet xs) k = None \<longleftrightarrow> k \<notin> octet ` set xs"
  by (simp add: map_of_eq_None_iff keys_reverse_of)

lemma map_of_umap_insert:
  "map_of (umap_insert k i m) = (case map_of m k of None \<Rightarrow> (map_of m)(k \<mapsto> i) | Some _ \<Rightarrow> map_of m)"
  by (auto simp: umap_insert_def split: option.split)

text \<open>What a lookup finds: the index in the reverse lookup, if the string there is this one.\<close>

lemma findIndex_rep:
  assumes "dict_rep L octet xs d" and "s \<noteq> []"
  shows "Dictionary_findIndexForString L octet s d =
    Inr (case map_of (reverse_of octet xs) (octet s) of
           None \<Rightarrow> 0
         | Some i \<Rightarrow> if xs ! (unat i - 1) = s then i else 0)"
proof (cases "map_of (reverse_of octet xs) (octet s)")
  case None
  with assms show ?thesis by (simp add: Dictionary_findIndexForString_def dict_rep_def)
next
  case (Some w)
  have "length xs < 2 ^ 32" using assms(1) by (simp add: dict_rep_def)
  from map_of_reverse_of [OF Some this] obtain i where "i < length xs" "unat w = Suc i" by blast
  with assms Some show ?thesis
    by (auto simp: Dictionary_findIndexForString_def dict_rep_def LevelDBWrapper_getValueForKey_def
        map_of_file_of)
qed

lemma getString_rep:
  assumes "dict_rep L octet xs d" and "0 < unat i" and "unat i \<le> length xs"
  shows "Dictionary_getStringForIndex L i d = Inr (xs ! (unat i - 1))"
  using assms by (simp add: Dictionary_getStringForIndex_def LevelDBWrapper_getValueForKey_def
      dict_rep_def map_of_file_of)

lemma hasIndex_rep:
  "dict_rep L octet xs d \<Longrightarrow> Dictionary_hasIndex L i d = Inr (0 < unat i \<and> unat i \<le> length xs)"
  by (simp add: Dictionary_hasIndex_def LevelDBWrapper_getValueForKey_def dict_rep_def map_of_file_of)

text \<open>A string that is not found is appended.\<close>

lemma append_rep:
  assumes rep: "dict_rep L octet xs d" and len: "Suc (length xs) < 2 ^ 32"
    and put: "LevelDBWrapper_setKeyValue L (to_string (unat (mLastIndex d + 1))) s (mDictionaryFile d) = (Inr (), w)"
  shows "unat (mLastIndex d + 1) = Suc (length xs)"
    and "dict_rep L octet (xs @ [s]) (d\<lparr>mLastIndex := mLastIndex d + 1, mDictionaryFile := w,
      mValueKeyReverseLookup := umap_insert (octet s) (mLastIndex d + 1) (mValueKeyReverseLookup d)\<rparr>)"
proof -
  have idx: "mLastIndex d + 1 = word_of_nat (Suc (length xs))"
    using rep by (simp add: dict_rep_def)
  show un: "unat (mLastIndex d + 1) = Suc (length xs)"
    unfolding idx using len by (rule unat_of_nat_words(2))
  from put rep obtain dk where
    dk: "db_put L (disk (mDictionaryFile d)) (to_string (Suc (length xs))) s = Some dk"
      "w = (mDictionaryFile d)\<lparr>disk := dk\<rparr>"
    by (auto simp: LevelDBWrapper_setKeyValue_def dict_rep_def un split: option.splits if_splits)
  have laws: "leveldb_laws L" using rep by (simp add: dict_rep_def)
  have "db_get L dk = map_of (file_of (xs @ [s]))"
  proof
    fix k
    have "to_string (Suc (length xs)) \<notin> dom (map_of (file_of xs))"
      by (simp add: domIff map_of_file_of)
    with leveldb_lawsD(2) [OF laws dk(1)] rep
    show "db_get L dk k = map_of (file_of (xs @ [s])) k"
      by (auto simp: file_of_snoc dict_rep_def map_add_def split: option.split)
  qed
  moreover have "map_of (umap_insert (octet s) (word_of_nat (Suc (length xs))) (mValueKeyReverseLookup d)) =
      map_of (reverse_of octet (xs @ [s]))"
    using rep by (auto simp: map_of_umap_insert reverse_of_snoc dict_rep_def fun_eq_iff map_add_def
        split: option.split)
  ultimately show "dict_rep L octet (xs @ [s]) (d\<lparr>mLastIndex := mLastIndex d + 1, mDictionaryFile := w,
      mValueKeyReverseLookup := umap_insert (octet s) (mLastIndex d + 1) (mValueKeyReverseLookup d)\<rparr>)"
    using rep len dk(2) by (simp add: dict_rep_def idx add.commute)
qed

lemma getOrAdd_rep:
  assumes rep: "dict_rep L octet xs d" and len: "Suc (length xs) < 2 ^ 32"
    and call: "Dictionary_getOrAddIndexForString L octet s d = (Inr i, d')"
  shows "s \<noteq> [] \<and>
    (if (\<exists>w. map_of (reverse_of octet xs) (octet s) = Some w \<and> xs ! (unat w - 1) = s)
     then d' = d \<and> map_of (reverse_of octet xs) (octet s) = Some i \<and> xs ! (unat i - 1) = s
     else unat i = Suc (length xs) \<and> dict_rep L octet (xs @ [s]) d')"
proof -
  have ne: "s \<noteq> []"
    using call by (auto simp: Dictionary_getOrAddIndexForString_def Dictionary_findIndexForString_def)
  note find = findIndex_rep [OF rep ne]
  show ?thesis
  proof (cases "\<exists>w. map_of (reverse_of octet xs) (octet s) = Some w \<and> xs ! (unat w - 1) = s")
    case True
    then obtain w where w: "map_of (reverse_of octet xs) (octet s) = Some w" "xs ! (unat w - 1) = s" by blast
    have "length xs < 2 ^ 32" using rep by (simp add: dict_rep_def)
    from map_of_reverse_of [OF w(1) this] have "w \<noteq> 0" by auto
    with w find call ne show ?thesis by (auto simp: Dictionary_getOrAddIndexForString_def)
  next
    case False
    with find have "Dictionary_findIndexForString L octet s d = Inr 0" by (auto split: option.split)
    with call obtain w where
      put: "LevelDBWrapper_setKeyValue L (to_string (unat (mLastIndex d + 1))) s (mDictionaryFile d) = (Inr (), w)"
      and d': "i = mLastIndex d + 1" "d' = d\<lparr>mLastIndex := mLastIndex d + 1, mDictionaryFile := w,
      mValueKeyReverseLookup := umap_insert (octet s) (mLastIndex d + 1) (mValueKeyReverseLookup d)\<rparr>"
      by (auto simp: Dictionary_getOrAddIndexForString_def Let_def split: prod.splits sum.splits)
    from append_rep [OF rep len put] False d' ne show ?thesis by auto
  qed
qed

text \<open>A run of \<open>getOrAddIndexForString\<close>.\<close>

fun dict_adds :: "'db leveldb \<Rightarrow> (string \<Rightarrow> 'o) \<Rightarrow> string list \<Rightarrow> ('db, 'o) Dictionary
    \<Rightarrow> u32 list result \<times> ('db, 'o) Dictionary" where
  "dict_adds L octet [] d = (Inr [], d)"
| "dict_adds L octet (s # ss) d =
     (case Dictionary_getOrAddIndexForString L octet s d of
        (Inl e, d') \<Rightarrow> (Inl e, d')
      | (Inr i, d') \<Rightarrow>
          (case dict_adds L octet ss d' of
             (Inl e, d'') \<Rightarrow> (Inl e, d'')
           | (Inr is, d'') \<Rightarrow> (Inr (i # is), d'')))"

text \<open>Without two strings of the same octet the strings stay distinct and an index names its string.\<close>

lemma dict_adds_rep:
  assumes "dict_rep L octet xs d" and "distinct xs" and "inj_on octet (set xs \<union> set ss)"
    and "length xs + length ss < 2 ^ 32" and "dict_adds L octet ss d = (Inr rs, d')"
  shows "\<exists>ys. dict_rep L octet (xs @ ys) d' \<and> distinct (xs @ ys) \<and> length rs = length ss \<and>
    set ys \<subseteq> set ss \<and>
    (\<forall>j < length ss. 0 < unat (rs ! j) \<and> unat (rs ! j) \<le> length (xs @ ys) \<and>
        (xs @ ys) ! (unat (rs ! j) - 1) = ss ! j)"
  using assms
proof (induction ss arbitrary: xs d rs)
  case Nil
  then show ?case by (intro exI [of _ "[]"]) simp
next
  case (Cons s ss)
  from Cons.prems(5) obtain i d1 rs1 where
    add: "Dictionary_getOrAddIndexForString L octet s d = (Inr i, d1)"
    and rest: "dict_adds L octet ss d1 = (Inr rs1, d')" and rs: "rs = i # rs1"
    by (auto split: prod.splits sum.splits)
  have len: "Suc (length xs) < 2 ^ 32" "length xs < 2 ^ 32" using Cons.prems(4) by simp_all
  note ga = getOrAdd_rep [OF Cons.prems(1) len(1) add]
  show ?case
  proof (cases "s \<in> set xs")
    case True
    then obtain w where w: "map_of (reverse_of octet xs) (octet s) = Some w"
      using map_of_reverse_of_None [of octet xs "octet s"] by fastforce
    from map_of_reverse_of [OF w len(2)] obtain k where
      k: "k < length xs" "unat w = Suc k" "octet (xs ! k) = octet s" by blast
    with Cons.prems(3) True have eq: "xs ! k = s" by (auto simp: inj_on_def)
    with ga w k have d1: "d1 = d" "i = w" by auto
    have "inj_on octet (set xs \<union> set ss)" using Cons.prems(3) by (auto simp: inj_on_def)
    with Cons.IH [OF Cons.prems(1,2) _ _ rest [unfolded d1]] Cons.prems(4) obtain ys where
      ys: "dict_rep L octet (xs @ ys) d'" "distinct (xs @ ys)" "length rs1 = length ss" "set ys \<subseteq> set ss"
        "\<forall>j < length ss. 0 < unat (rs1 ! j) \<and> unat (rs1 ! j) \<le> length (xs @ ys) \<and>
           (xs @ ys) ! (unat (rs1 ! j) - 1) = ss ! j" by auto
    have head: "0 < unat i" "unat i \<le> length (xs @ ys)" "(xs @ ys) ! (unat i - 1) = s"
      using k d1 eq by (simp_all add: nth_append)
    show ?thesis
      by (intro exI [of _ ys]) (use ys head rs in \<open>auto simp: nth_Cons split: nat.split\<close>)
  next
    case False
    have "\<not> (\<exists>w. map_of (reverse_of octet xs) (octet s) = Some w \<and> xs ! (unat w - 1) = s)"
    proof
      assume "\<exists>w. map_of (reverse_of octet xs) (octet s) = Some w \<and> xs ! (unat w - 1) = s"
      then obtain w where w: "map_of (reverse_of octet xs) (octet s) = Some w" "xs ! (unat w - 1) = s" by blast
      from map_of_reverse_of [OF w(1) len(2)] w(2) False show False by auto
    qed
    with ga have rep1: "unat i = Suc (length xs)" "dict_rep L octet (xs @ [s]) d1" by auto
    have "inj_on octet (set (xs @ [s]) \<union> set ss)" using Cons.prems(3) by (auto simp: inj_on_def)
    with Cons.IH [OF rep1(2) _ _ _ rest] Cons.prems(2,4) False obtain ys where
      ys: "dict_rep L octet ((xs @ [s]) @ ys) d'" "distinct ((xs @ [s]) @ ys)" "length rs1 = length ss"
        "set ys \<subseteq> set ss"
        "\<forall>j < length ss. 0 < unat (rs1 ! j) \<and> unat (rs1 ! j) \<le> length ((xs @ [s]) @ ys) \<and>
           ((xs @ [s]) @ ys) ! (unat (rs1 ! j) - 1) = ss ! j" by auto
    have head: "0 < unat i" "unat i \<le> length (xs @ s # ys)" "(xs @ s # ys) ! (unat i - 1) = s"
      using rep1(1) by simp_all
    show ?thesis
      by (intro exI [of _ "s # ys"]) (use ys head rs in \<open>auto simp: nth_Cons split: nat.split\<close>)
  qed
qed

section \<open>Opening a dictionary again\<close>

lemma init_lookup_length:
  "distinct (map (octet \<circ> snd) es) \<Longrightarrow>
   (\<forall>v \<in> snd ` set es. octet v \<notin> fst ` set m) \<Longrightarrow>
   fold (\<lambda>(k, v). umap_insert (octet v) (ucast (strtoul k))) es m =
     rev (map (\<lambda>(k, v). (octet v, ucast (strtoul k))) es) @ m"
proof (induction es arbitrary: m)
  case Nil
  show ?case by simp
next
  case (Cons p es)
  obtain k v where p: "p = (k, v)" by (cases p)
  have "map_of m (octet v) = None" using Cons.prems(2) p by (simp add: map_of_eq_None_iff)
  then have ins: "umap_insert (octet v) (ucast (strtoul k)) m = (octet v, ucast (strtoul k)) # m"
    by (simp add: umap_insert_def)
  have "\<forall>v' \<in> snd ` set es. octet v' \<notin> fst ` set ((octet v, ucast (strtoul k)) # m)"
    using Cons.prems p by (auto simp: image_iff)
  with Cons.IH [of "(octet v, ucast (strtoul k)) # m"] Cons.prems(1) ins p show ?case by simp
qed

lemma distinct_keys_file_of: "distinct (map fst (file_of xs))"
  by (auto simp: file_of_def distinct_map inj_on_def comp_def)

lemma entries_of_file:
  assumes "distinct (map fst es)" and "map_of es = map_of (file_of xs)"
  shows "set es = set (file_of xs)" "length es = length xs"
proof -
  show s: "set es = set (file_of xs)"
    using map_of_eq_Some_iff [OF assms(1)] map_of_eq_Some_iff [OF distinct_keys_file_of [of xs]] assms(2)
    by auto
  have "length es = card (set es)" using assms(1) by (metis distinct_card distinct_map)
  also have "\<dots> = length (file_of xs)"
    using s distinct_keys_file_of [of xs] by (metis distinct_card distinct_map)
  finally show "length es = length xs" by (simp add: file_of_def)
qed

text \<open>
  \<open>init\<close> of a fresh object on the file of a dictionary whose strings have different octets gives
  back a dictionary for the same strings: the file's entries, in whatever order LevelDB returns
  them, are all of them and only them.
\<close>

lemma init_rep:
  assumes laws: "leveldb_laws L" and len: "length xs < 2 ^ 32"
    and cont: "db_get L d0 = map_of (file_of xs)" and ent: "db_entries L d0 = Some es"
    and inj: "distinct (map octet xs)"
    and init: "Dictionary_init L octet n (Dictionary_new f d0) = (Inr True, d)"
  shows "dict_rep L octet xs d"
proof -
  note es = entries_of_file [OF leveldb_lawsD(4) [OF laws ent] leveldb_lawsD(5) [OF laws ent, unfolded cont]]
  obtain w where w: "LevelDBWrapper_init L n (LevelDBWrapper_new f d0) = (True, w)"
    using init by (auto simp: Dictionary_init_def Dictionary_new_def split: prod.splits bool.splits)
  have wd: "mLevelDB w" "disk w = d0"
    using init_handle [of L n "LevelDBWrapper_new f d0"] init_disk [of L n "LevelDBWrapper_new f d0"] w
    by simp_all
  have entry: "\<exists>i < length xs. p = (to_string (Suc i), xs ! i)" if "p \<in> set es" for p
    using that es(1) by (auto simp: file_of_def)
  have de: "distinct es" using leveldb_lawsD(4) [OF laws ent] by (simp add: distinct_map)
  have doct: "distinct (map (octet \<circ> snd) es)"
    unfolding distinct_map
  proof (intro conjI de inj_onI)
    fix p q assume "p \<in> set es" "q \<in> set es" "(octet \<circ> snd) p = (octet \<circ> snd) q"
    moreover from this(1,2) obtain i j where "i < length xs" "p = (to_string (Suc i), xs ! i)"
        "j < length xs" "q = (to_string (Suc j), xs ! j)" using entry by metis
    ultimately show "p = q" using inj by (auto simp: distinct_conv_nth)
  qed
  let ?m = "rev (map (\<lambda>(k, v). (octet v, ucast (strtoul k) :: u32)) es)"
  have iter: "LevelDBWrapper_iterate L (\<lambda>k v m. (Inr (), umap_insert (octet v) (ucast (strtoul k)) m)) w []
      = (Inr (), ?m)"
    using init_lookup_length [OF doct, of "[]"] wd ent
    by (simp add: iterate_open iterate_entries_total
        [where f = "\<lambda>k v. umap_insert (octet v) (ucast (strtoul k))"])
  have d: "d = \<lparr>mLastIndex = word_of_nat (length xs), mDictionaryFile = w, mValueKeyReverseLookup = ?m\<rparr>"
    using init w iter es(2) by (simp add: Dictionary_init_def Dictionary_new_def)
  have sm: "set ?m = set (reverse_of octet xs)"
  proof -
    have "set ?m = (\<lambda>(k, v). (octet v, ucast (strtoul k))) ` set (file_of xs)" using es(1) by simp
    also have "\<dots> = set (reverse_of octet xs)"
    proof -
      have "ucast (strtoul (to_string (Suc i))) = (word_of_nat (Suc i) :: u32)" if "i < length xs" for i
      proof -
        have "Suc i < 2 ^ 64" using that len by simp
        then show ?thesis
          by (simp add: strtoul_to_string unsigned_of_nat take_bit_nat_eq_self del: of_nat_Suc)
      qed
      then show ?thesis
        by (auto simp: file_of_def reverse_of_def image_image intro!: image_cong)
    qed
    finally show ?thesis .
  qed
  have dm: "distinct (map fst ?m)"
    using doct by (simp add: rev_map [symmetric] comp_def case_prod_beta distinct_rev)
  have dr: "distinct (map fst (reverse_of octet xs))"
    using inj by (simp add: fst_reverse_of)
  have "map_of ?m = map_of (reverse_of octet xs)"
    using map_of_inject_set [OF dm dr] sm by blast
  with laws len cont wd show ?thesis by (simp add: dict_rep_def d)
qed

lemma dict_rep_empty:
  "dict_rep alist_leveldb octet [] (snd (Dictionary_init alist_leveldb octet 0 (Dictionary_new f [])))"
  by (simp add: dict_rep_def Dictionary_init_def Dictionary_new_def LevelDBWrapper_init_def
      LevelDBWrapper_new_def alist_leveldb_def init_loop_not_ioerror LevelDBWrapper_iterate_def
      file_of_def reverse_of_def) (metis alist_leveldb_def alist_leveldb_laws)

text \<open>Two dictionaries for the same strings answer every query alike.\<close>

lemma same_rep_same_answers:
  assumes "dict_rep L octet xs d" and "dict_rep L octet xs d2"
  shows "Dictionary_getIndexForString L octet s d2 = Dictionary_getIndexForString L octet s d"
    and "Dictionary_getStringForIndex L i d2 = Dictionary_getStringForIndex L i d"
    and "mLastIndex d2 = mLastIndex d"
proof -
  show "Dictionary_getIndexForString L octet s d2 = Dictionary_getIndexForString L octet s d"
  proof (cases "s = []")
    case True
    then show ?thesis by (simp add: Dictionary_getIndexForString_def Dictionary_findIndexForString_def)
  next
    case False
    then show ?thesis
      by (simp add: Dictionary_getIndexForString_def findIndex_rep [OF assms(1)] findIndex_rep [OF assms(2)])
  qed
qed (use assms in \<open>simp_all add: dict_rep_def Dictionary_getStringForIndex_def
    LevelDBWrapper_getValueForKey_def\<close>)

section \<open>Properties\<close>

text \<open>C0: \<open>getOrAddIndexForString\<close> numbers strings: for any run of successful calls on an opened,
  empty dictionary, in which no two different strings have the same octet, two calls give the same
  index exactly when they had the same string, every index is positive, and
  \<open>getStringForIndex\<close> gives the string of the index back.\<close>

theorem Dictionary_numbers_strings:
  assumes "dict_rep L octet [] d" and "inj_on octet (set ss)" and "length ss < 2 ^ 32"
    and "dict_adds L octet ss d = (Inr rs, d')"
  shows "length rs = length ss \<and>
    (\<forall>j < length ss. 0 < unat (rs ! j) \<and> Dictionary_getStringForIndex L (rs ! j) d' = Inr (ss ! j) \<and>
      (\<forall>k < length ss. (rs ! j = rs ! k) = (ss ! j = ss ! k)))"
proof -
  from dict_adds_rep [OF assms(1) _ _ _ assms(4)] assms(2,3) obtain ys where
    ys: "dict_rep L octet ys d'" "distinct ys" "length rs = length ss"
      "\<forall>j < length ss. 0 < unat (rs ! j) \<and> unat (rs ! j) \<le> length ys \<and> ys ! (unat (rs ! j) - 1) = ss ! j"
    by auto
  have get: "Dictionary_getStringForIndex L (rs ! j) d' = Inr (ss ! j)" if "j < length ss" for j
    using getString_rep [OF ys(1)] ys(4) that by simp
  have "(rs ! j = rs ! k) = (ss ! j = ss ! k)" if jk: "j < length ss" "k < length ss" for j k
  proof
    assume "ss ! j = ss ! k"
    with ys(4) jk have "ys ! (unat (rs ! j) - 1) = ys ! (unat (rs ! k) - 1)" by simp
    moreover have "unat (rs ! j) - 1 < length ys" "unat (rs ! k) - 1 < length ys"
      using ys(4) [rule_format, OF jk(1)] ys(4) [rule_format, OF jk(2)] by linarith+
    ultimately have "unat (rs ! j) - 1 = unat (rs ! k) - 1"
      using ys(2) by (simp add: nth_eq_iff_index_eq)
    with ys(4) jk have "unat (rs ! j) = unat (rs ! k)"
      by (metis One_nat_def Suc_pred)
    then show "rs ! j = rs ! k" by (rule unsigned_word_eqI)
  next
    assume "rs ! j = rs ! k"
    with ys(4) jk show "ss ! j = ss ! k" by metis
  qed
  with ys get show ?thesis by blast
qed

lemma Dictionary_numbers_strings_witness:
  "\<exists>d'. dict_adds alist_leveldb id [''a'', ''b'', ''a'']
       (snd (Dictionary_init alist_leveldb id 0 (Dictionary_new ''f'' []))) = (Inr [1, 2, 1], d') \<and>
     Dictionary_getStringForIndex alist_leveldb 2 d' = Inr ''b''"
proof -
  let ?d = "snd (Dictionary_init alist_leveldb id 0 (Dictionary_new ''f'' []))"
  have "fst (dict_adds alist_leveldb id [''a'', ''b'', ''a''] ?d) = Inr [1, 2, 1]" by code_simp
  then obtain d' where run: "dict_adds alist_leveldb id [''a'', ''b'', ''a''] ?d = (Inr [1, 2, 1], d')"
    by (metis prod.collapse)
  from Dictionary_numbers_strings [OF dict_rep_empty _ _ run]
  have "Dictionary_getStringForIndex alist_leveldb ([1, 2, 1] ! 1) d' = Inr ([''a'', ''b'', ''a''] ! 1)"
    by force
  with run show ?thesis by simp
qed

text \<open>C20: A dictionary whose strings have different octets survives the end of the program: a fresh
  object opened on the file that the closed one leaves gives the same index for every string, the
  same string for every index, and goes on with the same last index.\<close>

theorem Dictionary_reopened:
  assumes "dict_rep L octet xs d" and "distinct (map octet xs)"
    and "Dictionary_init L octet n (Dictionary_new f (disk (mDictionaryFile (Dictionary_exit d)))) = (Inr True, d2)"
  shows "mLastIndex d2 = mLastIndex d \<and>
    (\<forall>s. Dictionary_getIndexForString L octet s d2 = Dictionary_getIndexForString L octet s d) \<and>
    (\<forall>i. Dictionary_getStringForIndex L i d2 = Dictionary_getStringForIndex L i d)"
proof -
  let ?d0 = "disk (mDictionaryFile d)"
  have rep: "leveldb_laws L" "length xs < 2 ^ 32" "db_get L ?d0 = map_of (file_of xs)"
    using assms(1) by (simp_all add: dict_rep_def)
  have init: "Dictionary_init L octet n (Dictionary_new f ?d0) = (Inr True, d2)"
    using assms(3) by (simp add: Dictionary_exit_def)
  obtain w where w: "LevelDBWrapper_init L n (LevelDBWrapper_new f ?d0) = (True, w)"
    using init by (auto simp: Dictionary_init_def Dictionary_new_def split: prod.splits bool.splits)
  have "disk w = ?d0" "mLevelDB w"
    using init_disk [of L n "LevelDBWrapper_new f ?d0"] init_handle [of L n "LevelDBWrapper_new f ?d0"] w
    by simp_all
  with init w obtain es where "db_entries L ?d0 = Some es"
    by (cases "db_entries L ?d0")
      (auto simp: Dictionary_init_def Dictionary_new_def LevelDBWrapper_iterate_def)
  from init_rep [OF rep this assms(2) init] have "dict_rep L octet xs d2" .
  from same_rep_same_answers [OF assms(1) this] show ?thesis by blast
qed

lemma Dictionary_reopened_witness:
  "\<exists>d2. Dictionary_init alist_leveldb id 0 (Dictionary_new ''f'' (disk (mDictionaryFile (Dictionary_exit
       (snd (Dictionary_init alist_leveldb id 0 (Dictionary_new ''f'' []))))))) = (Inr True, d2) \<and>
     mLastIndex d2 = mLastIndex (snd (Dictionary_init alist_leveldb id 0 (Dictionary_new ''f'' [])))"
proof -
  let ?d = "snd (Dictionary_init alist_leveldb id 0 (Dictionary_new ''f'' []))"
  have "fst (Dictionary_init alist_leveldb id 0 (Dictionary_new ''f'' (disk (mDictionaryFile (Dictionary_exit ?d)))))
      = Inr True" by code_simp
  then obtain d2 where d2: "Dictionary_init alist_leveldb id 0
      (Dictionary_new ''f'' (disk (mDictionaryFile (Dictionary_exit ?d)))) = (Inr True, d2)"
    by (metis prod.collapse)
  from Dictionary_reopened [OF dict_rep_empty _ d2] d2 show ?thesis by auto
qed

text \<open>A string whose octet another string of the dictionary already has is never found: after
  \<open>getOrAddIndexForString\<close> added it, \<open>hasString\<close> is false and the next call adds it again under a
  second index.\<close>

theorem Dictionary_octet_collision:
  assumes "dict_rep L octet xs d" and "Suc (Suc (length xs)) < 2 ^ 32"
    and "s \<notin> set xs" and "octet s \<in> octet ` set xs"
    and "Dictionary_getOrAddIndexForString L octet s d = (Inr i, d1)"
    and "Dictionary_getOrAddIndexForString L octet s d1 = (Inr j, d2)"
  shows "i \<noteq> j \<and> Dictionary_hasString L octet s d1 = Inr False \<and>
    Dictionary_getStringForIndex L i d2 = Inr s \<and> Dictionary_getStringForIndex L j d2 = Inr s"
proof -
  have len: "Suc (length xs) < 2 ^ 32" "length xs < 2 ^ 32" using assms(2) by simp_all
  obtain w where w: "map_of (reverse_of octet xs) (octet s) = Some w"
    using assms(4) map_of_reverse_of_None [of octet xs "octet s"] by auto
  from map_of_reverse_of [OF w len(2)] obtain k where k: "k < length xs" "unat w = Suc k" by blast
  have ne: "xs ! k \<noteq> s" using k(1) assms(3) by auto
  from getOrAdd_rep [OF assms(1) len(1) assms(5)] w k ne
  have r1: "s \<noteq> []" "unat i = Suc (length xs)" "dict_rep L octet (xs @ [s]) d1" by auto
  have w2: "map_of (reverse_of octet (xs @ [s])) (octet s) = Some w"
    using w keys_reverse_of [of octet xs] by (simp add: reverse_of_snoc map_add_def)
  have r2: "unat j = Suc (Suc (length xs))" "dict_rep L octet ((xs @ [s]) @ [s]) d2"
    using getOrAdd_rep [OF r1(3) _ assms(6)] assms(2) w2 k ne by (auto simp: nth_append)
  have "i \<noteq> j" using r1(2) r2(1) by auto
  moreover have "Dictionary_hasString L octet s d1 = Inr False"
    using findIndex_rep [OF r1(3,1)] w2 k ne by (simp add: Dictionary_hasString_def nth_append)
  moreover have "Dictionary_getStringForIndex L i d2 = Inr s" "Dictionary_getStringForIndex L j d2 = Inr s"
    using getString_rep [OF r2(2), of i] getString_rep [OF r2(2), of j] r1(2) r2(1)
    by (simp_all add: nth_append)
  ultimately show ?thesis by blast
qed

lemma Dictionary_octet_collision_witness:
  "\<exists>d d1 d2 i j. Dictionary_getOrAddIndexForString alist_leveldb (take 1) ''ab'' d = (Inr i, d1) \<and>
     Dictionary_getOrAddIndexForString alist_leveldb (take 1) ''ab'' d1 = (Inr j, d2) \<and> i \<noteq> j"
proof -
  let ?call = "Dictionary_getOrAddIndexForString alist_leveldb (take 1)"
  let ?d0 = "snd (Dictionary_init alist_leveldb (take 1) 0 (Dictionary_new ''f'' []))"
  have calls: "is_ok (fst (?call ''a'' ?d0))"
      "is_ok (fst (?call ''ab'' (snd (?call ''a'' ?d0))))"
      "is_ok (fst (?call ''ab'' (snd (?call ''ab'' (snd (?call ''a'' ?d0))))))"
    by code_simp+
  obtain i0 d where a: "?call ''a'' ?d0 = (Inr i0, d)"
    using calls(1) by (cases "?call ''a'' ?d0") (auto simp: is_ok_def split: sum.splits)
  obtain i d1 where b: "?call ''ab'' d = (Inr i, d1)"
    using calls(2) a by (cases "?call ''ab'' d") (auto simp: is_ok_def split: sum.splits)
  obtain j d2 where c: "?call ''ab'' d1 = (Inr j, d2)"
    using calls(3) a b by (cases "?call ''ab'' d1") (auto simp: is_ok_def split: sum.splits)
  have "dict_rep alist_leveldb (take 1) ([] @ [''a'']) d"
    using getOrAdd_rep [OF dict_rep_empty _ a] by (simp add: reverse_of_def)
  from Dictionary_octet_collision [OF this _ _ _ b c] have "i \<noteq> j" by simp
  with b c show ?thesis by blast
qed

end
