(* ===== verification/IndexFile.thy ===== *)
theory IndexFile
  imports Files
begin

text \<open>
  The index file of a block, \<open>model::files::BlockIndex\<close> (\<open>src/model/files/BlockIndex.h\<close>,
  \<open>src/model/files/BlockIndex.cpp\<close>): a queue of year, month and data blocks that is written to a
  file with a hash behind it, and read back into a receiver (\<open>IBlockIndexReceiver\<close>). libsodium's
  generic hash of the updates, one after the other, is the parameter \<open>ghash\<close>; the values of
  \<open>TransactionType\<close> are those for which \<open>enum_contains\<close> holds.
\<close>

section \<open>Blocks\<close>

text \<open>
  \<open>date::year\<close> is a signed 16 bit and \<open>date::month\<close> an unsigned 8 bit number; the file cursor is a
  signed 32 bit number. The number of address indices is the length of the list, at most 255.
\<close>

datatype IndexBlock =
    YearBlock u16
  | MonthBlock u8
  | DataBlock u64 u32 u8 u32 "u32 list"

definition YEAR_BLOCK :: u8 where "YEAR_BLOCK = 0xad"
definition MONTH_BLOCK :: u8 where "MONTH_BLOCK = 0x50"
definition DATA_BLOCK :: u8 where "DATA_BLOCK = 0xdd"
definition HASH_BLOCK :: u8 where "HASH_BLOCK = 0x17"

lemmas block_type_defs = YEAR_BLOCK_def MONTH_BLOCK_def DATA_BLOCK_def HASH_BLOCK_def

text \<open>
  The constructor takes the number of address indices as an 8 bit number and copies that many.
\<close>

definition DataBlock_new :: "u64 \<Rightarrow> u32 \<Rightarrow> u8 \<Rightarrow> u32 \<Rightarrow> u32 list \<Rightarrow> IndexBlock" where
  "DataBlock_new transactionNr fileCursor transactionType coinCommunityIdIndex addressIndices =
     (let addressIndicesCount = (word_of_nat (length addressIndices) :: u8) in
      DataBlock transactionNr fileCursor transactionType coinCommunityIdIndex
        (take (unat addressIndicesCount) addressIndices))"

fun IndexBlock_size :: "IndexBlock \<Rightarrow> nat" where
  "IndexBlock_size (YearBlock y) = 1 + 2"
| "IndexBlock_size (MonthBlock m) = 1 + 1"
| "IndexBlock_size (DataBlock nr cursor type coin addrs) = 1 + 8 + 4 + 1 + 4 + (1 + 4 * length addrs)"

definition bytes_of_u32s :: "u32 list \<Rightarrow> bytes" where
  "bytes_of_u32s xs = concat (map bytes_of_u32 xs)"

fun u32s_of_bytes :: "nat \<Rightarrow> bytes \<Rightarrow> u32 list" where
  "u32s_of_bytes 0 bs = []"
| "u32s_of_bytes (Suc n) bs = u32_of_bytes (take 4 bs) # u32s_of_bytes n (drop 4 bs)"

text \<open>The writes of \<open>writeIntoFile\<close>, and the updates of \<open>updateHash\<close>, which leaves the type out.\<close>

fun IndexBlock_pieces :: "IndexBlock \<Rightarrow> bytes list" where
  "IndexBlock_pieces (YearBlock y) = [[YEAR_BLOCK], bytes_of_u16 y]"
| "IndexBlock_pieces (MonthBlock m) = [[MONTH_BLOCK], [m]]"
| "IndexBlock_pieces (DataBlock nr cursor type coin addrs) =
     [[DATA_BLOCK], bytes_of_u64 nr, bytes_of_u32 cursor, [type], bytes_of_u32 coin,
      [word_of_nat (length addrs)], bytes_of_u32s addrs]"

definition IndexBlock_writeIntoFile :: "IndexBlock \<Rightarrow> VirtualFile \<Rightarrow> unit result \<times> VirtualFile" where
  "IndexBlock_writeIntoFile b vFile = VirtualFile_writes (IndexBlock_pieces b) vFile"

fun IndexBlock_updateHash :: "IndexBlock \<Rightarrow> bytes \<Rightarrow> bytes" where
  "IndexBlock_updateHash (YearBlock y) state = state @ [YEAR_BLOCK] @ bytes_of_u16 y"
| "IndexBlock_updateHash (MonthBlock m) state = state @ [MONTH_BLOCK] @ [m]"
| "IndexBlock_updateHash (DataBlock nr cursor type coin addrs) state =
     state @ [DATA_BLOCK] @ bytes_of_u64 nr @ bytes_of_u32 cursor @ bytes_of_u32 coin
       @ [word_of_nat (length addrs)] @ bytes_of_u32s addrs"

text \<open>Reading the rest of a block whose type has been read.\<close>

definition DataBlock_readFromFile :: "(u8 \<Rightarrow> bool) \<Rightarrow> VirtualFile \<Rightarrow> IndexBlock result \<times> VirtualFile" where
  "DataBlock_readFromFile enum_contains =
     bindS (VirtualFile_read 8) (\<lambda>nr.
     bindS (VirtualFile_read 4) (\<lambda>cursor.
     bindS (VirtualFile_read 1) (\<lambda>ty.
     if \<not> enum_contains (hd ty) then throwS (Gradido UnknownEnum)
     else
     bindS (VirtualFile_read 4) (\<lambda>coin.
     bindS (VirtualFile_read 1) (\<lambda>cnt.
     bindS (VirtualFile_read (word_of_nat (4 * unat (hd cnt)))) (\<lambda>addrs.
     returnS (DataBlock (u64_of_bytes nr) (u32_of_bytes cursor) (hd ty) (u32_of_bytes coin)
       (u32s_of_bytes (unat (hd cnt)) addrs))))))))"

definition YearBlock_readFromFile :: "VirtualFile \<Rightarrow> IndexBlock result \<times> VirtualFile" where
  "YearBlock_readFromFile = bindS (VirtualFile_read 2) (\<lambda>y. returnS (YearBlock (u16_of_bytes y)))"

definition MonthBlock_readFromFile :: "VirtualFile \<Rightarrow> IndexBlock result \<times> VirtualFile" where
  "MonthBlock_readFromFile = bindS (VirtualFile_read 1) (\<lambda>m. returnS (MonthBlock (hd m)))"

section \<open>The receiver\<close>

text \<open>The arguments of \<open>addIndicesForTransaction\<close>; the year is signed.\<close>

record index_entry =
  ie_transactionType :: u8
  ie_coinCommunityIdIndex :: u32
  ie_year :: int
  ie_month :: nat
  ie_transactionNr :: u64
  ie_fileCursor :: u32
  ie_addressIndices :: "u32 list"

type_synonym 'r receiver = "index_entry \<Rightarrow> 'r \<Rightarrow> bool result \<times> 'r"

text \<open>
  What a reader of the file may rely on: whatever it passes on, accepted or refused with an
  exception, the receiver keeps its invariant.
\<close>

locale block_index_receiver =
  fixes recv :: "'r receiver" and rinv :: "'r \<Rightarrow> bool"
  assumes recv_keeps: "rinv r \<Longrightarrow> rinv (snd (recv e r))"

section \<open>The file\<close>

record BlockIndexFile =
  mFileName_Index :: string
  mDataBlocks :: "IndexBlock list"
  mDataBlockSumSize :: u64

definition pad_zeros :: "nat \<Rightarrow> string \<Rightarrow> string" where
  "pad_zeros n s = replicate (n - length s) (CHR ''0'') @ s"

definition BlockIndexFile_fileName :: "string \<Rightarrow> u32 \<Rightarrow> string" where
  "BlockIndexFile_fileName groupFolderPath blockNr =
     groupFolderPath @ ''/blk'' @ pad_zeros 8 (to_string (unat blockNr)) @ ''.index''"

definition BlockIndexFile_new :: "string \<Rightarrow> u32 \<Rightarrow> node_fs \<Rightarrow> BlockIndexFile \<times> node_fs" where
  "BlockIndexFile_new groupFolderPath blockNr fs =
     (let n = BlockIndexFile_fileName groupFolderPath blockNr in
      (\<lparr>mFileName_Index = n, mDataBlocks = [], mDataBlockSumSize = 0\<rparr>,
       if fs_files fs n = None then fs\<lparr>fs_files := (fs_files fs)(n \<mapsto> [])\<rparr> else fs))"

definition BlockIndexFile_open :: "string \<Rightarrow> BlockIndexFile" where
  "BlockIndexFile_open filename = \<lparr>mFileName_Index = filename, mDataBlocks = [], mDataBlockSumSize = 0\<rparr>"

definition push_block :: "IndexBlock \<Rightarrow> BlockIndexFile \<Rightarrow> BlockIndexFile" where
  "push_block b bi = bi\<lparr>mDataBlocks := mDataBlocks bi @ [b],
     mDataBlockSumSize := mDataBlockSumSize bi + word_of_nat (IndexBlock_size b)\<rparr>"

definition BlockIndexFile_addMonthBlock :: "nat \<Rightarrow> BlockIndexFile \<Rightarrow> BlockIndexFile" where
  "BlockIndexFile_addMonthBlock month = push_block (MonthBlock (word_of_nat month))"

definition BlockIndexFile_addYearBlock :: "int \<Rightarrow> BlockIndexFile \<Rightarrow> BlockIndexFile" where
  "BlockIndexFile_addYearBlock year = push_block (YearBlock (word_of_int year))"

definition BlockIndexFile_addDataBlock ::
    "u64 \<Rightarrow> u32 \<Rightarrow> u8 \<Rightarrow> u32 \<Rightarrow> u32 list \<Rightarrow> BlockIndexFile \<Rightarrow> BlockIndexFile" where
  "BlockIndexFile_addDataBlock transactionNr fileCursor transactionType coin addressIndices =
     push_block (DataBlock_new transactionNr fileCursor transactionType coin addressIndices)"

definition BlockIndexFile_exit :: "BlockIndexFile \<Rightarrow> BlockIndexFile" where
  "BlockIndexFile_exit bi = bi\<lparr>mDataBlocks := [], mDataBlockSumSize := 0\<rparr>"

definition BlockIndexFile_reset ::
    "(nat \<Rightarrow> locks \<Rightarrow> locks) \<Rightarrow> BlockIndexFile \<Rightarrow> node_fs \<Rightarrow> unit result \<times> node_fs" where
  "BlockIndexFile_reset env bi fs =
     (case FileLockManager_tryLockTimeout env (mFileName_Index bi) 100 (fs_locks fs) of
        (Inl e, l) \<Rightarrow> (Inl e, fs\<lparr>fs_locks := l\<rparr>)
      | (Inr _, l) \<Rightarrow>
          (case FileLockManager_unlock (mFileName_Index bi) l of
             (r, l') \<Rightarrow> (r, fs\<lparr>fs_locks := l', fs_files := (fs_files fs)(mFileName_Index bi := None)\<rparr>)))"

text \<open>Every regular file of the folder whose name ends in \<open>.index\<close> is removed.\<close>

definition is_index_file :: "string \<Rightarrow> string \<Rightarrow> bool" where
  "is_index_file folder n =
     (let name = drop (length folder + 1) n in
      take (length folder + 1) n = folder @ ''/'' \<and> CHR ''/'' \<notin> set name \<and>
      6 \<le> length name \<and> drop (length name - 6) name = ''.index'')"

definition BlockIndexFile_removeAllBlockIndexFiles :: "string \<Rightarrow> node_fs \<Rightarrow> node_fs" where
  "BlockIndexFile_removeAllBlockIndexFiles folder fs =
     fs\<lparr>fs_files := (\<lambda>n. if is_index_file folder n then None else fs_files fs n)\<rparr>"

text \<open>The loop of \<open>serialize\<close> and \<open>writeToFile\<close>, which empties the queue.\<close>

fun write_blocks :: "IndexBlock list \<Rightarrow> VirtualFile \<Rightarrow> bytes \<Rightarrow> bytes result \<times> IndexBlock list \<times> VirtualFile" where
  "write_blocks [] vFile state = (Inr state, [], vFile)"
| "write_blocks (b # bs) vFile state =
     (case IndexBlock_writeIntoFile b vFile of
        (Inl e, vFile') \<Rightarrow> (Inl e, bs, vFile')
      | (Inr _, vFile') \<Rightarrow> write_blocks bs vFile' (IndexBlock_updateHash b state))"

definition BlockIndexFile_serialize ::
    "(bytes \<Rightarrow> bytes) \<Rightarrow> (nat \<Rightarrow> u8) \<Rightarrow> BlockIndexFile \<Rightarrow> VirtualFile result \<times> BlockIndexFile" where
  "BlockIndexFile_serialize ghash junk bi =
     (case write_blocks (mDataBlocks bi) (VirtualFile_new junk (mDataBlockSumSize bi + 32 + 1)) [] of
        (Inl e, rest, vFile) \<Rightarrow> (Inl e, bi\<lparr>mDataBlocks := rest\<rparr>)
      | (Inr state, rest, vFile) \<Rightarrow>
          (case VirtualFile_writes [[HASH_BLOCK], ghash state] vFile of
             (Inl e, vFile') \<Rightarrow> (Inl e, bi\<lparr>mDataBlocks := rest\<rparr>)
           | (Inr _, vFile') \<Rightarrow> (Inr vFile', bi\<lparr>mDataBlocks := rest\<rparr>)))"

definition BlockIndexFile_writeToFile ::
    "(nat \<Rightarrow> locks \<Rightarrow> locks) \<Rightarrow> (bytes \<Rightarrow> bytes) \<Rightarrow> (nat \<Rightarrow> u8) \<Rightarrow> BlockIndexFile \<Rightarrow> node_fs
       \<Rightarrow> unit result \<times> BlockIndexFile \<times> node_fs" where
  "BlockIndexFile_writeToFile env ghash junk bi fs =
     (case BlockIndexFile_serialize ghash junk bi of
        (Inl e, bi') \<Rightarrow> (Inl e, bi', fs)
      | (Inr vFile, bi') \<Rightarrow>
          (case VirtualFile_writeToFile env (mFileName_Index bi) vFile fs of
             (r, fs') \<Rightarrow> (r, bi', fs')))"

text \<open>
  The loop of \<open>readFromFile\<close>: the state of the hash, the hash read from the file (memory that
  is not initialised, until a hash block is read), the current month and year, and the receiver.
  \<open>debugFileCursor\<close> is declared inside the loop, so it is 0 at every block. The fuel bounds the
  rounds; \<open>None\<close> is that it ran out.
\<close>

record 'r read_state =
  rs_state :: bytes
  rs_hashFromFile :: bytes
  rs_monthCursor :: nat
  rs_yearCursor :: int
  rs_receiver :: 'r

definition receive_block :: "'r receiver \<Rightarrow> IndexBlock \<Rightarrow> 'r read_state \<Rightarrow> unit result \<times> 'r read_state" where
  "receive_block recv b s0 =
     (let s = s0\<lparr>rs_state := IndexBlock_updateHash b (rs_state s0)\<rparr> in
      case b of
        YearBlock y \<Rightarrow> (Inr (), s\<lparr>rs_yearCursor := sint y\<rparr>)
      | MonthBlock m \<Rightarrow> (Inr (), s\<lparr>rs_monthCursor := unat m\<rparr>)
      | DataBlock nr cursor ty coin addrs \<Rightarrow>
          if sint cursor < 0 then (Inl (Std RuntimeError), s)
          else case recv \<lparr>ie_transactionType = ty, ie_coinCommunityIdIndex = coin,
                 ie_year = rs_yearCursor s, ie_month = rs_monthCursor s, ie_transactionNr = nr,
                 ie_fileCursor = cursor, ie_addressIndices = addrs\<rparr> (rs_receiver s) of
               (Inl e, r) \<Rightarrow> (Inl e, s\<lparr>rs_receiver := r\<rparr>)
             | (Inr _, r) \<Rightarrow> (Inr (), s\<lparr>rs_receiver := r\<rparr>))"

fun read_loop :: "(u8 \<Rightarrow> bool) \<Rightarrow> 'r receiver \<Rightarrow> nat \<Rightarrow> VirtualFile \<Rightarrow> 'r read_state
    \<Rightarrow> (unit result \<times> 'r read_state) option" where
  "read_loop enum_contains recv 0 vFile s = None"
| "read_loop enum_contains recv (Suc fuel) vFile s =
     (if \<not> mCursor vFile < mBufferSize vFile then Some (Inr (), s)
      else case VirtualFile_read 1 vFile of
          (Inl e, v1) \<Rightarrow> Some (Inl e, s)
        | (Inr ty, v1) \<Rightarrow>
            let blockType = hd ty in
            if blockType = DATA_BLOCK \<or> blockType = MONTH_BLOCK \<or> blockType = YEAR_BLOCK then
              (case (if blockType = DATA_BLOCK then DataBlock_readFromFile enum_contains v1
                     else if blockType = MONTH_BLOCK then MonthBlock_readFromFile v1
                     else YearBlock_readFromFile v1) of
                 (Inl e, v2) \<Rightarrow> Some (Inl e, s)
               | (Inr b, v2) \<Rightarrow>
                   (case receive_block recv b s of
                      (Inl e, s') \<Rightarrow> Some (Inl e, s')
                    | (Inr _, s') \<Rightarrow> read_loop enum_contains recv fuel v2 s'))
            else if blockType = HASH_BLOCK then
              (case VirtualFile_read 32 v1 of
                 (Inl e, v2) \<Rightarrow> Some (Inl e, s)
               | (Inr h, v2) \<Rightarrow> Some (Inr (), s\<lparr>rs_hashFromFile := h\<rparr>))
            else Some (Inr (), s))"

definition BlockIndexFile_readFromFile ::
    "(nat \<Rightarrow> locks \<Rightarrow> locks) \<Rightarrow> (bytes \<Rightarrow> bytes) \<Rightarrow> bytes \<Rightarrow> (u8 \<Rightarrow> bool) \<Rightarrow> 'r receiver \<Rightarrow> nat
       \<Rightarrow> BlockIndexFile \<Rightarrow> 'r \<Rightarrow> node_fs \<Rightarrow> (bool result \<times> 'r \<times> node_fs) option" where
  "BlockIndexFile_readFromFile env ghash junk enum_contains recv fuel bi r fs =
     (case VirtualFile_readFromFile env (mFileName_Index bi) fs of
        (Inl e, fs') \<Rightarrow> Some (Inl e, r, fs')
      | (Inr None, fs') \<Rightarrow> Some (Inr False, r, fs')
      | (Inr (Some vFile), fs') \<Rightarrow>
          if mBufferSize vFile = 0 then Some (Inr False, r, fs')
          else (case read_loop enum_contains recv fuel vFile
                  \<lparr>rs_state = [], rs_hashFromFile = junk, rs_monthCursor = 0, rs_yearCursor = 0,
                   rs_receiver = r\<rparr> of
                None \<Rightarrow> None
              | Some (Inl e, s) \<Rightarrow> Some (Inl e, rs_receiver s, fs')
              | Some (Inr _, s) \<Rightarrow>
                  if rs_hashFromFile s \<noteq> ghash (rs_state s)
                  then Some (Inl (Gradido HashMismatch), rs_receiver s, fs')
                  else Some (Inr True, rs_receiver s, fs')))"

section \<open>Reading what was written\<close>

lemma length_bytes_of_u32s [simp]: "length (bytes_of_u32s xs) = 4 * length xs"
  by (induction xs) (simp_all add: bytes_of_u32s_def)

lemma u32s_of_bytes_of [simp]: "u32s_of_bytes (length xs) (bytes_of_u32s xs) = xs"
  by (induction xs) (simp_all add: bytes_of_u32s_def)

definition block_bytes :: "IndexBlock \<Rightarrow> bytes" where
  "block_bytes b = concat (IndexBlock_pieces b)"

text \<open>What the constructors and the enum allow: at most 255 addresses, a known type.\<close>

fun block_valid :: "(u8 \<Rightarrow> bool) \<Rightarrow> IndexBlock \<Rightarrow> bool" where
  "block_valid enum_contains (DataBlock nr cursor ty coin addrs) = (enum_contains ty \<and> length addrs < 256)"
| "block_valid enum_contains _ = True"

lemma DataBlock_new_valid:
  "enum_contains ty \<Longrightarrow> block_valid enum_contains (DataBlock_new nr cursor ty coin addrs)"
  using unsigned_less [of "word_of_nat (length addrs) :: u8", where ?'a = nat]
  by (simp add: DataBlock_new_def Let_def)

lemma length_block_bytes [simp]: "length (block_bytes b) = IndexBlock_size b"
  by (cases b) (simp_all add: block_bytes_def)

lemma IndexBlock_size_pos: "0 < IndexBlock_size b"
  by (cases b) simp_all

definition rest_of_block :: "IndexBlock \<Rightarrow> bytes" where
  "rest_of_block b = tl (block_bytes b)"

definition type_of_block :: "IndexBlock \<Rightarrow> u8" where
  "type_of_block b = hd (block_bytes b)"

lemma type_of_block_simps:
  "type_of_block (YearBlock y) = YEAR_BLOCK" "type_of_block (MonthBlock m) = MONTH_BLOCK"
  "type_of_block (DataBlock nr cursor ty coin addrs) = DATA_BLOCK"
  by (simp_all add: type_of_block_def block_bytes_def)

lemma block_bytes_split: "block_bytes b = type_of_block b # rest_of_block b"
  by (cases b) (simp_all add: type_of_block_def rest_of_block_def block_bytes_def)

lemma read_year_view:
  assumes "length buf < 2 ^ 64" and "k \<le> length buf" and "drop k buf = rest_of_block (YearBlock y) @ tl'"
  shows "YearBlock_readFromFile (vf_view buf k) = (Inr (YearBlock y), vf_view buf (k + 2))"
    "drop (k + 2) buf = tl'" "k + 2 \<le> length buf"
  using read_view_piece [OF assms(1,2), of "bytes_of_u16 y" tl' 2] assms(3)
  by (simp_all add: YearBlock_readFromFile_def rest_of_block_def block_bytes_def)

lemma read_month_view:
  assumes "length buf < 2 ^ 64" and "k \<le> length buf" and "drop k buf = rest_of_block (MonthBlock m) @ tl'"
  shows "MonthBlock_readFromFile (vf_view buf k) = (Inr (MonthBlock m), vf_view buf (k + 1))"
    "drop (k + 1) buf = tl'" "k + 1 \<le> length buf"
  using read_view_piece [OF assms(1,2), of "[m]" tl' 1] assms(3)
  by (simp_all add: MonthBlock_readFromFile_def rest_of_block_def block_bytes_def)

lemma read_data_view:
  assumes "length buf < 2 ^ 64" and "k \<le> length buf"
    and "drop k buf = rest_of_block (DataBlock nr cursor ty coin addrs) @ tl'"
    and "enum_contains ty" and "length addrs < 256"
  shows "DataBlock_readFromFile enum_contains (vf_view buf k)
      = (Inr (DataBlock nr cursor ty coin addrs), vf_view buf (k + 8 + 4 + 1 + 4 + 1 + 4 * length addrs))"
    "drop (k + 8 + 4 + 1 + 4 + 1 + 4 * length addrs) buf = tl'"
    "k + 8 + 4 + 1 + 4 + 1 + 4 * length addrs \<le> length buf"
proof -
  let ?cnt = "word_of_nat (length addrs) :: u8"
  have d0: "drop k buf = bytes_of_u64 nr @ bytes_of_u32 cursor @ [ty] @ bytes_of_u32 coin @
      [?cnt] @ bytes_of_u32s addrs @ tl'"
    using assms(3) by (simp add: rest_of_block_def block_bytes_def)
  note r1 = read_view_piece [OF assms(1,2) d0, of 8, simplified]
  note r2 = read_view_piece [OF assms(1) r1(3) r1(2), of 4, simplified]
  note r3 = read_view_piece [OF assms(1) r2(3), of "[ty]" _ 1, simplified, OF r2(2)]
  note r4 = read_view_piece [OF assms(1) r3(3) r3(2), of 4, simplified]
  note r5 = read_view_piece [OF assms(1) r4(3), of "[?cnt]" _ 1, simplified, OF r4(2)]
  note r6 = read_view_piece [OF assms(1) r5(3) r5(2), of "4 * length addrs", OF length_bytes_of_u32s]
  have cnt: "unat ?cnt = length addrs" using assms(5) by simp
  show "DataBlock_readFromFile enum_contains (vf_view buf k)
      = (Inr (DataBlock nr cursor ty coin addrs), vf_view buf (k + 8 + 4 + 1 + 4 + 1 + 4 * length addrs))"
    using assms(4) r6(1)
    by (simp add: DataBlock_readFromFile_def r1(1) r2(1) r3(1) r4(1) r5(1) cnt add.assoc
        del: of_nat_mult)
  show "drop (k + 8 + 4 + 1 + 4 + 1 + 4 * length addrs) buf = tl'"
    "k + 8 + 4 + 1 + 4 + 1 + 4 * length addrs \<le> length buf"
    using r6(2,3) by (simp_all add: add.assoc)
qed

text \<open>
  One round of the loop at a block of the file, and at the hash.
\<close>

lemma read_loop_block:
  assumes len: "length buf < 2 ^ 64" and k: "k \<le> length buf" and d: "drop k buf = block_bytes b @ tl'"
    and valid: "block_valid enum_contains b"
  shows "read_loop enum_contains recv (Suc fuel) (vf_view buf k) s =
    (case receive_block recv b s of
       (Inl e, s') \<Rightarrow> Some (Inl e, s')
     | (Inr _, s') \<Rightarrow> read_loop enum_contains recv fuel (vf_view buf (k + IndexBlock_size b)) s')"
    and "drop (k + IndexBlock_size b) buf = tl'" and "k + IndexBlock_size b \<le> length buf"
proof -
  have d': "drop k buf = [type_of_block b] @ rest_of_block b @ tl'"
    using d by (simp add: block_bytes_split)
  note r = read_view_piece [OF len k d', of 1, simplified]
  have more: "mCursor (vf_view buf k) < mBufferSize (vf_view buf k)"
    using vf_view_more [OF len k] r(3) by simp
  have "(case b of YearBlock y \<Rightarrow> YearBlock_readFromFile (vf_view buf (Suc k))
      | MonthBlock m \<Rightarrow> MonthBlock_readFromFile (vf_view buf (Suc k))
      | DataBlock nr cursor ty coin addrs \<Rightarrow> DataBlock_readFromFile enum_contains (vf_view buf (Suc k)))
      = (Inr b, vf_view buf (k + IndexBlock_size b)) \<and>
      drop (k + IndexBlock_size b) buf = tl' \<and> k + IndexBlock_size b \<le> length buf"
  proof (cases b)
    case (YearBlock y)
    from read_year_view [OF len r(3)] r(2) YearBlock show ?thesis by simp
  next
    case (MonthBlock m)
    from read_month_view [OF len r(3)] r(2) MonthBlock show ?thesis by simp
  next
    case (DataBlock nr cursor ty coin addrs)
    from read_data_view [OF len r(3), of nr cursor ty coin addrs tl' enum_contains] r(2) DataBlock valid
    show ?thesis by (simp add: add.assoc add.commute add.left_commute)
  qed
  then have rb: "(case b of YearBlock y \<Rightarrow> YearBlock_readFromFile (vf_view buf (Suc k))
      | MonthBlock m \<Rightarrow> MonthBlock_readFromFile (vf_view buf (Suc k))
      | DataBlock nr cursor ty coin addrs \<Rightarrow> DataBlock_readFromFile enum_contains (vf_view buf (Suc k)))
      = (Inr b, vf_view buf (k + IndexBlock_size b))"
    and "drop (k + IndexBlock_size b) buf = tl'" and "k + IndexBlock_size b \<le> length buf" by blast+
  then show "drop (k + IndexBlock_size b) buf = tl'" "k + IndexBlock_size b \<le> length buf" by blast+
  have "VirtualFile_read 1 (vf_view buf k) = (Inr [type_of_block b], vf_view buf (Suc k))"
    using r(1) by simp
  moreover define v2 where "v2 = vf_view buf (k + IndexBlock_size b)"
  ultimately show "read_loop enum_contains recv (Suc fuel) (vf_view buf k) s =
    (case receive_block recv b s of
       (Inl e, s') \<Rightarrow> Some (Inl e, s')
     | (Inr _, s') \<Rightarrow> read_loop enum_contains recv fuel (vf_view buf (k + IndexBlock_size b)) s')"
    unfolding v2_def [symmetric] using more rb [folded v2_def]
    by (cases b) (simp_all add: type_of_block_simps Let_def block_type_defs)
qed

lemma read_loop_hash:
  assumes len: "length buf < 2 ^ 64" and k: "k \<le> length buf" and d: "drop k buf = HASH_BLOCK # h @ tl'"
    and h: "length h = 32"
  shows "read_loop enum_contains recv (Suc fuel) (vf_view buf k) s = Some (Inr (), s\<lparr>rs_hashFromFile := h\<rparr>)"
proof -
  have d': "drop k buf = [HASH_BLOCK] @ h @ tl'" using d by simp
  note r = read_view_piece [OF len k d', of 1, simplified]
  note r2 = read_view_piece [OF len r(3) r(2) h]
  have more: "mCursor (vf_view buf k) < mBufferSize (vf_view buf k)"
    using vf_view_more [OF len k] r(3) by simp
  have "VirtualFile_read 1 (vf_view buf k) = (Inr [HASH_BLOCK], vf_view buf (Suc k))"
    "VirtualFile_read 32 (vf_view buf (Suc k)) = (Inr h, vf_view buf (Suc k + 32))"
    using r(1) r2(1) by simp_all
  with more show ?thesis by (simp add: Let_def block_type_defs)
qed

text \<open>
  The receiver and the reader without a file: the blocks are received one after the other.
\<close>

fun receive_blocks :: "'r receiver \<Rightarrow> IndexBlock list \<Rightarrow> 'r read_state \<Rightarrow> unit result \<times> 'r read_state" where
  "receive_blocks recv [] s = (Inr (), s)"
| "receive_blocks recv (b # bs) s =
     (case receive_block recv b s of
        (Inl e, s') \<Rightarrow> (Inl e, s')
      | (Inr _, s') \<Rightarrow> receive_blocks recv bs s')"

lemma read_loop_blocks:
  assumes "length buf < 2 ^ 64" and "k \<le> length buf"
    and "drop k buf = concat (map block_bytes bs) @ HASH_BLOCK # h @ tl'" and "length h = 32"
    and "\<forall>b \<in> set bs. block_valid enum_contains b" and "length bs < fuel"
  shows "read_loop enum_contains recv fuel (vf_view buf k) s =
    (case receive_blocks recv bs s of
       (Inl e, s') \<Rightarrow> Some (Inl e, s')
     | (Inr _, s') \<Rightarrow> Some (Inr (), s'\<lparr>rs_hashFromFile := h\<rparr>))"
  using assms
proof (induction bs arbitrary: k fuel s)
  case Nil
  then obtain f where "fuel = Suc f" by (cases fuel) auto
  with read_loop_hash [OF Nil.prems(1,2) _ Nil.prems(4), of tl'] Nil.prems(3) show ?case
    by (simp del: read_loop.simps)
next
  case (Cons b bs)
  then obtain f where f: "fuel = Suc f" by (cases fuel) auto
  have d: "drop k buf = block_bytes b @ concat (map block_bytes bs) @ HASH_BLOCK # h @ tl'"
    using Cons.prems(3) by simp
  have valid: "block_valid enum_contains b" using Cons.prems(5) by simp
  note r = read_loop_block [OF Cons.prems(1,2) d valid]
  from Cons.IH [OF Cons.prems(1) r(3) r(2) Cons.prems(4)] Cons.prems(5,6) f
  have ih: "read_loop enum_contains recv f (vf_view buf (k + IndexBlock_size b)) s' =
    (case receive_blocks recv bs s' of
       (Inl e, s') \<Rightarrow> Some (Inl e, s')
     | (Inr _, s') \<Rightarrow> Some (Inr (), s'\<lparr>rs_hashFromFile := h\<rparr>))" for s' by simp
  show ?case unfolding f r(1) by (auto simp: ih split: prod.split sum.split)
qed

text \<open>The bytes that go into the hash of a successful run, and its independence of the receiver.\<close>

definition hash_input :: "IndexBlock list \<Rightarrow> bytes" where
  "hash_input bs = fold IndexBlock_updateHash bs []"

lemma receive_block_state:
  "rs_state (snd (receive_block recv b s)) = IndexBlock_updateHash b (rs_state s)"
  by (auto simp: receive_block_def Let_def split: IndexBlock.split prod.split sum.split)

lemma receive_blocks_state:
  "receive_blocks recv bs s = (Inr u, s') \<Longrightarrow> rs_state s' = fold IndexBlock_updateHash bs (rs_state s)"
proof (induction bs arbitrary: s)
  case Nil
  then show ?case by simp
next
  case (Cons b bs)
  from Cons.prems obtain s1 where "receive_block recv b s = (Inr (), s1)"
    "receive_blocks recv bs s1 = (Inr u, s')" by (auto split: prod.splits sum.splits)
  with Cons.IH receive_block_state [of recv b s] show ?case by simp
qed

text \<open>
  What is passed to the receiver: the data blocks in their order, each with the year and month of
  the last year and month block before it.
\<close>

fun entries_of :: "int \<Rightarrow> nat \<Rightarrow> IndexBlock list \<Rightarrow> index_entry list" where
  "entries_of y m [] = []"
| "entries_of y m (YearBlock y' # bs) = entries_of (sint y') m bs"
| "entries_of y m (MonthBlock m' # bs) = entries_of y (unat m') bs"
| "entries_of y m (DataBlock nr cursor ty coin addrs # bs) =
     \<lparr>ie_transactionType = ty, ie_coinCommunityIdIndex = coin, ie_year = y, ie_month = m,
      ie_transactionNr = nr, ie_fileCursor = cursor, ie_addressIndices = addrs\<rparr> # entries_of y m bs"

fun feed :: "'r receiver \<Rightarrow> index_entry list \<Rightarrow> 'r \<Rightarrow> unit result \<times> 'r" where
  "feed recv [] r = (Inr (), r)"
| "feed recv (e # es) r =
     (case recv e r of (Inl x, r') \<Rightarrow> (Inl x, r') | (Inr _, r') \<Rightarrow> feed recv es r')"

lemma receive_blocks_feed:
  assumes "\<forall>e \<in> set (entries_of (rs_yearCursor s) (rs_monthCursor s) bs). 0 \<le> sint (ie_fileCursor e)"
  shows "fst (receive_blocks recv bs s) =
      fst (feed recv (entries_of (rs_yearCursor s) (rs_monthCursor s) bs) (rs_receiver s)) \<and>
    rs_receiver (snd (receive_blocks recv bs s)) =
      snd (feed recv (entries_of (rs_yearCursor s) (rs_monthCursor s) bs) (rs_receiver s))"
  using assms
proof (induction bs arbitrary: s)
  case Nil
  show ?case by simp
next
  case (Cons b bs)
  show ?case
  proof (cases b)
    case (YearBlock y)
    with Cons.IH [of "s\<lparr>rs_state := IndexBlock_updateHash b (rs_state s), rs_yearCursor := sint y\<rparr>"] Cons.prems
    show ?thesis by (simp add: receive_block_def)
  next
    case (MonthBlock m)
    with Cons.IH [of "s\<lparr>rs_state := IndexBlock_updateHash b (rs_state s), rs_monthCursor := unat m\<rparr>"] Cons.prems
    show ?thesis by (simp add: receive_block_def)
  next
    case (DataBlock nr cursor ty coin addrs)
    let ?e = "\<lparr>ie_transactionType = ty, ie_coinCommunityIdIndex = coin, ie_year = rs_yearCursor s,
      ie_month = rs_monthCursor s, ie_transactionNr = nr, ie_fileCursor = cursor, ie_addressIndices = addrs\<rparr>"
    obtain x r where rv: "recv ?e (rs_receiver s) = (x, r)" by (cases "recv ?e (rs_receiver s)")
    have nn: "\<not> sint cursor < 0" using Cons.prems DataBlock by simp
    show ?thesis
      using DataBlock rv nn Cons.prems
        Cons.IH [of "s\<lparr>rs_state := IndexBlock_updateHash b (rs_state s), rs_receiver := r\<rparr>"]
      by (cases x) (simp_all add: receive_block_def)
  qed
qed

section \<open>Writing\<close>

lemma writes_block:
  "IndexBlock_writeIntoFile b vf = VirtualFile_writes (IndexBlock_pieces b) vf"
  by (simp add: IndexBlock_writeIntoFile_def)

lemma write_blocks_writes:
  "VirtualFile_writes (concat (map IndexBlock_pieces bs)) vf = (Inr (), vf') \<Longrightarrow>
   write_blocks bs vf state = (Inr (fold IndexBlock_updateHash bs state), [], vf')"
proof (induction bs arbitrary: vf state)
  case Nil
  then show ?case by simp
next
  case (Cons b bs)
  from Cons.prems obtain vf1 where "VirtualFile_writes (IndexBlock_pieces b) vf = (Inr (), vf1)"
    "VirtualFile_writes (concat (map IndexBlock_pieces bs)) vf1 = (Inr (), vf')"
    by (auto simp: VirtualFile_writes_append split: prod.splits sum.splits)
  with Cons.IH show ?case by (simp add: writes_block)
qed

text \<open>The sum of the sizes is the number of bytes of the blocks in the queue.\<close>

definition index_file_ok :: "BlockIndexFile \<Rightarrow> bool" where
  "index_file_ok bi = (mDataBlockSumSize bi = word_of_nat (sum_list (map IndexBlock_size (mDataBlocks bi))))"

lemma index_file_ok_new [simp]:
  "index_file_ok (fst (BlockIndexFile_new folder nr fs))" "index_file_ok (BlockIndexFile_open n)"
  "index_file_ok (BlockIndexFile_exit bi)"
  by (simp_all add: index_file_ok_def BlockIndexFile_new_def BlockIndexFile_open_def
      BlockIndexFile_exit_def Let_def)

lemma index_file_ok_push [simp]: "index_file_ok bi \<Longrightarrow> index_file_ok (push_block b bi)"
  by (simp add: index_file_ok_def push_block_def)

lemma concat_pieces: "concat (concat (map IndexBlock_pieces bs)) = concat (map block_bytes bs)"
  by (induction bs) (simp_all add: block_bytes_def)

lemma length_blocks: "length (concat (map block_bytes bs)) = sum_list (map IndexBlock_size bs)"
  by (induction bs) simp_all

text \<open>The content of the file of a queue.\<close>

definition index_content :: "(bytes \<Rightarrow> bytes) \<Rightarrow> IndexBlock list \<Rightarrow> bytes" where
  "index_content ghash bs = concat (map block_bytes bs) @ HASH_BLOCK # ghash (hash_input bs)"

lemma serialize_ok:
  assumes ok: "index_file_ok bi" and small: "sum_list (map IndexBlock_size (mDataBlocks bi)) + 33 < 2 ^ 64"
    and hash: "\<And>x. length (ghash x) = 32"
  shows "\<exists>vf. BlockIndexFile_serialize ghash junk bi = (Inr vf, bi\<lparr>mDataBlocks := []\<rparr>) \<and> vf_ok vf \<and>
    take (unat (mCursor vf)) (the (mBuffer vf)) = index_content ghash (mDataBlocks bi)"
proof -
  let ?bs = "mDataBlocks bi" let ?n = "sum_list (map IndexBlock_size (mDataBlocks bi))"
  let ?vf0 = "VirtualFile_new junk (mDataBlockSumSize bi + 32 + 1)"
  let ?ps = "concat (map IndexBlock_pieces ?bs)"
  have size: "unat (mDataBlockSumSize bi + 32 + 1) = ?n + 33"
  proof -
    have "mDataBlockSumSize bi + 32 + 1 = word_of_nat (?n + 33)"
      using ok by (simp add: index_file_ok_def)
    with small show ?thesis by (metis unat_of_nat_words(1))
  qed
  have sp0: "vf_space ?vf0 = ?n + 33" unfolding vf_space_def VirtualFile_new_simps size by simp
  have lenc: "length (concat ?ps) = ?n" by (simp only: concat_pieces length_blocks)
  obtain vf1 where w1: "VirtualFile_writes ?ps ?vf0 = (Inr (), vf1)" "vf_ok vf1"
      "mBufferSize vf1 = mBufferSize ?vf0" "unat (mCursor vf1) = ?n"
      "take (unat (mCursor vf1)) (the (mBuffer vf1)) = concat ?ps"
    using VirtualFile_writes_ok [of ?vf0 ?ps] sp0 lenc by auto
  have "vf_space vf1 = 33" unfolding vf_space_def w1(3,4) VirtualFile_new_simps size by simp
  then obtain vf2 where w2: "VirtualFile_writes [[HASH_BLOCK], ghash (hash_input ?bs)] vf1 = (Inr (), vf2)"
      "vf_ok vf2" "take (unat (mCursor vf2)) (the (mBuffer vf2)) = concat ?ps @ HASH_BLOCK # ghash (hash_input ?bs)"
    using VirtualFile_writes_ok [OF w1(2), of "[[HASH_BLOCK], ghash (hash_input ?bs)]"] w1(5) hash by auto
  show ?thesis
    using write_blocks_writes [OF w1(1), of "[]"] w2
    by (auto simp: BlockIndexFile_serialize_def hash_input_def index_content_def concat_pieces)
qed


text \<open>Reading a file with blocks, a hash block and anything behind it.\<close>

lemma readFromFile_blocks:
  assumes cont: "fs_files fs (mFileName_Index bi) = Some (concat (map block_bytes bs) @ HASH_BLOCK # h @ tl')"
    and len: "length (concat (map block_bytes bs) @ HASH_BLOCK # h @ tl') < 2 ^ 64" and h: "length h = 32"
    and free: "\<not> held (mFileName_Index bi) (fs_locks fs)"
    and valid: "\<forall>b \<in> set bs. block_valid enum_contains b" and fuel: "length bs < fuel"
    and cursors: "\<forall>e \<in> set (entries_of 0 0 bs). 0 \<le> sint (ie_fileCursor e)"
  shows "\<exists>fs'. BlockIndexFile_readFromFile env ghash junk enum_contains recv fuel bi r fs =
    Some (case feed recv (entries_of 0 0 bs) r of
       (Inl e, r') \<Rightarrow> (Inl e, r', fs')
     | (Inr _, r') \<Rightarrow> (if h = ghash (hash_input bs) then Inr True else Inl (Gradido HashMismatch), r', fs'))"
proof -
  let ?buf = "concat (map block_bytes bs) @ HASH_BLOCK # h @ tl'"
  let ?s = "\<lparr>rs_state = [], rs_hashFromFile = junk, rs_monthCursor = 0, rs_yearCursor = 0, rs_receiver = r\<rparr>"
  have rd: "VirtualFile_readFromFile env (mFileName_Index bi) fs =
      (Inr (Some (vf_view ?buf 0)), fs\<lparr>fs_locks := (fs_locks fs)(mFileName_Index bi \<mapsto> False)\<rparr>)"
    using readFromFile_ok [OF cont _ free, of env] unfolding vf_view_take by simp
  have "unat (mBufferSize (vf_view ?buf 0)) = length ?buf"
    unfolding vf_view_sizes by (rule unat_of_nat_words(1) [OF len])
  then have ne: "mBufferSize (vf_view ?buf 0) \<noteq> 0" by (auto simp: unat_eq_0)
  obtain x s' where rb: "receive_blocks recv bs ?s = (x, s')" by (cases "receive_blocks recv bs ?s")
  have loop: "read_loop enum_contains recv fuel (vf_view ?buf 0) ?s =
    (case (x, s') of (Inl e, s') \<Rightarrow> Some (Inl e, s')
     | (Inr _, s') \<Rightarrow> Some (Inr (), s'\<lparr>rs_hashFromFile := h\<rparr>))"
    using read_loop_blocks [OF len, of 0 bs h tl' enum_contains fuel recv ?s] h valid fuel rb by simp
  have fd: "feed recv (entries_of 0 0 bs) r = (x, rs_receiver s')"
    using receive_blocks_feed [of ?s bs recv] cursors rb by (simp add: prod_eq_iff)
  show ?thesis
  proof (cases x)
    case (Inl e)
    with rd ne loop fd show ?thesis by (simp add: BlockIndexFile_readFromFile_def)
  next
    case (Inr u)
    from receive_blocks_state [OF rb [unfolded Inr]] have "rs_state s' = hash_input bs"
      by (simp add: hash_input_def)
    with rd ne loop fd Inr show ?thesis by (auto simp: BlockIndexFile_readFromFile_def)
  qed
qed

text \<open>Every valid block list fits its own number of bytes, so that is fuel enough.\<close>

lemma length_le_sizes: "length bs \<le> sum_list (map IndexBlock_size bs)"
proof (induction bs)
  case Nil
  show ?case by simp
next
  case (Cons b bs)
  then show ?case using IndexBlock_size_pos [of b] by simp
qed

text \<open>The receiver keeps its invariant in whatever way a read ends.\<close>

context block_index_receiver
begin

lemma receive_block_keeps: "rinv (rs_receiver s) \<Longrightarrow> rinv (rs_receiver (snd (receive_block recv b s)))"
proof (cases b)
  case (DataBlock nr cursor ty coin addrs)
  assume inv: "rinv (rs_receiver s)"
  let ?e = "\<lparr>ie_transactionType = ty, ie_coinCommunityIdIndex = coin, ie_year = rs_yearCursor s,
    ie_month = rs_monthCursor s, ie_transactionNr = nr, ie_fileCursor = cursor, ie_addressIndices = addrs\<rparr>"
  from recv_keeps [OF inv, of ?e] inv DataBlock show ?thesis
    by (cases "recv ?e (rs_receiver s)"; cases "fst (recv ?e (rs_receiver s))")
      (auto simp: receive_block_def Let_def)
qed (simp_all add: receive_block_def)

lemma read_loop_keeps:
  "rinv (rs_receiver s) \<Longrightarrow> read_loop enum_contains recv fuel vf s = Some (x, s') \<Longrightarrow> rinv (rs_receiver s')"
proof (induction fuel arbitrary: vf s)
  case 0
  then show ?case by simp
next
  case (Suc fuel)
  have keep: "rinv (rs_receiver (snd (receive_block recv b s)))" for b
    by (rule receive_block_keeps [OF Suc.prems(1)])
  have step: "rinv (rs_receiver s1)" if "receive_block recv b s = (y, s1)" for b y s1
    using keep [of b] that by simp
  from Suc.prems(2) Suc.prems(1) show ?case
    by (auto simp: Let_def split: if_splits prod.splits sum.splits dest: step intro: Suc.IH)
qed

theorem readFromFile_keeps:
  assumes "rinv r"
    and "BlockIndexFile_readFromFile env ghash junk enum_contains recv fuel bi r fs = Some (x, r', fs')"
  shows "rinv r'"
proof -
  let ?s = "\<lparr>rs_state = [], rs_hashFromFile = junk, rs_monthCursor = 0, rs_yearCursor = 0, rs_receiver = r\<rparr>"
  have keep: "rinv (rs_receiver s')" if "read_loop enum_contains recv fuel vf ?s = Some (y, s')" for vf y s'
    using read_loop_keeps [OF _ that] assms(1) by simp
  from assms(2) show ?thesis
    using assms(1)
    by (auto simp: BlockIndexFile_readFromFile_def dest!: keep
        split: prod.splits sum.splits option.splits if_splits)
qed

end

section \<open>Termination\<close>

text \<open>
  Every round of the loop reads at least one byte, so a fuel of one more than the bytes that are left
  always suffices, on any file.
\<close>

definition advances :: "bytes \<Rightarrow> nat \<Rightarrow> 'a result \<times> VirtualFile \<Rightarrow> bool" where
  "advances buf k res = (case res of (Inl e, v) \<Rightarrow> True
     | (Inr x, v) \<Rightarrow> \<exists>k'. v = vf_view buf k' \<and> k \<le> k' \<and> k' \<le> length buf)"

lemma advances_simps [simp]:
  "advances buf k (Inl e, v)" "advances buf k (throwS e v)"
  "k \<le> length buf \<Longrightarrow> advances buf k (Inr x, vf_view buf k)"
  by (auto simp: advances_def throwS_def returnS_def)

lemma advances_read:
  assumes "length buf < 2 ^ 64" and "k \<le> length buf"
    and "\<And>x k'. k \<le> k' \<Longrightarrow> k' \<le> length buf \<Longrightarrow> advances buf k' (f x (vf_view buf k'))"
  shows "advances buf k (bindS (VirtualFile_read sz) f (vf_view buf k))"
proof (cases "VirtualFile_read sz (vf_view buf k)")
  case (Pair r v)
  show ?thesis
  proof (cases r)
    case (Inl e)
    with Pair show ?thesis by simp
  next
    case (Inr x)
    with Pair have "v = vf_view buf (k + unat sz)" "k + unat sz \<le> length buf"
      using read_view_Inr [OF assms(1,2)] by auto
    with Pair Inr assms(3) [of "k + unat sz" x] show ?thesis
      by (auto simp: advances_def split: prod.splits sum.splits intro: le_trans [of k "k + unat sz"])
  qed
qed

lemma advances_blocks:
  assumes "length buf < 2 ^ 64" and "k \<le> length buf"
  shows "advances buf k (DataBlock_readFromFile enum_contains (vf_view buf k))"
    "advances buf k (MonthBlock_readFromFile (vf_view buf k))"
    "advances buf k (YearBlock_readFromFile (vf_view buf k))"
  using assms
  by (auto simp: DataBlock_readFromFile_def MonthBlock_readFromFile_def YearBlock_readFromFile_def
      intro!: advances_read)

lemma read_loop_terminates:
  assumes "length buf < 2 ^ 64" and "k \<le> length buf" and "length buf - k < fuel"
  shows "read_loop enum_contains recv fuel (vf_view buf k) s \<noteq> None"
  using assms(2,3)
proof (induction fuel arbitrary: k s)
  case 0
  then show ?case by simp
next
  case (Suc fuel)
  show ?case
  proof (cases "k < length buf")
    case False
    with Suc.prems show ?thesis using vf_view_more [OF assms(1), of k] by simp
  next
    case True
    then have r1: "VirtualFile_read 1 (vf_view buf k) = (Inr (take 1 (drop k buf)), vf_view buf (Suc k))"
      using read_view [OF assms(1), of k 1 1] by simp
    let ?ty = "hd (take 1 (drop k buf))"
    let ?rd = "if ?ty = DATA_BLOCK then DataBlock_readFromFile enum_contains (vf_view buf (Suc k))
      else if ?ty = MONTH_BLOCK then MonthBlock_readFromFile (vf_view buf (Suc k))
      else YearBlock_readFromFile (vf_view buf (Suc k))"
    have adv: "advances buf (Suc k) ?rd"
      using advances_blocks [OF assms(1), of "Suc k"] True by simp
    have "read_loop enum_contains recv fuel v2 s' \<noteq> None" if rd: "?rd = (Inr b, v2)" for b v2 s'
    proof -
      from adv rd obtain k' where "v2 = vf_view buf k'" "Suc k \<le> k'" "k' \<le> length buf"
        by (auto simp: advances_def)
      with Suc.IH [of k'] Suc.prems(2) show ?thesis by simp
    qed
    then show ?thesis
      using r1 by (auto simp: Let_def split: prod.split sum.split)
  qed
qed

text \<open>
  Writing a queue and reading the file, by any object with the same file name.
\<close>

lemma write_read:
  assumes ok: "index_file_ok bi" and small: "sum_list (map IndexBlock_size (mDataBlocks bi)) + 33 < 2 ^ 64"
    and hash: "\<And>x. length (ghash x) = 32" and free: "\<not> held (mFileName_Index bi) (fs_locks fs)"
    and valid: "\<forall>b \<in> set (mDataBlocks bi). block_valid enum_contains b"
    and cursors: "\<forall>e \<in> set (entries_of 0 0 (mDataBlocks bi)). 0 \<le> sint (ie_fileCursor e)"
    and fuel: "length (mDataBlocks bi) < fuel" and name: "mFileName_Index bi2 = mFileName_Index bi"
  shows "\<exists>fs' fs''. BlockIndexFile_writeToFile env ghash junk bi fs = (Inr (), bi\<lparr>mDataBlocks := []\<rparr>, fs') \<and>
    fs_files fs' (mFileName_Index bi) \<noteq> None \<and>
    BlockIndexFile_readFromFile env ghash junk' enum_contains recv fuel bi2 r fs' =
      Some (case feed recv (entries_of 0 0 (mDataBlocks bi)) r of
         (Inl e, r') \<Rightarrow> (Inl e, r', fs'')
       | (Inr _, r') \<Rightarrow> (Inr True, r', fs''))"
proof -
  let ?bs = "mDataBlocks bi" let ?bi' = "bi\<lparr>mDataBlocks := []\<rparr>" let ?n = "mFileName_Index bi"
  let ?fs' = "\<lparr>fs_locks = (fs_locks fs)(?n \<mapsto> False), fs_files = (fs_files fs)(?n \<mapsto> index_content ghash ?bs)\<rparr>"
  from serialize_ok [where ghash = ghash and junk = junk, OF ok small hash] obtain vf where
    vf: "BlockIndexFile_serialize ghash junk bi = (Inr vf, ?bi')" "vf_ok vf"
      "take (unat (mCursor vf)) (the (mBuffer vf)) = index_content ghash ?bs" by blast
  have w: "BlockIndexFile_writeToFile env ghash junk bi fs = (Inr (), ?bi', ?fs')"
    using vf(1) writeToFile_ok [OF vf(2) free, of env] vf(3) by (simp add: BlockIndexFile_writeToFile_def)
  have cont: "fs_files ?fs' (mFileName_Index bi2) =
      Some (concat (map block_bytes ?bs) @ HASH_BLOCK # ghash (hash_input ?bs) @ [])"
    by (simp add: index_content_def name)
  have len: "length (concat (map block_bytes ?bs) @ HASH_BLOCK # ghash (hash_input ?bs) @ []) < 2 ^ 64"
    using small hash by (simp add: length_blocks del: length_concat)
  have free': "\<not> held (mFileName_Index bi2) (fs_locks ?fs')" by (simp add: held_def name)
  from readFromFile_blocks [OF cont len hash free' valid, where fuel = fuel and env = env
      and ghash = ghash and junk = junk' and recv = recv and r = r] cursors fuel
  obtain fs'' where
    "BlockIndexFile_readFromFile env ghash junk' enum_contains recv fuel bi2 r ?fs' =
      Some (case feed recv (entries_of 0 0 ?bs) r of
         (Inl e, r') \<Rightarrow> (Inl e, r', fs'')
       | (Inr _, r') \<Rightarrow> (Inr True, r', fs''))"
    by auto
  with w show ?thesis by (intro exI [of _ ?fs'] exI [of _ fs'']) simp
qed

section \<open>Properties\<close>

text \<open>C0: Reading an index file always returns, whatever its bytes are: for a file shorter than 2^64
  bytes the loop of \<open>readFromFile\<close> ends within one more round than the file has bytes, because every
  round reads at least the type byte.\<close>

theorem BlockIndexFile_read_terminates:
  assumes "fs_files fs (mFileName_Index bi) = Some content" and "length content < 2 ^ 64"
  shows "BlockIndexFile_readFromFile env ghash junk enum_contains recv (Suc (length content)) bi r fs \<noteq> None"
proof (cases "content = []")
  case True
  with assms show ?thesis
    by (auto simp: BlockIndexFile_readFromFile_def VirtualFile_readFromFile_def
        split: prod.split sum.split)
next
  case False
  let ?s = "\<lparr>rs_state = [], rs_hashFromFile = junk, rs_monthCursor = 0, rs_yearCursor = 0, rs_receiver = r\<rparr>"
  have "read_loop enum_contains recv (Suc (length content)) (vf_view content 0) ?s \<noteq> None"
    by (rule read_loop_terminates) (use assms in simp_all)
  then obtain x s' where
    loop: "read_loop enum_contains recv (Suc (length content)) (vf_view content 0) ?s = Some (x, s')" by auto
  show ?thesis using assms False
    by (cases x) (auto simp: BlockIndexFile_readFromFile_def VirtualFile_readFromFile_def vf_view_take
        loop simp del: read_loop.simps split: prod.split sum.split)
qed

lemma BlockIndexFile_read_terminates_witness:
  "BlockIndexFile_readFromFile (\<lambda>_ l. l) (\<lambda>_. []) [] (\<lambda>_. True) (\<lambda>e r. (Inr True, r)) 3
     (BlockIndexFile_open ''a'') () \<lparr>fs_locks = Map.empty, fs_files = [''a'' \<mapsto> [1, 2]]\<rparr> \<noteq> None"
  using BlockIndexFile_read_terminates [of "\<lparr>fs_locks = Map.empty, fs_files = [''a'' \<mapsto> [1, 2]]\<rparr>"
      "BlockIndexFile_open ''a''" "[1, 2]" "\<lambda>_ l. l" "\<lambda>_. []" "[]" "\<lambda>_. True" "\<lambda>e r. (Inr True, r)" "()"]
  by (simp add: BlockIndexFile_open_def numeral_3_eq_3 del: read_loop.simps)



text \<open>
  The hash of an index file detects a change of whatever goes into it: a file whose blocks have other
  hash bytes than the stored hash was made of is refused, provided that the hash function tells the
  two inputs apart. But the receiver has got every entry by then.
\<close>

definition drop_types :: "IndexBlock \<Rightarrow> IndexBlock" where
  "drop_types b = (case b of DataBlock nr cursor ty coin addrs \<Rightarrow> DataBlock nr cursor 0 coin addrs | _ \<Rightarrow> b)"

lemma updateHash_drop_types: "IndexBlock_updateHash (drop_types b) = IndexBlock_updateHash b"
  by (cases b) (simp_all add: drop_types_def fun_eq_iff)

lemma hash_input_drop_types: "hash_input (map drop_types bs) = hash_input bs"
proof -
  have "fold IndexBlock_updateHash (map drop_types bs) st = fold IndexBlock_updateHash bs st" for st
    by (induction bs arbitrary: st) (simp_all add: updateHash_drop_types)
  then show ?thesis by (simp add: hash_input_def)
qed

text \<open>The hash of an index file protects everything but the transaction types: when a file holds
  the blocks \<open>bs'\<close> and the hash made for the blocks \<open>bs\<close>, it is accepted if \<open>bs\<close> and \<open>bs'\<close> differ in
  nothing but the types of their transactions, and refused with \<open>HashMismatchException\<close> if the hash
  function separates their hashed bytes. In both cases the receiver has got all entries of \<open>bs'\<close>.\<close>

theorem BlockIndexFile_hash_protects:
  assumes "fs_files fs (mFileName_Index bi) =
      Some (concat (map block_bytes bs') @ HASH_BLOCK # ghash (hash_input bs))"
    and "sum_list (map IndexBlock_size bs') + 33 < 2 ^ 64" and "\<And>x. length (ghash x) = 32"
    and "\<not> held (mFileName_Index bi) (fs_locks fs)"
    and "\<forall>b \<in> set bs'. block_valid enum_contains b"
    and "\<forall>e \<in> set (entries_of 0 0 bs'). 0 \<le> sint (ie_fileCursor e)"
    and "feed recv (entries_of 0 0 bs') r = (Inr (), r')"
  shows "\<exists>x fs'. BlockIndexFile_readFromFile env ghash junk enum_contains recv (Suc (length bs')) bi r fs =
      Some (x, r', fs') \<and>
    (map drop_types bs' = map drop_types bs \<longrightarrow> x = Inr True) \<and>
    (ghash (hash_input bs') \<noteq> ghash (hash_input bs) \<longrightarrow> x = Inl (Gradido HashMismatch))"
proof -
  have cont: "fs_files fs (mFileName_Index bi) =
      Some (concat (map block_bytes bs') @ HASH_BLOCK # ghash (hash_input bs) @ [])"
    using assms(1) by simp
  have len: "length (concat (map block_bytes bs') @ HASH_BLOCK # ghash (hash_input bs) @ []) < 2 ^ 64"
    using assms(2,3) by (simp add: length_blocks del: length_concat)
  have same: "hash_input bs' = hash_input bs" if "map drop_types bs' = map drop_types bs"
    using that hash_input_drop_types by metis
  from readFromFile_blocks [OF cont len assms(3,4,5), where fuel = "Suc (length bs')" and env = env
      and ghash = ghash and junk = junk and recv = recv and r = r] assms(6,7)
  obtain fs' where "BlockIndexFile_readFromFile env ghash junk enum_contains recv (Suc (length bs')) bi r fs =
    Some (if ghash (hash_input bs) = ghash (hash_input bs') then Inr True else Inl (Gradido HashMismatch), r', fs')"
    by auto
  with same show ?thesis by auto
qed

lemma BlockIndexFile_hash_protects_witness:
  "\<exists>fs'. BlockIndexFile_readFromFile (\<lambda>_ l. l) (\<lambda>_. replicate 32 0) [] (\<lambda>_. True) (\<lambda>e r. (Inr True, r)) 2
     (BlockIndexFile_open ''a'') () \<lparr>fs_locks = Map.empty,
       fs_files = [''a'' \<mapsto> block_bytes (DataBlock 1 2 5 0 []) @ HASH_BLOCK # replicate 32 0]\<rparr> = Some (Inr True, (), fs')"
proof -
  have y: "sint (2 :: u32) = 2" by simp
  let ?fs = "\<lparr>fs_locks = Map.empty,
       fs_files = [''a'' \<mapsto> block_bytes (DataBlock 1 2 5 0 []) @ HASH_BLOCK # replicate 32 0]\<rparr>"
  have "\<exists>x fs'. BlockIndexFile_readFromFile (\<lambda>_ l. l) (\<lambda>_. replicate 32 0) [] (\<lambda>_. True)
      (\<lambda>e r. (Inr True, r)) (Suc (length [DataBlock 1 2 5 0 []])) (BlockIndexFile_open ''a'') () ?fs = Some (x, (), fs') \<and>
    (map drop_types [DataBlock 1 2 5 0 []] = map drop_types [DataBlock 1 2 6 0 []] \<longrightarrow> x = Inr True) \<and>
    (replicate 32 (0::u8) \<noteq> replicate 32 0 \<longrightarrow> x = Inl (Gradido HashMismatch))"
    by (rule BlockIndexFile_hash_protects [where bs = "[DataBlock 1 2 6 0 []]" and ghash = "\<lambda>_. replicate 32 0"])
      (use y in \<open>simp_all add: BlockIndexFile_open_def held_def\<close>)
  then show ?thesis by (simp add: drop_types_def numeral_2_eq_2 del: read_loop.simps)
qed

end
