(* ===== verification/BlockFile.thy ===== *)
theory BlockFile
  imports IndexFile Timer
begin

text \<open>
  The block file, \<open>model::files::Block\<close> (\<open>src/model/files/Block.h\<close>, \<open>src/model/files/Block.cpp\<close>):
  transactions one after the other, each behind its size in two bytes, and behind the last one the
  hash of the chain of all of them. libsodium's generic hash is the parameter \<open>ghash\<close>.
\<close>

section \<open>The stream\<close>

text \<open>
  \<open>std::fstream\<close> has one position for reading and writing and the fail bit, after which every
  operation does nothing. The content of the file is the one of the file system; a file that was
  removed behind the stream counts as empty.
\<close>

record stream =
  st_pos :: nat
  st_failed :: bool

record BlockFile =
  mBlockPath :: string
  mBlockNr_File :: u32
  mLastWrittenTransactionNr :: u64
  mLastUsed :: int
  mBlockFile :: "stream option"
  mCurrentFileSize :: u32

type_synonym bf_state = "BlockFile \<times> node_fs"

text \<open>
  What the surroundings of a call do: other threads at the file locks, whether the file can be opened,
  the time.
\<close>

record block_io =
  io_env :: "nat \<Rightarrow> locks \<Rightarrow> locks"
  io_open :: bool
  io_now :: int

definition bf_content :: "bf_state \<Rightarrow> bytes" where
  "bf_content s = (case fs_files (snd s) (mBlockPath (fst s)) of None \<Rightarrow> [] | Some c \<Rightarrow> c)"

definition bf_stream :: "bf_state \<Rightarrow> stream" where
  "bf_stream s = (case mBlockFile (fst s) of None \<Rightarrow> \<lparr>st_pos = 0, st_failed = True\<rparr> | Some st \<Rightarrow> st)"

definition bf_seek :: "nat \<Rightarrow> bf_state \<Rightarrow> bf_state" where
  "bf_seek n s = (if st_failed (bf_stream s) then s
     else ((fst s)\<lparr>mBlockFile := Some ((bf_stream s)\<lparr>st_pos := n\<rparr>)\<rparr>, snd s))"

definition bf_read :: "nat \<Rightarrow> bf_state \<Rightarrow> bytes \<times> bf_state" where
  "bf_read n s = (if st_failed (bf_stream s) then ([], s)
     else let got = take n (drop (st_pos (bf_stream s)) (bf_content s)) in
       (got, (fst s)\<lparr>mBlockFile := Some \<lparr>st_pos = st_pos (bf_stream s) + length got,
                                       st_failed = length got < n\<rparr>\<rparr>, snd s))"

definition bf_write :: "bytes \<Rightarrow> bf_state \<Rightarrow> bf_state" where
  "bf_write bs s = (if st_failed (bf_stream s) then s
     else let p = st_pos (bf_stream s); c = bf_content s in
       ((fst s)\<lparr>mBlockFile := Some \<lparr>st_pos = p + length bs, st_failed = False\<rparr>\<rparr>,
        (snd s)\<lparr>fs_files := (fs_files (snd s))(mBlockPath (fst s) \<mapsto>
           take p c @ replicate (p - length c) 0 @ bs @ drop (p + length bs) c)\<rparr>))"

text \<open>\<open>tellg\<close> and \<open>tellp\<close>: -1 once the stream failed.\<close>

definition bf_tell :: "bf_state \<Rightarrow> int" where
  "bf_tell s = (if st_failed (bf_stream s) then - 1 else int (st_pos (bf_stream s)))"

definition bf_lock :: "block_io \<Rightarrow> bf_state \<Rightarrow> bool result \<times> bf_state" where
  "bf_lock io s = (case FileLockManager_tryLockTimeout (io_env io) (mBlockPath (fst s)) 100 (fs_locks (snd s)) of
     (r, l) \<Rightarrow> (r, fst s, (snd s)\<lparr>fs_locks := l\<rparr>))"

definition bf_unlock :: "bf_state \<Rightarrow> unit result \<times> bf_state" where
  "bf_unlock s = (case FileLockManager_unlock (mBlockPath (fst s)) (fs_locks (snd s)) of
     (r, l) \<Rightarrow> (r, fst s, (snd s)\<lparr>fs_locks := l\<rparr>))"

text \<open>The bytes of an array into which fewer bytes were read than it has.\<close>

definition read_into :: "bytes \<Rightarrow> bytes \<Rightarrow> bytes" where
  "read_into old got = got @ drop (length got) old"

section \<open>Operations\<close>

definition BlockFile_getOpenFile :: "block_io \<Rightarrow> bf_state \<Rightarrow> unit result \<times> bf_state" where
  "BlockFile_getOpenFile io s =
     (case mBlockFile (fst s) of
        Some st \<Rightarrow> (Inr (), (fst s)\<lparr>mLastUsed := io_now io\<rparr>, snd s)
      | None \<Rightarrow>
          if \<not> io_open io then
            (Inl (Gradido OpenFile), (fst s)\<lparr>mBlockFile := Some \<lparr>st_pos = 0, st_failed = True\<rparr>\<rparr>, snd s)
          else
            let fs = (if fs_files (snd s) (mBlockPath (fst s)) = None
                      then (snd s)\<lparr>fs_files := (fs_files (snd s))(mBlockPath (fst s) \<mapsto> [])\<rparr> else snd s);
                telled = length (bf_content s);
                b = (fst s)\<lparr>mBlockFile := Some \<lparr>st_pos = telled, st_failed = False\<rparr>\<rparr>;
                b' = (if telled > 32 then b\<lparr>mCurrentFileSize := word_of_nat telled - 32\<rparr> else b)
            in (Inr (), b'\<lparr>mLastUsed := io_now io\<rparr>, fs))"

definition BlockFile_fileName :: "string \<Rightarrow> u32 \<Rightarrow> string" where
  "BlockFile_fileName groupFolderPath blockNr =
     groupFolderPath @ ''/blk'' @ pad_zeros 8 (to_string (unat blockNr)) @ ''.dat''"

definition BlockFile_new :: "block_io \<Rightarrow> string \<Rightarrow> u32 \<Rightarrow> node_fs \<Rightarrow> unit result \<times> bf_state" where
  "BlockFile_new io groupFolderPath blockNr fs =
     BlockFile_getOpenFile io (\<lparr>mBlockPath = BlockFile_fileName groupFolderPath blockNr, mBlockNr_File = blockNr,
       mLastWrittenTransactionNr = 0, mLastUsed = 0, mBlockFile = None, mCurrentFileSize = 0\<rparr>, fs)"

text \<open>The timer closes the stream of a file that was not used for longer than the cache timeout.\<close>

definition BlockFile_callFromTimer :: "bool \<Rightarrow> int \<Rightarrow> int \<Rightarrow> BlockFile \<Rightarrow> TimerReturn \<times> BlockFile" where
  "BlockFile_callFromTimer locked now cacheTimeout b =
     (if locked then (GO_ON, b)
      else if now - mLastUsed b > cacheTimeout then (GO_ON, b\<lparr>mBlockFile := None\<rparr>)
      else (GO_ON, b))"

definition minimalFileSize :: nat where "minimalFileSize = 2 + 25"

definition BlockFile_readLine :: "block_io \<Rightarrow> bytes \<Rightarrow> u32 \<Rightarrow> bf_state \<Rightarrow> bytes result \<times> bf_state" where
  "BlockFile_readLine io junk startReading =
     bindS (BlockFile_getOpenFile io) (\<lambda>_ s.
       if st_failed (bf_stream s) then (Inl (Std RuntimeError), s)
       else if unat (mCurrentFileSize (fst s)) \<le> minimalFileSize then (Inl (Gradido EndReaching), s)
       else if unat startReading > unat (mCurrentFileSize (fst s)) - minimalFileSize then
         (Inl (Gradido EndReaching), s)
       else bindS (bf_lock io) (\<lambda>_ s1.
         let s2 = (if bf_tell s1 \<noteq> int (unat startReading) then bf_seek (unat startReading) s1 else s1) in
         case bf_read 2 s2 of (got, s3) \<Rightarrow>
         let transactionSize = u16_of_bytes (read_into [0, 0] got) in
         if startReading + ucast transactionSize > mCurrentFileSize (fst s3) then
           bindS bf_unlock (\<lambda>_. throwS (Gradido EndReaching)) s3
         else if unat transactionSize < minimalFileSize then
           bindS bf_unlock (\<lambda>_. throwS (Gradido InvalidReadBlockSize)) s3
         else case bf_read (unat transactionSize) s3 of (line, s4) \<Rightarrow>
           bindS bf_unlock (\<lambda>_. returnS (read_into (take (unat transactionSize) junk) line)) s4) s)"

text \<open>One step of the chain: the hash of the hash so far and the line.\<close>

definition calculateOneHashStep :: "(bytes \<Rightarrow> bytes) \<Rightarrow> bytes \<Rightarrow> bytes \<Rightarrow> bytes" where
  "calculateOneHashStep ghash hash data = ghash (hash @ data)"

text \<open>
  The loop of \<open>appendLines\<close>. \<open>tellp\<close> is narrowed to 32 bits; a line longer than 65535 bytes fails the
  assertion.
\<close>

fun append_loop :: "(bytes \<Rightarrow> bytes) \<Rightarrow> bytes list \<Rightarrow> u32 list \<Rightarrow> bytes \<Rightarrow> bf_state
    \<Rightarrow> (u32 list \<times> bytes) result \<times> bf_state" where
  "append_loop ghash [] positions hash s = (Inr (positions, hash), s)"
| "append_loop ghash (line # lines) positions hash s =
     (let cursorPos = (word_of_int (bf_tell s) :: u32);
          size = (word_of_nat (length line) :: u16)
      in if unat size \<noteq> length line then (Inl AssertFailed, s)
         else let s1 = bf_write line (bf_write (bytes_of_u16 size) s);
                  s2 = ((fst s1)\<lparr>mCurrentFileSize := mCurrentFileSize (fst s1) + (2 + ucast size)\<rparr>, snd s1)
              in append_loop ghash lines (positions @ [cursorPos]) (calculateOneHashStep ghash hash line) s2)"

text \<open>The hash at the end of the file, or zeros when there are no lines yet.\<close>

definition read_current_hash :: "bf_state \<Rightarrow> bytes \<times> bf_state" where
  "read_current_hash s =
     (if mCurrentFileSize (fst s) > 0 then
        (case bf_read 32 (bf_seek (unat (mCurrentFileSize (fst s))) s) of
           (got, s') \<Rightarrow> (read_into (replicate 32 0) got, s'))
      else (replicate 32 0, s))"

definition BlockFile_appendLines ::
    "block_io \<Rightarrow> (bytes \<Rightarrow> bytes) \<Rightarrow> bytes list \<Rightarrow> bf_state \<Rightarrow> u32 list result \<times> bf_state" where
  "BlockFile_appendLines io ghash lines =
     bindS (bf_lock io) (\<lambda>_.
     bindS (BlockFile_getOpenFile io) (\<lambda>_ s.
       case read_current_hash s of (hash, s1) \<Rightarrow>
       bindS (append_loop ghash lines [] hash) (\<lambda>(positions, hash') s2.
         bindS bf_unlock (\<lambda>_. returnS positions) (bf_write hash' s2))
         (bf_seek (unat (mCurrentFileSize (fst s1))) s1)))"

definition BlockFile_appendLine ::
    "block_io \<Rightarrow> (bytes \<Rightarrow> bytes) \<Rightarrow> bytes \<Rightarrow> bf_state \<Rightarrow> u32 result \<times> bf_state" where
  "BlockFile_appendLine io ghash line =
     bindS (BlockFile_appendLines io ghash [line]) (\<lambda>positions. returnS (hd positions))"

text \<open>
  \<open>calculateHash\<close> over the bytes of the file without the hash: \<open>block0\<close> is the content of a fresh
  \<open>memory::Block\<close>. Reading behind the buffer is undefined.
\<close>

function hash_lines :: "(bytes \<Rightarrow> bytes) \<Rightarrow> bytes \<Rightarrow> bytes \<Rightarrow> bytes result" where
  "hash_lines ghash bs hash =
     (if bs = [] then Inr hash
      else if length bs < 2 then Inl UndefinedBehaviour
      else let size = unat (u16_of_bytes (take 2 bs)) in
        if length bs < 2 + size then Inl UndefinedBehaviour
        else hash_lines ghash (drop (2 + size) bs)
               (calculateOneHashStep ghash hash (take size (drop 2 bs))))"
  by pat_completeness auto
termination
  by (relation "measure (\<lambda>(ghash, bs, hash). length bs)") auto

declare hash_lines.simps [simp del]

definition BlockFile_calculateHash ::
    "block_io \<Rightarrow> (bytes \<Rightarrow> bytes) \<Rightarrow> bytes \<Rightarrow> bytes \<Rightarrow> bf_state \<Rightarrow> bytes option result \<times> bf_state" where
  "BlockFile_calculateHash io ghash junk block0 s0 =
     (if mCurrentFileSize (fst s0) = 0 then (Inr None, s0)
      else bindS (bf_lock io) (\<lambda>_.
        let n = unat (mCurrentFileSize (fst s0)) in
        bindS (BlockFile_getOpenFile io) (\<lambda>_ s.
          case bf_read n (bf_seek 0 s) of (got, s1) \<Rightarrow>
          bindS bf_unlock (\<lambda>_ s2.
            (map_sum id Some (hash_lines ghash (read_into (take n junk) got) block0), s2)) s1)) s0)"

definition BlockFile_validateHash ::
    "block_io \<Rightarrow> (bytes \<Rightarrow> bytes) \<Rightarrow> bytes \<Rightarrow> bytes \<Rightarrow> bf_state \<Rightarrow> bool result \<times> bf_state" where
  "BlockFile_validateHash io ghash junk block0 =
     bindS (bf_lock io) (\<lambda>_.
     bindS (BlockFile_getOpenFile io) (\<lambda>_ s.
       case bf_read 32 (bf_seek (unat (mCurrentFileSize (fst s))) s) of (got, s1) \<Rightarrow>
       let hash = read_into (take 32 junk) got in
       bindS bf_unlock (\<lambda>_.
       bindS (BlockFile_calculateHash io ghash junk block0) (\<lambda>hash2.
         case hash2 of None \<Rightarrow> throwS UndefinedBehaviour | Some h \<Rightarrow> returnS (hash = h))) s1))"

text \<open>
  The task that \<open>rebuildBlockIndex\<close> fills: lines with their cursors, and the entries its \<open>run\<close> makes
  of them.
\<close>

record 'e RebuildBlockIndexTask =
  mPendingFileCursorLine :: "(u32 \<times> bytes) list"
  mTransactionEntries :: "'e list"

definition RebuildBlockIndexTask_new :: "'e RebuildBlockIndexTask" where
  "RebuildBlockIndexTask_new = \<lparr>mPendingFileCursorLine = [], mTransactionEntries = []\<rparr>"

definition RebuildBlockIndexTask_pushLine ::
    "u32 \<Rightarrow> bytes \<Rightarrow> 'e RebuildBlockIndexTask \<Rightarrow> 'e RebuildBlockIndexTask" where
  "RebuildBlockIndexTask_pushLine fileCursor line t =
     t\<lparr>mPendingFileCursorLine := mPendingFileCursorLine t @ [(fileCursor, line)]\<rparr>"

fun run_pending :: "(bytes \<Rightarrow> 'ct option result) \<Rightarrow> ('ct \<Rightarrow> u32 \<Rightarrow> 'e result) \<Rightarrow> (u32 \<times> bytes) list \<Rightarrow> 'e list
    \<Rightarrow> unit result \<times> 'e RebuildBlockIndexTask" where
  "run_pending deser mkEntry [] es = (Inr (), \<lparr>mPendingFileCursorLine = [], mTransactionEntries = es\<rparr>)"
| "run_pending deser mkEntry ((cursor, line) # ps) es =
     (case deser line of
        Inl e \<Rightarrow> (Inl e, \<lparr>mPendingFileCursorLine = ps, mTransactionEntries = es\<rparr>)
      | Inr None \<Rightarrow> (Inl (Gradido InvalidGradidoTransaction),
                     \<lparr>mPendingFileCursorLine = ps, mTransactionEntries = es\<rparr>)
      | Inr (Some ct) \<Rightarrow>
          (case mkEntry ct cursor of
             Inl e \<Rightarrow> (Inl e, \<lparr>mPendingFileCursorLine = ps, mTransactionEntries = es\<rparr>)
           | Inr entry \<Rightarrow> run_pending deser mkEntry ps (es @ [entry])))"

definition RebuildBlockIndexTask_run ::
    "(bytes \<Rightarrow> 'ct option result) \<Rightarrow> ('ct \<Rightarrow> u32 \<Rightarrow> 'e result) \<Rightarrow> 'e RebuildBlockIndexTask
       \<Rightarrow> unit result \<times> 'e RebuildBlockIndexTask" where
  "RebuildBlockIndexTask_run deser mkEntry t =
     run_pending deser mkEntry (mPendingFileCursorLine t) (mTransactionEntries t)"

text \<open>The loop of \<open>rebuildBlockIndex\<close>; \<open>None\<close> is that the fuel ran out.\<close>

fun rebuild_loop :: "block_io \<Rightarrow> (bytes \<Rightarrow> bytes) \<Rightarrow> bytes \<Rightarrow> nat \<Rightarrow> u32 \<Rightarrow> bytes \<Rightarrow> 'e RebuildBlockIndexTask \<Rightarrow> bf_state
    \<Rightarrow> ((bytes \<times> 'e RebuildBlockIndexTask) result \<times> bf_state) option" where
  "rebuild_loop io ghash junk 0 fileCursor hash t s = None"
| "rebuild_loop io ghash junk (Suc fuel) fileCursor hash t s =
     (if \<not> (scast fileCursor + 2 + 25 :: u64) \<le> ucast (mCurrentFileSize (fst s)) then Some (Inr (hash, t), s)
      else case BlockFile_readLine io junk fileCursor s of
          (Inl e, s') \<Rightarrow> Some (Inl e, s')
        | (Inr line, s') \<Rightarrow>
            rebuild_loop io ghash junk fuel (fileCursor + (word_of_nat (length line) + 2))
              (calculateOneHashStep ghash hash line) (RebuildBlockIndexTask_pushLine fileCursor line t) s')"

definition BlockFile_rebuildBlockIndex ::
    "block_io \<Rightarrow> (bytes \<Rightarrow> bytes) \<Rightarrow> bytes \<Rightarrow> nat \<Rightarrow> bf_state
       \<Rightarrow> ('e RebuildBlockIndexTask result \<times> bf_state) option" where
  "BlockFile_rebuildBlockIndex io ghash junk fuel s0 =
     (case rebuild_loop io ghash junk fuel 0 (replicate 32 0) RebuildBlockIndexTask_new s0 of
        None \<Rightarrow> None
      | Some (Inl e, s) \<Rightarrow> Some (Inl e, s)
      | Some (Inr (hash, t), s) \<Rightarrow>
          Some (bindS (bf_lock io) (\<lambda>_.
            bindS (BlockFile_getOpenFile io) (\<lambda>_ s1.
              case bf_read 32 s1 of (got, s2) \<Rightarrow>
              bindS bf_unlock (\<lambda>_.
                if hash = read_into (take 32 junk) got then returnS t
                else throwS (Gradido HashMismatch)) s2)) s))"

text \<open>
  The largest block number of the names in a folder: the names \<open>blk*.dat\<close>, whatever stands between,
  read by \<open>stoi\<close>; a negative one counts as a large unsigned one.
\<close>

definition dat_number :: "string \<Rightarrow> string option" where
  "dat_number name =
     (if 7 \<le> length name \<and> take 3 name = ''blk'' \<and> drop (length name - 4) name = ''.dat''
      then Some (take (length name - 7) (drop 3 name)) else None)"

fun BlockFile_findLastBlockFileInFolder :: "string list \<Rightarrow> u32 \<Rightarrow> u32 result" where
  "BlockFile_findLastBlockFileInFolder [] largestBlockNr = Inr largestBlockNr"
| "BlockFile_findLastBlockFileInFolder (name # names) largestBlockNr =
     (case dat_number name of
        None \<Rightarrow> BlockFile_findLastBlockFileInFolder names largestBlockNr
      | Some n \<Rightarrow>
          (case stoi n of
             Inl e \<Rightarrow> Inl e
           | Inr blockNr \<Rightarrow> BlockFile_findLastBlockFileInFolder names
               (if word_of_int blockNr > largestBlockNr then word_of_int blockNr else largestBlockNr)))"

text \<open>\<open>BlockAppendLineTask\<close> appends its lines when it runs and keeps their cursors.\<close>

definition BlockAppendLineTask_run ::
    "block_io \<Rightarrow> (bytes \<Rightarrow> bytes) \<Rightarrow> bytes list \<Rightarrow> bf_state \<Rightarrow> u32 list result \<times> bf_state" where
  "BlockAppendLineTask_run io ghash mLines s = BlockFile_appendLines io ghash mLines s"

section \<open>An open stream on a known content\<close>

text \<open>
  As for \<open>VirtualFile\<close>: an open stream at position \<open>p\<close> of the content \<open>c\<close>.
\<close>

definition bf_view :: "BlockFile \<Rightarrow> node_fs \<Rightarrow> bytes \<Rightarrow> nat \<Rightarrow> bf_state" where
  "bf_view b fs c p = (b\<lparr>mBlockFile := Some \<lparr>st_pos = p, st_failed = False\<rparr>\<rparr>,
     fs\<lparr>fs_files := (fs_files fs)(mBlockPath b \<mapsto> c)\<rparr>)"

lemma bf_view_simps [simp]:
  "bf_content (bf_view b fs c p) = c"
  "bf_stream (bf_view b fs c p) = \<lparr>st_pos = p, st_failed = False\<rparr>"
  "mCurrentFileSize (fst (bf_view b fs c p)) = mCurrentFileSize b"
  "mBlockPath (fst (bf_view b fs c p)) = mBlockPath b"
  "fs_locks (snd (bf_view b fs c p)) = fs_locks fs"
  "bf_seek n (bf_view b fs c p) = bf_view b fs c n"
  "bf_tell (bf_view b fs c p) = int p"
  by (simp_all add: bf_view_def bf_content_def bf_stream_def bf_seek_def bf_tell_def)

lemma bf_read_view:
  "p + n \<le> length c \<Longrightarrow> bf_read n (bf_view b fs c p) = (take n (drop p c), bf_view b fs c (p + n))"
  by (simp add: bf_read_def) (simp add: bf_view_def)

lemma bf_write_view:
  "p \<le> length c \<Longrightarrow>
   bf_write bs (bf_view b fs c p) = bf_view b fs (take p c @ bs @ drop (p + length bs) c) (p + length bs)"
  by (simp add: bf_write_def) (simp add: bf_view_def)

lemma bf_lock_view:
  "\<not> held (mBlockPath b) (fs_locks fs) \<Longrightarrow> bf_lock io (bf_view b fs c p) =
     (Inr True, bf_view b (fs\<lparr>fs_locks := (fs_locks fs)(mBlockPath b \<mapsto> True)\<rparr>) c p)"
  using tryLockTimeout_free [of "mBlockPath b" "fs_locks fs" 100 "io_env io"]
  by (simp add: bf_lock_def) (simp add: bf_view_def)

lemma bf_unlock_view:
  "fs_locks fs (mBlockPath b) \<noteq> None \<Longrightarrow> bf_unlock (bf_view b fs c p) =
     (Inr (), bf_view b (fs\<lparr>fs_locks := (fs_locks fs)(mBlockPath b \<mapsto> False)\<rparr>) c p)"
  by (auto simp: bf_unlock_def FileLockManager_unlock_def) (simp add: bf_view_def)

lemma getOpenFile_view:
  "BlockFile_getOpenFile io (bf_view b fs c p) = (Inr (), bf_view (b\<lparr>mLastUsed := io_now io\<rparr>) fs c p)"
  by (simp add: BlockFile_getOpenFile_def bf_view_def)

section \<open>The lines a block file stands for\<close>

definition enc_line :: "bytes \<Rightarrow> bytes" where
  "enc_line l = bytes_of_u16 (word_of_nat (length l)) @ l"

definition enc_lines :: "bytes list \<Rightarrow> bytes" where
  "enc_lines ls = concat (map enc_line ls)"

definition chain_from :: "(bytes \<Rightarrow> bytes) \<Rightarrow> bytes \<Rightarrow> bytes list \<Rightarrow> bytes" where
  "chain_from ghash h ls = fold (\<lambda>l h. calculateOneHashStep ghash h l) ls h"

abbreviation chain :: "(bytes \<Rightarrow> bytes) \<Rightarrow> bytes list \<Rightarrow> bytes" where
  "chain ghash ls \<equiv> chain_from ghash (replicate 32 0) ls"

text \<open>Where the i-th line begins.\<close>

definition cursor_of :: "bytes list \<Rightarrow> nat \<Rightarrow> nat" where
  "cursor_of ls i = length (enc_lines (take i ls))"

lemma length_enc_line [simp]: "length (enc_line l) = 2 + length l"
  by (simp add: enc_line_def)

lemma enc_line_not_Nil [simp]: "enc_line l \<noteq> []"
  by (simp add: enc_line_def bytes_of_u16_def numeral_2_eq_2)

lemma enc_lines_simps [simp]:
  "enc_lines [] = []" "enc_lines (l # ls) = enc_line l @ enc_lines ls"
  "enc_lines (ls @ ms) = enc_lines ls @ enc_lines ms"
  by (simp_all add: enc_lines_def)

lemma chain_from_simps [simp]:
  "chain_from ghash h [] = h" "chain_from ghash h (l # ls) = chain_from ghash (calculateOneHashStep ghash h l) ls"
  "chain_from ghash h (ls @ ms) = chain_from ghash (chain_from ghash h ls) ms"
  by (simp_all add: chain_from_def)

lemma enc_lines_split:
  assumes "i < length ls"
  shows "enc_lines ls = enc_lines (take i ls) @ enc_line (ls ! i) @ enc_lines (drop (Suc i) ls)"
proof -
  have "ls = take i ls @ ls ! i # drop (Suc i) ls" using assms by (rule id_take_nth_drop)
  then have "enc_lines ls = enc_lines (take i ls @ ls ! i # drop (Suc i) ls)" by simp
  then show ?thesis by simp
qed

lemma cursor_of_Suc: "i < length ls \<Longrightarrow> cursor_of ls (Suc i) = cursor_of ls i + 2 + length (ls ! i)"
  by (simp add: cursor_of_def take_Suc_conv_app_nth)

lemma cursor_of_bound: "i < length ls \<Longrightarrow> cursor_of ls i + 2 + length (ls ! i) \<le> length (enc_lines ls)"
  using enc_lines_split [of i ls] by (simp add: cursor_of_def)

text \<open>
  The content of the file of the lines \<open>ls\<close> with the hash \<open>h\<close> behind them, or nothing at all yet.
  The sizes fit the signed cursors of the node.
\<close>

definition rep_view :: "bytes list \<Rightarrow> bytes \<Rightarrow> BlockFile \<Rightarrow> bytes \<Rightarrow> bool" where
  "rep_view ls h b c =
     ((c = enc_lines ls @ h \<and> length h = 32 \<or> ls = [] \<and> h = replicate 32 0 \<and> c = []) \<and>
      length (enc_lines ls) + 32 < 2 ^ 31 \<and> mCurrentFileSize b = word_of_nat (length (enc_lines ls)) \<and>
      (\<forall>l \<in> set ls. length l < 2 ^ 16))"

definition bf_rep :: "bytes list \<Rightarrow> bytes \<Rightarrow> bf_state \<Rightarrow> bool" where
  "bf_rep ls h s =
     (rep_view ls h (fst s) (bf_content s) \<and> fs_files (snd s) (mBlockPath (fst s)) \<noteq> None \<and>
      (mBlockFile (fst s) \<noteq> None \<longrightarrow> \<not> st_failed (bf_stream s)))"

definition bf_free :: "bf_state \<Rightarrow> bool" where
  "bf_free s = (\<not> held (mBlockPath (fst s)) (fs_locks (snd s)))"

lemma rep_view_size:
  assumes "rep_view ls h b c"
  shows "unat (mCurrentFileSize b) = length (enc_lines ls)"
  using assms by (simp add: rep_view_def)

lemma rep_view_lastUsed [simp]: "rep_view ls h (b\<lparr>mLastUsed := x\<rparr>) c = rep_view ls h b c"
  by (simp add: rep_view_def)

lemma view_rep: "rep_view ls h b c \<Longrightarrow> bf_rep ls h (bf_view b fs c p)"
  unfolding bf_rep_def bf_view_simps by (simp add: bf_view_def rep_view_def)

lemma view_free [simp]: "bf_free (bf_view b fs c p) = (\<not> held (mBlockPath b) (fs_locks fs))"
  by (simp add: bf_free_def)

lemma rep_lock:
  assumes "bf_free s"
  shows "bf_lock io s = (Inr True, fst s, (snd s)\<lparr>fs_locks := (fs_locks (snd s))(mBlockPath (fst s) \<mapsto> True)\<rparr>)"
  using tryLockTimeout_free [of "mBlockPath (fst s)" "fs_locks (snd s)" 100 "io_env io"] assms
  by (simp add: bf_lock_def bf_free_def)

lemma rep_open:
  assumes "bf_rep ls h s" and "io_open io"
  shows "\<exists>b c p. BlockFile_getOpenFile io s = (Inr (), bf_view b (snd s) c p) \<and> rep_view ls h b c \<and>
    mBlockPath b = mBlockPath (fst s)"
proof (cases "mBlockFile (fst s)")
  case None
  let ?c = "bf_content s"
  let ?b = "(fst s)\<lparr>mLastUsed := io_now io\<rparr>"
  have c: "fs_files (snd s) (mBlockPath (fst s)) = Some ?c"
    using assms(1) by (auto simp: bf_rep_def bf_content_def)
  have fsid: "(snd s)\<lparr>fs_files := (fs_files (snd s))(mBlockPath (fst s) \<mapsto> ?c)\<rparr> = snd s"
    using c by (simp add: fun_upd_idem)
  have rv: "rep_view ls h (fst s) ?c" using assms(1) by (simp add: bf_rep_def)
  have sz: "mCurrentFileSize (fst s) = word_of_nat (length ?c) - 32" if "32 < length ?c"
  proof -
    from rv that have "length ?c = length (enc_lines ls) + 32" by (auto simp: rep_view_def)
    then show ?thesis using rv by (simp add: rep_view_def)
  qed
  have "BlockFile_getOpenFile io s = (Inr (), bf_view ?b (snd s) ?c (length ?c))"
    using None assms(2) c sz by (simp add: BlockFile_getOpenFile_def bf_view_def fsid Let_def)
  with rv show ?thesis by (intro exI [of _ ?b] exI [of _ ?c] exI [of _ "length ?c"]) simp
next
  case (Some st)
  let ?c = "bf_content s"
  let ?b = "(fst s)\<lparr>mLastUsed := io_now io\<rparr>"
  have c: "fs_files (snd s) (mBlockPath (fst s)) = Some ?c"
    using assms(1) by (auto simp: bf_rep_def bf_content_def)
  have fsid: "(snd s)\<lparr>fs_files := (fs_files (snd s))(mBlockPath (fst s) \<mapsto> ?c)\<rparr> = snd s"
    using c by (simp add: fun_upd_idem)
  have "\<not> st_failed st" using assms(1) Some by (simp add: bf_rep_def bf_stream_def)
  then have st: "st = \<lparr>st_pos = st_pos st, st_failed = False\<rparr>" by simp
  have "BlockFile_getOpenFile io s = (Inr (), bf_view ?b (snd s) ?c (st_pos st))"
    using Some st by (simp add: BlockFile_getOpenFile_def bf_view_def fsid)
  moreover have "rep_view ls h ?b ?c" using assms(1) by (simp add: bf_rep_def)
  ultimately show ?thesis by (intro exI [of _ ?b] exI [of _ ?c] exI [of _ "st_pos st"]) simp
qed

section \<open>Reading a line\<close>

lemma take_drop_piece: "c = x @ y @ z \<Longrightarrow> k = length x \<Longrightarrow> n = length y \<Longrightarrow> take n (drop k c) = y"
  by simp

lemma bf_content_free_simps [simp]:
  "fs_locks (fs\<lparr>fs_locks := l\<rparr>) = l" "fs_files (fs\<lparr>fs_locks := l\<rparr>) = fs_files fs"
  by simp_all

lemma readLine_rep:
  assumes rep: "bf_rep ls h s" and free: "bf_free s" and opn: "io_open io"
    and i: "i < length ls" and long: "27 \<le> length (ls ! i)"
  shows "\<exists>b fs c. BlockFile_readLine io junk (word_of_nat (cursor_of ls i)) s =
      (Inr (ls ! i), bf_view b fs c (cursor_of ls (Suc i))) \<and> rep_view ls h b c \<and>
      \<not> held (mBlockPath b) (fs_locks fs) \<and> mBlockPath b = mBlockPath (fst s) \<and>
      (\<forall>n. n \<noteq> mBlockPath b \<longrightarrow> fs_locks fs n = fs_locks (snd s) n)"
proof -
  from rep_open [OF rep opn] obtain b c p where
    op: "BlockFile_getOpenFile io s = (Inr (), bf_view b (snd s) c p)" and rv: "rep_view ls h b c"
    and path: "mBlockPath b = mBlockPath (fst s)" by blast
  let ?k = "cursor_of ls i" let ?l = "ls ! i" let ?n = "length ?l"
  have ne: "ls \<noteq> []" using i by auto
  have c: "c = enc_lines ls @ h" "length h = 32" using rv ne by (auto simp: rep_view_def)
  have n16: "?n < 2 ^ 16" using rv i by (simp add: rep_view_def)
  have bound: "?k + 2 + ?n \<le> length (enc_lines ls)" by (rule cursor_of_bound [OF i])
  have lim: "length (enc_lines ls) + 32 < 2 ^ 31" using rv by (simp add: rep_view_def)
  have size: "unat (mCurrentFileSize b) = length (enc_lines ls)" by (rule rep_view_size [OF rv])
  have k: "unat (word_of_nat ?k :: u32) = ?k" using bound lim by simp
  have lenc: "length c = length (enc_lines ls) + 32" using c by simp
  have split: "c = enc_lines (take i ls) @ bytes_of_u16 (word_of_nat ?n) @ ?l @ enc_lines (drop (Suc i) ls) @ h"
    using enc_lines_split [OF i] c by (simp add: enc_line_def)
  have t1: "take 2 (drop ?k c) = bytes_of_u16 (word_of_nat ?n)"
    by (rule take_drop_piece [OF split]) (simp_all add: cursor_of_def)
  have t2: "take ?n (drop (?k + 2) c) = ?l"
    by (rule take_drop_piece [where x = "enc_lines (take i ls) @ bytes_of_u16 (word_of_nat ?n)"])
      (use split in \<open>simp_all add: cursor_of_def\<close>)
  let ?fs1 = "(snd s)\<lparr>fs_locks := (fs_locks (snd s))(mBlockPath b \<mapsto> True)\<rparr>"
  let ?fs2 = "?fs1\<lparr>fs_locks := (fs_locks ?fs1)(mBlockPath b \<mapsto> False)\<rparr>"
  have lk: "bf_lock io (bf_view b (snd s) c p) = (Inr True, bf_view b ?fs1 c p)"
    by (rule bf_lock_view) (use free path in \<open>simp add: bf_free_def\<close>)
  have sk: "(if bf_tell (bf_view b ?fs1 c p) \<noteq> int (unat (word_of_nat ?k :: u32))
      then bf_seek (unat (word_of_nat ?k :: u32)) (bf_view b ?fs1 c p) else bf_view b ?fs1 c p)
      = bf_view b ?fs1 c ?k" using k by auto
  have r1: "bf_read 2 (bf_view b ?fs1 c ?k) = (bytes_of_u16 (word_of_nat ?n), bf_view b ?fs1 c (?k + 2))"
    using bf_read_view [of ?k 2 c b ?fs1] t1 bound lenc by simp
  have r2: "bf_read ?n (bf_view b ?fs1 c (?k + 2)) = (?l, bf_view b ?fs1 c (?k + 2 + ?n))"
    using bf_read_view [of "?k + 2" ?n c b ?fs1] t2 bound lenc by simp
  have sz: "u16_of_bytes (read_into [0, 0] (bytes_of_u16 (word_of_nat ?n))) = word_of_nat ?n"
    "unat (word_of_nat ?n :: u16) = ?n"
    using n16 by (simp_all add: read_into_def)
  have sum: "\<not> word_of_nat ?k + ucast (word_of_nat ?n :: u16) > mCurrentFileSize b"
  proof -
    have "ucast (word_of_nat ?n :: u16) = (word_of_nat ?n :: u32)"
      using n16 by (simp add: unsigned_of_nat take_bit_nat_eq_self)
    then have "word_of_nat ?k + ucast (word_of_nat ?n :: u16) = (word_of_nat (?k + ?n) :: u32)" by simp
    moreover have "unat (word_of_nat (?k + ?n) :: u32) = ?k + ?n" using bound lim by (intro unat_of_nat_words) simp
    ultimately show ?thesis using size bound by (simp add: word_less_nat_alt)
  qed
  have ul: "bf_unlock (bf_view b ?fs1 c q) = (Inr (), bf_view b ?fs2 c q)" for q
    by (rule bf_unlock_view) simp
  have fit: "\<not> length (enc_lines ls) - 27 < ?k" "\<not> length (enc_lines ls) \<le> 27" using bound long by linarith+
  have "BlockFile_readLine io junk (word_of_nat ?k) s = (Inr ?l, bf_view b ?fs2 c (?k + 2 + ?n))"
    using size k fit long sk r1 r2 sz sum
    by (simp add: BlockFile_readLine_def minimalFileSize_def op lk ul Let_def read_into_def
        del: bf_view_simps(6,7))
  moreover have "cursor_of ls (Suc i) = ?k + 2 + ?n" by (rule cursor_of_Suc [OF i])
  moreover have "\<not> held (mBlockPath b) (fs_locks ?fs2)" by (simp add: held_def)
  moreover have "\<forall>n. n \<noteq> mBlockPath b \<longrightarrow> fs_locks ?fs2 n = fs_locks (snd s) n" by simp
  ultimately show ?thesis using rv path by metis
qed

section \<open>Appending lines\<close>

lemma bf_write_write:
  assumes "p \<le> length c"
  shows "bf_write y (bf_write x (bf_view b fs c p)) = bf_write (x @ y) (bf_view b fs c p)"
proof -
  have "bf_write y (bf_view b fs (take p c @ x @ drop (p + length x) c) (p + length x))
      = bf_view b fs (take p c @ (x @ y) @ drop (p + length (x @ y)) c) (p + length (x @ y))"
    using assms by (subst bf_write_view) (simp_all add: add.assoc add.commute add.left_commute)
  then show ?thesis using assms by (simp add: bf_write_view)
qed

lemma with_size_view:
  "((fst (bf_view b fs c p))\<lparr>mCurrentFileSize := n\<rparr>, snd (bf_view b fs c p)) = bf_view (b\<lparr>mCurrentFileSize := n\<rparr>) fs c p"
  by (simp add: bf_view_def)

text \<open>The cursors of new lines behind \<open>p\<close> bytes.\<close>

definition cursors_from :: "nat \<Rightarrow> bytes list \<Rightarrow> u32 list" where
  "cursors_from p ls = map (\<lambda>i. word_of_nat (p + cursor_of ls i)) [0..<length ls]"

lemma cursors_from_simps [simp]:
  "cursors_from p [] = []"
  "cursors_from p (l # ls) = word_of_nat p # cursors_from (p + (2 + length l)) ls"
proof -
  show "cursors_from p [] = []" by (simp add: cursors_from_def)
  have "[0..<Suc (length ls)] = 0 # map Suc [0..<length ls]" by (simp add: upt_conv_Cons map_Suc_upt del: upt_Suc)
  then show "cursors_from p (l # ls) = word_of_nat p # cursors_from (p + (2 + length l)) ls"
    by (simp add: cursors_from_def cursor_of_def comp_def add.assoc del: upt_Suc)
qed

lemma append_loop_view:
  assumes "p \<le> length c" and "\<forall>l \<in> set new. length l < 2 ^ 16" and "mCurrentFileSize b = word_of_nat p"
  shows "append_loop ghash new pos hash (bf_view b fs c p) =
    (Inr (pos @ cursors_from p new, chain_from ghash hash new),
     bf_view (b\<lparr>mCurrentFileSize := word_of_nat (p + length (enc_lines new))\<rparr>) fs
       (take p c @ enc_lines new @ drop (p + length (enc_lines new)) c) (p + length (enc_lines new)))"
  using assms
proof (induction new arbitrary: p c b pos hash)
  case Nil
  then have "b\<lparr>mCurrentFileSize := word_of_nat p\<rparr> = b" by simp
  then show ?case by simp
next
  case (Cons l new)
  let ?sz = "word_of_nat (length l) :: u16"
  have sz: "unat ?sz = length l" "(ucast ?sz :: u32) = word_of_nat (length l)"
    using Cons.prems(2) by (simp_all add: unsigned_of_nat take_bit_nat_eq_self)
  let ?c' = "take p c @ enc_line l @ drop (p + (2 + length l)) c"
  let ?b' = "b\<lparr>mCurrentFileSize := word_of_nat (p + (2 + length l))\<rparr>"
  have wr: "bf_write l (bf_write (bytes_of_u16 ?sz) (bf_view b fs c p)) = bf_view b fs ?c' (p + (2 + length l))"
  proof -
    have "bf_write l (bf_write (bytes_of_u16 ?sz) (bf_view b fs c p)) = bf_write (enc_line l) (bf_view b fs c p)"
      unfolding enc_line_def by (rule bf_write_write [OF Cons.prems(1)])
    also have "\<dots> = bf_view b fs ?c' (p + (2 + length l))"
      using bf_write_view [OF Cons.prems(1), of "enc_line l"] unfolding length_enc_line .
    finally show ?thesis .
  qed
  have ssum: "mCurrentFileSize b + (2 + word_of_nat (length l)) = word_of_nat (p + (2 + length l))"
    using Cons.prems(3) by simp
  have step: "append_loop ghash (l # new) pos hash (bf_view b fs c p) =
      append_loop ghash new (pos @ [word_of_nat p]) (calculateOneHashStep ghash hash l)
        (bf_view ?b' fs ?c' (p + (2 + length l)))"
    by (simp add: Let_def sz wr ssum with_size_view del: of_nat_add)
  have le: "p + (2 + length l) \<le> length ?c'" using Cons.prems(1) by simp
  have c2: "take (p + (2 + length l)) ?c' @ enc_lines new @
        drop (p + (2 + length l) + length (enc_lines new)) ?c'
      = take p c @ enc_lines (l # new) @ drop (p + length (enc_lines (l # new))) c"
    using Cons.prems(1) by (simp add: add.assoc add.commute add.left_commute)
  have "\<forall>l \<in> set new. length l < 2 ^ 16" using Cons.prems(2) by simp
  from Cons.IH [OF le this, of ?b' "pos @ [word_of_nat p]" "calculateOneHashStep ghash hash l"]
  show ?case unfolding step c2 by (simp add: add.assoc)
qed

lemma appendLines_rep:
  assumes rep: "bf_rep ls (chain ghash ls) s" and free: "bf_free s" and opn: "io_open io"
    and new: "\<forall>l \<in> set new. length l < 2 ^ 16" and fits: "length (enc_lines (ls @ new)) + 32 < 2 ^ 31"
    and hash: "\<And>x. length (ghash x) = 32"
  shows "\<exists>s'. BlockFile_appendLines io ghash new s = (Inr (cursors_from (length (enc_lines ls)) new), s') \<and>
    bf_rep (ls @ new) (chain ghash (ls @ new)) s' \<and> bf_free s' \<and> mBlockPath (fst s') = mBlockPath (fst s) \<and>
    (\<forall>n. n \<noteq> mBlockPath (fst s) \<longrightarrow> fs_locks (snd s') n = fs_locks (snd s) n)"
proof -
  let ?path = "mBlockPath (fst s)" let ?n = "length (enc_lines ls)"
  let ?fs1 = "(snd s)\<lparr>fs_locks := (fs_locks (snd s))(?path \<mapsto> True)\<rparr>"
  let ?s1 = "(fst s, ?fs1)"
  have lk: "bf_lock io s = (Inr True, ?s1)" by (rule rep_lock [OF free])
  have rep1: "bf_rep ls (chain ghash ls) ?s1"
    using rep by (simp add: bf_rep_def bf_content_def bf_stream_def)
  from rep_open [OF rep1 opn] obtain b c p where
    op: "BlockFile_getOpenFile io ?s1 = (Inr (), bf_view b ?fs1 c p)"
    and rv: "rep_view ls (chain ghash ls) b c" and path: "mBlockPath b = ?path" by auto
  have size: "unat (mCurrentFileSize b) = ?n" by (rule rep_view_size [OF rv])
  have lc: "?n \<le> length c" "length c \<le> ?n + 32" "take ?n c = enc_lines ls"
    using rv by (auto simp: rep_view_def)
  have hsh: "read_current_hash (bf_view b ?fs1 c p) = (chain ghash ls, if mCurrentFileSize b > 0 then bf_view b ?fs1 c (?n + 32) else bf_view b ?fs1 c p)"
  proof (cases "mCurrentFileSize b > 0")
    case True
    then have "0 < ?n" using size by (simp add: word_less_nat_alt)
    then have "ls \<noteq> []" by auto
    with rv have "c = enc_lines ls @ chain ghash ls" "length (chain ghash ls) = 32" by (auto simp: rep_view_def)
    then show ?thesis using True size by (simp add: read_current_hash_def bf_read_view read_into_def)
  next
    case False
    then have "?n = 0" using size by (metis unat_0 word_gt_0)
    then have "ls = []" by (cases ls) simp_all
    with False show ?thesis by (simp add: read_current_hash_def)
  qed
  have s2: "bf_seek (unat (mCurrentFileSize b))
        (if mCurrentFileSize b > 0 then bf_view b ?fs1 c (?n + 32) else bf_view b ?fs1 c p)
      = bf_view b ?fs1 c ?n" using size by simp
  have csz: "mCurrentFileSize (fst (if mCurrentFileSize b > 0 then bf_view b ?fs1 c (?n + 32) else bf_view b ?fs1 c p))
      = mCurrentFileSize b" by simp
  let ?m = "?n + length (enc_lines new)" let ?h = "chain ghash (ls @ new)"
  let ?b' = "b\<lparr>mCurrentFileSize := word_of_nat ?m\<rparr>"
  have "mCurrentFileSize b = word_of_nat ?n" using rv by (simp add: rep_view_def)
  note al = append_loop_view [OF lc(1) new this, of ghash "[]" "chain ghash ls" ?fs1, folded chain_from_simps(3)]
  let ?c' = "take ?n c @ enc_lines new @ drop ?m c"
  have lenh: "length ?h = 32"
  proof (cases "ls @ new" rule: rev_cases)
    case Nil
    then show ?thesis by simp
  next
    case (snoc ys y)
    show ?thesis unfolding snoc by (simp add: calculateOneHashStep_def hash)
  qed
  have wr: "bf_write ?h (bf_view ?b' ?fs1 ?c' ?m) = bf_view ?b' ?fs1 (enc_lines (ls @ new) @ ?h) (?m + 32)"
  proof -
    have "take ?m ?c' = enc_lines (ls @ new)" using lc by simp
    moreover have "drop (?m + length ?h) ?c' = []" using lc lenh by simp
    moreover have "?m \<le> length ?c'" using lc by simp
    ultimately show ?thesis using bf_write_view [of ?m ?c' ?h ?b' ?fs1] lenh by simp
  qed
  let ?fs2 = "?fs1\<lparr>fs_locks := (fs_locks ?fs1)(?path \<mapsto> False)\<rparr>"
  let ?s' = "bf_view ?b' ?fs2 (enc_lines (ls @ new) @ ?h) (?m + 32)"
  have ul: "bf_unlock (bf_view ?b' ?fs1 (enc_lines (ls @ new) @ ?h) (?m + 32)) = (Inr (), ?s')"
    using bf_unlock_view [of ?fs1 ?b'] path by simp
  have "BlockFile_appendLines io ghash new s = (Inr (cursors_from ?n new), ?s')"
    unfolding BlockFile_appendLines_def
    by (simp add: lk op hsh s2 csz al wr ul del: bf_view_simps(6) cursors_from_simps enc_lines_simps
        chain_from_simps of_nat_add)
  moreover have "rep_view (ls @ new) ?h ?b' (enc_lines (ls @ new) @ ?h)"
    using lenh fits new rv by (auto simp: rep_view_def)
  then have "bf_rep (ls @ new) ?h ?s'" by (rule view_rep)
  moreover have "bf_free ?s'" using path by (simp add: held_def)
  ultimately show ?thesis using path by (intro exI [of _ ?s']) simp
qed

section \<open>The hash of the chain\<close>

lemma hash_lines_enc:
  "\<forall>l \<in> set ls. length l < 2 ^ 16 \<Longrightarrow> hash_lines ghash (enc_lines ls) h = Inr (chain_from ghash h ls)"
proof (induction ls arbitrary: h)
  case Nil
  show ?case by (simp add: hash_lines.simps)
next
  case (Cons l ls)
  have len: "unat (u16_of_bytes (take 2 (enc_lines (l # ls)))) = length l"
    using Cons.prems by (simp add: enc_line_def)
  have ne: "enc_lines (l # ls) \<noteq> []" by simp
  have "take (length l) (drop 2 (enc_lines (l # ls))) = l"
    "drop (2 + length l) (enc_lines (l # ls)) = enc_lines ls"
    by (simp_all add: enc_line_def)
  with Cons ne len show ?case
    by (subst hash_lines.simps) (simp add: Let_def)
qed

lemma rep_unlock:
  assumes "fs_locks (snd s) (mBlockPath (fst s)) \<noteq> None"
  shows "bf_unlock s = (Inr (), fst s, (snd s)\<lparr>fs_locks := (fs_locks (snd s))(mBlockPath (fst s) \<mapsto> False)\<rparr>)"
  using assms by (auto simp: bf_unlock_def FileLockManager_unlock_def)

lemma validateHash_rep:
  assumes rep: "bf_rep ls h s" and free: "bf_free s" and opn: "io_open io" and ne: "ls \<noteq> []"
  shows "fst (BlockFile_validateHash io ghash junk block0 s) = Inr (h = chain_from ghash block0 ls)"
proof -
  let ?path = "mBlockPath (fst s)" let ?n = "length (enc_lines ls)"
  define fs1 where "fs1 = (snd s)\<lparr>fs_locks := (fs_locks (snd s))(?path \<mapsto> True)\<rparr>"
  have lk: "bf_lock io s = (Inr True, (fst s, fs1))" unfolding fs1_def by (rule rep_lock [OF free])
  have rep1: "bf_rep ls h (fst s, fs1)" using rep by (simp add: fs1_def bf_rep_def bf_content_def bf_stream_def)
  from rep_open [OF rep1 opn] obtain b c p where
    op: "BlockFile_getOpenFile io (fst s, fs1) = (Inr (), bf_view b fs1 c p)"
    and rv: "rep_view ls h b c" and path: "mBlockPath b = ?path" by auto
  let ?b1 = "b\<lparr>mLastUsed := io_now io\<rparr>"
  have c: "c = enc_lines ls @ h" "length h = 32" using rv ne by (auto simp: rep_view_def)
  have size: "unat (mCurrentFileSize b) = ?n" by (rule rep_view_size [OF rv])
  have pos: "0 < ?n" using ne by (cases ls) simp_all
  then have nz: "mCurrentFileSize b \<noteq> 0" using size by auto
  have r1: "bf_read 32 (bf_view b fs1 c ?n) = (h, bf_view b fs1 c (?n + 32))"
    using c by (simp add: bf_read_view)
  define fs2 where "fs2 = fs1\<lparr>fs_locks := (fs_locks fs1)(mBlockPath b \<mapsto> False)\<rparr>"
  have ul: "bf_unlock (bf_view b fs1 c q) = (Inr (), bf_view b fs2 c q)" for q
    unfolding fs2_def by (rule bf_unlock_view) (simp add: fs1_def path)
  define fs3 where "fs3 = fs2\<lparr>fs_locks := (fs_locks fs2)(mBlockPath b \<mapsto> True)\<rparr>"
  have lk2: "bf_lock io (bf_view b fs2 c q) = (Inr True, bf_view b fs3 c q)" for q
    unfolding fs3_def by (rule bf_lock_view) (simp add: fs2_def held_def)
  have r2: "bf_read ?n (bf_view ?b1 fs3 c 0) = (enc_lines ls, bf_view ?b1 fs3 c ?n)"
    using c by (simp add: bf_read_view)
  obtain s4 where u2: "bf_unlock (bf_view ?b1 fs3 c ?n) = (Inr (), s4)"
    using bf_unlock_view [of fs3 ?b1 c ?n] by (simp add: fs3_def)
  have hl: "hash_lines ghash (enc_lines ls) block0 = Inr (chain_from ghash block0 ls)"
    by (rule hash_lines_enc) (use rv in \<open>simp add: rep_view_def\<close>)
  have calc: "BlockFile_calculateHash io ghash junk block0 (bf_view b fs2 c q)
      = (Inr (Some (chain_from ghash block0 ls)), s4)" for q
    using nz by (simp add: BlockFile_calculateHash_def lk2 getOpenFile_view size r2 u2 hl read_into_def Let_def)
  show ?thesis
    by (simp add: BlockFile_validateHash_def lk op size r1 ul calc read_into_def c(2) Let_def)
qed

section \<open>Rebuilding the index\<close>

lemma sint_word_of_nat_u32: "n < 2 ^ 31 \<Longrightarrow> sint (word_of_nat n :: u32) = int n"
  by (simp add: signed_of_nat signed_take_bit_int_eq_self)

text \<open>The lines from the i-th one on with their cursors.\<close>

definition lines_with_cursors :: "bytes list \<Rightarrow> (u32 \<times> bytes) list" where
  "lines_with_cursors ls = map (\<lambda>i. (word_of_nat (cursor_of ls i), ls ! i)) [0..<length ls]"

lemma loop_guard:
  assumes "n < 2 ^ 31" and "unat (sz :: u32) = m"
  shows "(scast (word_of_nat n :: u32) + 2 + 25 :: u64) \<le> ucast sz \<longleftrightarrow> n + 27 \<le> m"
proof -
  have "scast (word_of_nat n :: u32) = (word_of_nat n :: u64)"
    by (simp add: scast_eq sint_word_of_nat_u32 [OF assms(1)])
  then have "scast (word_of_nat n :: u32) + 2 + 25 = (word_of_nat (n + 27) :: u64)" by simp
  moreover have "unat (word_of_nat (n + 27) :: u64) = n + 27"
    by (rule unat_of_nat_words(1)) (use assms(1) in simp)
  moreover have "unat (ucast sz :: u64) = m"
    using assms(2) unat_bounds(2) [of sz] by (simp add: unsigned_ucast_eq take_bit_nat_eq_self)
  ultimately show ?thesis by (simp only: word_le_nat_alt)
qed

lemma rebuild_loop_rep:
  assumes "bf_rep ls h s" and "bf_free s" and "io_open io" and "\<forall>l \<in> set ls. 27 \<le> length l"
    and "i < length ls" and "length ls - i < fuel"
    and "mPendingFileCursorLine t = map (\<lambda>i. (word_of_nat (cursor_of ls i), ls ! i)) [0..<i]"
  shows "\<exists>b fs c t'. rebuild_loop io ghash junk fuel (word_of_nat (cursor_of ls i)) (chain ghash (take i ls)) t s =
      Some (Inr (chain ghash ls, t'), bf_view b fs c (length (enc_lines ls))) \<and>
    rep_view ls h b c \<and> \<not> held (mBlockPath b) (fs_locks fs) \<and>
    mPendingFileCursorLine t' = lines_with_cursors ls \<and> mBlockPath b = mBlockPath (fst s) \<and>
    (\<forall>n. n \<noteq> mBlockPath b \<longrightarrow> fs_locks fs n = fs_locks (snd s) n)"
  using assms(1,2,5,6,7)
proof (induction fuel arbitrary: i t s)
  case 0
  then show ?case by simp
next
  case (Suc fuel)
  let ?k = "cursor_of ls i" let ?l = "ls ! i"
  have l27: "27 \<le> length ?l" using assms(4) Suc.prems(3) by simp
  from readLine_rep [OF Suc.prems(1,2) assms(3) Suc.prems(3) l27, of junk] obtain b fs c where
    rl: "BlockFile_readLine io junk (word_of_nat ?k) s = (Inr ?l, bf_view b fs c (cursor_of ls (Suc i)))"
    and rv: "rep_view ls h b c" and fr: "\<not> held (mBlockPath b) (fs_locks fs)"
    and same: "mBlockPath b = mBlockPath (fst s)" "\<forall>n. n \<noteq> mBlockPath b \<longrightarrow> fs_locks fs n = fs_locks (snd s) n" by blast
  have lim: "length (enc_lines ls) + 32 < 2 ^ 31" using rv by (simp add: rep_view_def)
  have bound: "?k + 2 + length ?l \<le> length (enc_lines ls)" by (rule cursor_of_bound [OF Suc.prems(3)])
  have size: "unat (mCurrentFileSize (fst s)) = length (enc_lines ls)"
    using Suc.prems(1) by (auto simp: bf_rep_def intro: rep_view_size)
  have sk: "(scast (word_of_nat ?k :: u32) + 2 + 25 :: u64) \<le> ucast (mCurrentFileSize (fst s))"
    using loop_guard [OF _ size, of ?k] bound lim l27 by simp
  let ?t = "RebuildBlockIndexTask_pushLine (word_of_nat ?k) ?l t"
  have next_k: "word_of_nat ?k + (word_of_nat (length ?l) + 2) = (word_of_nat (cursor_of ls (Suc i)) :: u32)"
    by (simp add: cursor_of_Suc [OF Suc.prems(3)])
  have next_h: "calculateOneHashStep ghash (chain ghash (take i ls)) ?l = chain ghash (take (Suc i) ls)"
    by (simp add: take_Suc_conv_app_nth [OF Suc.prems(3)])
  have step: "rebuild_loop io ghash junk (Suc fuel) (word_of_nat ?k) (chain ghash (take i ls)) t s =
      rebuild_loop io ghash junk fuel (word_of_nat (cursor_of ls (Suc i))) (chain ghash (take (Suc i) ls)) ?t
        (bf_view b fs c (cursor_of ls (Suc i)))"
    using sk by (simp add: rl next_k next_h)
  have t': "mPendingFileCursorLine ?t = map (\<lambda>i. (word_of_nat (cursor_of ls i), ls ! i)) [0..<Suc i]"
    using Suc.prems(5) by (simp add: RebuildBlockIndexTask_pushLine_def)
  have rep': "bf_rep ls h (bf_view b fs c q)" "bf_free (bf_view b fs c q)" for q
    using view_rep [OF rv] fr by simp_all
  show ?case
  proof (cases "Suc i < length ls")
    case True
    have "length ls - Suc i < fuel" using Suc.prems(4) True by simp
    from Suc.IH [OF rep' True this t'] obtain b' fs' c' t2 where
      ih: "rebuild_loop io ghash junk fuel (word_of_nat (cursor_of ls (Suc i))) (chain ghash (take (Suc i) ls)) ?t
          (bf_view b fs c (cursor_of ls (Suc i))) = Some (Inr (chain ghash ls, t2), bf_view b' fs' c' (length (enc_lines ls)))"
        "rep_view ls h b' c'" "\<not> held (mBlockPath b') (fs_locks fs')" "mPendingFileCursorLine t2 = lines_with_cursors ls"
        "mBlockPath b' = mBlockPath b" "\<forall>n. n \<noteq> mBlockPath b' \<longrightarrow> fs_locks fs' n = fs_locks fs n"
      unfolding bf_view_simps by blast
    have "\<forall>n. n \<noteq> mBlockPath b' \<longrightarrow> fs_locks fs' n = fs_locks (snd s) n" using ih(5,6) same(2) by simp
    then show ?thesis unfolding step using ih(1-5) same(1)
      by (intro exI [of _ b'] exI [of _ fs'] exI [of _ c'] exI [of _ t2]) simp
  next
    case False
    with Suc.prems(3) have i: "Suc i = length ls" by simp
    obtain f where f: "fuel = Suc f" using Suc.prems(4) i by (cases fuel) auto
    have "cursor_of ls (length ls) = length (enc_lines ls)" by (simp add: cursor_of_def)
    moreover have "\<not> (scast (word_of_nat (length (enc_lines ls)) :: u32) + 2 + 25 :: u64)
        \<le> ucast (mCurrentFileSize b)"
      using loop_guard [OF _ rep_view_size [OF rv], of "length (enc_lines ls)"] lim by simp
    ultimately have "rebuild_loop io ghash junk (Suc fuel) (word_of_nat ?k) (chain ghash (take i ls)) t s
        = Some (Inr (chain ghash ls, ?t), bf_view b fs c (length (enc_lines ls)))"
      unfolding step unfolding i f using rep_view_size [OF rv] by simp
    moreover have "mPendingFileCursorLine ?t = lines_with_cursors ls"
      using t' i by (simp add: lines_with_cursors_def)
    ultimately show ?thesis using rv fr same by blast
  qed
qed

lemma rebuildBlockIndex_rep:
  assumes rep: "bf_rep ls h s" and free: "bf_free s" and opn: "io_open io"
    and long: "\<forall>l \<in> set ls. 27 \<le> length l" and ne: "ls \<noteq> []" and fuel: "length ls < fuel"
  shows "\<exists>(t :: 'e RebuildBlockIndexTask) s'. BlockFile_rebuildBlockIndex io ghash junk fuel s =
      Some (if chain ghash ls = h then Inr t else Inl (Gradido HashMismatch), s') \<and>
    mPendingFileCursorLine t = lines_with_cursors ls \<and> bf_rep ls h s' \<and> bf_free s' \<and>
    mBlockPath (fst s') = mBlockPath (fst s) \<and> (\<forall>n. n \<noteq> mBlockPath (fst s) \<longrightarrow> fs_locks (snd s') n = fs_locks (snd s) n)"
proof -
  have len: "0 < length ls" using ne by simp
  have t0: "mPendingFileCursorLine (RebuildBlockIndexTask_new :: 'e RebuildBlockIndexTask)
      = map (\<lambda>i. (word_of_nat (cursor_of ls i), ls ! i)) [0..<0]"
    by (simp add: RebuildBlockIndexTask_new_def)
  have k0: "word_of_nat (cursor_of ls 0) = 0" "chain ghash (take 0 ls) = replicate 32 0"
    by (simp_all add: cursor_of_def)
  from rebuild_loop_rep [OF rep free opn long len _ t0, of fuel ghash junk, unfolded k0] fuel
  obtain b fs c and t :: "'e RebuildBlockIndexTask" where
    loop: "rebuild_loop io ghash junk fuel 0 (replicate 32 0) RebuildBlockIndexTask_new s =
      Some (Inr (chain ghash ls, t), bf_view b fs c (length (enc_lines ls)))"
    and rv: "rep_view ls h b c" and fr: "\<not> held (mBlockPath b) (fs_locks fs)"
    and t: "mPendingFileCursorLine t = lines_with_cursors ls" and same: "mBlockPath b = mBlockPath (fst s)"
      "\<forall>n. n \<noteq> mBlockPath b \<longrightarrow> fs_locks fs n = fs_locks (snd s) n" by auto
  let ?n = "length (enc_lines ls)" let ?b1 = "b\<lparr>mLastUsed := io_now io\<rparr>"
  define fs1 where "fs1 = fs\<lparr>fs_locks := (fs_locks fs)(mBlockPath b \<mapsto> True)\<rparr>"
  define fs2 where "fs2 = fs1\<lparr>fs_locks := (fs_locks fs1)(mBlockPath b \<mapsto> False)\<rparr>"
  let ?s' = "bf_view ?b1 fs2 c (?n + 32)"
  have c: "c = enc_lines ls @ h" "length h = 32" using rv ne by (auto simp: rep_view_def)
  have lk: "bf_lock io (bf_view b fs c ?n) = (Inr True, bf_view b fs1 c ?n)"
    unfolding fs1_def by (rule bf_lock_view [OF fr])
  have rd: "bf_read 32 (bf_view ?b1 fs1 c ?n) = (h, bf_view ?b1 fs1 c (?n + 32))"
    using c by (simp add: bf_read_view)
  have ul: "bf_unlock (bf_view ?b1 fs1 c (?n + 32)) = (Inr (), ?s')"
    using bf_unlock_view [of fs1 ?b1] by (simp add: fs1_def fs2_def)
  have "BlockFile_rebuildBlockIndex io ghash junk fuel s =
      Some (if chain ghash ls = h then Inr t else Inl (Gradido HashMismatch), ?s')"
    using c(2) by (simp add: BlockFile_rebuildBlockIndex_def loop lk getOpenFile_view rd ul read_into_def)
  moreover have "bf_rep ls h ?s'" by (rule view_rep) (use rv in simp)
  moreover have "bf_free ?s'" by (simp add: fs2_def held_def)
  moreover have "fs_locks (snd ?s') n = fs_locks (snd s) n" if "n \<noteq> mBlockPath (fst s)" for n
    using that same by (simp add: fs1_def fs2_def)
  ultimately show ?thesis using t same(1) by (intro exI [of _ t] exI [of _ ?s']) simp
qed

section \<open>Properties\<close>

text \<open>Lines appended to a block file can be read back: \<open>appendLines\<close> returns one cursor per line,
  \<open>readLine\<close> at the i-th of these cursors returns the i-th line, every line that was in the file
  before is still read at its own cursor, and the lock is free again. The lines must be between 27 and
  65535 bytes long and fit the 31 bits of a signed cursor.\<close>

theorem BlockFile_append_read:
  assumes "bf_rep ls (chain ghash ls) s" and "bf_free s" and "io_open io" and "\<And>x. length (ghash x) = 32"
    and "\<forall>l \<in> set (ls @ new). 27 \<le> length l \<and> length l < 2 ^ 16"
    and "length (enc_lines (ls @ new)) + 32 < 2 ^ 31"
  shows "\<exists>cs s'. BlockFile_appendLines io ghash new s = (Inr cs, s') \<and> length cs = length new \<and> bf_free s' \<and>
    bf_rep (ls @ new) (chain ghash (ls @ new)) s' \<and>
    (\<forall>i < length new. fst (BlockFile_readLine io junk (cs ! i) s') = Inr (new ! i)) \<and>
    (\<forall>i < length ls. fst (BlockFile_readLine io junk (word_of_nat (cursor_of ls i)) s') = Inr (ls ! i))"
proof -
  let ?n = "length (enc_lines ls)"
  have new16: "\<forall>l \<in> set new. length l < 2 ^ 16" using assms(5) by simp
  from appendLines_rep [OF assms(1-3) new16 assms(6,4)] obtain s' where
    ap: "BlockFile_appendLines io ghash new s = (Inr (cursors_from ?n new), s')"
    and rep: "bf_rep (ls @ new) (chain ghash (ls @ new)) s'" and free: "bf_free s'" by blast
  have read: "fst (BlockFile_readLine io junk (word_of_nat (cursor_of (ls @ new) i)) s') = Inr ((ls @ new) ! i)"
    if "i < length (ls @ new)" for i
  proof -
    have "27 \<le> length ((ls @ new) ! i)" using assms(5) that nth_mem by blast
    from readLine_rep [OF rep free assms(3) that this, of junk] show ?thesis by auto
  qed
  have new_cursor: "cursors_from ?n new ! i = word_of_nat (cursor_of (ls @ new) (length ls + i))"
    if "i < length new" for i
    using that by (simp add: cursors_from_def cursor_of_def)
  have old_cursor: "cursor_of (ls @ new) i = cursor_of ls i" if "i < length ls" for i
    using that by (simp add: cursor_of_def)
  have "length (cursors_from ?n new) = length new" by (simp add: cursors_from_def)
  moreover have "fst (BlockFile_readLine io junk (cursors_from ?n new ! i) s') = Inr (new ! i)"
    if "i < length new" for i
    using read [of "length ls + i"] new_cursor [OF that] that by (simp add: nth_append)
  moreover have "fst (BlockFile_readLine io junk (word_of_nat (cursor_of ls i)) s') = Inr (ls ! i)"
    if "i < length ls" for i
    using read [of i] old_cursor [OF that] that by (simp add: nth_append)
  ultimately show ?thesis using ap rep free by blast
qed

text \<open>A new file, opened without an obstacle, stands for no lines.\<close>

lemma BlockFile_new_rep:
  assumes "fs_files fs (BlockFile_fileName folder nr) = None"
    and "\<not> held (BlockFile_fileName folder nr) (fs_locks fs)" and "io_open io"
  shows "\<exists>s. BlockFile_new io folder nr fs = (Inr (), s) \<and> bf_rep [] (replicate 32 0) s \<and> bf_free s"
  using assms
  by (simp add: BlockFile_new_def BlockFile_getOpenFile_def bf_rep_def bf_content_def bf_stream_def
      rep_view_def bf_free_def)

definition plain_io :: block_io where
  "plain_io = \<lparr>io_env = (\<lambda>_ l. l), io_open = True, io_now = 0\<rparr>"

definition empty_fs :: node_fs where
  "empty_fs = \<lparr>fs_locks = Map.empty, fs_files = Map.empty\<rparr>"

lemma BlockFile_new_empty:
  "\<exists>s. BlockFile_new plain_io ''g'' 1 empty_fs = (Inr (), s) \<and> bf_rep [] (replicate 32 0) s \<and> bf_free s"
  by (rule BlockFile_new_rep) (simp_all add: empty_fs_def plain_io_def held_def)

lemma BlockFile_append_read_witness:
  "\<exists>s cs s'. BlockFile_new plain_io ''g'' 1 empty_fs = (Inr (), s) \<and>
     BlockFile_appendLines plain_io (\<lambda>_. replicate 32 1) [replicate 27 5, replicate 30 6] s = (Inr cs, s') \<and>
     fst (BlockFile_readLine plain_io [] (cs ! 1) s') = Inr (replicate 30 6)"
proof -
  obtain s where s: "BlockFile_new plain_io ''g'' 1 empty_fs = (Inr (), s)"
    "bf_rep [] (chain (\<lambda>_. replicate 32 1) []) s" "bf_free s"
    using BlockFile_new_empty by auto
  have io: "io_open plain_io" by (simp add: plain_io_def)
  from BlockFile_append_read [OF s(2,3) io, of "[replicate 27 5, replicate 30 6]" "[]"]
  obtain cs s' where "BlockFile_appendLines plain_io (\<lambda>_. replicate 32 1) [replicate 27 5, replicate 30 6] s = (Inr cs, s')"
    "\<forall>i < length [replicate 27 5, replicate 30 6 :: bytes].
       fst (BlockFile_readLine plain_io [] (cs ! i) s') = Inr ([replicate 27 5, replicate 30 6] ! i)"
    by auto
  moreover from this(2) have "fst (BlockFile_readLine plain_io [] (cs ! 1) s') = Inr (replicate 30 6)"
    by (auto dest: spec [of _ 1])
  ultimately show ?thesis using s(1) by blast
qed



text \<open>A line of 25 or 26 bytes is not below the minimal transaction size of the node and is
  appended, but \<open>readLine\<close> can never read it: it throws \<open>InvalidReadBlockSize\<close>, or
  \<open>EndReachingException\<close> near the end of the file, because it compares the size of the line with the
  minimal size of line and size field together.\<close>

theorem BlockFile_short_line_unreadable:
  assumes "bf_rep ls h s" and "bf_free s" and "io_open io" and "i < length ls"
    and "length (ls ! i) < 27"
  shows "fst (BlockFile_readLine io junk (word_of_nat (cursor_of ls i)) s) \<in>
    {Inl (Gradido InvalidReadBlockSize), Inl (Gradido EndReaching)}"
proof -
  from rep_open [OF assms(1,3)] obtain b c p where
    op: "BlockFile_getOpenFile io s = (Inr (), bf_view b (snd s) c p)" and rv: "rep_view ls h b c"
    and path: "mBlockPath b = mBlockPath (fst s)" by blast
  let ?k = "cursor_of ls i" let ?l = "ls ! i" let ?n = "length ?l"
  have ne: "ls \<noteq> []" using assms(4) by auto
  have c: "c = enc_lines ls @ h" "length h = 32" using rv ne by (auto simp: rep_view_def)
  have bound: "?k + 2 + ?n \<le> length (enc_lines ls)" by (rule cursor_of_bound [OF assms(4)])
  have lim: "length (enc_lines ls) + 32 < 2 ^ 31" using rv by (simp add: rep_view_def)
  have size: "unat (mCurrentFileSize b) = length (enc_lines ls)" by (rule rep_view_size [OF rv])
  have k: "unat (word_of_nat ?k :: u32) = ?k" using bound lim by simp
  have split: "c = enc_lines (take i ls) @ bytes_of_u16 (word_of_nat ?n) @ ?l @ enc_lines (drop (Suc i) ls) @ h"
    using enc_lines_split [OF assms(4)] c by (simp add: enc_line_def)
  have t1: "take 2 (drop ?k c) = bytes_of_u16 (word_of_nat ?n)"
    by (rule take_drop_piece [OF split]) (simp_all add: cursor_of_def)
  define fs1 where "fs1 = (snd s)\<lparr>fs_locks := (fs_locks (snd s))(mBlockPath b \<mapsto> True)\<rparr>"
  define fs2 where "fs2 = fs1\<lparr>fs_locks := (fs_locks fs1)(mBlockPath b \<mapsto> False)\<rparr>"
  have lk: "bf_lock io (bf_view b (snd s) c p) = (Inr True, bf_view b fs1 c p)"
    unfolding fs1_def by (rule bf_lock_view) (use assms(2) path in \<open>simp add: bf_free_def\<close>)
  have sk: "(if bf_tell (bf_view b fs1 c p) \<noteq> int (unat (word_of_nat ?k :: u32))
      then bf_seek (unat (word_of_nat ?k :: u32)) (bf_view b fs1 c p) else bf_view b fs1 c p)
      = bf_view b fs1 c ?k" using k by auto
  have r1: "bf_read 2 (bf_view b fs1 c ?k) = (bytes_of_u16 (word_of_nat ?n), bf_view b fs1 c (?k + 2))"
    using bf_read_view [of ?k 2 c b fs1] t1 bound c by simp
  have ul: "bf_unlock (bf_view b fs1 c q) = (Inr (), bf_view b fs2 c q)" for q
    unfolding fs2_def by (rule bf_unlock_view) (simp add: fs1_def)
  have sz: "u16_of_bytes (read_into [0, 0] (bytes_of_u16 (word_of_nat ?n))) = word_of_nat ?n"
    "unat (word_of_nat ?n :: u16) = ?n"
    using assms(5) by (simp_all add: read_into_def)
  show ?thesis
    using size k sk r1 sz assms(5)
    by (auto simp: BlockFile_readLine_def minimalFileSize_def op lk ul Let_def simp del: bf_view_simps(6,7))
qed

lemma BlockFile_short_line_unreadable_witness:
  "\<exists>s. fst (BlockFile_readLine plain_io [] 0 s) \<in> {Inl (Gradido InvalidReadBlockSize), Inl (Gradido EndReaching)} \<and>
     bf_rep [replicate 25 5, replicate 40 6] (replicate 32 1) s"
proof -
  obtain s where s: "bf_rep [] (chain (\<lambda>_. replicate 32 1) []) s" "bf_free s"
    using BlockFile_new_empty by auto
  have io: "io_open plain_io" by (simp add: plain_io_def)
  from appendLines_rep [OF s io, of "[replicate 25 5, replicate 40 6]"] obtain s1 where
    s1: "bf_rep [replicate 25 5, replicate 40 6] (replicate 32 1) s1" "bf_free s1"
    by (auto simp: calculateOneHashStep_def)
  from BlockFile_short_line_unreadable [OF s1 io, of 0 "[]"]
  have "fst (BlockFile_readLine plain_io [] 0 s1) \<in> {Inl (Gradido InvalidReadBlockSize), Inl (Gradido EndReaching)}"
    by (simp add: cursor_of_def)
  with s1(1) show ?thesis by blast
qed

end
