(* ===== verification/IndexCache.thy ===== *)
theory IndexCache
  imports IndexFile Dict
begin

text \<open>
  The index of a block in memory, \<open>cache::BlockIndex\<close> (\<open>src/cache/BlockIndex.h\<close>,
  \<open>src/cache/BlockIndex.cpp\<close>): the entries of its transactions by year and month, and their cursors in
  the block file. It is the receiver of the index file and answers searches. Of the blockchain
  library it uses \<open>Filter\<close>, \<open>Pagination\<close>, \<open>TimepointInterval\<close> and \<open>iterateRangeInOrder\<close>, which are
  parameters here.
\<close>

section \<open>State\<close>

record BlockIndexEntry =
  be_transactionNr :: u64
  be_addressIndices :: "u32 list"
  be_coinCommunityIdIndex :: u32
  be_transactionType :: u8
  be_addressIndiceCount :: u8

type_synonym month_map = "(nat \<times> BlockIndexEntry list) list"

record BlockIndexCache =
  mFolderPath_Index :: string
  mBlockNr_Index :: u32
  mMaxTransactionNr :: u64
  mMinTransactionNr :: u64
  mTransactionNrsFileCursors :: "(u64 \<times> u32) list"
  mYearMonthAddressIndexEntries :: "(int \<times> month_map) list"
  mDirty :: bool

definition BlockIndexCache_new :: "string \<Rightarrow> u32 \<Rightarrow> BlockIndexCache" where
  "BlockIndexCache_new groupFolderPath blockNr =
     \<lparr>mFolderPath_Index = groupFolderPath, mBlockNr_Index = blockNr, mMaxTransactionNr = 0,
      mMinTransactionNr = 0, mTransactionNrsFileCursors = [], mYearMonthAddressIndexEntries = [],
      mDirty = False\<rparr>"

section \<open>Adding transactions\<close>

definition BlockIndexCache_addFileCursorForTransaction ::
    "u64 \<Rightarrow> u32 \<Rightarrow> BlockIndexCache \<Rightarrow> bool result \<times> BlockIndexCache" where
  "BlockIndexCache_addFileCursorForTransaction transactionNr fileCursor c =
     (if sint fileCursor < 0 then (Inr False, c)
      else if fileCursor = 0 \<and> transactionNr > mMinTransactionNr c then
        (Inl (Gradido BlockIndexInvalidFileCursor), c)
      else
        let c1 = c\<lparr>mDirty := True\<rparr> in
        (case map_of (mTransactionNrsFileCursors c1) transactionNr of
           None \<Rightarrow> (Inr True, c1\<lparr>mTransactionNrsFileCursors :=
                     omap_put transactionNr fileCursor (mTransactionNrsFileCursors c1)\<rparr>)
         | Some old \<Rightarrow>
             if old = 0 then (Inr True, c1\<lparr>mTransactionNrsFileCursors :=
                     omap_put transactionNr fileCursor (mTransactionNrsFileCursors c1)\<rparr>)
             else (Inr False, c1)))"

text \<open>The month list of a year and month, created empty where it is missing.\<close>

definition months_of :: "int \<Rightarrow> (int \<times> month_map) list \<Rightarrow> month_map" where
  "months_of y m = (case map_of m y of None \<Rightarrow> [] | Some ms \<Rightarrow> ms)"

definition month_of :: "int \<Rightarrow> nat \<Rightarrow> (int \<times> month_map) list \<Rightarrow> BlockIndexEntry list" where
  "month_of y mo m = (case map_of (months_of y m) mo of None \<Rightarrow> [] | Some es \<Rightarrow> es)"

definition set_month :: "int \<Rightarrow> nat \<Rightarrow> BlockIndexEntry list \<Rightarrow> (int \<times> month_map) list \<Rightarrow> (int \<times> month_map) list" where
  "set_month y mo es m = omap_put y (omap_put mo es (months_of y m)) m"

definition update_min_max :: "u64 \<Rightarrow> BlockIndexCache \<Rightarrow> BlockIndexCache" where
  "update_min_max transactionNr c =
     (let c1 = (if transactionNr > mMaxTransactionNr c then c\<lparr>mMaxTransactionNr := transactionNr\<rparr> else c)
      in if mMinTransactionNr c1 = 0 \<or> transactionNr < mMinTransactionNr c1
         then c1\<lparr>mMinTransactionNr := transactionNr\<rparr> else c1)"

definition BlockIndexCache_addIndices ::
    "u8 \<Rightarrow> u32 \<Rightarrow> int \<Rightarrow> nat \<Rightarrow> u64 \<Rightarrow> u32 \<Rightarrow> u32 list \<Rightarrow> u16 \<Rightarrow> BlockIndexCache \<Rightarrow> bool result \<times> BlockIndexCache" where
  "BlockIndexCache_addIndices transactionType coinCommunityIdIndex year month transactionNr fileCursor
       addressIndices addressIndiceCount c =
     (let c1 = update_min_max transactionNr (c\<lparr>mDirty := True\<rparr>);
          es = month_of year month (mYearMonthAddressIndexEntries c1);
          c2 = c1\<lparr>mYearMonthAddressIndexEntries :=
                 set_month year month es (mYearMonthAddressIndexEntries c1)\<rparr>;
          entry = \<lparr>be_transactionNr = transactionNr,
                   be_addressIndices = take (unat addressIndiceCount) addressIndices,
                   be_coinCommunityIdIndex = coinCommunityIdIndex, be_transactionType = transactionType,
                   be_addressIndiceCount = ucast addressIndiceCount\<rparr>
      in if unat addressIndiceCount > 256 then (Inl (Gradido InvalidData), c2)
         else if es \<noteq> [] \<and> be_transactionNr (last es) \<ge> transactionNr then (Inl (Gradido BlockIndexError), c2)
         else
           let c3 = c2\<lparr>mYearMonthAddressIndexEntries :=
                  set_month year month (es @ [entry]) (mYearMonthAddressIndexEntries c2)\<rparr> in
           (case BlockIndexCache_addFileCursorForTransaction transactionNr fileCursor c3 of
              (Inl e, c4) \<Rightarrow> (Inl e, c4)
            | (Inr _, c4) \<Rightarrow> (Inr True, c4)))"

text \<open>As the receiver of the index file, where the number of addresses is that of the list.\<close>

definition BlockIndexCache_receive :: "BlockIndexCache receiver" where
  "BlockIndexCache_receive e =
     BlockIndexCache_addIndices (ie_transactionType e) (ie_coinCommunityIdIndex e) (ie_year e) (ie_month e)
       (ie_transactionNr e) (ie_fileCursor e) (ie_addressIndices e) (word_of_nat (length (ie_addressIndices e)))"

text \<open>
  Adding a \<open>NodeTransactionEntry\<close>, the part of it that is used; \<open>getCommunityIdIndex\<close> is that of the
  provider.
\<close>

record node_entry =
  ne_transactionNr :: u64
  ne_fileCursor :: u32
  ne_coinCommunityId :: string
  ne_transactionType :: u8
  ne_year :: int
  ne_month :: nat
  ne_addressIndices :: "u32 list"

definition BlockIndexCache_addEntry ::
    "(string \<Rightarrow> u32 result) \<Rightarrow> node_entry \<Rightarrow> BlockIndexCache \<Rightarrow> bool result \<times> BlockIndexCache" where
  "BlockIndexCache_addEntry getCommunityIdIndex e c =
     (let c1 = update_min_max (ne_transactionNr e) c in
      case (if sint (ne_fileCursor e) \<ge> 0
            then BlockIndexCache_addFileCursorForTransaction (ne_transactionNr e) (ne_fileCursor e) c1
            else (Inr False, c1)) of
        (Inl x, c2) \<Rightarrow> (Inl x, c2)
      | (Inr _, c2) \<Rightarrow>
          (case (if ne_coinCommunityId e \<noteq> [] then getCommunityIdIndex (ne_coinCommunityId e) else Inr 0) of
             Inl x \<Rightarrow> (Inl x, c2)
           | Inr coinCommunityIndex \<Rightarrow>
               BlockIndexCache_addIndices (ne_transactionType e) coinCommunityIndex (ne_year e) (ne_month e)
                 (ne_transactionNr e) (ne_fileCursor e) (ne_addressIndices e)
                 (word_of_nat (length (ne_addressIndices e))) c2))"

section \<open>Queries\<close>

definition BlockIndexCache_hasTransactionNr :: "u64 \<Rightarrow> BlockIndexCache \<Rightarrow> bool" where
  "BlockIndexCache_hasTransactionNr nr c = (nr \<ge> mMinTransactionNr c \<and> nr \<le> mMaxTransactionNr c)"

definition BlockIndexCache_getTransactionsCount :: "BlockIndexCache \<Rightarrow> u64" where
  "BlockIndexCache_getTransactionsCount c =
     (if mMaxTransactionNr c = 0 \<and> mMinTransactionNr c = 0 then 0
      else mMaxTransactionNr c - mMinTransactionNr c + 1)"

definition BlockIndexCache_getOldestYearMonth :: "BlockIndexCache \<Rightarrow> (int \<times> nat) result" where
  "BlockIndexCache_getOldestYearMonth c =
     (case mYearMonthAddressIndexEntries c of
        [] \<Rightarrow> Inr (0, 0)
      | (y, ms) # _ \<Rightarrow> (case ms of [] \<Rightarrow> Inl AssertFailed | (mo, _) # _ \<Rightarrow> Inr (y, mo)))"

definition BlockIndexCache_getNewestYearMonth :: "BlockIndexCache \<Rightarrow> (int \<times> nat) result" where
  "BlockIndexCache_getNewestYearMonth c =
     (if mYearMonthAddressIndexEntries c = [] then Inr (0, 0)
      else case last (mYearMonthAddressIndexEntries c) of (y, ms) \<Rightarrow>
        (if ms = [] then Inl AssertFailed else Inr (y, fst (last ms))))"

definition BlockIndexCache_findTransactionsForMonthYear :: "int \<Rightarrow> nat \<Rightarrow> BlockIndexCache \<Rightarrow> (u64 \<times> u64) result" where
  "BlockIndexCache_findTransactionsForMonthYear year month c =
     (case map_of (mYearMonthAddressIndexEntries c) year of
        None \<Rightarrow> Inr (0, 0)
      | Some ms \<Rightarrow>
          (case map_of ms month of
             None \<Rightarrow> Inr (0, 0)
           | Some es \<Rightarrow> if es = [] then Inl UndefinedBehaviour
                        else Inr (be_transactionNr (hd es), be_transactionNr (last es))))"

text \<open>
  A cursor of 0 for a transaction after the first is not there yet: the search waits, at most 100
  times, while other threads work on the index (\<open>env\<close>).
\<close>

fun wait_cursor :: "(nat \<Rightarrow> BlockIndexCache \<Rightarrow> BlockIndexCache) \<Rightarrow> u64 \<Rightarrow> nat \<Rightarrow> BlockIndexCache
    \<Rightarrow> u32 option result \<times> BlockIndexCache" where
  "wait_cursor env nr 0 c = (Inr (map_of (mTransactionNrsFileCursors c) nr), c)"
| "wait_cursor env nr (Suc timeout) c =
     (case map_of (mTransactionNrsFileCursors c) nr of
        None \<Rightarrow> (Inr None, c)
      | Some cursor \<Rightarrow>
          if cursor \<noteq> 0 then (Inr (Some cursor), c)
          else let c' = env timeout c in
            (case map_of (mTransactionNrsFileCursors c') nr of
               None \<Rightarrow> (Inl UndefinedBehaviour, c')
             | Some cursor' \<Rightarrow>
                 if cursor' = 0 \<and> timeout > 0 then wait_cursor env nr timeout c'
                 else (Inr (Some cursor'), c')))"

definition BlockIndexCache_getFileCursorForTransactionNr ::
    "(nat \<Rightarrow> BlockIndexCache \<Rightarrow> BlockIndexCache) \<Rightarrow> u64 \<Rightarrow> BlockIndexCache \<Rightarrow> u32 option result \<times> BlockIndexCache" where
  "BlockIndexCache_getFileCursorForTransactionNr env nr c =
     (case map_of (mTransactionNrsFileCursors c) nr of
        None \<Rightarrow> (Inr None, c)
      | Some cursor \<Rightarrow>
          if cursor = 0 \<and> nr > 1 then wait_cursor env nr 100 c else (Inr (Some cursor), c))"

subsection \<open>The parts of the library a search uses\<close>

datatype SearchDirection = ASC | DESC

text \<open>
  A filter: the fields the index reads. \<open>f_skipEntriesCount\<close> and \<open>f_hasCapacityLeft\<close> are the methods of
  its pagination, \<open>f_interval\<close> its time interval; an empty key or community stands for no criterion.
\<close>

record 'iv Filter =
  f_minTransactionNr :: u64
  f_maxTransactionNr :: u64
  f_involvedPublicKey :: string
  f_searchDirection :: SearchDirection
  f_skipEntriesCount :: u32
  f_hasCapacityLeft :: "nat \<Rightarrow> bool"
  f_transactionType :: u8
  f_coinCommunityId :: string
  f_interval :: 'iv

text \<open>\<open>TimepointInterval\<close>, with the year and month pairs between its ends.\<close>

record 'iv interval_ops =
  iv_make :: "int \<times> nat \<Rightarrow> int \<times> nat \<Rightarrow> 'iv"
  iv_isEmpty :: "'iv \<Rightarrow> bool"
  iv_start :: "'iv \<Rightarrow> int"
  iv_end :: "'iv \<Rightarrow> int"
  iv_setStart :: "int \<Rightarrow> 'iv \<Rightarrow> 'iv"
  iv_setEnd :: "int \<Rightarrow> 'iv \<Rightarrow> 'iv"
  iv_months :: "'iv \<Rightarrow> (int \<times> nat) list"

text \<open>
  \<open>iterateRangeInOrder\<close> runs a callback on every element of a range, from the front or from the back,
  until the callback returns false. It is a parameter, with this behaviour as a hypothesis.
\<close>

type_synonym ('x, 's) iterate = "SearchDirection \<Rightarrow> 'x list \<Rightarrow> ('x \<Rightarrow> 's \<Rightarrow> bool result \<times> 's) \<Rightarrow> 's \<Rightarrow> unit result \<times> 's"

fun iterate_until :: "('x \<Rightarrow> 's \<Rightarrow> bool result \<times> 's) \<Rightarrow> 'x list \<Rightarrow> 's \<Rightarrow> unit result \<times> 's" where
  "iterate_until f [] s = (Inr (), s)"
| "iterate_until f (x # xs) s =
     (case f x s of
        (Inl e, s') \<Rightarrow> (Inl e, s')
      | (Inr goOn, s') \<Rightarrow> if goOn then iterate_until f xs s' else (Inr (), s'))"

definition ordered :: "SearchDirection \<Rightarrow> 'x list \<Rightarrow> 'x list" where
  "ordered dir xs = (case dir of ASC \<Rightarrow> xs | DESC \<Rightarrow> rev xs)"

definition iterates :: "('x, 's) iterate \<Rightarrow> bool" where
  "iterates it = (\<forall>dir xs f s. it dir xs f s = iterate_until f (ordered dir xs) s)"

definition BlockIndexCache_filteredTimepointInterval ::
    "'iv interval_ops \<Rightarrow> 'iv Filter \<Rightarrow> BlockIndexCache \<Rightarrow> 'iv result" where
  "BlockIndexCache_filteredTimepointInterval IV flt c =
     (case (BlockIndexCache_getOldestYearMonth c, BlockIndexCache_getNewestYearMonth c) of
        (Inr old, Inr new) \<Rightarrow>
          let iv0 = iv_make IV old new in
          Inr (if \<not> iv_isEmpty IV (f_interval flt) then
                 let iv1 = (if iv_start IV iv0 < iv_start IV (f_interval flt)
                            then iv_setStart IV (iv_start IV (f_interval flt)) iv0 else iv0)
                 in if iv_end IV iv1 > iv_end IV (f_interval flt)
                    then iv_setEnd IV (max (iv_start IV iv1) (iv_end IV (f_interval flt))) iv1 else iv1
               else iv0)
      | (Inl e, _) \<Rightarrow> Inl e
      | (_, Inl e) \<Rightarrow> Inl e)"

text \<open>
  \<open>isMatchingFilter\<close> only ever answers to use or to dismiss an entry, never to stop; \<open>none\<close> is the
  value of \<open>TransactionType::NONE\<close>.
\<close>

definition filter_coin :: "(string \<Rightarrow> u32 result) \<Rightarrow> 'iv Filter \<Rightarrow> u32 result" where
  "filter_coin getCommunityIdIndex flt =
     (if f_coinCommunityId flt \<noteq> [] then getCommunityIdIndex (f_coinCommunityId flt) else Inr 0)"

definition BlockIndexEntry_isMatchingFilter ::
    "u8 \<Rightarrow> (string \<Rightarrow> u32 result) \<Rightarrow> 'iv Filter \<Rightarrow> u32 \<Rightarrow> BlockIndexEntry \<Rightarrow> bool result" where
  "BlockIndexEntry_isMatchingFilter none getCommunityIdIndex flt publicKeyIndex entry =
     (if f_transactionType flt \<noteq> none \<and> f_transactionType flt \<noteq> be_transactionType entry then Inr False
      else case filter_coin getCommunityIdIndex flt of
          Inl e \<Rightarrow> Inl e
        | Inr coin \<Rightarrow>
            if coin \<noteq> 0 \<and> coin \<noteq> be_coinCommunityIdIndex entry then Inr False
            else if f_minTransactionNr flt \<noteq> 0 \<and> f_minTransactionNr flt > be_transactionNr entry then Inr False
            else if f_maxTransactionNr flt \<noteq> 0 \<and> f_maxTransactionNr flt < be_transactionNr entry then Inr False
            else if publicKeyIndex \<noteq> 0 \<and>
                publicKeyIndex \<notin> set (take (unat (be_addressIndiceCount entry)) (be_addressIndices entry)) then
              Inr False
            else Inr True)"

text \<open>
  The start of both searches: the prefilter and the index of the public key. \<open>Inr None\<close> is that
  nothing can match.
\<close>

definition prefilter :: "BlockIndexCache \<Rightarrow> 'iv Filter \<Rightarrow> bool" where
  "prefilter c flt =
     ((f_minTransactionNr flt \<noteq> 0 \<and> f_minTransactionNr flt > mMaxTransactionNr c) \<or>
      (f_maxTransactionNr flt \<noteq> 0 \<and> f_maxTransactionNr flt < mMinTransactionNr c))"

definition key_index ::
    "'db leveldb \<Rightarrow> (string \<Rightarrow> 'o) \<Rightarrow> ('db, 'o) Dictionary \<Rightarrow> 'iv Filter \<Rightarrow> u32 option result" where
  "key_index L octet dict flt =
     (if f_involvedPublicKey flt \<noteq> [] then
        (case Dictionary_hasString L octet (f_involvedPublicKey flt) dict of
           Inl e \<Rightarrow> Inl e
         | Inr False \<Rightarrow> Inr None
         | Inr True \<Rightarrow>
             (case Dictionary_getIndexForString L octet (f_involvedPublicKey flt) dict of
                Inl e \<Rightarrow> Inl e | Inr i \<Rightarrow> Inr (Some i)))
      else Inr (Some 0))"

text \<open>The callbacks: on the entries of a month, and on a month.\<close>

definition find_entry ::
    "u8 \<Rightarrow> (string \<Rightarrow> u32 result) \<Rightarrow> 'iv Filter \<Rightarrow> u32 \<Rightarrow> BlockIndexEntry \<Rightarrow> u64 list \<times> nat \<Rightarrow> bool result \<times> u64 list \<times> nat" where
  "find_entry none getCommunityIdIndex flt publicKeyIndex entry s =
     (case s of (found, paginationCursor) \<Rightarrow>
      case BlockIndexEntry_isMatchingFilter none getCommunityIdIndex flt publicKeyIndex entry of
        Inl e \<Rightarrow> (Inl e, s)
      | Inr use \<Rightarrow>
          let s' = (if use then
                 (if paginationCursor \<ge> unat (f_skipEntriesCount flt)
                  then found @ [be_transactionNr entry] else found, paginationCursor + 1)
               else s)
          in (Inr (f_hasCapacityLeft flt (length (fst s'))), s'))"

definition find_month ::
    "(BlockIndexEntry, u64 list \<times> nat) iterate \<Rightarrow> u8 \<Rightarrow> (string \<Rightarrow> u32 result) \<Rightarrow> 'iv Filter \<Rightarrow> u32 \<Rightarrow> BlockIndexCache
       \<Rightarrow> int \<times> nat \<Rightarrow> u64 list \<times> nat \<Rightarrow> bool result \<times> u64 list \<times> nat" where
  "find_month itE none getCommunityIdIndex flt publicKeyIndex c ym s =
     (case map_of (mYearMonthAddressIndexEntries c) (fst ym) of
        None \<Rightarrow> (Inr True, s)
      | Some ms \<Rightarrow>
          (case map_of ms (snd ym) of
             None \<Rightarrow> (Inr True, s)
           | Some es \<Rightarrow>
               (case itE (f_searchDirection flt) es (find_entry none getCommunityIdIndex flt publicKeyIndex) s of
                  (Inl e, s') \<Rightarrow> (Inl e, s')
                | (Inr _, s') \<Rightarrow> (Inr True, s'))))"

definition BlockIndexCache_findTransactions ::
    "(int \<times> nat, u64 list \<times> nat) iterate \<Rightarrow> (BlockIndexEntry, u64 list \<times> nat) iterate \<Rightarrow> 'iv interval_ops \<Rightarrow> u8
       \<Rightarrow> (string \<Rightarrow> u32 result) \<Rightarrow> 'db leveldb \<Rightarrow> (string \<Rightarrow> 'o) \<Rightarrow> 'iv Filter \<Rightarrow> ('db, 'o) Dictionary
       \<Rightarrow> BlockIndexCache \<Rightarrow> u64 list result" where
  "BlockIndexCache_findTransactions itM itE IV none getCommunityIdIndex L octet flt dict c =
     (if prefilter c flt then Inr []
      else case key_index L octet dict flt of
          Inl e \<Rightarrow> Inl e
        | Inr None \<Rightarrow> Inr []
        | Inr (Some publicKeyIndex) \<Rightarrow>
            (case BlockIndexCache_filteredTimepointInterval IV flt c of
               Inl e \<Rightarrow> Inl e
             | Inr iv \<Rightarrow>
                 (case itM (f_searchDirection flt) (iv_months IV iv)
                         (find_month itE none getCommunityIdIndex flt publicKeyIndex c) ([], 0) of
                    (Inl e, _) \<Rightarrow> Inl e
                  | (Inr _, (found, _)) \<Rightarrow> Inr found)))"

definition count_entry ::
    "u8 \<Rightarrow> (string \<Rightarrow> u32 result) \<Rightarrow> 'iv Filter \<Rightarrow> u32 \<Rightarrow> BlockIndexEntry \<Rightarrow> nat \<Rightarrow> bool result \<times> nat" where
  "count_entry none getCommunityIdIndex flt publicKeyIndex entry n =
     (case BlockIndexEntry_isMatchingFilter none getCommunityIdIndex flt publicKeyIndex entry of
        Inl e \<Rightarrow> (Inl e, n)
      | Inr use \<Rightarrow> (Inr True, if use then n + 1 else n))"

definition count_month ::
    "(BlockIndexEntry, nat) iterate \<Rightarrow> u8 \<Rightarrow> (string \<Rightarrow> u32 result) \<Rightarrow> 'iv Filter \<Rightarrow> u32 \<Rightarrow> BlockIndexCache
       \<Rightarrow> int \<times> nat \<Rightarrow> nat \<Rightarrow> bool result \<times> nat" where
  "count_month itE none getCommunityIdIndex flt publicKeyIndex c ym n =
     (case map_of (mYearMonthAddressIndexEntries c) (fst ym) of
        None \<Rightarrow> (Inr True, n)
      | Some ms \<Rightarrow>
          (case map_of ms (snd ym) of
             None \<Rightarrow> (Inr True, n)
           | Some es \<Rightarrow>
               (case itE ASC es (count_entry none getCommunityIdIndex flt publicKeyIndex) n of
                  (Inl e, n') \<Rightarrow> (Inl e, n')
                | (Inr _, n') \<Rightarrow> (Inr True, n'))))"

definition BlockIndexCache_countTransactions ::
    "(int \<times> nat, nat) iterate \<Rightarrow> (BlockIndexEntry, nat) iterate \<Rightarrow> 'iv interval_ops \<Rightarrow> u8
       \<Rightarrow> (string \<Rightarrow> u32 result) \<Rightarrow> 'db leveldb \<Rightarrow> (string \<Rightarrow> 'o) \<Rightarrow> 'iv Filter \<Rightarrow> ('db, 'o) Dictionary
       \<Rightarrow> BlockIndexCache \<Rightarrow> nat result" where
  "BlockIndexCache_countTransactions itM itE IV none getCommunityIdIndex L octet flt dict c =
     (if prefilter c flt then Inr 0
      else case key_index L octet dict flt of
          Inl e \<Rightarrow> Inl e
        | Inr None \<Rightarrow> Inr 0
        | Inr (Some publicKeyIndex) \<Rightarrow>
            (case BlockIndexCache_filteredTimepointInterval IV flt c of
               Inl e \<Rightarrow> Inl e
             | Inr iv \<Rightarrow>
                 (case itM (f_searchDirection flt) (iv_months IV iv)
                         (count_month itE none getCommunityIdIndex flt publicKeyIndex c) 0 of
                    (Inl e, _) \<Rightarrow> Inl e
                  | (Inr _, n) \<Rightarrow> Inr n)))"

section \<open>The index file of the cache\<close>

fun month_blocks :: "(u64 \<times> u32) list \<Rightarrow> BlockIndexEntry list \<Rightarrow> BlockIndexFile \<Rightarrow> BlockIndexFile result" where
  "month_blocks cursors [] bf = Inr bf"
| "month_blocks cursors (e # es) bf =
     (case map_of cursors (be_transactionNr e) of
        None \<Rightarrow> Inl (Gradido InvalidData)
      | Some cursor \<Rightarrow>
          month_blocks cursors es
            (BlockIndexFile_addDataBlock (be_transactionNr e) cursor (be_transactionType e)
               (be_coinCommunityIdIndex e) (take (unat (be_addressIndiceCount e)) (be_addressIndices e)) bf))"

fun year_blocks :: "(u64 \<times> u32) list \<Rightarrow> month_map \<Rightarrow> BlockIndexFile \<Rightarrow> BlockIndexFile result" where
  "year_blocks cursors [] bf = Inr bf"
| "year_blocks cursors ((mo, es) # ms) bf =
     (case month_blocks cursors es (BlockIndexFile_addMonthBlock mo bf) of
        Inl e \<Rightarrow> Inl e
      | Inr bf' \<Rightarrow> year_blocks cursors ms bf')"

fun all_blocks :: "(u64 \<times> u32) list \<Rightarrow> (int \<times> month_map) list \<Rightarrow> BlockIndexFile \<Rightarrow> BlockIndexFile result" where
  "all_blocks cursors [] bf = Inr bf"
| "all_blocks cursors ((y, ms) # ys) bf =
     (case year_blocks cursors ms (BlockIndexFile_addYearBlock y bf) of
        Inl e \<Rightarrow> Inl e
      | Inr bf' \<Rightarrow> all_blocks cursors ys bf')"

definition BlockIndexCache_serialize ::
    "BlockIndexCache \<Rightarrow> node_fs \<Rightarrow> BlockIndexFile option result \<times> node_fs" where
  "BlockIndexCache_serialize c fs =
     (if mYearMonthAddressIndexEntries c = [] \<and> mTransactionNrsFileCursors c = [] \<and>
         mMaxTransactionNr c = 0 \<and> mMinTransactionNr c = 0 then (Inr None, fs)
      else if mYearMonthAddressIndexEntries c = [] \<or> mTransactionNrsFileCursors c = [] then (Inl AssertFailed, fs)
      else case BlockIndexFile_new (mFolderPath_Index c) (mBlockNr_Index c) fs of (bf, fs') \<Rightarrow>
        (map_sum id Some (all_blocks (mTransactionNrsFileCursors c) (mYearMonthAddressIndexEntries c) bf), fs'))"

definition BlockIndexCache_writeIntoFile ::
    "(nat \<Rightarrow> locks \<Rightarrow> locks) \<Rightarrow> (bytes \<Rightarrow> bytes) \<Rightarrow> (nat \<Rightarrow> u8) \<Rightarrow> BlockIndexCache \<Rightarrow> node_fs \<Rightarrow> bool result \<times> node_fs" where
  "BlockIndexCache_writeIntoFile env ghash junk c fs =
     (case BlockIndexCache_serialize c fs of
        (Inl e, fs') \<Rightarrow> (Inl e, fs')
      | (Inr None, fs') \<Rightarrow> (Inr False, fs')
      | (Inr (Some bf), fs') \<Rightarrow>
          (case BlockIndexFile_writeToFile env ghash junk bf fs' of
             (Inl e, _, fs'') \<Rightarrow> (Inl e, fs'')
           | (Inr _, _, fs'') \<Rightarrow> (Inr True, fs'')))"

definition clearIndex :: "BlockIndexCache \<Rightarrow> BlockIndexCache" where
  "clearIndex c = c\<lparr>mYearMonthAddressIndexEntries := [], mTransactionNrsFileCursors := [],
     mMaxTransactionNr := 0, mMinTransactionNr := 0\<rparr>"

definition BlockIndexCache_exit ::
    "(nat \<Rightarrow> locks \<Rightarrow> locks) \<Rightarrow> (bytes \<Rightarrow> bytes) \<Rightarrow> (nat \<Rightarrow> u8) \<Rightarrow> BlockIndexCache \<Rightarrow> node_fs
       \<Rightarrow> unit result \<times> BlockIndexCache \<times> node_fs" where
  "BlockIndexCache_exit env ghash junk c fs =
     (case BlockIndexCache_writeIntoFile env ghash junk c fs of
        (Inl e, fs') \<Rightarrow> (Inl e, c, fs')
      | (Inr _, fs') \<Rightarrow> (Inr (), clearIndex c, fs'))"

definition BlockIndexCache_reset ::
    "(nat \<Rightarrow> locks \<Rightarrow> locks) \<Rightarrow> BlockIndexCache \<Rightarrow> node_fs \<Rightarrow> unit result \<times> BlockIndexCache \<times> node_fs" where
  "BlockIndexCache_reset env c fs =
     (let c1 = c\<lparr>mYearMonthAddressIndexEntries := [], mTransactionNrsFileCursors := []\<rparr> in
      case BlockIndexFile_new (mFolderPath_Index c) (mBlockNr_Index c) fs of (bf, fs1) \<Rightarrow>
      (case BlockIndexFile_reset env bf fs1 of
         (Inl e, fs2) \<Rightarrow> (Inl e, c1, fs2)
       | (Inr _, fs2) \<Rightarrow> (Inr (), clearIndex c1, fs2)))"

definition BlockIndexCache_loadFromFile ::
    "(nat \<Rightarrow> locks \<Rightarrow> locks) \<Rightarrow> (bytes \<Rightarrow> bytes) \<Rightarrow> bytes \<Rightarrow> (u8 \<Rightarrow> bool) \<Rightarrow> nat \<Rightarrow> BlockIndexCache \<Rightarrow> node_fs
       \<Rightarrow> (bool result \<times> BlockIndexCache \<times> node_fs) option" where
  "BlockIndexCache_loadFromFile env ghash junk enum_contains fuel c fs =
     (if mYearMonthAddressIndexEntries c \<noteq> [] \<or> mTransactionNrsFileCursors c \<noteq> [] then Some (Inl AssertFailed, c, fs)
      else case BlockIndexFile_new (mFolderPath_Index c) (mBlockNr_Index c) fs of (bf, fs1) \<Rightarrow>
        BlockIndexFile_readFromFile env ghash junk enum_contains BlockIndexCache_receive fuel bf c fs1)"

definition BlockIndexCache_init ::
    "(nat \<Rightarrow> locks \<Rightarrow> locks) \<Rightarrow> (bytes \<Rightarrow> bytes) \<Rightarrow> bytes \<Rightarrow> (u8 \<Rightarrow> bool) \<Rightarrow> nat \<Rightarrow> BlockIndexCache \<Rightarrow> node_fs
       \<Rightarrow> (bool result \<times> BlockIndexCache \<times> node_fs) option" where
  "BlockIndexCache_init = BlockIndexCache_loadFromFile"

section \<open>The invariant of the index\<close>

text \<open>
  Years and months are in ascending order, no year is without a month, the transaction numbers of a
  month ascend strictly, and no number is above the largest one.
\<close>

definition index_inv :: "BlockIndexCache \<Rightarrow> bool" where
  "index_inv c =
     (omap_ok (mYearMonthAddressIndexEntries c) \<and>
      (\<forall>y ms. map_of (mYearMonthAddressIndexEntries c) y = Some ms \<longrightarrow> ms \<noteq> [] \<and> omap_ok ms) \<and>
      (\<forall>y mo. sorted_wrt (<) (map be_transactionNr (month_of y mo (mYearMonthAddressIndexEntries c)))) \<and>
      (\<forall>y mo. \<forall>e \<in> set (month_of y mo (mYearMonthAddressIndexEntries c)).
         be_transactionNr e \<le> mMaxTransactionNr c) \<and>
      omap_ok (mTransactionNrsFileCursors c))"

lemma index_inv_new [simp]: "index_inv (BlockIndexCache_new f n)"
  by (simp add: index_inv_def BlockIndexCache_new_def month_of_def months_of_def)

definition years_ok :: "(int \<times> month_map) list \<Rightarrow> bool" where
  "years_ok M = (omap_ok M \<and> (\<forall>y ms. map_of M y = Some ms \<longrightarrow> ms \<noteq> [] \<and> omap_ok ms))"

lemma years_okD: "years_ok M \<Longrightarrow> omap_ok M" "years_ok M \<Longrightarrow> omap_ok (months_of y M)"
  by (auto simp: years_ok_def months_of_def split: option.split)

lemma months_of_set_month [omap_simps]:
  "years_ok M \<Longrightarrow> months_of y' (set_month y mo es M) =
     (if y' = y then omap_put mo es (months_of y M) else months_of y' M)"
  by (simp add: months_of_def set_month_def map_of_omap_put years_okD(1))

lemma month_of_set_month [omap_simps]:
  "years_ok M \<Longrightarrow> month_of y' mo' (set_month y mo es M) =
     (if y' = y \<and> mo' = mo then es else month_of y' mo' M)"
  by (auto simp: month_of_def months_of_set_month map_of_omap_put years_okD(2))

lemma years_ok_set_month [omap_simps]: "years_ok M \<Longrightarrow> years_ok (set_month y mo es M)"
  using years_okD [of M] omap_ok_put [of "months_of y M" mo es] omap_ok_put [of M y "omap_put mo es (months_of y M)"]
  by (auto simp: years_ok_def set_month_def map_of_omap_put split: if_splits)

lemma index_inv_alt:
  "index_inv c \<longleftrightarrow> years_ok (mYearMonthAddressIndexEntries c) \<and> omap_ok (mTransactionNrsFileCursors c) \<and>
     (\<forall>y mo. sorted_wrt (<) (map be_transactionNr (month_of y mo (mYearMonthAddressIndexEntries c)))) \<and>
     (\<forall>y mo. \<forall>e \<in> set (month_of y mo (mYearMonthAddressIndexEntries c)).
         be_transactionNr e \<le> mMaxTransactionNr c)"
  by (auto simp: index_inv_def years_ok_def)

lemma update_min_max_simps [simp]:
  "mYearMonthAddressIndexEntries (update_min_max nr c) = mYearMonthAddressIndexEntries c"
  "mTransactionNrsFileCursors (update_min_max nr c) = mTransactionNrsFileCursors c"
  "mMaxTransactionNr (update_min_max nr c) = max nr (mMaxTransactionNr c)"
  "mMinTransactionNr (update_min_max nr c) =
     (if mMinTransactionNr c = 0 then nr else min nr (mMinTransactionNr c))"
  by (auto simp: update_min_max_def Let_def max_def min_def)

lemma index_inv_min_max: "index_inv c \<Longrightarrow> index_inv (update_min_max nr c)"
  unfolding index_inv_alt by (auto simp: le_max_iff_disj)

lemma index_inv_dirty [simp]: "index_inv (c\<lparr>mDirty := b\<rparr>) = index_inv c"
  by (simp add: index_inv_def)

lemma index_inv_cursors:
  "index_inv c \<Longrightarrow> omap_ok cs \<Longrightarrow> index_inv (c\<lparr>mTransactionNrsFileCursors := cs\<rparr>)"
  by (simp add: index_inv_def)

lemma index_inv_cursor_add:
  assumes "index_inv c"
  shows "index_inv (snd (BlockIndexCache_addFileCursorForTransaction nr cursor c))"
proof -
  have "omap_ok (omap_put nr cursor (mTransactionNrsFileCursors c))"
    using assms by (simp add: index_inv_def omap_ok_put)
  then have "index_inv (c\<lparr>mDirty := True, mTransactionNrsFileCursors :=
      omap_put nr cursor (mTransactionNrsFileCursors c)\<rparr>)"
    using assms by (simp add: index_inv_def)
  then show ?thesis using assms
    by (auto simp: BlockIndexCache_addFileCursorForTransaction_def Let_def split: option.split)
qed

lemma index_inv_set_month:
  assumes "index_inv c" and "sorted_wrt (<) (map be_transactionNr es)"
    and "\<forall>e \<in> set es. be_transactionNr e \<le> mMaxTransactionNr c"
  shows "index_inv (c\<lparr>mYearMonthAddressIndexEntries := set_month y mo es (mYearMonthAddressIndexEntries c)\<rparr>)"
  using assms by (auto simp: index_inv_alt years_ok_set_month month_of_set_month)

lemma index_inv_addIndices:
  assumes "index_inv c"
  shows "index_inv (snd (BlockIndexCache_addIndices ty coin y mo nr cursor addrs cnt c))"
proof -
  let ?c1 = "update_min_max nr (c\<lparr>mDirty := True\<rparr>)"
  let ?es = "month_of y mo (mYearMonthAddressIndexEntries ?c1)"
  let ?c2 = "?c1\<lparr>mYearMonthAddressIndexEntries := set_month y mo ?es (mYearMonthAddressIndexEntries ?c1)\<rparr>"
  let ?e = "\<lparr>be_transactionNr = nr, be_addressIndices = take (unat cnt) addrs, be_coinCommunityIdIndex = coin,
    be_transactionType = ty, be_addressIndiceCount = ucast cnt\<rparr>"
  let ?c3 = "?c2\<lparr>mYearMonthAddressIndexEntries := set_month y mo (?es @ [?e]) (mYearMonthAddressIndexEntries ?c2)\<rparr>"
  have i1: "index_inv ?c1" using assms by (simp add: index_inv_min_max)
  then have i2: "index_inv ?c2" by (intro index_inv_set_month) (auto simp: index_inv_alt)
  have i3: "index_inv ?c3" if "?es = [] \<or> be_transactionNr (last ?es) < nr"
  proof (rule index_inv_set_month [OF i2])
    have s: "sorted_wrt (<) (map be_transactionNr ?es)" using i1 by (simp add: index_inv_alt)
    show "sorted_wrt (<) (map be_transactionNr (?es @ [?e]))"
    proof (cases "?es" rule: rev_cases)
      case Nil
      then show ?thesis by simp
    next
      case (snoc ys z)
      with s that show ?thesis by (auto simp: sorted_wrt_append)
    qed
    show "\<forall>e \<in> set (?es @ [?e]). be_transactionNr e \<le> mMaxTransactionNr ?c2"
      using i1 by (auto simp: index_inv_alt)
  qed
  have i4: "index_inv c4" if "BlockIndexCache_addFileCursorForTransaction nr cursor ?c3 = (r, c4)"
    and "?es = [] \<or> be_transactionNr (last ?es) < nr" for r c4
    using index_inv_cursor_add [OF i3 [OF that(2)], of nr cursor] that(1) by simp
  show ?thesis
    using i2 i4 by (auto simp: BlockIndexCache_addIndices_def Let_def not_le split: prod.split sum.split)
qed

lemma index_inv_receive: "index_inv c \<Longrightarrow> index_inv (snd (BlockIndexCache_receive e c))"
  by (simp add: BlockIndexCache_receive_def index_inv_addIndices)

interpretation index_receiver: block_index_receiver BlockIndexCache_receive index_inv
  by unfold_locales (rule index_inv_receive)

lemma index_inv_addEntry:
  assumes "index_inv c"
  shows "index_inv (snd (BlockIndexCache_addEntry gci e c))"
proof -
  have i1: "index_inv (update_min_max (ne_transactionNr e) c)" by (rule index_inv_min_max [OF assms])
  have i2: "index_inv c2" if "BlockIndexCache_addFileCursorForTransaction (ne_transactionNr e) (ne_fileCursor e)
      (update_min_max (ne_transactionNr e) c) = (r, c2)" for r c2
    using index_inv_cursor_add [OF i1, of "ne_transactionNr e" "ne_fileCursor e"] that by simp
  show ?thesis
    using i1 i2 by (auto simp: BlockIndexCache_addEntry_def Let_def split: prod.split sum.split
        intro!: index_inv_addIndices)
qed

text \<open>The invariant in every run of additions, whatever they return, as a \<open>step_invariant\<close>.\<close>

interpretation index_run: step_invariant "\<lambda>e c. snd (BlockIndexCache_addEntry gci e c)" index_inv
  by unfold_locales (rule index_inv_addEntry)

section \<open>What a search returns\<close>

text \<open>Without an error, a search visits the entries of the months one after the other.\<close>

definition match :: "u8 \<Rightarrow> u32 \<Rightarrow> 'iv Filter \<Rightarrow> u32 \<Rightarrow> BlockIndexEntry \<Rightarrow> bool" where
  "match none coin flt key e =
     ((f_transactionType flt = none \<or> f_transactionType flt = be_transactionType e) \<and>
      (coin = 0 \<or> coin = be_coinCommunityIdIndex e) \<and>
      (f_minTransactionNr flt = 0 \<or> f_minTransactionNr flt \<le> be_transactionNr e) \<and>
      (f_maxTransactionNr flt = 0 \<or> be_transactionNr e \<le> f_maxTransactionNr flt) \<and>
      (key = 0 \<or> key \<in> set (take (unat (be_addressIndiceCount e)) (be_addressIndices e))))"

lemma isMatchingFilter_match:
  assumes "filter_coin gci flt = Inr coin"
  shows "BlockIndexEntry_isMatchingFilter none gci flt key e = Inr (match none coin flt key e)"
  using assms by (auto simp: BlockIndexEntry_isMatchingFilter_def match_def not_le not_less)

lemma iteratesD: "iterates it \<Longrightarrow> it dir xs f s = iterate_until f (ordered dir xs) s"
  unfolding iterates_def by blast

text \<open>The entries of a month as the search finds them.\<close>

lemma find_month_eq:
  assumes "iterates itE"
  shows "find_month itE none gci flt key c ym s =
    (case iterate_until (find_entry none gci flt key)
        (ordered (f_searchDirection flt) (month_of (fst ym) (snd ym) (mYearMonthAddressIndexEntries c))) s of
       (Inl e, s') \<Rightarrow> (Inl e, s')
     | (Inr _, s') \<Rightarrow> (Inr True, s'))"
  by (auto simp: find_month_def iteratesD [OF assms] month_of_def months_of_def ordered_def
      split: option.split SearchDirection.split)

text \<open>While there is capacity and nothing is skipped, every matching entry is taken.\<close>

lemma iterate_find_entries:
  assumes "filter_coin gci flt = Inr coin"
    and "f_skipEntriesCount flt = 0" and "\<And>n. f_hasCapacityLeft flt n"
  shows "iterate_until (find_entry none gci flt key) es (found, n) =
    (Inr (), found @ map be_transactionNr (filter (match none coin flt key) es),
      n + length (filter (match none coin flt key) es))"
proof (induction es arbitrary: found n)
  case Nil
  show ?case by simp
next
  case (Cons e es)
  then show ?case
    using assms by (simp add: find_entry_def isMatchingFilter_match [OF assms(1)] Let_def)
qed

definition entries_in :: "SearchDirection \<Rightarrow> (int \<times> nat) list \<Rightarrow> BlockIndexCache \<Rightarrow> BlockIndexEntry list" where
  "entries_in dir yms c = concat (map (\<lambda>ym.
     ordered dir (month_of (fst ym) (snd ym) (mYearMonthAddressIndexEntries c))) (ordered dir yms))"

lemma iterate_find_months:
  assumes "filter_coin gci flt = Inr coin"
    and "f_skipEntriesCount flt = 0" and "\<And>n. f_hasCapacityLeft flt n" and "iterates itE"
  shows "iterate_until (find_month itE none gci flt key c) yms (found, n) =
    (let es = filter (match none coin flt key) (concat (map (\<lambda>ym. ordered (f_searchDirection flt)
        (month_of (fst ym) (snd ym) (mYearMonthAddressIndexEntries c))) yms))
     in (Inr (), found @ map be_transactionNr es, n + length es))"
proof (induction yms arbitrary: found n)
  case Nil
  show ?case by simp
next
  case (Cons ym yms)
  then show ?case
    by (simp add: find_month_eq [OF assms(4)] iterate_find_entries [OF assms(1-3)] Let_def)
qed

lemma filter_rev_length: "length (filter P (rev xs)) = length (filter P xs)"
  by (simp flip: rev_filter)

lemma iterate_count_entries:
  assumes "filter_coin gci flt = Inr coin"
  shows "iterate_until (count_entry none gci flt key) es n =
    (Inr (), n + length (filter (match none coin flt key) es))"
proof (induction es arbitrary: n)
  case Nil
  show ?case by simp
next
  case (Cons e es)
  then show ?case by (simp add: count_entry_def isMatchingFilter_match [OF assms])
qed

lemma count_month_eq:
  assumes "iterates itE"
    and "filter_coin gci flt = Inr coin"
  shows "count_month itE none gci flt key c ym n = (Inr True, n + length (filter (match none coin flt key)
      (month_of (fst ym) (snd ym) (mYearMonthAddressIndexEntries c))))"
  by (auto simp: count_month_def iteratesD [OF assms(1)] iterate_count_entries [OF assms(2)]
      month_of_def months_of_def ordered_def split: option.split)

lemma iterate_count_months:
  assumes "iterates itE"
    and "filter_coin gci flt = Inr coin"
  shows "iterate_until (count_month itE none gci flt key c) yms n =
    (Inr (), n + length (filter (match none coin flt key)
       (concat (map (\<lambda>ym. month_of (fst ym) (snd ym) (mYearMonthAddressIndexEntries c)) yms))))"
  by (induction yms arbitrary: n) (simp_all add: count_month_eq [OF assms])

lemma length_filter_ordered: "length (filter P (ordered dir xs)) = length (filter P xs)"
  by (cases dir) (simp_all add: ordered_def filter_rev_length)

lemma length_filter_entries_in:
  "length (filter P (concat (map (\<lambda>ym. ordered dir (f ym)) yms))) = length (filter P (concat (map f yms)))"
  by (induction yms) (simp_all add: length_filter_ordered)

lemma length_filter_concat_ordered:
  "length (filter P (concat (map f (ordered dir yms)))) = length (filter P (concat (map f yms)))"
  by (cases dir) (simp_all add: ordered_def filter_concat length_concat rev_map [symmetric] sum_list_rev)

text \<open>
  However full the page is, a month whose first visited entry matches adds that entry: the callback on
  the entries can stop the month, but not the search.
\<close>

lemma iterate_until_grows:
  assumes "\<And>x s. g (snd (f x s)) \<ge> (g s :: nat)"
  shows "g s \<le> g (snd (iterate_until f xs s))"
proof (induction xs arbitrary: s)
  case Nil
  show ?case by simp
next
  case (Cons x xs)
  have g1: "g s \<le> g (snd (f x s))" by (rule assms)
  show ?case
    using g1 Cons [of "snd (f x s)"]
    by (cases "f x s"; cases "fst (f x s)") auto
qed

lemma find_entry_grows: "length (fst s) \<le> length (fst (snd (find_entry none gci flt key e s)))"
  by (cases s) (auto simp: find_entry_def Let_def split: sum.split)

lemma find_entry_match:
  assumes "filter_coin gci flt = Inr coin" and "match none coin flt key e" and "f_skipEntriesCount flt = 0"
  shows "length (fst (snd (find_entry none gci flt key e s))) = Suc (length (fst s))"
  using assms by (cases s) (simp add: find_entry_def isMatchingFilter_match [OF assms(1)] Let_def)

lemma find_entry_ok:
  assumes "filter_coin gci flt = Inr coin"
  shows "\<exists>b. fst (find_entry none gci flt key e s) = Inr b"
  by (cases s) (simp add: find_entry_def isMatchingFilter_match [OF assms] Let_def)

lemma iterate_find_entry_ok:
  assumes "filter_coin gci flt = Inr coin"
  shows "fst (iterate_until (find_entry none gci flt key) es s) = Inr ()"
proof (induction es arbitrary: s)
  case Nil
  show ?case by simp
next
  case (Cons e es)
  with find_entry_ok [OF assms, of none key e s] show ?case
    by (cases "find_entry none gci flt key e s") auto
qed

definition first_matches :: "u8 \<Rightarrow> u32 \<Rightarrow> 'iv Filter \<Rightarrow> u32 \<Rightarrow> BlockIndexCache \<Rightarrow> int \<times> nat \<Rightarrow> bool" where
  "first_matches none coin flt key c ym =
     (case ordered (f_searchDirection flt) (month_of (fst ym) (snd ym) (mYearMonthAddressIndexEntries c)) of
        [] \<Rightarrow> False | e # es \<Rightarrow> match none coin flt key e)"

lemma find_month_adds:
  assumes "iterates itE" and "filter_coin gci flt = Inr coin" and "f_skipEntriesCount flt = 0"
  shows "\<exists>s'. find_month itE none gci flt key c ym s = (Inr True, s') \<and>
    length (fst s) + (if first_matches none coin flt key c ym then 1 else 0) \<le> length (fst s')"
proof -
  let ?es = "ordered (f_searchDirection flt) (month_of (fst ym) (snd ym) (mYearMonthAddressIndexEntries c))"
  let ?f = "find_entry none gci flt key"
  have grow: "length (fst s) \<le> length (fst (snd (iterate_until ?f es s)))" for es s
    by (rule iterate_until_grows [where g = "\<lambda>s. length (fst s)"]) (rule find_entry_grows)
  have "length (fst s) + (if first_matches none coin flt key c ym then 1 else 0)
      \<le> length (fst (snd (iterate_until ?f ?es s)))"
  proof (cases ?es)
    case Nil
    then show ?thesis by (simp add: first_matches_def)
  next
    case (Cons e es)
    show ?thesis
    proof (cases "match none coin flt key e")
      case True
      obtain b s1 where fe: "?f e s = (Inr b, s1)"
        using find_entry_ok [OF assms(2), of none key e s] by (cases "?f e s") auto
      have "length (fst s1) = Suc (length (fst s))"
        using find_entry_match [OF assms(2) True assms(3), of s] fe by simp
      with grow [of s1 es] show ?thesis by (simp add: Cons fe)
    next
      case False
      with grow [of s ?es] Cons show ?thesis by (simp add: first_matches_def)
    qed
  qed
  then show ?thesis
    using iterate_find_entry_ok [OF assms(2), of none key ?es s]
    by (cases "iterate_until ?f ?es s") (auto simp: find_month_eq [OF assms(1)])
qed

lemma iterate_find_months_adds:
  assumes "iterates itE" and "filter_coin gci flt = Inr coin" and "f_skipEntriesCount flt = 0"
  shows "\<exists>s'. iterate_until (find_month itE none gci flt key c) yms s = (Inr (), s') \<and>
    length (fst s) + length (filter (first_matches none coin flt key c) yms) \<le> length (fst s')"
proof (induction yms arbitrary: s)
  case Nil
  show ?case by simp
next
  case (Cons ym yms)
  obtain s1 where m: "find_month itE none gci flt key c ym s = (Inr True, s1)"
    "length (fst s) + (if first_matches none coin flt key c ym then 1 else 0) \<le> length (fst s1)"
    using find_month_adds [OF assms] by blast
  obtain s2 where "iterate_until (find_month itE none gci flt key c) yms s1 = (Inr (), s2)"
    "length (fst s1) + length (filter (first_matches none coin flt key c) yms) \<le> length (fst s2)"
    using Cons.IH by blast
  with m show ?case by (auto split: if_splits)
qed

section \<open>Writing and loading the index\<close>

text \<open>The blocks the cache puts into its file, and the entries they stand for.\<close>

definition cursor_in :: "(u64 \<times> u32) list \<Rightarrow> BlockIndexEntry \<Rightarrow> u32" where
  "cursor_in cursors e = the (map_of cursors (be_transactionNr e))"

definition data_block :: "(u64 \<times> u32) list \<Rightarrow> BlockIndexEntry \<Rightarrow> IndexBlock" where
  "data_block cursors e = DataBlock (be_transactionNr e) (cursor_in cursors e) (be_transactionType e)
     (be_coinCommunityIdIndex e) (be_addressIndices e)"

definition month_seq :: "(u64 \<times> u32) list \<Rightarrow> month_map \<Rightarrow> IndexBlock list" where
  "month_seq cursors ms = concat (map (\<lambda>(mo, es). MonthBlock (word_of_nat mo) # map (data_block cursors) es) ms)"

definition year_seq :: "(u64 \<times> u32) list \<Rightarrow> (int \<times> month_map) list \<Rightarrow> IndexBlock list" where
  "year_seq cursors M = concat (map (\<lambda>(y, ms). YearBlock (word_of_int y) # month_seq cursors ms) M)"

definition entry_ie :: "(u64 \<times> u32) list \<Rightarrow> int \<Rightarrow> nat \<Rightarrow> BlockIndexEntry \<Rightarrow> index_entry" where
  "entry_ie cursors y mo e =
     \<lparr>ie_transactionType = be_transactionType e, ie_coinCommunityIdIndex = be_coinCommunityIdIndex e,
      ie_year = y, ie_month = mo, ie_transactionNr = be_transactionNr e,
      ie_fileCursor = cursor_in cursors e, ie_addressIndices = be_addressIndices e\<rparr>"

definition month_ies :: "(u64 \<times> u32) list \<Rightarrow> int \<Rightarrow> month_map \<Rightarrow> index_entry list" where
  "month_ies cursors y ms = concat (map (\<lambda>(mo, es). map (entry_ie cursors y mo) es) ms)"

definition year_ies :: "(u64 \<times> u32) list \<Rightarrow> (int \<times> month_map) list \<Rightarrow> index_entry list" where
  "year_ies cursors M = concat (map (\<lambda>(y, ms). month_ies cursors y ms) M)"

definition all_of :: "(int \<times> month_map) list \<Rightarrow> BlockIndexEntry list" where
  "all_of M = concat (map (\<lambda>(y, ms). concat (map snd ms)) M)"

text \<open>What an entry must satisfy to survive the file.\<close>

definition entry_ok :: "(u8 \<Rightarrow> bool) \<Rightarrow> (u64 \<times> u32) list \<Rightarrow> BlockIndexEntry \<Rightarrow> bool" where
  "entry_ok enum_contains cursors e =
     (length (be_addressIndices e) < 256 \<and> be_addressIndiceCount e = word_of_nat (length (be_addressIndices e)) \<and>
      enum_contains (be_transactionType e) \<and> map_of cursors (be_transactionNr e) \<noteq> None \<and>
      0 \<le> sint (cursor_in cursors e))"

lemma push_DataBlock_ok:
  assumes "entry_ok enum_contains cursors e"
  shows "BlockIndexFile_addDataBlock (be_transactionNr e) (cursor_in cursors e) (be_transactionType e)
     (be_coinCommunityIdIndex e) (take (unat (be_addressIndiceCount e)) (be_addressIndices e)) bf =
     push_block (data_block cursors e) bf"
  using assms by (simp add: entry_ok_def BlockIndexFile_addDataBlock_def DataBlock_new_def data_block_def)

lemma month_blocks_push:
  "\<forall>e \<in> set es. entry_ok enum_contains cursors e \<Longrightarrow>
   month_blocks cursors es bf = Inr (fold push_block (map (data_block cursors) es) bf)"
proof (induction es arbitrary: bf)
  case Nil
  show ?case by simp
next
  case (Cons e es)
  then have ok: "entry_ok enum_contains cursors e" by simp
  then obtain cur where "map_of cursors (be_transactionNr e) = Some cur" by (auto simp: entry_ok_def)
  with Cons push_DataBlock_ok [OF ok] show ?case by (simp add: cursor_in_def)
qed

lemma year_blocks_push:
  "\<forall>(mo, es) \<in> set ms. \<forall>e \<in> set es. entry_ok enum_contains cursors e \<Longrightarrow>
   year_blocks cursors ms bf = Inr (fold push_block (month_seq cursors ms) bf)"
proof (induction ms arbitrary: bf)
  case Nil
  show ?case by (simp add: month_seq_def)
next
  case (Cons p ms)
  obtain mo es where p: "p = (mo, es)" by (cases p)
  have "\<forall>e \<in> set es. entry_ok enum_contains cursors e" using Cons.prems p by auto
  note mb = month_blocks_push [OF this]
  from Cons show ?case by (simp add: p mb month_seq_def BlockIndexFile_addMonthBlock_def)
qed

lemma all_blocks_push:
  "\<forall>(y, ms) \<in> set M. \<forall>(mo, es) \<in> set ms. \<forall>e \<in> set es. entry_ok enum_contains cursors e \<Longrightarrow>
   all_blocks cursors M bf = Inr (fold push_block (year_seq cursors M) bf)"
proof (induction M arbitrary: bf)
  case Nil
  show ?case by (simp add: year_seq_def)
next
  case (Cons p M)
  obtain y ms where p: "p = (y, ms)" by (cases p)
  have "\<forall>(mo, es) \<in> set ms. \<forall>e \<in> set es. entry_ok enum_contains cursors e" using Cons.prems p by auto
  note yb = year_blocks_push [OF this]
  from Cons show ?case by (simp add: p yb year_seq_def BlockIndexFile_addYearBlock_def)
qed

lemma fold_push:
  "mDataBlocks (fold push_block bs bf) = mDataBlocks bf @ bs"
  "mFileName_Index (fold push_block bs bf) = mFileName_Index bf"
  "index_file_ok bf \<Longrightarrow> index_file_ok (fold push_block bs bf)"
  by (induction bs arbitrary: bf) (simp_all add: push_block_def index_file_ok_def)

lemma entries_of_data:
  "entries_of y mo (map (data_block cursors) es @ bs) = map (entry_ie cursors y mo) es @ entries_of y mo bs"
  by (induction es) (simp_all add: data_block_def entry_ie_def)

lemma entries_of_months:
  "\<forall>(mo, es) \<in> set ms. mo < 256 \<Longrightarrow>
   \<exists>mo'. \<forall>bs. entries_of y mo0 (month_seq cursors ms @ bs) = month_ies cursors y ms @ entries_of y mo' bs"
proof (induction ms arbitrary: mo0)
  case Nil
  show ?case by (auto simp: month_seq_def month_ies_def)
next
  case (Cons p ms)
  obtain mo es where p: "p = (mo, es)" by (cases p)
  with Cons.prems have mo: "unat (word_of_nat mo :: u8) = mo" by simp
  have "\<forall>(mo, es) \<in> set ms. mo < 256" using Cons.prems by simp
  from Cons.IH [OF this, of mo] obtain mo' where
    ih: "entries_of y mo (month_seq cursors ms @ bs) = month_ies cursors y ms @ entries_of y mo' bs" for bs by blast
  have "entries_of y mo0 (month_seq cursors (p # ms) @ bs) = month_ies cursors y (p # ms) @ entries_of y mo' bs" for bs
    using ih [of bs] entries_of_data [of y mo cursors es "month_seq cursors ms @ bs"] mo
    by (simp add: p month_seq_def month_ies_def)
  then show ?case by blast
qed

lemma entries_of_years:
  "\<forall>(y, ms) \<in> set M. - (2 ^ 15) \<le> y \<and> y < 2 ^ 15 \<and> (\<forall>(mo, es) \<in> set ms. mo < 256) \<Longrightarrow>
   entries_of y0 mo0 (year_seq cursors M) = year_ies cursors M"
proof (induction M arbitrary: y0 mo0)
  case Nil
  show ?case by (simp add: year_seq_def year_ies_def)
next
  case (Cons p M)
  obtain y ms where p: "p = (y, ms)" by (cases p)
  with Cons.prems have y: "sint (word_of_int y :: u16) = y"
    by (auto simp: signed_of_int signed_take_bit_int_eq_self)
  have "\<forall>(mo, es) \<in> set ms. mo < 256" using Cons.prems p by auto
  from entries_of_months [OF this, of y mo0 cursors] obtain mo' where
    m: "entries_of y mo0 (month_seq cursors ms @ bs) = month_ies cursors y ms @ entries_of y mo' bs" for bs by blast
  from Cons have "entries_of y mo' (year_seq cursors M) = year_ies cursors M" by auto
  with m [of "year_seq cursors M"] y show ?case by (simp add: p year_seq_def year_ies_def)
qed

subsection \<open>Appending in order\<close>

definition app_entry :: "int \<Rightarrow> nat \<Rightarrow> BlockIndexEntry \<Rightarrow> (int \<times> month_map) list \<Rightarrow> (int \<times> month_map) list" where
  "app_entry y mo e M = set_month y mo (month_of y mo M @ [e]) M"

lemma omap_put_put [simp]: "omap_put k v (omap_put k v' m) = omap_put k v m"
  by (induction k v m rule: omap_put.induct) auto

lemma omap_put_snoc: "\<forall>k' \<in> fst ` set m. k' < k \<Longrightarrow> omap_put k v (m @ [(k, v')]) = m @ [(k, v)]"
  by (induction m) (auto simp: less_le)

lemma map_of_snoc: "\<forall>k' \<in> fst ` set m. k' < (k :: 'a :: linorder) \<Longrightarrow> map_of (m @ [(k, v)]) k = Some v"
  by (induction m) auto

lemma map_of_none: "\<forall>k' \<in> fst ` set m. k' < (k :: 'a :: linorder) \<Longrightarrow> map_of m k = None"
  by (auto simp: map_of_eq_None_iff)

text \<open>The years before \<open>y\<close> and the months of it so far.\<close>

definition stem :: "(int \<times> month_map) list \<Rightarrow> int \<Rightarrow> month_map \<Rightarrow> (int \<times> month_map) list" where
  "stem P y Q = (if Q = [] then P else P @ [(y, Q)])"

lemma app_entry_new_month:
  assumes "\<forall>k \<in> fst ` set P. k < y" and "\<forall>k \<in> fst ` set Q. k < mo"
  shows "app_entry y mo e (stem P y Q) = P @ [(y, Q @ [(mo, [e])])]"
  using assms map_of_none [OF assms(1)] map_of_none [OF assms(2)] map_of_snoc [OF assms(1)]
  by (simp add: app_entry_def stem_def set_month_def month_of_def months_of_def omap_put_last omap_put_snoc)

lemma app_entry_same_month:
  assumes "\<forall>k \<in> fst ` set P. k < y" and "\<forall>k \<in> fst ` set Q. k < mo"
  shows "app_entry y mo e (P @ [(y, Q @ [(mo, l)])]) = P @ [(y, Q @ [(mo, l @ [e])])]"
  using assms map_of_snoc [OF assms(1)] map_of_snoc [OF assms(2)]
  by (simp add: app_entry_def set_month_def month_of_def months_of_def omap_put_snoc)

lemma fold_app_month:
  assumes "\<forall>k \<in> fst ` set P. k < y" and "\<forall>k \<in> fst ` set Q. k < mo"
  shows "fold (app_entry y mo) es (P @ [(y, Q @ [(mo, l)])]) = P @ [(y, Q @ [(mo, l @ es)])]"
  by (induction es arbitrary: l) (simp_all add: app_entry_same_month [OF assms])

lemma fold_app_months:
  assumes "\<forall>k \<in> fst ` set P. k < y"
  shows "omap_ok (Q @ ms) \<Longrightarrow> \<forall>(mo, es) \<in> set ms. es \<noteq> [] \<Longrightarrow>
    fold (\<lambda>(mo, e). app_entry y mo e) (concat (map (\<lambda>(mo, es). map (Pair mo) es) ms)) (stem P y Q) = stem P y (Q @ ms)"
proof (induction ms arbitrary: Q)
  case Nil
  show ?case by simp
next
  case (Cons p ms)
  obtain mo es where p: "p = (mo, es)" by (cases p)
  obtain e es' where es: "es = e # es'" using Cons.prems(2) p by (cases es) auto
  have Q: "\<forall>k \<in> fst ` set Q. k < mo"
    using Cons.prems(1) by (auto simp: p omap_ok_def sorted_wrt_append)
  have fm: "fold (\<lambda>(mo, e). app_entry y mo e) (map (Pair mo) es) M = fold (app_entry y mo) es M" for M
    by (simp add: fold_map comp_def)
  have "fold (app_entry y mo) es (stem P y Q) = P @ [(y, Q @ [(mo, es)])]"
    using fold_app_month [OF assms Q, of es' "[e]"] by (simp add: es app_entry_new_month [OF assms Q])
  also have "\<dots> = stem P y (Q @ [p])" by (simp add: stem_def p)
  finally have step: "fold (app_entry y mo) es (stem P y Q) = stem P y (Q @ [p])" .
  have "omap_ok ((Q @ [p]) @ ms)" using Cons.prems(1) by simp
  from Cons.IH [OF this] Cons.prems(2) show ?case by (simp add: fm [unfolded p] step p [symmetric])
     (simp add: p fm step [unfolded p])
qed

lemma fold_app_years:
  "omap_ok (P @ M) \<Longrightarrow> \<forall>(y, ms) \<in> set M. ms \<noteq> [] \<and> omap_ok ms \<and> (\<forall>(mo, es) \<in> set ms. es \<noteq> []) \<Longrightarrow>
   fold (\<lambda>(y, mo, e). app_entry y mo e)
     (concat (map (\<lambda>(y, ms). concat (map (\<lambda>(mo, es). map (\<lambda>e. (y, mo, e)) es) ms)) M)) P = P @ M"
proof (induction M arbitrary: P)
  case Nil
  show ?case by simp
next
  case (Cons p M)
  obtain y ms where p: "p = (y, ms)" by (cases p)
  have P: "\<forall>k \<in> fst ` set P. k < y" using Cons.prems(1) by (auto simp: p omap_ok_def sorted_wrt_append)
  have ms: "omap_ok ([] @ ms)" "\<forall>(mo, es) \<in> set ms. es \<noteq> []" "ms \<noteq> []" using Cons.prems(2) p by auto
  have eq: "concat (map (\<lambda>(mo, es). map (\<lambda>e. (y, mo, e)) es) ms) =
      map (Pair y) (concat (map (\<lambda>(mo, es). map (Pair mo) es) ms))"
    by (induction ms) auto
  have "fold (\<lambda>(y, mo, e). app_entry y mo e) (concat (map (\<lambda>(mo, es). map (\<lambda>e. (y, mo, e)) es) ms)) P
      = fold (\<lambda>(mo, e). app_entry y mo e) (concat (map (\<lambda>(mo, es). map (Pair mo) es) ms)) (stem P y [])"
    unfolding eq by (simp add: fold_map comp_def stem_def)
  also have "\<dots> = stem P y ms" using fold_app_months [OF P ms(1,2)] by simp
  also have "\<dots> = P @ [p]" using ms(3) by (simp add: stem_def p)
  finally have step: "fold (\<lambda>(y, mo, e). app_entry y mo e)
      (concat (map (\<lambda>(mo, es). map (\<lambda>e. (y, mo, e)) es) ms)) P = P @ [p]" .
  have "omap_ok ((P @ [p]) @ M)" using Cons.prems(1) by simp
  from Cons.IH [OF this] Cons.prems(2) show ?case by (simp add: p step [unfolded p])
qed

subsection \<open>Receiving in order\<close>

lemma set_month_twice:
  "years_ok M \<Longrightarrow> set_month y mo es' (set_month y mo es M) = set_month y mo es' M"
  by (simp add: set_month_def [of y mo es' "set_month y mo es M"] months_of_set_month)
    (simp add: set_month_def)

lemma receive_next:
  assumes inv: "index_inv c" and ok: "entry_ok enum_contains cs e"
    and nr: "mMaxTransactionNr c < be_transactionNr e" and mm: "mMinTransactionNr c \<le> mMaxTransactionNr c"
    and keys: "\<forall>k \<in> fst ` set (mTransactionNrsFileCursors c). k \<le> mMaxTransactionNr c"
    and zero: "cursor_in cs e = 0 \<Longrightarrow> mMinTransactionNr c = 0"
  shows "BlockIndexCache_receive (entry_ie cs y mo e) c = (Inr True, c\<lparr>mMaxTransactionNr := be_transactionNr e,
     mMinTransactionNr := (if mMinTransactionNr c = 0 then be_transactionNr e else mMinTransactionNr c),
     mTransactionNrsFileCursors := mTransactionNrsFileCursors c @ [(be_transactionNr e, cursor_in cs e)],
     mYearMonthAddressIndexEntries := app_entry y mo e (mYearMonthAddressIndexEntries c), mDirty := True\<rparr>)"
proof -
  let ?nr = "be_transactionNr e" let ?M = "mYearMonthAddressIndexEntries c" let ?cur = "cursor_in cs e"
  let ?min = "if mMinTransactionNr c = 0 then ?nr else mMinTransactionNr c"
  have yo: "years_ok ?M" using inv by (simp add: index_inv_alt)
  have last: "be_transactionNr (last (month_of y mo ?M)) < ?nr" if "month_of y mo ?M \<noteq> []"
  proof -
    have "last (month_of y mo ?M) \<in> set (month_of y mo ?M)" using that by simp
    then have "be_transactionNr (last (month_of y mo ?M)) \<le> mMaxTransactionNr c"
      using inv by (auto simp: index_inv_alt)
    with nr show ?thesis by simp
  qed
  have cnt: "unat (word_of_nat (length (be_addressIndices e)) :: u16) = length (be_addressIndices e)"
    "(ucast (word_of_nat (length (be_addressIndices e)) :: u16) :: u8) = be_addressIndiceCount e"
    "\<not> 256 < length (be_addressIndices e)"
    using ok by (simp_all add: entry_ok_def unsigned_of_nat take_bit_nat_eq_self)
  have new: "map_of (mTransactionNrsFileCursors c) ?nr = None"
    "omap_put ?nr ?cur (mTransactionNrsFileCursors c) = mTransactionNrsFileCursors c @ [(?nr, ?cur)]"
  proof -
    have k: "\<forall>k \<in> fst ` set (mTransactionNrsFileCursors c). k < ?nr" using keys nr by auto
    then show "map_of (mTransactionNrsFileCursors c) ?nr = None" by (rule map_of_none)
    show "omap_put ?nr ?cur (mTransactionNrsFileCursors c) = mTransactionNrsFileCursors c @ [(?nr, ?cur)]"
      using k by (rule omap_put_last)
  qed
  have zc: "\<not> (?cur = 0 \<and> ?nr > ?min)" using zero by auto
  have sg: "\<not> sint ?cur < 0" using ok by (simp add: entry_ok_def)
  have e: "\<lparr>be_transactionNr = ?nr, be_addressIndices = be_addressIndices e,
      be_coinCommunityIdIndex = be_coinCommunityIdIndex e, be_transactionType = be_transactionType e,
      be_addressIndiceCount = be_addressIndiceCount e\<rparr> = e" by simp
  let ?c0 = "update_min_max ?nr (c\<lparr>mDirty := True\<rparr>)"
  have c0: "?c0 = c\<lparr>mDirty := True, mMaxTransactionNr := ?nr, mMinTransactionNr := ?min\<rparr>"
    using nr mm by (auto simp: update_min_max_def Let_def)
  show ?thesis
    unfolding BlockIndexCache_receive_def BlockIndexCache_addIndices_def entry_ie_def Let_def
    using last cnt zc sg new
    by (simp add: c0 e set_month_twice [OF yo] app_entry_def BlockIndexCache_addFileCursorForTransaction_def
        Let_def not_le del: update_min_max_simps)
      (use last zero in auto)
qed

fun ie_of :: "(u64 \<times> u32) list \<Rightarrow> int \<times> nat \<times> BlockIndexEntry \<Rightarrow> index_entry" where
  "ie_of cs (y, mo, e) = entry_ie cs y mo e"

fun nr_of :: "int \<times> nat \<times> BlockIndexEntry \<Rightarrow> u64" where
  "nr_of (y, mo, e) = be_transactionNr e"

lemma feed_in_order:
  assumes "index_inv c" and "mMinTransactionNr c \<le> mMaxTransactionNr c"
    and "\<forall>k \<in> fst ` set (mTransactionNrsFileCursors c). k \<le> mMaxTransactionNr c"
    and "sorted_wrt (<) (mMaxTransactionNr c # map nr_of fl)"
    and "\<forall>(y, mo, e) \<in> set fl. entry_ok enum_contains cs e"
    and "\<forall>(y, mo, e) \<in> set (if mMinTransactionNr c = 0 then tl fl else fl). cursor_in cs e \<noteq> 0"
  shows "feed BlockIndexCache_receive (map (ie_of cs) fl) c =
    (Inr (), c\<lparr>mMaxTransactionNr := last (mMaxTransactionNr c # map nr_of fl),
      mMinTransactionNr := (if mMinTransactionNr c = 0 \<and> fl \<noteq> [] then nr_of (hd fl) else mMinTransactionNr c),
      mTransactionNrsFileCursors := mTransactionNrsFileCursors c @ map (\<lambda>(y, mo, e). (be_transactionNr e, cursor_in cs e)) fl,
      mYearMonthAddressIndexEntries := fold (\<lambda>(y, mo, e). app_entry y mo e) fl (mYearMonthAddressIndexEntries c),
      mDirty := (mDirty c \<or> fl \<noteq> [])\<rparr>)"
  using assms
proof (induction fl arbitrary: c)
  case Nil
  then show ?case by simp
next
  case (Cons x fl)
  obtain y mo e where x: "x = (y, mo, e)" by (cases x)
  have ok: "entry_ok enum_contains cs e" using Cons.prems(5) x by simp
  have nr: "mMaxTransactionNr c < be_transactionNr e" using Cons.prems(4) x by simp
  have zero: "mMinTransactionNr c = 0" if "cursor_in cs e = 0"
    using Cons.prems(6) x that by (auto split: if_splits)
  let ?c = "c\<lparr>mMaxTransactionNr := be_transactionNr e,
     mMinTransactionNr := (if mMinTransactionNr c = 0 then be_transactionNr e else mMinTransactionNr c),
     mTransactionNrsFileCursors := mTransactionNrsFileCursors c @ [(be_transactionNr e, cursor_in cs e)],
     mYearMonthAddressIndexEntries := app_entry y mo e (mYearMonthAddressIndexEntries c), mDirty := True\<rparr>"
  note step = receive_next [OF Cons.prems(1) ok nr Cons.prems(2,3) zero, of y mo]
  have inv: "index_inv ?c" using index_inv_receive [OF Cons.prems(1), of "entry_ie cs y mo e"] step by simp
  have nz: "be_transactionNr e \<noteq> 0" using nr by (auto simp: word_gt_0)
  have mm: "mMinTransactionNr ?c \<le> mMaxTransactionNr ?c" using Cons.prems(2) nr by auto
  have keys: "\<forall>k \<in> fst ` set (mTransactionNrsFileCursors ?c). k \<le> mMaxTransactionNr ?c"
    using Cons.prems(3) nr by force
  have srt: "sorted_wrt (<) (mMaxTransactionNr ?c # map nr_of fl)" using Cons.prems(4) x by simp
  have oks: "\<forall>(y, mo, e) \<in> set fl. entry_ok enum_contains cs e" using Cons.prems(5) by simp
  have zs: "\<forall>(y, mo, e) \<in> set (if mMinTransactionNr ?c = 0 then tl fl else fl). cursor_in cs e \<noteq> 0"
    using Cons.prems(6) nz by (auto split: if_splits)
  from Cons.IH [OF inv mm keys srt oks zs] step nz show ?case by (simp add: x)
qed

subsection \<open>The whole way\<close>

definition flat :: "(int \<times> month_map) list \<Rightarrow> (int \<times> nat \<times> BlockIndexEntry) list" where
  "flat M = concat (map (\<lambda>(y, ms). concat (map (\<lambda>(mo, es). map (\<lambda>e. (y, mo, e)) es) ms)) M)"

lemma year_ies_flat: "year_ies cs M = map (ie_of cs) (flat M)"
proof -
  have "month_ies cs y ms = map (ie_of cs) (concat (map (\<lambda>(mo, es). map (\<lambda>e. (y, mo, e)) es) ms))" for y ms
    by (induction ms) (auto simp: month_ies_def)
  then show ?thesis by (induction M) (auto simp: year_ies_def flat_def)
qed

text \<open>
  An index that is complete: no empty year or month, the numbers ascend over the whole block, the
  cursors are exactly those of the transactions, 0 at most for the first one.
\<close>

definition index_full :: "(u8 \<Rightarrow> bool) \<Rightarrow> BlockIndexCache \<Rightarrow> bool" where
  "index_full enum_contains c =
     (let M = mYearMonthAddressIndexEntries c; cs = mTransactionNrsFileCursors c; fl = flat M in
      M \<noteq> [] \<and> omap_ok M \<and>
      (\<forall>(y, ms) \<in> set M. ms \<noteq> [] \<and> omap_ok ms \<and> (\<forall>(mo, es) \<in> set ms. es \<noteq> [] \<and> mo < 256) \<and>
         - (2 ^ 15) \<le> y \<and> y < 2 ^ 15) \<and>
      sorted_wrt (<) (0 # map nr_of fl) \<and> cs = map (\<lambda>(y, mo, e). (be_transactionNr e, cursor_in cs e)) fl \<and>
      (\<forall>(y, mo, e) \<in> set fl. entry_ok enum_contains cs e) \<and>
      (\<forall>(y, mo, e) \<in> set (tl fl). cursor_in cs e \<noteq> 0) \<and>
      mMinTransactionNr c = nr_of (hd fl) \<and> mMaxTransactionNr c = last (map nr_of fl))"

lemma flat_not_Nil:
  assumes "M \<noteq> []" and "\<forall>(y, ms) \<in> set M. ms \<noteq> [] \<and> (\<forall>(mo, es) \<in> set ms. es \<noteq> [])"
  shows "flat M \<noteq> []"
proof -
  obtain y ms M' where M: "M = (y, ms) # M'" using assms(1) by (cases M) auto
  with assms(2) obtain mo es ms' where "ms = (mo, es) # ms'" "es \<noteq> []" by (cases ms) auto
  with M show ?thesis by (simp add: flat_def)
qed

lemma feed_full:
  assumes "index_full enum_contains c"
  shows "feed BlockIndexCache_receive (year_ies (mTransactionNrsFileCursors c) (mYearMonthAddressIndexEntries c))
      (BlockIndexCache_new (mFolderPath_Index c) (mBlockNr_Index c)) = (Inr (), c\<lparr>mDirty := True\<rparr>)"
proof -
  let ?c0 = "BlockIndexCache_new (mFolderPath_Index c) (mBlockNr_Index c)"
  let ?M = "mYearMonthAddressIndexEntries c" let ?cs = "mTransactionNrsFileCursors c" let ?fl = "flat ?M"
  have full: "?M \<noteq> []" "omap_ok ?M" "sorted_wrt (<) (0 # map nr_of ?fl)"
      "?cs = map (\<lambda>(y, mo, e). (be_transactionNr e, cursor_in ?cs e)) ?fl"
      "\<forall>(y, mo, e) \<in> set ?fl. entry_ok enum_contains ?cs e"
      "\<forall>(y, mo, e) \<in> set (tl ?fl). cursor_in ?cs e \<noteq> 0"
      "mMinTransactionNr c = nr_of (hd ?fl)" "mMaxTransactionNr c = last (map nr_of ?fl)"
    and months: "\<forall>(y, ms) \<in> set ?M. ms \<noteq> [] \<and> omap_ok ms \<and> (\<forall>(mo, es) \<in> set ms. es \<noteq> [])"
    using assms by (auto simp: index_full_def Let_def)
  have ne: "?fl \<noteq> []" by (rule flat_not_Nil [OF full(1)]) (use months in auto)
  have c0: "mMaxTransactionNr ?c0 = 0" "mMinTransactionNr ?c0 = 0" "mTransactionNrsFileCursors ?c0 = []"
    "mYearMonthAddressIndexEntries ?c0 = []" "mDirty ?c0 = False"
    by (simp_all add: BlockIndexCache_new_def)
  have fo: "fold (\<lambda>(y, mo, e). app_entry y mo e) ?fl [] = ?M"
    using fold_app_years [of "[]" ?M] full(2) months by (simp add: flat_def)
  have srt: "sorted_wrt (<) (mMaxTransactionNr ?c0 # map nr_of ?fl)" using full(3) c0 by simp
  have z: "\<forall>(y, mo, e) \<in> set (if mMinTransactionNr ?c0 = 0 then tl ?fl else ?fl). cursor_in ?cs e \<noteq> 0"
    using full(6) c0 by simp
  have "feed BlockIndexCache_receive (map (ie_of ?cs) ?fl) ?c0 =
    (Inr (), ?c0\<lparr>mMaxTransactionNr := last (map nr_of ?fl), mMinTransactionNr := nr_of (hd ?fl),
      mTransactionNrsFileCursors := ?cs, mYearMonthAddressIndexEntries := ?M, mDirty := True\<rparr>)"
    using feed_in_order [OF index_inv_new _ _ srt full(5) z] c0 ne fo full(4) by simp
  also have "?c0\<lparr>mMaxTransactionNr := last (map nr_of ?fl), mMinTransactionNr := nr_of (hd ?fl),
      mTransactionNrsFileCursors := ?cs, mYearMonthAddressIndexEntries := ?M, mDirty := True\<rparr> = c\<lparr>mDirty := True\<rparr>"
    using full(7,8) by (simp add: BlockIndexCache_new_def)
  finally show ?thesis by (simp add: year_ies_flat)
qed

section \<open>Properties\<close>


text \<open>A plain iteration and an interval that names one month, for examples.\<close>

definition plain_iterate :: "('x, 's) iterate" where
  "plain_iterate dir xs f s = iterate_until f (ordered dir xs) s"

lemma iterates_plain [simp]: "iterates plain_iterate"
  by (simp add: iterates_def plain_iterate_def)

definition plain_interval :: "((int \<times> nat) list) interval_ops" where
  "plain_interval = \<lparr>iv_make = (\<lambda>a b. if a = b then [a] else [a, b]), iv_isEmpty = (\<lambda>iv. iv = []),
     iv_start = (\<lambda>_. 0), iv_end = (\<lambda>_. 0), iv_setStart = (\<lambda>_ iv. iv), iv_setEnd = (\<lambda>_ iv. iv),
     iv_months = (\<lambda>iv. iv)\<rparr>"

definition plain_filter :: "(nat \<Rightarrow> bool) \<Rightarrow> (int \<times> nat) list Filter" where
  "plain_filter cap = \<lparr>f_minTransactionNr = 0, f_maxTransactionNr = 0, f_involvedPublicKey = [],
     f_searchDirection = ASC, f_skipEntriesCount = 0, f_hasCapacityLeft = cap, f_transactionType = 0,
     f_coinCommunityId = [], f_interval = []\<rparr>"

definition two_months :: BlockIndexCache where
  "two_months = snd (BlockIndexCache_addIndices 1 0 2024 2 2 40 [] 0
     (snd (BlockIndexCache_addIndices 1 0 2024 1 1 0 [] 0 (BlockIndexCache_new ''f'' 1))))"

lemma two_months_entries:
  "mYearMonthAddressIndexEntries two_months =
     [(2024, [(1, [\<lparr>be_transactionNr = 1, be_addressIndices = [], be_coinCommunityIdIndex = 0,
        be_transactionType = 1, be_addressIndiceCount = 0\<rparr>]),
      (2, [\<lparr>be_transactionNr = 2, be_addressIndices = [], be_coinCommunityIdIndex = 0,
        be_transactionType = 1, be_addressIndiceCount = 0\<rparr>])])]"
  by code_simp

lemma two_months_interval:
  "BlockIndexCache_filteredTimepointInterval plain_interval (plain_filter cap) two_months = Inr [(2024, 1), (2024, 2)]"
  by (simp add: BlockIndexCache_filteredTimepointInterval_def BlockIndexCache_getOldestYearMonth_def
      BlockIndexCache_getNewestYearMonth_def two_months_entries plain_interval_def plain_filter_def)


text \<open>C15: An index survives the end of the program: what a complete index writes into its file, a fresh
  index of the same block loads again, with the same entries by year and month, the same cursors and
  the same smallest and largest transaction number; only the dirty flag is set. The file must be
  free and the blocks smaller than 2^64 bytes.\<close>

theorem BlockIndexCache_reload:
  assumes full: "index_full enum_contains c" and hash: "\<And>x. length (ghash x) = 32"
    and free: "\<not> held (BlockIndexFile_fileName (mFolderPath_Index c) (mBlockNr_Index c)) (fs_locks fs)"
    and small: "sum_list (map IndexBlock_size (year_seq (mTransactionNrsFileCursors c)
      (mYearMonthAddressIndexEntries c))) + 33 < 2 ^ 64"
    and fuel: "length (year_seq (mTransactionNrsFileCursors c) (mYearMonthAddressIndexEntries c)) < fuel"
  shows "\<exists>fs' fs''. BlockIndexCache_writeIntoFile env ghash junk c fs = (Inr True, fs') \<and>
    BlockIndexCache_init env ghash junk' enum_contains fuel
      (BlockIndexCache_new (mFolderPath_Index c) (mBlockNr_Index c)) fs' = Some (Inr True, c\<lparr>mDirty := True\<rparr>, fs'')"
proof -
  let ?M = "mYearMonthAddressIndexEntries c" let ?cs = "mTransactionNrsFileCursors c" let ?bs = "year_seq ?cs ?M"
  let ?n = "BlockIndexFile_fileName (mFolderPath_Index c) (mBlockNr_Index c)"
  let ?c0 = "BlockIndexCache_new (mFolderPath_Index c) (mBlockNr_Index c)"
  have ne: "?M \<noteq> []" using full by (simp add: index_full_def Let_def)
  have years: "\<forall>(y, ms) \<in> set ?M. ms \<noteq> [] \<and> (\<forall>(mo, es) \<in> set ms. es \<noteq> [])"
    "\<forall>(y, ms) \<in> set ?M. - (2 ^ 15) \<le> y \<and> y < 2 ^ 15 \<and> (\<forall>(mo, es) \<in> set ms. mo < 256)"
    and cs: "?cs = map (\<lambda>(y, mo, e). (be_transactionNr e, cursor_in ?cs e)) (flat ?M)"
    and oks: "\<forall>(y, mo, e) \<in> set (flat ?M). entry_ok enum_contains ?cs e"
    using full by (auto simp: index_full_def Let_def)
  have oks': "\<forall>(y, ms) \<in> set ?M. \<forall>(mo, es) \<in> set ms. \<forall>e \<in> set es. entry_ok enum_contains ?cs e"
    using oks by (fastforce simp: flat_def)
  have cne: "?cs \<noteq> []" using cs flat_not_Nil [OF ne years(1)] by auto
  obtain bf fs1 where nw: "BlockIndexFile_new (mFolderPath_Index c) (mBlockNr_Index c) fs = (bf, fs1)"
    by (cases "BlockIndexFile_new (mFolderPath_Index c) (mBlockNr_Index c) fs")
  then have bf: "mDataBlocks bf = []" "mFileName_Index bf = ?n" "index_file_ok bf" "fs_locks fs1 = fs_locks fs"
    using index_file_ok_new(1) [of "mFolderPath_Index c" "mBlockNr_Index c" fs]
    by (auto simp: BlockIndexFile_new_def Let_def split: if_splits)
  let ?bf = "fold push_block ?bs bf"
  have ser: "BlockIndexCache_serialize c fs = (Inr (Some ?bf), fs1)"
    using ne cne nw all_blocks_push [OF oks'] by (simp add: BlockIndexCache_serialize_def)
  have ents: "entries_of 0 0 ?bs = year_ies ?cs ?M" by (rule entries_of_years [OF years(2)])
  have valid: "\<forall>b \<in> set (mDataBlocks ?bf). block_valid enum_contains b"
    using oks' by (fastforce simp: fold_push bf year_seq_def month_seq_def data_block_def entry_ok_def)
  have curs: "\<forall>e \<in> set (entries_of 0 0 (mDataBlocks ?bf)). 0 \<le> sint (ie_fileCursor e)"
    using oks by (fastforce simp: fold_push bf ents year_ies_flat entry_ie_def entry_ok_def)
  let ?bf2 = "\<lparr>mFileName_Index = ?n, mDataBlocks = [], mDataBlockSumSize = 0\<rparr>"
  from write_read [where ghash = ghash and env = env and junk = junk and junk' = junk' and ?bi2.0 = ?bf2
      and recv = BlockIndexCache_receive and r = ?c0 and fs = fs1 and fuel = fuel,
      OF fold_push(3) [OF bf(3)] _ hash _ valid curs] small free fuel
  obtain fs' fs'' where
    wr: "BlockIndexFile_writeToFile env ghash junk ?bf fs1 = (Inr (), ?bf\<lparr>mDataBlocks := []\<rparr>, fs')"
      "fs_files fs' ?n \<noteq> None"
    and rd: "BlockIndexFile_readFromFile env ghash junk' enum_contains BlockIndexCache_receive fuel ?bf2 ?c0 fs' =
      Some (case feed BlockIndexCache_receive (year_ies ?cs ?M) ?c0 of
         (Inl e, r') \<Rightarrow> (Inl e, r', fs'')
       | (Inr _, r') \<Rightarrow> (Inr True, r', fs''))"
    by (auto simp: fold_push bf ents)
  have nw2: "BlockIndexFile_new (mFolderPath_Index ?c0) (mBlockNr_Index ?c0) fs' = (?bf2, fs')"
    using wr(2) by (auto simp: BlockIndexFile_new_def BlockIndexCache_new_def Let_def)
  have "mYearMonthAddressIndexEntries ?c0 = []" "mTransactionNrsFileCursors ?c0 = []"
    by (simp_all add: BlockIndexCache_new_def)
  then have "BlockIndexCache_init env ghash junk' enum_contains fuel ?c0 fs' = Some (Inr True, c\<lparr>mDirty := True\<rparr>, fs'')"
    using rd feed_full [OF full] nw2 by (simp add: BlockIndexCache_init_def BlockIndexCache_loadFromFile_def)
  moreover have "BlockIndexCache_writeIntoFile env ghash junk c fs = (Inr True, fs')"
    using ser wr by (simp add: BlockIndexCache_writeIntoFile_def)
  ultimately show ?thesis by blast
qed

lemma two_months_full: "index_full (\<lambda>_. True) two_months"
proof -
  have "mTransactionNrsFileCursors two_months = [(1, 0), (2, 40)]" "mMinTransactionNr two_months = 1"
    "mMaxTransactionNr two_months = 2" by code_simp+
  then show ?thesis
    by (simp add: index_full_def two_months_entries flat_def omap_ok_def cursor_in_def entry_ok_def)
qed

lemma BlockIndexCache_reload_witness:
  "\<exists>fs' fs''. BlockIndexCache_writeIntoFile (\<lambda>_ l. l) (\<lambda>_. replicate 32 0) (\<lambda>_. 0) two_months
       \<lparr>fs_locks = Map.empty, fs_files = Map.empty\<rparr> = (Inr True, fs') \<and>
     BlockIndexCache_init (\<lambda>_ l. l) (\<lambda>_. replicate 32 0) [] (\<lambda>_. True) 9 (BlockIndexCache_new ''f'' 1) fs' =
       Some (Inr True, two_months\<lparr>mDirty := True\<rparr>, fs'')"
proof -
  have m: "mFolderPath_Index two_months = ''f''" "mBlockNr_Index two_months = 1"
    "mTransactionNrsFileCursors two_months = [(1, 0), (2, 40)]" by code_simp+
  from BlockIndexCache_reload [OF two_months_full, of "\<lambda>_. replicate 32 0"
      "\<lparr>fs_locks = Map.empty, fs_files = Map.empty\<rparr>" 9 "\<lambda>_ l. l" "\<lambda>_. 0" "[]"]
  show ?thesis
    by (simp add: m held_def two_months_entries year_seq_def month_seq_def data_block_def)
qed

text \<open>The page limit of a search ends at the month: when nothing is skipped, \<open>findTransactions\<close>
  returns at least one transaction for every month whose first visited entry matches, also for months
  after the page is full, so it can return more transactions than the page holds.\<close>

theorem BlockIndexCache_page_overshoot:
  assumes "iterates itM" and "iterates itE" and "filter_coin gci flt = Inr coin" and "f_skipEntriesCount flt = 0"
    and "\<not> prefilter c flt" and "key_index L octet dict flt = Inr (Some key)"
    and "BlockIndexCache_filteredTimepointInterval IV flt c = Inr iv"
  shows "\<exists>found. BlockIndexCache_findTransactions itM itE IV none gci L octet flt dict c = Inr found \<and>
    length (filter (first_matches none coin flt key c) (iv_months IV iv)) \<le> length found"
proof -
  obtain s' where "iterate_until (find_month itE none gci flt key c) (ordered (f_searchDirection flt) (iv_months IV iv))
      ([], 0) = (Inr (), s')"
    "length (filter (first_matches none coin flt key c) (ordered (f_searchDirection flt) (iv_months IV iv)))
      \<le> length (fst s')"
    using iterate_find_months_adds [OF assms(2-4), of none key c
        "ordered (f_searchDirection flt) (iv_months IV iv)" "([], 0)"] by auto
  then show ?thesis using assms(5-7)
    by (auto simp: BlockIndexCache_findTransactions_def iteratesD [OF assms(1)] length_filter_ordered
        split: prod.split)
qed

lemma BlockIndexCache_page_overshoot_witness:
  "\<exists>found. BlockIndexCache_findTransactions plain_iterate plain_iterate plain_interval 0 (\<lambda>_. Inr 0) alist_leveldb id
     (plain_filter (\<lambda>n. n < 1)) (Dictionary_new ''d'' []) two_months = Inr found \<and> 2 \<le> length found"
proof -
  have fm: "filter (first_matches 0 0 (plain_filter (\<lambda>n. n < 1)) 0 two_months)
      (iv_months plain_interval [(2024, 1), (2024, 2)]) = [(2024, 1), (2024, 2)]"
    by (simp add: first_matches_def plain_interval_def plain_filter_def ordered_def month_of_def months_of_def
        two_months_entries match_def)
  from BlockIndexCache_page_overshoot [OF iterates_plain iterates_plain, of "\<lambda>_. Inr 0"
      "plain_filter (\<lambda>n. n < 1)" 0 two_months alist_leveldb id "Dictionary_new ''d'' []" 0 plain_interval
      "[(2024, 1), (2024, 2)]" 0, unfolded fm] two_months_interval [of "\<lambda>n. n < 1"]
  show ?thesis
    by (simp add: filter_coin_def prefilter_def key_index_def)
      (simp add: plain_filter_def numeral_2_eq_2)
qed

end
