(* ===== verification/IdCaches.thy ===== *)
theory IdCaches
  imports KeyValue
begin

text \<open>
  The caches of identifiers: \<open>cache::MessageId\<close> and \<open>cache::HieroTransactionId\<close>
  (\<open>src/cache/MessageId.cpp\<close>, \<open>HieroTransactionId.cpp\<close>) remember for the identifier of a message or
  transaction the number of the confirmed transaction, in an expiring cache before a LevelDB folder;
  \<open>cache::TransactionHash\<close> (\<open>src/cache/TransactionHash.cpp\<close>) finds duplicates by the first bytes of
  the first signature. The expiring cache of the blockchain library is a parameter \<open>E\<close> that may
  forget at any moment but never invents a value.
\<close>

section \<open>The expiring cache as a parameter\<close>

text \<open>\<open>ec_vals x k\<close> are the values that a lookup of \<open>k\<close> may still return.\<close>

record ('x, 'k, 'v) expire_cache =
  ec_new :: "'x"
  ec_get :: "'k \<Rightarrow> 'x \<Rightarrow> 'v option \<times> 'x"
  ec_add :: "'k \<Rightarrow> 'v \<Rightarrow> 'x \<Rightarrow> 'x"
  ec_clear :: "'x \<Rightarrow> 'x"
  ec_vals :: "'x \<Rightarrow> 'k \<Rightarrow> 'v set"

definition expire_laws :: "('x, 'k, 'v) expire_cache \<Rightarrow> bool" where
  "expire_laws E =
     ((\<forall>k. ec_vals E (ec_new E) k = {}) \<and> (\<forall>x k. ec_vals E (ec_clear E x) k = {}) \<and>
      (\<forall>x k k'. ec_vals E (snd (ec_get E k x)) k' \<subseteq> ec_vals E x k') \<and>
      (\<forall>x k v. fst (ec_get E k x) = Some v \<longrightarrow> v \<in> ec_vals E x k) \<and>
      (\<forall>x k. fst (ec_get E k x) = None \<longrightarrow> ec_vals E (snd (ec_get E k x)) k = {}) \<and>
      (\<forall>x k v k'. ec_vals E (ec_add E k v x) k' \<subseteq> (if k' = k then {v} else {}) \<union> ec_vals E x k'))"

lemma expire_lawsD:
  assumes "expire_laws E"
  shows "ec_vals E (ec_new E) k = {}" and "ec_vals E (ec_clear E x) k = {}"
    and "ec_get E k x = (r, x') \<Longrightarrow> v \<in> ec_vals E x' k' \<Longrightarrow> v \<in> ec_vals E x k'"
    and "ec_get E k x = (Some v, x') \<Longrightarrow> v \<in> ec_vals E x k"
    and "ec_get E k x = (None, x') \<Longrightarrow> ec_vals E x' k = {}"
    and "u \<in> ec_vals E (ec_add E k v x) k' \<Longrightarrow> (k' = k \<and> u = v) \<or> u \<in> ec_vals E x k'"
proof -
  from assms have n: "\<And>k. ec_vals E (ec_new E) k = {}" and c: "\<And>x k. ec_vals E (ec_clear E x) k = {}"
    and g: "\<And>x k k'. ec_vals E (snd (ec_get E k x)) k' \<subseteq> ec_vals E x k'"
    and s: "\<And>x k v. fst (ec_get E k x) = Some v \<Longrightarrow> v \<in> ec_vals E x k"
    and m: "\<And>x k. fst (ec_get E k x) = None \<Longrightarrow> ec_vals E (snd (ec_get E k x)) k = {}"
    and a: "\<And>x k v k'. ec_vals E (ec_add E k v x) k' \<subseteq> (if k' = k then {v} else {}) \<union> ec_vals E x k'"
    unfolding expire_laws_def by blast+
  show "ec_vals E (ec_new E) k = {}" "ec_vals E (ec_clear E x) k = {}" by (fact n, fact c)
  show "v \<in> ec_vals E x k'" if "ec_get E k x = (r, x')" "v \<in> ec_vals E x' k'"
    using g [of k x k'] that by auto
  show "v \<in> ec_vals E x k" if "ec_get E k x = (Some v, x')" using s [of k x v] that by simp
  show "ec_vals E x' k = {}" if "ec_get E k x = (None, x')" using m [of k x] that by simp
  show "(k' = k \<and> u = v) \<or> u \<in> ec_vals E x k'" if "u \<in> ec_vals E (ec_add E k v x) k'"
    using a [of k v x k'] that by (auto split: if_splits)
qed

text \<open>Two concrete caches: one keeps everything, one forgets everything at once.\<close>

definition keep_cache :: "(('k \<times> 'v) list, 'k, 'v) expire_cache" where
  "keep_cache = \<lparr>ec_new = [], ec_get = (\<lambda>k x. (map_of x k, x)), ec_add = (\<lambda>k v x. (k, v) # x),
     ec_clear = (\<lambda>_. []), ec_vals = (\<lambda>x k. {v. (k, v) \<in> set x})\<rparr>"

definition no_cache :: "(unit, 'k, 'v) expire_cache" where
  "no_cache = \<lparr>ec_new = (), ec_get = (\<lambda>_ x. (None, x)), ec_add = (\<lambda>_ _ x. x), ec_clear = (\<lambda>x. x),
     ec_vals = (\<lambda>_ _. {})\<rparr>"

lemma keep_cache_code [code]:
  "keep_cache = \<lparr>ec_new = [], ec_get = (\<lambda>k x. (map_of x k, x)), ec_add = (\<lambda>k v x. (k, v) # x),
     ec_clear = (\<lambda>_. []), ec_vals = (\<lambda>x k. set (map snd (filter (\<lambda>p. fst p = k) x)))\<rparr>"
  by (auto simp: keep_cache_def fun_eq_iff image_iff)

lemma expire_laws_keep [simp]: "expire_laws keep_cache"
  by (auto simp: expire_laws_def keep_cache_def map_of_eq_None_iff image_iff dest: map_of_SomeD)

lemma expire_laws_none [simp]: "expire_laws no_cache"
  by (simp add: expire_laws_def no_cache_def)

section \<open>cache::HieroTransactionId and cache::MessageId\<close>

text \<open>Both classes have the same members.\<close>

record ('db, 'x) IdCache =
  mInitalized_Id :: bool
  mLevelDBFile :: "'db LevelDBWrapper"
  mTransactionNrs :: "'x"

type_synonym ('db, 'x) HieroTransactionIdCache = "('db, 'x) IdCache"
type_synonym ('db, 'x) MessageIdCache = "('db, 'x) IdCache"

subsection \<open>HieroTransactionId\<close>

definition HieroTransactionId_new ::
    "('x, 'i, u64) expire_cache \<Rightarrow> string \<Rightarrow> 'db \<Rightarrow> ('db, 'x) HieroTransactionIdCache" where
  "HieroTransactionId_new E folder d =
     \<lparr>mInitalized_Id = False, mLevelDBFile = LevelDBWrapper_new folder d, mTransactionNrs = ec_new E\<rparr>"

definition HieroTransactionId_init ::
    "'db leveldb \<Rightarrow> u64 \<Rightarrow> ('db, 'x) HieroTransactionIdCache \<Rightarrow> bool result \<times> ('db, 'x) HieroTransactionIdCache" where
  "HieroTransactionId_init L cacheInBytes st =
     (if mInitalized_Id st then (Inl (Gradido ClassAlreadyInitalized), st)
      else case LevelDBWrapper_init L cacheInBytes (mLevelDBFile st) of
          (False, w) \<Rightarrow> (Inr False, st\<lparr>mLevelDBFile := w\<rparr>)
        | (True, w) \<Rightarrow> (Inr True, st\<lparr>mInitalized_Id := True, mLevelDBFile := w\<rparr>))"

definition HieroTransactionId_exit :: "('db, 'x) HieroTransactionIdCache \<Rightarrow> ('db, 'x) HieroTransactionIdCache" where
  "HieroTransactionId_exit st = st\<lparr>mInitalized_Id := False, mLevelDBFile := LevelDBWrapper_exit (mLevelDBFile st)\<rparr>"

definition HieroTransactionId_reset ::
    "'db leveldb \<Rightarrow> ('x, 'i, u64) expire_cache \<Rightarrow> ('db, 'x) HieroTransactionIdCache \<Rightarrow> ('db, 'x) HieroTransactionIdCache" where
  "HieroTransactionId_reset L E st =
     st\<lparr>mLevelDBFile := LevelDBWrapper_reset L (mLevelDBFile st),
        mTransactionNrs := ec_clear E (mTransactionNrs st)\<rparr>"

text \<open>\<open>deser b\<close> is the deserialiser run on the bytes: an exception, another kind of object, or an identifier.\<close>

definition HieroTransactionId_fromProtobuf :: "(bytes \<Rightarrow> 'i option result) \<Rightarrow> bytes \<Rightarrow> 'i result" where
  "HieroTransactionId_fromProtobuf deser transactionId =
     (case deser transactionId of
        Inl e \<Rightarrow> Inl e
      | Inr None \<Rightarrow> Inl (Gradido InvalidData)
      | Inr (Some i) \<Rightarrow> Inr i)"

definition HieroTransactionId_readFromLevelDb ::
    "'db leveldb \<Rightarrow> ('x, 'i, u64) expire_cache \<Rightarrow> (bytes \<Rightarrow> string) \<Rightarrow> bytes \<Rightarrow> 'i
       \<Rightarrow> ('db, 'x) HieroTransactionIdCache \<Rightarrow> u64 result \<times> ('db, 'x) HieroTransactionIdCache" where
  "HieroTransactionId_readFromLevelDb L E base64 transactionId transactionIdObj st =
     (if mInitalized_Id st then
        (case LevelDBWrapper_getValueForKey L (base64 transactionId) (mLevelDBFile st) of
           Inl e \<Rightarrow> (Inl e, st)
         | Inr None \<Rightarrow> (Inr 0, st)
         | Inr (Some value) \<Rightarrow>
             (case stoull value of
                Inl e \<Rightarrow> (Inl e, st)
              | Inr transactionNr \<Rightarrow>
                  (Inr transactionNr, st\<lparr>mTransactionNrs := ec_add E transactionIdObj transactionNr (mTransactionNrs st)\<rparr>)))
      else (Inr 0, st))"

definition HieroTransactionId_add ::
    "'db leveldb \<Rightarrow> ('x, 'i, u64) expire_cache \<Rightarrow> (bytes \<Rightarrow> string) \<Rightarrow> (bytes \<Rightarrow> 'i option result) \<Rightarrow> bytes \<Rightarrow> u64
       \<Rightarrow> ('db, 'x) HieroTransactionIdCache \<Rightarrow> unit result \<times> ('db, 'x) HieroTransactionIdCache" where
  "HieroTransactionId_add L E base64 deser transactionId transactionNr st =
     (case HieroTransactionId_fromProtobuf deser transactionId of
        Inl e \<Rightarrow> (Inl e, st)
      | Inr i \<Rightarrow>
          (case ec_get E i (mTransactionNrs st) of
             (Some _, x) \<Rightarrow> (Inl (Gradido AlreadyExist), st\<lparr>mTransactionNrs := x\<rparr>)
           | (None, x) \<Rightarrow>
               let st1 = st\<lparr>mTransactionNrs := ec_add E i transactionNr x\<rparr> in
               if mInitalized_Id st1 then
                 (case LevelDBWrapper_setKeyValue L (base64 transactionId) (c_str (to_string (unat transactionNr)))
                     (mLevelDBFile st1) of (r, w) \<Rightarrow> (r, st1\<lparr>mLevelDBFile := w\<rparr>))
               else (Inr (), st1)))"

definition HieroTransactionId_has ::
    "'db leveldb \<Rightarrow> ('x, 'i, u64) expire_cache \<Rightarrow> (bytes \<Rightarrow> string) \<Rightarrow> (bytes \<Rightarrow> 'i option result) \<Rightarrow> bytes
       \<Rightarrow> ('db, 'x) HieroTransactionIdCache \<Rightarrow> bool result \<times> ('db, 'x) HieroTransactionIdCache" where
  "HieroTransactionId_has L E base64 deser transactionId st =
     (case HieroTransactionId_fromProtobuf deser transactionId of
        Inl e \<Rightarrow> (Inl e, st)
      | Inr i \<Rightarrow>
          (case ec_get E i (mTransactionNrs st) of
             (Some _, x) \<Rightarrow> (Inr True, st\<lparr>mTransactionNrs := x\<rparr>)
           | (None, x) \<Rightarrow>
               (case HieroTransactionId_readFromLevelDb L E base64 transactionId i (st\<lparr>mTransactionNrs := x\<rparr>) of
                  (Inl e, st') \<Rightarrow> (Inl e, st')
                | (Inr nr, st') \<Rightarrow> (Inr (nr \<noteq> 0), st'))))"

definition HieroTransactionId_getTransactionNr ::
    "'db leveldb \<Rightarrow> ('x, 'i, u64) expire_cache \<Rightarrow> (bytes \<Rightarrow> string) \<Rightarrow> (bytes \<Rightarrow> 'i option result) \<Rightarrow> bytes
       \<Rightarrow> ('db, 'x) HieroTransactionIdCache \<Rightarrow> u64 result \<times> ('db, 'x) HieroTransactionIdCache" where
  "HieroTransactionId_getTransactionNr L E base64 deser transactionId st =
     (case HieroTransactionId_fromProtobuf deser transactionId of
        Inl e \<Rightarrow> (Inl e, st)
      | Inr i \<Rightarrow>
          (case ec_get E i (mTransactionNrs st) of
             (Some nr, x) \<Rightarrow> (Inr nr, st\<lparr>mTransactionNrs := x\<rparr>)
           | (None, x) \<Rightarrow>
               HieroTransactionId_readFromLevelDb L E base64 transactionId i (st\<lparr>mTransactionNrs := x\<rparr>)))"

subsection \<open>MessageId\<close>

text \<open>
  \<open>mkId\<close> is the constructor of \<open>iota::MessageId\<close> from a block and \<open>idHex\<close> its text; \<open>hex\<close> is the text
  of the block itself, which \<open>add\<close> uses for the key.
\<close>

definition MessageId_new :: "('x, 'i, u64) expire_cache \<Rightarrow> string \<Rightarrow> 'db \<Rightarrow> ('db, 'x) MessageIdCache" where
  "MessageId_new E folder d =
     \<lparr>mInitalized_Id = False, mLevelDBFile = LevelDBWrapper_new folder d, mTransactionNrs = ec_new E\<rparr>"

definition MessageId_init ::
    "'db leveldb \<Rightarrow> u64 \<Rightarrow> ('db, 'x) MessageIdCache \<Rightarrow> bool result \<times> ('db, 'x) MessageIdCache" where
  "MessageId_init L cacheInBytes st =
     (if mInitalized_Id st then (Inl (Gradido ClassAlreadyInitalized), st)
      else case LevelDBWrapper_init L cacheInBytes (mLevelDBFile st) of
          (False, w) \<Rightarrow> (Inr False, st\<lparr>mLevelDBFile := w\<rparr>)
        | (True, w) \<Rightarrow> (Inr True, st\<lparr>mInitalized_Id := True, mLevelDBFile := w\<rparr>))"

definition MessageId_exit :: "('db, 'x) MessageIdCache \<Rightarrow> ('db, 'x) MessageIdCache" where
  "MessageId_exit st = st\<lparr>mInitalized_Id := False, mLevelDBFile := LevelDBWrapper_exit (mLevelDBFile st)\<rparr>"

definition MessageId_reset ::
    "'db leveldb \<Rightarrow> ('x, 'i, u64) expire_cache \<Rightarrow> ('db, 'x) MessageIdCache \<Rightarrow> ('db, 'x) MessageIdCache" where
  "MessageId_reset L E st =
     st\<lparr>mLevelDBFile := LevelDBWrapper_reset L (mLevelDBFile st),
        mTransactionNrs := ec_clear E (mTransactionNrs st)\<rparr>"

definition MessageId_readFromLevelDb ::
    "'db leveldb \<Rightarrow> ('x, 'i, u64) expire_cache \<Rightarrow> ('i \<Rightarrow> string) \<Rightarrow> 'i
       \<Rightarrow> ('db, 'x) MessageIdCache \<Rightarrow> u64 result \<times> ('db, 'x) MessageIdCache" where
  "MessageId_readFromLevelDb L E idHex iotaMessageIdObj st =
     (if mInitalized_Id st then
        (case LevelDBWrapper_getValueForKey L (idHex iotaMessageIdObj) (mLevelDBFile st) of
           Inl e \<Rightarrow> (Inl e, st)
         | Inr None \<Rightarrow> (Inr 0, st)
         | Inr (Some value) \<Rightarrow>
             (case stoull value of
                Inl e \<Rightarrow> (Inl e, st)
              | Inr transactionNr \<Rightarrow>
                  (Inr transactionNr, st\<lparr>mTransactionNrs := ec_add E iotaMessageIdObj transactionNr (mTransactionNrs st)\<rparr>)))
      else (Inr 0, st))"

definition MessageId_add ::
    "'db leveldb \<Rightarrow> ('x, 'i, u64) expire_cache \<Rightarrow> (bytes \<Rightarrow> string) \<Rightarrow> (bytes \<Rightarrow> 'i result) \<Rightarrow> bytes \<Rightarrow> u64
       \<Rightarrow> ('db, 'x) MessageIdCache \<Rightarrow> unit result \<times> ('db, 'x) MessageIdCache" where
  "MessageId_add L E hex mkId messageId transactionNr st =
     (case mkId messageId of
        Inl e \<Rightarrow> (Inl e, st)
      | Inr i \<Rightarrow>
          (case ec_get E i (mTransactionNrs st) of
             (Some _, x) \<Rightarrow> (Inl (Gradido AlreadyExist), st\<lparr>mTransactionNrs := x\<rparr>)
           | (None, x) \<Rightarrow>
               let st1 = st\<lparr>mTransactionNrs := ec_add E i transactionNr x\<rparr> in
               if mInitalized_Id st1 then
                 (case LevelDBWrapper_setKeyValue L (hex messageId) (c_str (to_string (unat transactionNr)))
                     (mLevelDBFile st1) of (r, w) \<Rightarrow> (r, st1\<lparr>mLevelDBFile := w\<rparr>))
               else (Inr (), st1)))"

definition MessageId_has ::
    "'db leveldb \<Rightarrow> ('x, 'i, u64) expire_cache \<Rightarrow> ('i \<Rightarrow> string) \<Rightarrow> (bytes \<Rightarrow> 'i result) \<Rightarrow> bytes
       \<Rightarrow> ('db, 'x) MessageIdCache \<Rightarrow> bool result \<times> ('db, 'x) MessageIdCache" where
  "MessageId_has L E idHex mkId messageId st =
     (case mkId messageId of
        Inl e \<Rightarrow> (Inl e, st)
      | Inr i \<Rightarrow>
          (case ec_get E i (mTransactionNrs st) of
             (Some _, x) \<Rightarrow> (Inr True, st\<lparr>mTransactionNrs := x\<rparr>)
           | (None, x) \<Rightarrow>
               (case MessageId_readFromLevelDb L E idHex i (st\<lparr>mTransactionNrs := x\<rparr>) of
                  (Inl e, st') \<Rightarrow> (Inl e, st')
                | (Inr nr, st') \<Rightarrow> (Inr (nr \<noteq> 0), st'))))"

definition MessageId_getTransactionNr ::
    "'db leveldb \<Rightarrow> ('x, 'i, u64) expire_cache \<Rightarrow> ('i \<Rightarrow> string) \<Rightarrow> (bytes \<Rightarrow> 'i result) \<Rightarrow> bytes
       \<Rightarrow> ('db, 'x) MessageIdCache \<Rightarrow> u64 result \<times> ('db, 'x) MessageIdCache" where
  "MessageId_getTransactionNr L E idHex mkId messageId st =
     (case mkId messageId of
        Inl e \<Rightarrow> (Inl e, st)
      | Inr i \<Rightarrow>
          (case ec_get E i (mTransactionNrs st) of
             (Some nr, x) \<Rightarrow> (Inr nr, st\<lparr>mTransactionNrs := x\<rparr>)
           | (None, x) \<Rightarrow> MessageId_readFromLevelDb L E idHex i (st\<lparr>mTransactionNrs := x\<rparr>)))"

section \<open>The interface of an index of identifiers\<close>

text \<open>
  What the blockchain relies on: \<open>stored\<close> is the number of an identifier; a lookup of a \<open>valid\<close>
  identifier returns it, 0 for none, and changes nothing; an addition either stores its number or
  leaves everything, and only refuses an identifier that is stored.
\<close>

locale id_index =
  fixes inv :: "'s \<Rightarrow> bool"
    and valid :: "bytes \<Rightarrow> bool"
    and stored :: "'s \<Rightarrow> bytes \<Rightarrow> u64 option"
    and add :: "bytes \<Rightarrow> u64 \<Rightarrow> 's \<Rightarrow> unit result \<times> 's"
    and lookup :: "bytes \<Rightarrow> 's \<Rightarrow> u64 result \<times> 's"
  assumes add_ok: "inv s \<Longrightarrow> valid b \<Longrightarrow> add b nr s = (Inr (), s') \<Longrightarrow>
      inv s' \<and> stored s' b' = (if b' = b then Some nr else stored s b')"
    and add_exists: "inv s \<Longrightarrow> valid b \<Longrightarrow> add b nr s = (Inl (Gradido AlreadyExist), s') \<Longrightarrow>
      inv s' \<and> stored s' b' = stored s b' \<and> stored s b \<noteq> None"
    and lookup_ok: "inv s \<Longrightarrow> valid b \<Longrightarrow>
      \<exists>s'. lookup b s = (Inr (case stored s b of None \<Rightarrow> 0 | Some nr \<Rightarrow> nr), s') \<and> inv s' \<and> stored s' = stored s"
begin

text \<open>A run of additions, each after lookups of any identifiers; \<open>None\<close> when one fails for another reason.\<close>

fun lookups :: "bytes list \<Rightarrow> 's \<Rightarrow> 's" where
  "lookups [] s = s"
| "lookups (b # bs) s = lookups bs (snd (lookup b s))"

fun run :: "(bytes list \<times> bytes \<times> u64) list \<Rightarrow> 's \<Rightarrow> (bool list \<times> 's) option" where
  "run [] s = Some ([], s)"
| "run ((bs, b, nr) # xs) s =
     (case add b nr (lookups bs s) of
        (Inr _, s') \<Rightarrow> map_option (map_prod ((#) True) id) (run xs s')
      | (Inl (Gradido AlreadyExist), s') \<Rightarrow> map_option (map_prod ((#) False) id) (run xs s')
      | _ \<Rightarrow> None)"

definition last_added :: "bool list \<Rightarrow> (bytes list \<times> bytes \<times> u64) list \<Rightarrow> bytes \<Rightarrow> u64 option \<Rightarrow> u64 option" where
  "last_added rs xs b old = fold (\<lambda>(r, (_, b', nr)) acc. if r \<and> b = b' then Some nr else acc) (zip rs xs) old"

lemma lookups_ok:
  "inv s \<Longrightarrow> \<forall>b \<in> set bs. valid b \<Longrightarrow> inv (lookups bs s) \<and> stored (lookups bs s) = stored s"
proof (induction bs arbitrary: s)
  case Nil
  then show ?case by simp
next
  case (Cons b bs)
  obtain s' where "lookup b s = (Inr (case stored s b of None \<Rightarrow> 0 | Some nr \<Rightarrow> nr), s')"
    "inv s'" "stored s' = stored s" using lookup_ok [of s b] Cons.prems by auto
  then show ?case using Cons.IH [of s'] Cons.prems(2) by simp
qed

lemma run_stored:
  "inv s \<Longrightarrow> run xs s = Some (rs, s') \<Longrightarrow> \<forall>(bs, b, nr) \<in> set xs. valid b \<and> (\<forall>b \<in> set bs. valid b) \<Longrightarrow>
   inv s' \<and> stored s' b = last_added rs xs b (stored s b)"
proof (induction xs arbitrary: s rs s')
  case Nil
  then show ?case by (simp add: last_added_def)
next
  case (Cons x xs)
  obtain bs b1 nr where x: "x = (bs, b1, nr)" by (cases x)
  have v: "valid b1" "\<forall>b \<in> set bs. valid b" "\<forall>(bs, b, nr) \<in> set xs. valid b \<and> (\<forall>b \<in> set bs. valid b)"
    using Cons.prems(3) x by auto
  let ?s = "lookups bs s"
  have l: "inv ?s" "stored ?s = stored s" using lookups_ok [OF Cons.prems(1) v(2)] by simp_all
  obtain r s1 where ad: "add b1 nr ?s = (r, s1)" by (cases "add b1 nr ?s")
  from Cons.prems(2) obtain rs1 where rn: "run xs s1 = Some (rs1, s')" and rs: "rs = is_ok r # rs1"
    and kind: "r = Inr () \<or> r = Inl (Gradido AlreadyExist)"
    by (auto simp: x ad split: sum.splits error.splits gradido_exception.splits)
  have s1: "inv s1" "stored s1 b = (if is_ok r \<and> b = b1 then Some nr else stored s b)"
    using kind add_ok [OF l(1) v(1), of nr s1 b] add_exists [OF l(1) v(1), of nr s1 b] ad l(2) by auto
  from Cons.IH [OF s1(1) rn v(3)] s1(2) show ?case by (simp add: x rs last_added_def)
qed

end

section \<open>Both caches are such an index\<close>

text \<open>What the codecs promise: a valid identifier has its own key, without a null character.\<close>

definition codec_laws :: "(bytes \<Rightarrow> string) \<Rightarrow> (bytes \<Rightarrow> 'i result) \<Rightarrow> bool" where
  "codec_laws key mk =
     (inj key \<and> (\<forall>b. CHR 0x00 \<notin> set (key b)) \<and>
      (\<forall>b b' i. mk b = Inr i \<longrightarrow> mk b' = Inr i \<longrightarrow> b = b'))"

definition id_stored :: "'db leveldb \<Rightarrow> (bytes \<Rightarrow> string) \<Rightarrow> ('db, 'x) IdCache \<Rightarrow> bytes \<Rightarrow> u64 option" where
  "id_stored L key st b =
     (case db_get L (disk (mLevelDBFile st)) (key b) of
        None \<Rightarrow> None
      | Some v \<Rightarrow> (case stoull v of Inl _ \<Rightarrow> None | Inr nr \<Rightarrow> Some nr))"

definition id_inv ::
    "'db leveldb \<Rightarrow> ('x, 'i, u64) expire_cache \<Rightarrow> (bytes \<Rightarrow> string) \<Rightarrow> (bytes \<Rightarrow> 'i result) \<Rightarrow> ('db, 'x) IdCache \<Rightarrow> bool" where
  "id_inv L E key mk st =
     (mInitalized_Id st \<and> mLevelDB (mLevelDBFile st) \<and>
      (\<forall>b v. db_get L (disk (mLevelDBFile st)) (key b) = Some v \<longrightarrow> (\<exists>nr. v = to_string (unat (nr :: u64)))) \<and>
      (\<forall>b i nr. mk b = Inr i \<longrightarrow> nr \<in> ec_vals E (mTransactionNrs st) i \<longrightarrow> id_stored L key st b = Some nr))"

lemma id_stored_disk: "disk (mLevelDBFile st') = disk (mLevelDBFile st) \<Longrightarrow> id_stored L key st' = id_stored L key st"
  by (simp add: id_stored_def fun_eq_iff)

lemma id_inv_cache:
  assumes "id_inv L E key mk st"
    and "\<And>b i nr. mk b = Inr i \<Longrightarrow> nr \<in> ec_vals E x i \<Longrightarrow> id_stored L key st b = Some nr"
  shows "id_inv L E key mk (st\<lparr>mTransactionNrs := x\<rparr>)"
  using assms by (simp add: id_inv_def id_stored_def)

lemma HieroTransactionId_add_ok:
  assumes laws: "leveldb_laws L" "expire_laws E" and codec: "codec_laws key (HieroTransactionId_fromProtobuf deser)"
    and inv: "id_inv L E key (HieroTransactionId_fromProtobuf deser) s"
    and valid: "HieroTransactionId_fromProtobuf deser b = Inr i"
    and add: "HieroTransactionId_add L E key deser b nr s = (Inr (), s')"
  shows "id_inv L E key (HieroTransactionId_fromProtobuf deser) s' \<and>
    id_stored L key s' b' = (if b' = b then Some nr else id_stored L key s b')"
proof -
  let ?mk = "HieroTransactionId_fromProtobuf deser"
  have nn: "CHR 0x00 \<notin> set (key b)" and inj: "\<And>a. key a = key b \<longleftrightarrow> a = b"
    using codec by (auto simp: codec_laws_def dest: injD)
  have open': "mInitalized_Id s" "mLevelDB (mLevelDBFile s)" using inv by (simp_all add: id_inv_def)
  from add open' valid nn obtain x d where get: "ec_get E i (mTransactionNrs s) = (None, x)"
    and put: "db_put L (disk (mLevelDBFile s)) (key b) (to_string (unat nr)) = Some d"
    and s': "s' = s\<lparr>mTransactionNrs := ec_add E i nr x, mLevelDBFile := (mLevelDBFile s)\<lparr>disk := d\<rparr>\<rparr>"
    by (auto simp: HieroTransactionId_add_def LevelDBWrapper_setKeyValue_def Let_def split: prod.splits option.splits)
  have db: "db_get L d (key a) = (if a = b then Some (to_string (unat nr)) else db_get L (disk (mLevelDBFile s)) (key a))" for a
    using leveldb_lawsD(2) [OF laws(1) put, of "key a"] inj by simp
  have st: "id_stored L key s' a = (if a = b then Some nr else id_stored L key s a)" for a
    by (simp add: id_stored_def s' db)
  have "id_stored L key s' a = Some v" if mk: "?mk a = Inr j" and vals: "v \<in> ec_vals E (ec_add E i nr x) j" for a j v
  proof (cases "a = b")
    case True
    then show ?thesis
      using mk valid expire_lawsD(6) [OF laws(2) vals] expire_lawsD(5) [OF laws(2) get] by (auto simp: st)
  next
    case False
    then have "j \<noteq> i" using codec mk valid by (auto simp: codec_laws_def)
    then have "v \<in> ec_vals E (mTransactionNrs s) j"
      using expire_lawsD(6) [OF laws(2) vals] expire_lawsD(3) [OF laws(2) get] by auto
    then show ?thesis using inv mk False by (simp add: st id_inv_def)
  qed
  moreover have "\<exists>n. v = to_string (unat (n :: u64))" if "db_get L d (key a) = Some v" for a v
    using that inv by (auto simp: db id_inv_def split: if_splits)
  ultimately show ?thesis using open' st by (simp add: id_inv_def s')
qed

lemma HieroTransactionId_add_exists:
  assumes laws: "expire_laws E" and codec: "codec_laws key (HieroTransactionId_fromProtobuf deser)"
    and inv: "id_inv L E key (HieroTransactionId_fromProtobuf deser) s"
    and valid: "HieroTransactionId_fromProtobuf deser b = Inr i"
    and add: "HieroTransactionId_add L E key deser b nr s = (Inl (Gradido AlreadyExist), s')"
  shows "id_inv L E key (HieroTransactionId_fromProtobuf deser) s' \<and>
    id_stored L key s' b' = id_stored L key s b' \<and> id_stored L key s b \<noteq> None"
proof -
  from add inv valid obtain n x where get: "ec_get E i (mTransactionNrs s) = (Some n, x)"
    and s': "s' = s\<lparr>mTransactionNrs := x\<rparr>"
    by (auto simp: HieroTransactionId_add_def LevelDBWrapper_setKeyValue_def Let_def id_inv_def split: prod.splits option.splits)
  have "id_inv L E key (HieroTransactionId_fromProtobuf deser) s'"
    unfolding s' by (rule id_inv_cache [OF inv]) (use inv expire_lawsD(3) [OF laws get] in \<open>auto simp: id_inv_def\<close>)
  moreover have "id_stored L key s b = Some n"
    using inv valid expire_lawsD(4) [OF laws get] by (simp add: id_inv_def)
  ultimately show ?thesis using s' by (simp add: id_stored_def)
qed

lemma HieroTransactionId_lookup_ok:
  assumes laws: "expire_laws E" and codec: "codec_laws key (HieroTransactionId_fromProtobuf deser)"
    and inv: "id_inv L E key (HieroTransactionId_fromProtobuf deser) s"
    and valid: "HieroTransactionId_fromProtobuf deser b = Inr i"
  shows "\<exists>s'. HieroTransactionId_getTransactionNr L E key deser b s =
      (Inr (case id_stored L key s b of None \<Rightarrow> 0 | Some nr \<Rightarrow> nr), s') \<and>
    id_inv L E key (HieroTransactionId_fromProtobuf deser) s' \<and> id_stored L key s' = id_stored L key s"
proof -
  let ?mk = "HieroTransactionId_fromProtobuf deser"
  obtain r x where get: "ec_get E i (mTransactionNrs s) = (r, x)" by (cases "ec_get E i (mTransactionNrs s)")
  have keep: "nr \<in> ec_vals E x j \<Longrightarrow> ?mk a = Inr j \<Longrightarrow> id_stored L key s a = Some nr" for a j nr
    using inv expire_lawsD(3) [OF laws get] by (auto simp: id_inv_def)
  have disk: "id_stored L key (s\<lparr>mTransactionNrs := y\<rparr>) = id_stored L key s" for y by (rule id_stored_disk) simp
  have c: "c_str (key b) = key b" using codec by (simp add: codec_laws_def)
  show ?thesis
  proof (cases r)
    case (Some n)
    then have "id_stored L key s b = Some n"
      using inv valid expire_lawsD(4) [OF laws, of i _ n] get by (auto simp: id_inv_def)
    moreover have "id_inv L E key ?mk (s\<lparr>mTransactionNrs := x\<rparr>)" by (rule id_inv_cache [OF inv]) (rule keep)
    ultimately show ?thesis using Some get valid disk by (simp add: HieroTransactionId_getTransactionNr_def)
  next
    case None
    have rd: "LevelDBWrapper_getValueForKey L (key b) (mLevelDBFile s) = Inr (db_get L (disk (mLevelDBFile s)) (key b))"
      using inv c by (simp add: LevelDBWrapper_getValueForKey_def id_inv_def)
    have ini: "mInitalized_Id s" using inv by (simp add: id_inv_def)
    show ?thesis
    proof (cases "db_get L (disk (mLevelDBFile s)) (key b)")
      case None': None
      have "id_inv L E key ?mk (s\<lparr>mTransactionNrs := x\<rparr>)" by (rule id_inv_cache [OF inv]) (rule keep)
      moreover have "id_stored L key s b = None" using None' by (simp add: id_stored_def)
      ultimately show ?thesis using None get valid rd ini None' disk
        by (simp add: HieroTransactionId_getTransactionNr_def HieroTransactionId_readFromLevelDb_def)
    next
      case (Some v)
      then obtain nr where v: "v = to_string (unat (nr :: u64))" using inv by (auto simp: id_inv_def)
      have sb: "id_stored L key s b = Some nr" using Some v by (simp add: id_stored_def)
      have "id_inv L E key ?mk (s\<lparr>mTransactionNrs := ec_add E i nr x\<rparr>)"
      proof (rule id_inv_cache [OF inv])
        fix a j n assume mk: "?mk a = Inr j" and n: "n \<in> ec_vals E (ec_add E i nr x) j"
        from expire_lawsD(6) [OF laws n] show "id_stored L key s a = Some n"
        proof
          assume *: "j = i \<and> n = nr"
          then have "a = b" using codec mk valid by (auto simp: codec_laws_def)
          with * sb show ?thesis by simp
        qed (use keep mk in blast)
      qed
      then show ?thesis using None get valid rd ini Some v sb disk
        by (simp add: HieroTransactionId_getTransactionNr_def HieroTransactionId_readFromLevelDb_def)
    qed
  qed
qed

interpretation hiero_ids: id_index
  "\<lambda>st. leveldb_laws L \<and> expire_laws E \<and> codec_laws key (HieroTransactionId_fromProtobuf deser) \<and>
     id_inv L E key (HieroTransactionId_fromProtobuf deser) st"
  "\<lambda>b. is_ok (HieroTransactionId_fromProtobuf deser b)" "id_stored L key"
  "HieroTransactionId_add L E key deser" "HieroTransactionId_getTransactionNr L E key deser"
proof unfold_locales
  fix s :: "('a, 'b) IdCache" and b b' nr s'
  assume *: "leveldb_laws L \<and> expire_laws E \<and> codec_laws key (HieroTransactionId_fromProtobuf deser) \<and>
     id_inv L E key (HieroTransactionId_fromProtobuf deser) s"
    and "is_ok (HieroTransactionId_fromProtobuf deser b)"
  then obtain i where v: "HieroTransactionId_fromProtobuf deser b = Inr i"
    by (cases "HieroTransactionId_fromProtobuf deser b") auto
  show "(leveldb_laws L \<and> expire_laws E \<and> codec_laws key (HieroTransactionId_fromProtobuf deser) \<and>
      id_inv L E key (HieroTransactionId_fromProtobuf deser) s') \<and>
      id_stored L key s' b' = (if b' = b then Some nr else id_stored L key s b')"
    if "HieroTransactionId_add L E key deser b nr s = (Inr (), s')"
    using HieroTransactionId_add_ok [OF _ _ _ _ v that] * by simp
  show "(leveldb_laws L \<and> expire_laws E \<and> codec_laws key (HieroTransactionId_fromProtobuf deser) \<and>
      id_inv L E key (HieroTransactionId_fromProtobuf deser) s') \<and>
      id_stored L key s' b' = id_stored L key s b' \<and> id_stored L key s b \<noteq> None"
    if "HieroTransactionId_add L E key deser b nr s = (Inl (Gradido AlreadyExist), s')"
    using HieroTransactionId_add_exists [OF _ _ _ v that] * by simp
  show "\<exists>s'. HieroTransactionId_getTransactionNr L E key deser b s =
      (Inr (case id_stored L key s b of None \<Rightarrow> 0 | Some nr \<Rightarrow> nr), s') \<and>
      (leveldb_laws L \<and> expire_laws E \<and> codec_laws key (HieroTransactionId_fromProtobuf deser) \<and>
       id_inv L E key (HieroTransactionId_fromProtobuf deser) s') \<and> id_stored L key s' = id_stored L key s"
    using HieroTransactionId_lookup_ok [OF _ _ _ v] * by blast
qed

text \<open>
  \<open>MessageId\<close> does the same with a constructor in place of the deserialiser, where the text of an
  identifier is the text of its block.
\<close>

abbreviation as_deser :: "(bytes \<Rightarrow> 'i result) \<Rightarrow> bytes \<Rightarrow> 'i option result" where
  "as_deser mkId b \<equiv> map_sum id Some (mkId b)"

lemma fromProtobuf_as_deser [simp]: "HieroTransactionId_fromProtobuf (as_deser mkId) = mkId"
proof (rule ext)
  show "HieroTransactionId_fromProtobuf (as_deser mkId) b = mkId b" for b
    by (cases "mkId b") (simp_all add: HieroTransactionId_fromProtobuf_def)
qed

lemma MessageId_add_hiero: "MessageId_add L E hex mkId b nr st = HieroTransactionId_add L E hex (as_deser mkId) b nr st"
  by (simp add: MessageId_add_def HieroTransactionId_add_def)

lemma MessageId_get_hiero:
  "(\<And>i. mkId b = Inr i \<Longrightarrow> idHex i = hex b) \<Longrightarrow>
   MessageId_getTransactionNr L E idHex mkId b st = HieroTransactionId_getTransactionNr L E hex (as_deser mkId) b st"
  by (simp add: MessageId_getTransactionNr_def HieroTransactionId_getTransactionNr_def
      MessageId_readFromLevelDb_def HieroTransactionId_readFromLevelDb_def split: sum.split option.split prod.split)

definition message_codec :: "(bytes \<Rightarrow> string) \<Rightarrow> ('i \<Rightarrow> string) \<Rightarrow> (bytes \<Rightarrow> 'i result) \<Rightarrow> bool" where
  "message_codec hex idHex mkId = (codec_laws hex mkId \<and> (\<forall>b i. mkId b = Inr i \<longrightarrow> idHex i = hex b))"

interpretation message_ids: id_index
  "\<lambda>st. leveldb_laws L \<and> expire_laws E \<and> message_codec hex idHex mkId \<and> id_inv L E hex mkId st"
  "\<lambda>b. is_ok (mkId b)" "id_stored L hex" "MessageId_add L E hex mkId" "MessageId_getTransactionNr L E idHex mkId"
proof unfold_locales
  fix s :: "('a, 'b) IdCache" and b b' nr s'
  assume *: "leveldb_laws L \<and> expire_laws E \<and> message_codec hex idHex mkId \<and> id_inv L E hex mkId s"
    and v: "is_ok (mkId b)"
  then have h: "leveldb_laws L \<and> expire_laws E \<and> codec_laws hex (HieroTransactionId_fromProtobuf (as_deser mkId)) \<and>
      id_inv L E hex (HieroTransactionId_fromProtobuf (as_deser mkId)) s"
    and v': "is_ok (HieroTransactionId_fromProtobuf (as_deser mkId) b)"
    by (simp_all add: message_codec_def)
  have g: "MessageId_getTransactionNr L E idHex mkId b s = HieroTransactionId_getTransactionNr L E hex (as_deser mkId) b s"
    by (rule MessageId_get_hiero) (use * in \<open>simp add: message_codec_def\<close>)
  show "(leveldb_laws L \<and> expire_laws E \<and> message_codec hex idHex mkId \<and> id_inv L E hex mkId s') \<and>
      id_stored L hex s' b' = (if b' = b then Some nr else id_stored L hex s b')"
    if "MessageId_add L E hex mkId b nr s = (Inr (), s')"
    using hiero_ids.add_ok [OF h v', of nr s' b'] that * by (simp add: MessageId_add_hiero)
  show "(leveldb_laws L \<and> expire_laws E \<and> message_codec hex idHex mkId \<and> id_inv L E hex mkId s') \<and>
      id_stored L hex s' b' = id_stored L hex s b' \<and> id_stored L hex s b \<noteq> None"
    if "MessageId_add L E hex mkId b nr s = (Inl (Gradido AlreadyExist), s')"
    using hiero_ids.add_exists [OF h v', of nr s' b'] that * by (simp add: MessageId_add_hiero)
  show "\<exists>s'. MessageId_getTransactionNr L E idHex mkId b s =
      (Inr (case id_stored L hex s b of None \<Rightarrow> 0 | Some nr \<Rightarrow> nr), s') \<and>
      (leveldb_laws L \<and> expire_laws E \<and> message_codec hex idHex mkId \<and> id_inv L E hex mkId s') \<and>
      id_stored L hex s' = id_stored L hex s"
    using hiero_ids.lookup_ok [OF h v'] * by (auto simp: g)
qed

section \<open>cache::TransactionHash\<close>

text \<open>
  A transaction counts here by its signatures, in their order. \<open>octet\<close> is \<open>SignatureOctet\<close>, the
  first bytes of a signature; \<open>chain nr\<close> are the signatures of the confirmed transaction \<open>nr\<close> in the
  blockchain of the community, \<open>None\<close> when the provider or the chain returns a null pointer.
\<close>

record 'x TransactionHash =
  mSignaturePartTransactionNrs :: "'x"
  mCommunityId_Hash :: string

record confirmed =
  ct_id :: u64
  ct_signatures :: "bytes list"

definition TransactionHash_new :: "('x, 'o, u64) expire_cache \<Rightarrow> string \<Rightarrow> 'x TransactionHash" where
  "TransactionHash_new E communityId = \<lparr>mSignaturePartTransactionNrs = ec_new E, mCommunityId_Hash = communityId\<rparr>"

definition TransactionHash_push ::
    "('x, 'o, u64) expire_cache \<Rightarrow> (bytes \<Rightarrow> 'o) \<Rightarrow> confirmed \<Rightarrow> 'x TransactionHash \<Rightarrow> unit result \<times> 'x TransactionHash" where
  "TransactionHash_push E octet confirmedTransaction h =
     (case ct_signatures confirmedTransaction of
        [] \<Rightarrow> (Inl UndefinedBehaviour, h)
      | firstSignature # _ \<Rightarrow>
          (case ec_get E (octet firstSignature) (mSignaturePartTransactionNrs h) of
             (Some _, x) \<Rightarrow> (Inl (Gradido AlreadyExist), h\<lparr>mSignaturePartTransactionNrs := x\<rparr>)
           | (None, x) \<Rightarrow>
               (Inr (), h\<lparr>mSignaturePartTransactionNrs := ec_add E (octet firstSignature) (ct_id confirmedTransaction) x\<rparr>)))"

definition TransactionHash_has ::
    "('x, 'o, u64) expire_cache \<Rightarrow> (bytes \<Rightarrow> 'o) \<Rightarrow> (string \<Rightarrow> u64 \<Rightarrow> bytes list option) \<Rightarrow> bytes list
       \<Rightarrow> 'x TransactionHash \<Rightarrow> bool result \<times> 'x TransactionHash" where
  "TransactionHash_has E octet chain signatures h =
     (case signatures of
        [] \<Rightarrow> (Inl UndefinedBehaviour, h)
      | firstSignature # _ \<Rightarrow>
          (case ec_get E (octet firstSignature) (mSignaturePartTransactionNrs h) of
             (None, x) \<Rightarrow> (Inr False, h\<lparr>mSignaturePartTransactionNrs := x\<rparr>)
           | (Some nr, x) \<Rightarrow>
               (case chain (mCommunityId_Hash h) nr of
                  Some (firstSignatureFromFoundedTransaction # _) \<Rightarrow>
                    (Inr (firstSignatureFromFoundedTransaction = firstSignature),
                     h\<lparr>mSignaturePartTransactionNrs := x\<rparr>)
                | _ \<Rightarrow> (Inl UndefinedBehaviour, h\<lparr>mSignaturePartTransactionNrs := x\<rparr>))))"

text \<open>
  Pushing the confirmed transactions of a chain in order, collisions refused by \<open>push\<close> included
  (\<open>NodeTransactionEntry\<close> and \<open>FileBased\<close> push what they confirm). The numbers in the cache belong to
  pushed transactions with that octet.
\<close>

definition pushed :: "('x, 'o, u64) expire_cache \<Rightarrow> (bytes \<Rightarrow> 'o) \<Rightarrow> confirmed list \<Rightarrow> 'x TransactionHash \<Rightarrow> 'x TransactionHash" where
  "pushed E octet cts h = fold (\<lambda>ct h. snd (TransactionHash_push E octet ct h)) cts h"

definition hash_inv :: "('x, 'o, u64) expire_cache \<Rightarrow> (bytes \<Rightarrow> 'o) \<Rightarrow> confirmed set \<Rightarrow> 'x TransactionHash \<Rightarrow> bool" where
  "hash_inv E octet cts h =
     (\<forall>k nr. nr \<in> ec_vals E (mSignaturePartTransactionNrs h) k \<longrightarrow>
        (\<exists>ct \<in> cts. \<exists>sig sigs. ct_signatures ct = sig # sigs \<and> octet sig = k \<and> ct_id ct = nr))"

lemma TransactionHash_push_community [simp]:
  "mCommunityId_Hash (snd (TransactionHash_push E octet ct h)) = mCommunityId_Hash h"
  by (auto simp: TransactionHash_push_def split: list.split prod.split option.split)

lemma hash_inv_push:
  assumes laws: "expire_laws E" and inv: "hash_inv E octet cts h" and ct: "ct \<in> cts"
  shows "hash_inv E octet cts (snd (TransactionHash_push E octet ct h))"
proof (cases "ct_signatures ct")
  case Nil
  then show ?thesis using inv by (simp add: TransactionHash_push_def)
next
  case (Cons sig sigs)
  obtain r x where get: "ec_get E (octet sig) (mSignaturePartTransactionNrs h) = (r, x)"
    by (cases "ec_get E (octet sig) (mSignaturePartTransactionNrs h)")
  have old: "hash_inv E octet cts (h\<lparr>mSignaturePartTransactionNrs := x\<rparr>)"
    using inv expire_lawsD(3) [OF laws get] by (auto simp: hash_inv_def)
  moreover have "hash_inv E octet cts (h\<lparr>mSignaturePartTransactionNrs := ec_add E (octet sig) (ct_id ct) x\<rparr>)"
    using old expire_lawsD(6) [OF laws] Cons ct by (fastforce simp: hash_inv_def)
  ultimately show ?thesis using Cons get by (auto simp: TransactionHash_push_def split: option.split)
qed

interpretation hash_run: step_invariant "\<lambda>ct h. if ct \<in> cts then snd (TransactionHash_push E octet ct h) else h"
  "\<lambda>h. expire_laws E \<and> hash_inv E octet cts h"
  by unfold_locales (auto intro: hash_inv_push)

lemma pushed_inv:
  assumes "expire_laws E"
  shows "hash_inv E octet (set cts) (pushed E octet cts (TransactionHash_new E c))"
proof -
  have "expire_laws E \<and> hash_inv E octet (set cts) (TransactionHash_new E c)"
    using assms by (simp add: hash_inv_def TransactionHash_new_def expire_lawsD)
  from hash_run.run_inv [OF this, of cts]
  have "hash_inv E octet (set cts) (fold (\<lambda>ct h. if ct \<in> set cts then snd (TransactionHash_push E octet ct h) else h)
    cts (TransactionHash_new E c))" by simp
  also have "fold (\<lambda>ct h. if ct \<in> set cts then snd (TransactionHash_push E octet ct h) else h)
      cts (TransactionHash_new E c) = pushed E octet cts (TransactionHash_new E c)"
    unfolding pushed_def by (rule fold_cong) simp_all
  finally show ?thesis .
qed

lemma pushed_community: "mCommunityId_Hash (pushed E octet cts h) = mCommunityId_Hash h"
  by (induction cts arbitrary: h) (simp_all add: pushed_def)

section \<open>Properties\<close>

lemma id_inv_init:
  assumes "MessageId_init L n (MessageId_new E f d) = (Inr True, s)" and "expire_laws E"
    and "\<And>b v. db_get L d (key b) = Some v \<Longrightarrow> \<exists>nr. v = to_string (unat (nr :: u64))"
  shows "id_inv L E key mk s \<and> id_stored L key s = id_stored L key (MessageId_new E f d)"
proof -
  let ?w = "LevelDBWrapper_init L n (LevelDBWrapper_new f d)"
  have ok: "fst ?w" and s: "s = \<lparr>mInitalized_Id = True, mLevelDBFile = snd ?w, mTransactionNrs = ec_new E\<rparr>"
    using assms(1) by (auto simp: MessageId_init_def MessageId_new_def split: prod.splits bool.splits)
  have "disk (snd ?w) = d" "mLevelDB (snd ?w)" using ok by simp_all
  then show ?thesis using assms(2,3) by (simp add: id_inv_def s expire_lawsD id_stored_disk MessageId_new_def)
qed

text \<open>C24: The message cache is a map from message to transaction number, whatever the expiring cache
  forgets and when: after any run of additions and lookups on a fresh folder, the number of a message
  is the one of its last addition that did not throw, 0 for none; and a new object on the same folder
  gives the same answers. The only error of the run may be the refusal of a known message.\<close>

theorem MessageId_index:
  assumes laws: "leveldb_laws L" "expire_laws E" "message_codec hex idHex mkId"
    and init: "MessageId_init L n (MessageId_new E f (db_empty L)) = (Inr True, s0)"
    and run: "id_index.run (MessageId_add L E hex mkId) (MessageId_getTransactionNr L E idHex mkId) xs s0 = Some (rs, s1)"
    and valid: "\<forall>(bs, b, nr) \<in> set xs. is_ok (mkId b) \<and> (\<forall>b \<in> set bs. is_ok (mkId b))" "is_ok (mkId b)"
    and again: "MessageId_init L n (MessageId_new E f (disk (mLevelDBFile s1))) = (Inr True, s2)"
    and s: "s \<in> {s1, s2}"
  shows "fst (MessageId_getTransactionNr L E idHex mkId b s) =
    Inr (case id_index.last_added rs xs b None of None \<Rightarrow> 0 | Some nr \<Rightarrow> nr)"
proof -
  have i0: "id_inv L E hex mkId s0" and st0: "id_stored L hex s0 b = None"
    using id_inv_init [OF init laws(2), of hex mkId] laws(1)
    by (simp_all add: leveldb_lawsD id_stored_def MessageId_new_def)
  note r = message_ids.run_stored [OF _ run valid(1), of b]
  have i1: "id_inv L E hex mkId s1" and st1: "id_stored L hex s1 b = id_index.last_added rs xs b None"
    using r laws i0 st0 by simp_all
  have "id_inv L E hex mkId s2 \<and> id_stored L hex s2 = id_stored L hex (MessageId_new E f (disk (mLevelDBFile s1)))"
    by (rule id_inv_init [OF again laws(2)]) (use i1 in \<open>simp add: id_inv_def\<close>)
  then have i2: "id_inv L E hex mkId s2" and st2: "id_stored L hex s2 b = id_stored L hex s1 b"
    by (simp_all add: id_stored_def MessageId_new_def)
  have "id_inv L E hex mkId s" "id_stored L hex s b = id_index.last_added rs xs b None"
    using s i1 i2 st1 st2 by auto
  then show ?thesis using message_ids.lookup_ok [of L E hex idHex mkId s b] laws valid(2) by auto
qed

text \<open>A concrete text of bytes, two letters for each.\<close>

definition hex_text :: "bytes \<Rightarrow> string" where
  "hex_text bs = concat (map (\<lambda>b. [char_of (64 + unat b div 16), char_of (64 + unat b mod 16)]) bs)"

lemma hex_text_inj: "hex_text a = hex_text b \<Longrightarrow> a = b"
proof (induction a arbitrary: b)
  case Nil
  then show ?case by (cases b) (simp_all add: hex_text_def)
next
  case (Cons x xs)
  then obtain y ys where b: "b = y # ys" by (cases b) (auto simp: hex_text_def)
  have u: "unat x < 256" "unat y < 256" using unat_bounds(4) [of x] unat_bounds(4) [of y] by simp_all
  have "(of_char (char_of (64 + unat x div 16) :: char) :: nat) = of_char (char_of (64 + unat y div 16) :: char)"
    "(of_char (char_of (64 + unat x mod 16) :: char) :: nat) = of_char (char_of (64 + unat y mod 16) :: char)"
    and tl: "hex_text xs = hex_text ys" using Cons.prems b by (auto simp: hex_text_def)
  then have "unat x div 16 = unat y div 16" "unat x mod 16 = unat y mod 16" using u by simp_all
  then have "unat x = unat y" by (metis div_mult_mod_eq)
  then have "x = y" by (rule word_unat_eq_iff [THEN iffD2])
  then show ?case using Cons.IH [OF tl] b by simp
qed

lemma hex_text_nul: "CHR 0x00 \<notin> set (hex_text bs)"
proof
  assume "CHR 0x00 \<in> set (hex_text bs)"
  then have "\<exists>b. CHR 0x00 = char_of (64 + unat (b :: u8) div 16) \<or> CHR 0x00 = char_of (64 + unat b mod 16)"
    unfolding hex_text_def by force
  then obtain b :: u8 where "CHR 0x00 = char_of (64 + unat b div 16) \<or> CHR 0x00 = char_of (64 + unat b mod 16)" ..
  then have "of_char (CHR 0x00) = (of_char (char_of (64 + unat b div 16) :: char) :: nat) \<or>
      of_char (CHR 0x00) = (of_char (char_of (64 + unat b mod 16) :: char) :: nat)" by metis
  then show False using unat_bounds(4) [of b] by simp
qed

lemma hex_text_codec [simp]: "message_codec hex_text hex_text Inr"
  by (auto simp: message_codec_def codec_laws_def hex_text_nul intro: injI hex_text_inj)

abbreviation forgetful :: "(unit, bytes, u64) expire_cache" where
  "forgetful \<equiv> no_cache"

definition ids_example :: "((string \<times> string) list, unit) MessageIdCache" where
  "ids_example = snd (MessageId_init alist_leveldb 0 (MessageId_new forgetful ''m'' []))"

definition ids_example_end :: "((string \<times> string) list, unit) MessageIdCache" where
  "ids_example_end = ids_example\<lparr>mLevelDBFile := (mLevelDBFile ids_example)\<lparr>disk := [(hex_text [1], ''7'')]\<rparr>\<rparr>"

lemma MessageId_index_witness:
  "fst (MessageId_getTransactionNr alist_leveldb forgetful hex_text Inr [1]
      (snd (MessageId_init alist_leveldb 0 (MessageId_new forgetful ''m''
        (disk (mLevelDBFile ids_example_end)))))) = Inr 7"
proof -
  have i: "MessageId_init alist_leveldb 0 (MessageId_new forgetful ''m'' (db_empty alist_leveldb)) = (Inr True, ids_example)"
    by code_simp
  have "id_index.run (MessageId_add alist_leveldb forgetful hex_text Inr)
      (MessageId_getTransactionNr alist_leveldb forgetful hex_text Inr) [([[2]], [1], 7)] ids_example
    = Some ([True], ids_example_end)"
  proof -
    have "MessageId_add alist_leveldb forgetful hex_text Inr [1] 7
        (snd (MessageId_getTransactionNr alist_leveldb forgetful hex_text Inr [2] ids_example)) = (Inr (), ids_example_end)"
      by code_simp
    then show ?thesis by (simp add: message_ids.run.simps message_ids.lookups.simps)
  qed
  moreover have "MessageId_init alist_leveldb 0 (MessageId_new forgetful ''m'' (disk (mLevelDBFile ids_example_end)))
      = (Inr True, ids_example_end)" by code_simp
  ultimately show ?thesis
    using MessageId_index [of alist_leveldb forgetful hex_text hex_text Inr 0 "''m''" ids_example "[([[2]], [1], 7)]"
        "[True]" ids_example_end "[1]" ids_example_end ids_example_end] i
    by (simp add: message_ids.last_added_def)
qed

text \<open>The check for a known identifier only sees the expiring cache: when the cache has forgotten a
  stored Hiero transaction, adding it again does not throw but replaces its number.\<close>

theorem HieroTransactionId_add_overwrites:
  assumes laws: "leveldb_laws L" "codec_laws key (HieroTransactionId_fromProtobuf deser)"
    and st: "mInitalized_Id s" "mLevelDB (mLevelDBFile s)" and "deser b = Inr (Some i)"
    and "id_stored L key s b = Some old" and "fst (ec_get E i (mTransactionNrs s)) = None"
    and "db_put L (disk (mLevelDBFile s)) (key b) (to_string (unat nr)) \<noteq> None"
  shows "\<exists>s'. HieroTransactionId_add L E key deser b nr s = (Inr (), s') \<and> id_stored L key s' b = Some nr"
proof -
  obtain d where put: "db_put L (disk (mLevelDBFile s)) (key b) (to_string (unat nr)) = Some d" using assms(8) by blast
  obtain x where get: "ec_get E i (mTransactionNrs s) = (None, x)"
    using assms(7) by (cases "ec_get E i (mTransactionNrs s)") simp
  have "CHR 0x00 \<notin> set (key b)" using laws(2) by (simp add: codec_laws_def)
  then show ?thesis using st assms(5) get put leveldb_lawsD(2) [OF laws(1) put, of "key b"]
    by (simp add: HieroTransactionId_add_def HieroTransactionId_fromProtobuf_def LevelDBWrapper_setKeyValue_def
        id_stored_def Let_def)
qed

lemma HieroTransactionId_add_overwrites_witness:
  "\<exists>s'. HieroTransactionId_add alist_leveldb forgetful hex_text (\<lambda>b. Inr (Some b)) [1] 9
      ids_example_end = (Inr (), s') \<and> id_stored alist_leveldb hex_text s' [1] = Some 9"
proof (rule HieroTransactionId_add_overwrites)
  have "HieroTransactionId_fromProtobuf (\<lambda>b. Inr (Some b)) = Inr"
    by (simp add: HieroTransactionId_fromProtobuf_def fun_eq_iff)
  then show "codec_laws hex_text (HieroTransactionId_fromProtobuf (\<lambda>b. Inr (Some b)))"
    using hex_text_codec by (simp add: message_codec_def)
  have "''7'' = to_string 7" by code_simp
  then show "id_stored alist_leveldb hex_text ids_example_end [1] = Some 7"
    by (simp add: id_stored_def ids_example_end_def alist_leveldb_def)
  show "mInitalized_Id ids_example_end" "mLevelDB (mLevelDBFile ids_example_end)" by code_simp+
  show "fst (ec_get forgetful [1] (mTransactionNrs ids_example_end)) = None" by (simp add: no_cache_def)
  show "db_put alist_leveldb (disk (mLevelDBFile ids_example_end)) (hex_text [1]) (to_string (unat 9)) \<noteq> None"
    by (simp add: alist_leveldb_def)
qed simp_all

text \<open>C25: A transaction is only reported as a duplicate when one of the confirmed transactions that were
  pushed has the same first signature, not merely the same first bytes; the chain must return under a
  number the pushed transaction with that number.\<close>

theorem TransactionHash_no_false_duplicate:
  assumes laws: "expire_laws E"
    and chain: "\<And>ct. ct \<in> set cts \<Longrightarrow> chain c (ct_id ct) = Some (ct_signatures ct)"
    and has: "fst (TransactionHash_has E octet chain sigs (pushed E octet cts (TransactionHash_new E c))) = Inr True"
  shows "\<exists>ct \<in> set cts. sigs \<noteq> [] \<and> ct_signatures ct \<noteq> [] \<and> hd (ct_signatures ct) = hd sigs"
proof -
  let ?h = "pushed E octet cts (TransactionHash_new E c)"
  have com: "mCommunityId_Hash ?h = c" by (simp add: pushed_community TransactionHash_new_def)
  obtain sig rest where sigs: "sigs = sig # rest" using has by (cases sigs) (simp_all add: TransactionHash_has_def)
  from has sigs com obtain nr x where get: "ec_get E (octet sig) (mSignaturePartTransactionNrs ?h) = (Some nr, x)"
    and found: "\<exists>tl. chain c nr = Some (sig # tl)"
    by (auto simp: TransactionHash_has_def split: prod.splits option.splits list.splits)
  have "nr \<in> ec_vals E (mSignaturePartTransactionNrs ?h) (octet sig)" by (rule expire_lawsD(4) [OF laws get])
  then obtain ct where ct: "ct \<in> set cts" "ct_id ct = nr"
    using pushed_inv [OF laws, of octet cts c] by (auto simp: hash_inv_def)
  obtain tl where "ct_signatures ct = sig # tl" using chain [OF ct(1)] ct(2) found by auto
  then show ?thesis using sigs ct(1) by (intro bexI [of _ ct]) simp_all
qed

lemma TransactionHash_no_false_duplicate_witness:
  "\<exists>ct \<in> {(\<lparr>ct_id = 4, ct_signatures = [[1, 2, 3]]\<rparr> :: confirmed)}. ct_signatures ct \<noteq> [] \<and> hd (ct_signatures ct) = [1, 2, 3]"
  using TransactionHash_no_false_duplicate [of "keep_cache :: ((bytes \<times> u64) list, bytes, u64) expire_cache"
      "[\<lparr>ct_id = 4, ct_signatures = [[1, 2, 3]]\<rparr>]" "\<lambda>_ _. Some [[1, 2, 3]]" "''c''" "take 2" "[[1, 2, 3]]"]
  by (simp add: pushed_def TransactionHash_push_def TransactionHash_has_def TransactionHash_new_def keep_cache_def)

end
