(* ===== verification/Trigger.thy ===== *)
theory Trigger
  imports KeyValue
begin

text \<open>
  \<open>cache::TransactionTriggerEvent\<close> (\<open>src/cache/TransactionTriggerEvent.cpp\<close>): the events that are due
  at a target date, in a multimap by date and, per second of the date, as one entry of a \<open>State\<close>.
  Dates, events, their comparison and their serialisation belong to the blockchain library: they are
  the parameter \<open>ops\<close>.
\<close>

text \<open>
  \<open>te_enc\<close> is the base64 text of a serialised event, \<open>te_dec\<close> decodes and deserialises one: an
  exception, another kind of object, or the event. \<open>te_ofp\<close> makes a timestamp of a time point, \<open>te_tp\<close>
  a time point of a timestamp.
\<close>

record ('e, 't, 'p) trigger_ops =
  te_target :: "'e \<Rightarrow> 't"
  te_seconds :: "'t \<Rightarrow> int"
  te_same :: "'e \<Rightarrow> 'e \<Rightarrow> bool"
  te_enc :: "'e \<Rightarrow> string"
  te_dec :: "string \<Rightarrow> 'e option result"
  te_ofp :: "'p \<Rightarrow> 't"
  te_tp :: "'t \<Rightarrow> 'p"

record ('db, 't, 'e) TriggerCache =
  trig_State :: "'db State"
  mTransactionTriggerEvents :: "('t \<times> 'e) list"

definition TransactionTriggerEvent_new :: "string \<Rightarrow> 'db \<Rightarrow> ('db, 't, 'e) TriggerCache" where
  "TransactionTriggerEvent_new folder d = \<lparr>trig_State = State_new folder d, mTransactionTriggerEvents = []\<rparr>"

section \<open>Operations\<close>

definition State_readAllStates ::
    "'db leveldb \<Rightarrow> (string \<Rightarrow> string \<Rightarrow> 's \<Rightarrow> unit result \<times> 's) \<Rightarrow> 'db State \<Rightarrow> 's \<Rightarrow> unit result \<times> 's" where
  "State_readAllStates L callback st = LevelDBWrapper_iterate L callback (mStateFile st)"

text \<open>The segments between commas; a text that ends with a comma has no empty one behind it.\<close>

function segments :: "string \<Rightarrow> string list" where
  "segments s =
     (if s = [] then []
      else let seg = takeWhile (\<lambda>c. c \<noteq> CHR '','') s in seg # segments (drop (length seg + 1) s))"
  by auto
termination by (relation "measure length") auto

declare segments.simps [simp del]

text \<open>
  The callback of \<open>init\<close> for one entry. A segment that is no event ends the entry and makes the result
  of \<open>init\<close> false; the other entries are still read.
\<close>

fun load_segments ::
    "('e, 't::linorder, 'p) trigger_ops \<Rightarrow> string list \<Rightarrow> ('t \<times> 'e) list \<times> bool \<Rightarrow> unit result \<times> ('t \<times> 'e) list \<times> bool" where
  "load_segments ops [] (m, ok) = (Inr (), m, ok)"
| "load_segments ops (seg # segs) (m, ok) =
     (case te_dec ops seg of
        Inl e \<Rightarrow> (Inl e, m, ok)
      | Inr None \<Rightarrow> (Inr (), m, False)
      | Inr (Some e) \<Rightarrow> load_segments ops segs (mm_insert (te_target ops e) e m, ok))"

definition TransactionTriggerEvent_init ::
    "'db leveldb \<Rightarrow> ('e, 't::linorder, 'p) trigger_ops \<Rightarrow> u64 \<Rightarrow> ('db, 't, 'e) TriggerCache
       \<Rightarrow> bool result \<times> ('db, 't, 'e) TriggerCache" where
  "TransactionTriggerEvent_init L ops cacheInBytes c =
     (case State_init L cacheInBytes (trig_State c) of
        (Inl e, st) \<Rightarrow> (Inl e, c\<lparr>trig_State := st\<rparr>)
      | (Inr False, st) \<Rightarrow> (Inr False, c\<lparr>trig_State := st\<rparr>)
      | (Inr True, st) \<Rightarrow>
          (case State_readAllStates L (\<lambda>_ v. load_segments ops (segments v)) st (mTransactionTriggerEvents c, True) of
             (r, m, ok) \<Rightarrow> (map_sum id (\<lambda>_. ok) r, c\<lparr>trig_State := st, mTransactionTriggerEvents := m\<rparr>)))"

definition TransactionTriggerEvent_reset :: "'db leveldb \<Rightarrow> ('db, 't, 'e) TriggerCache \<Rightarrow> ('db, 't, 'e) TriggerCache" where
  "TransactionTriggerEvent_reset L c = c\<lparr>mTransactionTriggerEvents := [], trig_State := State_reset L (trig_State c)\<rparr>"

text \<open>
  \<open>updateState\<close> writes the events of one date under its seconds. The iterator of its loop is a
  reference to \<open>range.first\<close>, so the test \<open>it != range.first\<close>, which should put a comma before every
  event but the first, compares the iterator with itself: no comma is ever written.
\<close>

definition TransactionTriggerEvent_updateState ::
    "'db leveldb \<Rightarrow> ('e, 't::linorder, 'p) trigger_ops \<Rightarrow> 't \<Rightarrow> ('db, 't, 'e) TriggerCache
       \<Rightarrow> unit result \<times> ('db, 't, 'e) TriggerCache" where
  "TransactionTriggerEvent_updateState L ops targetDate c =
     (let range = mm_equal_range targetDate (mTransactionTriggerEvents c);
          key = to_string_int (te_seconds ops targetDate)
      in case (if range = [] then State_removeState L key (trig_State c)
               else State_updateState L key (concat (map (te_enc ops) range)) (trig_State c)) of
          (r, st) \<Rightarrow> (r, c\<lparr>trig_State := st\<rparr>))"

definition TransactionTriggerEvent_add ::
    "'db leveldb \<Rightarrow> ('e, 't::linorder, 'p) trigger_ops \<Rightarrow> 'e \<Rightarrow> ('db, 't, 'e) TriggerCache
       \<Rightarrow> unit result \<times> ('db, 't, 'e) TriggerCache" where
  "TransactionTriggerEvent_add L ops e c =
     TransactionTriggerEvent_updateState L ops (te_target ops e)
       (c\<lparr>mTransactionTriggerEvents := mm_insert (te_target ops e) e (mTransactionTriggerEvents c)\<rparr>)"

text \<open>The first event of the date that is the same is erased; without one nothing happens.\<close>

fun mm_erase_first :: "('k \<Rightarrow> 'v \<Rightarrow> bool) \<Rightarrow> ('k \<times> 'v) list \<Rightarrow> ('k \<times> 'v) list" where
  "mm_erase_first P [] = []"
| "mm_erase_first P ((k, v) # m) = (if P k v then m else (k, v) # mm_erase_first P m)"

definition TransactionTriggerEvent_remove ::
    "'db leveldb \<Rightarrow> ('e, 't::linorder, 'p) trigger_ops \<Rightarrow> 'e \<Rightarrow> ('db, 't, 'e) TriggerCache
       \<Rightarrow> unit result \<times> ('db, 't, 'e) TriggerCache" where
  "TransactionTriggerEvent_remove L ops e c =
     (let t = te_target ops e in
      if \<exists>v \<in> set (mm_equal_range t (mTransactionTriggerEvents c)). te_same ops e v then
        TransactionTriggerEvent_updateState L ops t
          (c\<lparr>mTransactionTriggerEvents := mm_erase_first (\<lambda>k v. k = t \<and> te_same ops e v) (mTransactionTriggerEvents c)\<rparr>)
      else (Inr (), c))"

text \<open>
  The events from the lower bound of the start to the upper bound of the end. A range that ends
  before it starts walks past the end of the map, unless no event lies between.
\<close>

definition TransactionTriggerEvent_findInRange ::
    "('e, 't::linorder, 'p) trigger_ops \<Rightarrow> 'p \<times> 'p \<Rightarrow> ('db, 't, 'e) TriggerCache \<Rightarrow> 'e list result" where
  "TransactionTriggerEvent_findInRange ops interval c =
     (let m = mTransactionTriggerEvents c;
          startIt = length (takeWhile (\<lambda>p. fst p < te_ofp ops (fst interval)) m);
          endIt = length (takeWhile (\<lambda>p. fst p \<le> te_ofp ops (snd interval)) m)
      in if startIt \<le> endIt then Inr (map snd (take (endIt - startIt) (drop startIt m)))
         else Inl UndefinedBehaviour)"

definition TransactionTriggerEvent_findNext ::
    "('e, 't::linorder, 'p::linorder) trigger_ops \<Rightarrow> 'p \<times> 'p \<Rightarrow> ('db, 't, 'e) TriggerCache \<Rightarrow> 'e option" where
  "TransactionTriggerEvent_findNext ops interval c =
     (case mm_lower_bound (te_ofp ops (fst interval)) (mTransactionTriggerEvents c) of
        [] \<Rightarrow> None
      | (t, e) # _ \<Rightarrow> if te_tp ops t \<le> snd interval then Some e else None)"

section \<open>Search\<close>

definition trigger_ok :: "('e, 't::linorder, 'p) trigger_ops \<Rightarrow> ('db, 't, 'e) TriggerCache \<Rightarrow> bool" where
  "trigger_ok ops c = (mm_ok (mTransactionTriggerEvents c) \<and>
     (\<forall>(t, e) \<in> set (mTransactionTriggerEvents c). t = te_target ops e))"

lemma set_mm_erase_first: "set (mm_erase_first P m) \<subseteq> set m"
  by (induction m) (auto split: if_splits)

lemma mm_ok_erase_first: "mm_ok m \<Longrightarrow> mm_ok (mm_erase_first P m)"
proof (induction m)
  case (Cons p m)
  then show ?case using set_mm_erase_first [of P m] by (cases p) (auto simp: mm_ok_Cons)
qed simp

lemma updateState_events [simp]:
  "mTransactionTriggerEvents (snd (TransactionTriggerEvent_updateState L ops t c)) = mTransactionTriggerEvents c"
  by (simp add: TransactionTriggerEvent_updateState_def Let_def split: prod.split)

lemma trigger_ok_add: "trigger_ok ops c \<Longrightarrow> trigger_ok ops (snd (TransactionTriggerEvent_add L ops e c))"
  by (auto simp: trigger_ok_def TransactionTriggerEvent_add_def set_mm_insert mm_ok_insert)

lemma trigger_ok_remove: "trigger_ok ops c \<Longrightarrow> trigger_ok ops (snd (TransactionTriggerEvent_remove L ops e c))"
  using set_mm_erase_first
  by (fastforce simp: trigger_ok_def TransactionTriggerEvent_remove_def Let_def mm_ok_erase_first)

text \<open>Adding and removing events, whatever the store answers.\<close>

datatype 'e trigger_op = Add_Event 'e | Remove_Event 'e

fun trigger_step :: "'db leveldb \<Rightarrow> ('e, 't::linorder, 'p) trigger_ops \<Rightarrow> 'e trigger_op \<Rightarrow> ('db, 't, 'e) TriggerCache
    \<Rightarrow> ('db, 't, 'e) TriggerCache" where
  "trigger_step L ops (Add_Event e) c = snd (TransactionTriggerEvent_add L ops e c)"
| "trigger_step L ops (Remove_Event e) c = snd (TransactionTriggerEvent_remove L ops e c)"

interpretation trigger_run: step_invariant "trigger_step L ops" "trigger_ok ops"
proof unfold_locales
  show "trigger_ok ops (trigger_step L ops e s)" if "trigger_ok ops s" for s e
    using that by (cases e) (simp_all add: trigger_ok_add trigger_ok_remove)
qed

lemma takeWhile_le_length:
  "mm_ok m \<Longrightarrow> a \<le> b \<Longrightarrow> length (takeWhile (\<lambda>p. fst p < a) m) \<le> length (takeWhile (\<lambda>p. fst p \<le> b) m)"
  by (induction m) (auto simp: mm_ok_Cons)

lemma range_filter:
  assumes "mm_ok m" and "a \<le> b"
  shows "take (length (takeWhile (\<lambda>p. fst p \<le> b) m) - length (takeWhile (\<lambda>p. fst p < a) m))
      (drop (length (takeWhile (\<lambda>p. fst p < a) m)) m) = filter (\<lambda>p. a \<le> fst p \<and> fst p \<le> b) m"
  using assms
proof (induction m)
  case Nil
  show ?case by simp
next
  case (Cons p m)
  have tw: "takeWhile (\<lambda>q. fst q \<le> b) m' = filter (\<lambda>q. fst q \<le> b) m'" if "mm_ok m'" for m' :: "('a \<times> 'b) list"
    using that
  proof (induction m')
    case (Cons q m')
    have "filter (\<lambda>q. fst q \<le> b) m' = []" if "\<not> fst q \<le> b"
      using that Cons.prems by (fastforce simp: mm_ok_Cons filter_empty_conv)
    then show ?case using Cons by (simp add: mm_ok_Cons)
  qed simp
  show ?case
  proof (cases "fst p < a")
    case True
    then have "fst p \<le> b" "\<not> a \<le> fst p" using Cons.prems(2) by auto
    then show ?thesis using Cons True by (simp add: mm_ok_Cons)
  next
    case False
    then have all: "\<forall>q \<in> set (p # m). a \<le> fst q" using Cons.prems(1) by (fastforce simp: mm_ok_Cons)
    have "takeWhile (\<lambda>q. fst q < a) (p # m) = []" using False by simp
    moreover have "take (length (takeWhile (\<lambda>q. fst q \<le> b) (p # m))) (p # m) = takeWhile (\<lambda>q. fst q \<le> b) (p # m)"
      by (simp add: takeWhile_eq_take [symmetric])
    moreover have "filter (\<lambda>q. fst q \<le> b) (p # m) = filter (\<lambda>q. a \<le> fst q \<and> fst q \<le> b) (p # m)"
      using all by (intro filter_cong) auto
    ultimately show ?thesis using tw [OF Cons.prems(1)] by simp
  qed
qed

text \<open>The whole way on disk, when no two present events fall into the same second.\<close>

definition trigger_laws :: "('e, 't::linorder, 'p) trigger_ops \<Rightarrow> bool" where
  "trigger_laws ops =
     ((\<forall>e. te_dec ops (te_enc ops e) = Inr (Some e)) \<and> (\<forall>e. te_enc ops e \<noteq> [] \<and> CHR '','' \<notin> set (te_enc ops e)) \<and>
      (\<forall>e f. te_same ops e f \<longleftrightarrow> e = f))"

definition event_key :: "('e, 't, 'p) trigger_ops \<Rightarrow> 'e \<Rightarrow> string" where
  "event_key ops e = to_string_int (te_seconds ops (te_target ops e))"

lemma to_string_int_inject: "to_string_int i = to_string_int j \<Longrightarrow> i = j"
proof -
  assume *: "to_string_int i = to_string_int j"
  have no: "to_string n \<noteq> CHR ''-'' # s" for n s
    using to_string_all_digits [of n] by (auto simp: is_digit_def)
  show ?thesis using * no [of "nat i" "to_string (nat (- j))"] no [of "nat j" "to_string (nat (- i))"]
    by (auto simp: to_string_int_def split: if_splits)
qed

lemma c_str_event_key [simp]: "c_str (event_key ops e) = event_key ops e"
proof -
  have "CHR 0x00 \<notin> set (to_string_int i)" for i
    using nul_to_string by (auto simp: to_string_int_def)
  then show ?thesis by (simp add: event_key_def)
qed

lemma segments_single: "s \<noteq> [] \<Longrightarrow> CHR '','' \<notin> set s \<Longrightarrow> segments s = [s]"
proof -
  assume s: "s \<noteq> []" "CHR '','' \<notin> set s"
  have tw: "takeWhile (\<lambda>c. c \<noteq> CHR '','') s = s" unfolding takeWhile_eq_all_conv using s(2) by auto
  have "segments s = s # segments []" using s(1) unfolding segments.simps [of s] Let_def tw by simp
  then show ?thesis by (simp add: segments.simps)
qed

text \<open>
  \<open>trig_rep xs c\<close>: the map holds exactly the events \<open>xs\<close>, no two of the same second, and the file
  holds exactly one entry for each.
\<close>

definition trig_rep ::
    "'db leveldb \<Rightarrow> ('e, 't::linorder, 'p) trigger_ops \<Rightarrow> 'e list \<Rightarrow> ('db, 't, 'e) TriggerCache \<Rightarrow> bool" where
  "trig_rep L ops xs c =
     (mTransactionTriggerEvents c = map (\<lambda>e. (te_target ops e, e)) xs \<and> sorted_wrt (<) (map (te_target ops) xs) \<and>
      distinct (map (event_key ops) xs) \<and>
      (\<forall>e \<in> set xs. db_get L (disk (mStateFile (trig_State c))) (event_key ops e) = Some (te_enc ops e)) \<and>
      (\<forall>k. db_get L (disk (mStateFile (trig_State c))) k \<noteq> None \<longrightarrow> k \<in> event_key ops ` set xs) \<and>
      State_ok (trig_State c) \<and> mInitalized_State (trig_State c))"

fun insert_event :: "('e \<Rightarrow> 't::linorder) \<Rightarrow> 'e \<Rightarrow> 'e list \<Rightarrow> 'e list" where
  "insert_event f e [] = [e]"
| "insert_event f e (x # xs) = (if f e < f x then e # x # xs else x # insert_event f e xs)"

lemma insert_event_map:
  "mm_insert (f e) e (map (\<lambda>e. (f e, e)) xs) = map (\<lambda>e. (f e, e)) (insert_event f e xs)"
  by (induction xs) auto

lemma set_insert_event [simp]: "set (insert_event f e xs) = insert e (set xs)"
  by (induction xs) auto

lemma sorted_insert_event:
  "sorted_wrt (<) (map f xs) \<Longrightarrow> f e \<notin> f ` set xs \<Longrightarrow> sorted_wrt (<) (map f (insert_event f e xs))"
  by (induction xs) (auto simp: not_less_iff_gr_or_eq)

lemma distinct_insert_event:
  "distinct (map g xs) \<Longrightarrow> g e \<notin> g ` set xs \<Longrightarrow> distinct (map g (insert_event f e xs))"
  by (induction xs) auto

lemma key_of_target: "event_key ops e \<notin> event_key ops ` set xs \<Longrightarrow> te_target ops e \<notin> te_target ops ` set xs"
  by (auto simp: event_key_def)

lemma equal_range_single:
  assumes "sorted_wrt (<) (map f xs)"
  shows "mm_equal_range t (map (\<lambda>e. (f e, e)) xs) = filter (\<lambda>e. f e = t) xs"
  by (simp add: mm_equal_range_def filter_map comp_def)

lemma filter_target_single:
  fixes f :: "'a \<Rightarrow> 't::linorder"
  shows "sorted_wrt (<) (map f xs) \<Longrightarrow> e \<in> set xs \<Longrightarrow> filter (\<lambda>x. f x = f e) xs = [e]"
proof (induction xs)
  case (Cons x xs)
  have "\<forall>y \<in> set xs. f x < f y" using Cons.prems(1) by simp
  then have "filter (\<lambda>y. f y = f x) xs = []" unfolding filter_empty_conv by fastforce
  moreover have "f x \<noteq> f e" if "e \<noteq> x" using Cons.prems that by fastforce
  ultimately show ?case using Cons by (cases "e = x") auto
qed simp

lemma trig_rep_add:
  assumes laws: "leveldb_laws L" and rep: "trig_rep L ops xs c"
    and new: "event_key ops e \<notin> event_key ops ` set xs"
    and ok: "TransactionTriggerEvent_add L ops e c = (Inr (), c')"
  shows "trig_rep L ops (insert_event (te_target ops) e xs) c'"
proof -
  let ?xs = "insert_event (te_target ops) e xs" let ?w = "mStateFile (trig_State c)"
  have m: "mTransactionTriggerEvents c = map (\<lambda>e. (te_target ops e, e)) xs"
    and srt: "sorted_wrt (<) (map (te_target ops) ?xs)" and dis: "distinct (map (event_key ops) ?xs)"
    and opn: "mLevelDB ?w" "mInitalized_State (trig_State c)" "State_ok (trig_State c)"
    using rep sorted_insert_event [OF _ key_of_target [OF new]] distinct_insert_event [OF _ new]
    by (auto simp: trig_rep_def State_ok_def)
  have rng: "mm_equal_range (te_target ops e) (map (\<lambda>e. (te_target ops e, e)) ?xs) = [e]"
    using equal_range_single [OF srt, of "te_target ops e"] filter_target_single [OF srt, of e] by simp
  from ok opn obtain d where put: "db_put L (disk ?w) (event_key ops e) (te_enc ops e) = Some d"
    and c': "c' = c\<lparr>mTransactionTriggerEvents := map (\<lambda>e. (te_target ops e, e)) ?xs,
      trig_State := (trig_State c)\<lparr>mStateFile := ?w\<lparr>disk := d\<rparr>\<rparr>\<rparr>"
    by (auto simp: TransactionTriggerEvent_add_def TransactionTriggerEvent_updateState_def m insert_event_map rng
        State_updateState_def LevelDBWrapper_setKeyValue_def event_key_def [symmetric] Let_def
        split: prod.splits option.splits)
  show ?thesis using rep srt dis opn leveldb_lawsD(2) [OF laws put] new
    by (auto simp: trig_rep_def c' State_ok_def wrapper_ok_def)
qed

lemma erase_first_map:
  "mm_erase_first (\<lambda>k v. k = f e \<and> e = v) (map (\<lambda>e. (f e, e)) xs) = map (\<lambda>e. (f e, e)) (remove1 e xs)"
  by (induction xs) auto

lemma trig_rep_remove:
  assumes laws: "leveldb_laws L" "trigger_laws ops" and rep: "trig_rep L ops xs c"
    and ok: "TransactionTriggerEvent_remove L ops e c = (Inr (), c')"
  shows "trig_rep L ops (remove1 e xs) c'"
proof (cases "e \<in> set xs")
  case True
  let ?w = "mStateFile (trig_State c)" let ?ys = "remove1 e xs"
  have m: "mTransactionTriggerEvents c = map (\<lambda>e. (te_target ops e, e)) xs"
    and srt: "sorted_wrt (<) (map (te_target ops) xs)" and dis: "distinct (map (event_key ops) xs)"
    and opn: "mLevelDB ?w" "mInitalized_State (trig_State c)" using rep by (auto simp: trig_rep_def State_ok_def)
  have same: "te_same ops a b \<longleftrightarrow> a = b" for a b using laws(2) by (simp add: trigger_laws_def)
  have dx: "distinct xs" using dis by (simp add: distinct_map)
  then have set: "set ?ys = set xs - {e}" by simp
  have srt': "sorted_wrt (<) (map (te_target ops) ?ys)" and dis': "distinct (map (event_key ops) ?ys)"
    using srt dis by (induction xs) (auto dest: notin_set_remove1 set_remove1_subset [THEN subsetD])
  have rng: "mm_equal_range (te_target ops e) (map (\<lambda>e. (te_target ops e, e)) xs) = [e]"
    using equal_range_single [OF srt, of "te_target ops e"] filter_target_single [OF srt True] by simp
  have "inj_on (te_target ops) (set xs)" using srt by (simp add: strict_sorted_iff distinct_map)
  then have rng': "mm_equal_range (te_target ops e) (map (\<lambda>e. (te_target ops e, e)) ?ys) = []"
    using set True by (auto simp: equal_range_single [OF srt'] filter_empty_conv dest: inj_onD)
  from ok opn have c': "c' = c\<lparr>mTransactionTriggerEvents := map (\<lambda>e. (te_target ops e, e)) ?ys,
      trig_State := (trig_State c)\<lparr>mStateFile := ?w\<lparr>disk := db_delete L (disk ?w) (event_key ops e)\<rparr>\<rparr>\<rparr>"
    by (simp add: TransactionTriggerEvent_remove_def TransactionTriggerEvent_updateState_def m rng rng' same
        erase_first_map State_removeState_def LevelDBWrapper_removeKey_def event_key_def [symmetric] Let_def)
  have "inj_on (event_key ops) (set xs)" using dis by (simp add: distinct_map)
  then have "event_key ops a \<noteq> event_key ops e" if "a \<in> set ?ys" for a
    using that set True by (auto dest: inj_onD)
  then show ?thesis using rep srt' dis' set leveldb_lawsD(3) [OF laws(1)]
    by (auto simp: trig_rep_def c' State_ok_def wrapper_ok_def)
next
  case False
  have "te_same ops a b \<longleftrightarrow> a = b" for a b using laws(2) by (simp add: trigger_laws_def)
  then have "c' = c" using ok rep False
    by (auto simp: TransactionTriggerEvent_remove_def trig_rep_def mm_equal_range_def filter_map comp_def Let_def
        split: if_splits)
  then show ?thesis using rep False by (simp add: remove1_idem)
qed

text \<open>Reading the entries back sorts them into the same list.\<close>

lemma load_entries:
  assumes laws: "trigger_laws ops"
  shows "\<forall>(k, v) \<in> set es. \<exists>e. v = te_enc ops e \<and> k = event_key ops e \<Longrightarrow>
    distinct (map fst es) \<Longrightarrow> sorted_wrt (<) (map (te_target ops) xs) \<Longrightarrow>
    fst ` set es \<inter> event_key ops ` set xs = {} \<Longrightarrow>
    \<exists>ys. iterate_entries (\<lambda>_ v. load_segments ops (segments v)) es (map (\<lambda>e. (te_target ops e, e)) xs, True) =
        (Inr (), map (\<lambda>e. (te_target ops e, e)) ys, True) \<and>
      sorted_wrt (<) (map (te_target ops) ys) \<and> set ys = set xs \<union> {e. (event_key ops e, te_enc ops e) \<in> set es}"
proof (induction es arbitrary: xs)
  case Nil
  then show ?case by auto
next
  case (Cons p es)
  obtain e where p: "p = (event_key ops e, te_enc ops e)" using Cons.prems(1) by (cases p) auto
  have enc: "te_enc ops e \<noteq> []" "CHR '','' \<notin> set (te_enc ops e)" "te_dec ops (te_enc ops e) = Inr (Some e)"
    using laws by (auto simp: trigger_laws_def)
  have inj: "te_enc ops f = te_enc ops e \<longleftrightarrow> f = e" for f
    using laws by (metis Inr_inject option.inject trigger_laws_def)
  have new: "event_key ops e \<notin> event_key ops ` set xs" using Cons.prems(4) p by auto
  let ?xs = "insert_event (te_target ops) e xs"
  have "fst ` set es \<inter> event_key ops ` set ?xs = {}" using Cons.prems(2,4) p by auto
  from Cons.IH [OF _ _ sorted_insert_event [OF Cons.prems(3) key_of_target [OF new]] this] Cons.prems(1,2)
  obtain ys where "iterate_entries (\<lambda>_ v. load_segments ops (segments v)) es (map (\<lambda>e. (te_target ops e, e)) ?xs, True) =
        (Inr (), map (\<lambda>e. (te_target ops e, e)) ys, True)"
    "sorted_wrt (<) (map (te_target ops) ys)" "set ys = set ?xs \<union> {e. (event_key ops e, te_enc ops e) \<in> set es}"
    by auto
  then show ?case using enc
    by (intro exI [of _ ys]) (auto simp: p segments_single insert_event_map inj)
qed

text \<open>
  A run of additions and removals that throws nothing, and the events it leaves; \<open>None\<close> when an event
  is added to a second that already has one.
\<close>

fun trigger_exec :: "'db leveldb \<Rightarrow> ('e, 't::linorder, 'p) trigger_ops \<Rightarrow> 'e trigger_op list \<Rightarrow> ('db, 't, 'e) TriggerCache
    \<Rightarrow> ('db, 't, 'e) TriggerCache option" where
  "trigger_exec L ops [] c = Some c"
| "trigger_exec L ops (Add_Event e # os) c =
     (case TransactionTriggerEvent_add L ops e c of (Inl _, _) \<Rightarrow> None | (Inr _, c') \<Rightarrow> trigger_exec L ops os c')"
| "trigger_exec L ops (Remove_Event e # os) c =
     (case TransactionTriggerEvent_remove L ops e c of (Inl _, _) \<Rightarrow> None | (Inr _, c') \<Rightarrow> trigger_exec L ops os c')"

fun events_after :: "('e, 't::linorder, 'p) trigger_ops \<Rightarrow> 'e trigger_op list \<Rightarrow> 'e list \<Rightarrow> 'e list option" where
  "events_after ops [] xs = Some xs"
| "events_after ops (Add_Event e # os) xs =
     (if event_key ops e \<in> event_key ops ` set xs then None
      else events_after ops os (insert_event (te_target ops) e xs))"
| "events_after ops (Remove_Event e # os) xs = events_after ops os (remove1 e xs)"

lemma trigger_exec_rep:
  "leveldb_laws L \<Longrightarrow> trigger_laws ops \<Longrightarrow> trig_rep L ops xs c \<Longrightarrow> trigger_exec L ops os c = Some c' \<Longrightarrow>
   events_after ops os xs = Some ys \<Longrightarrow> trig_rep L ops ys c'"
proof (induction L ops os c arbitrary: xs rule: trigger_exec.induct)
  case (1 L ops c)
  then show ?case by simp
next
  case (2 L ops e os c)
  then obtain c1 where c1: "TransactionTriggerEvent_add L ops e c = (Inr (), c1)" "trigger_exec L ops os c1 = Some c'"
    by (auto split: prod.splits sum.splits)
  from 2(6) have new: "event_key ops e \<notin> event_key ops ` set xs"
    and ev: "events_after ops os (insert_event (te_target ops) e xs) = Some ys" by (auto split: if_splits)
  show ?case by (rule 2(1) [OF c1(1) [symmetric] refl 2(2,3) trig_rep_add [OF 2(2,4) new c1(1)] c1(2) ev])
next
  case (3 L ops e os c)
  then obtain c1 where c1: "TransactionTriggerEvent_remove L ops e c = (Inr (), c1)" "trigger_exec L ops os c1 = Some c'"
    by (auto split: prod.splits sum.splits)
  have ev: "events_after ops os (remove1 e xs) = Some ys" using 3(6) by simp
  show ?case by (rule 3(1) [OF c1(1) [symmetric] refl 3(2,3) trig_rep_remove [OF 3(2,3,4) c1(1)] c1(2) ev])
qed

lemma sorted_map_unique:
  fixes f :: "'a \<Rightarrow> 't::linorder"
  assumes "sorted_wrt (<) (map f xs)" and "sorted_wrt (<) (map f ys)" and "set xs = set ys"
  shows "xs = ys"
proof -
  have "map f xs = map f ys" by (rule strict_sorted_equal) (use assms in simp_all)
  moreover have "inj_on f (set xs \<union> set ys)" using assms by (simp add: strict_sorted_iff distinct_map)
  ultimately show ?thesis by (rule map_inj_on)
qed

lemma State_init_True:
  "State_init L n (State_new f d) = (Inr True, st) \<Longrightarrow>
   disk (mStateFile st) = d \<and> mInitalized_State st \<and> State_ok st \<and> mLevelDB (mStateFile st)"
  using State_ok_init [OF State_ok_new, of L n f d] init_disk [of L n "LevelDBWrapper_new f d"]
    init_handle [of L n "LevelDBWrapper_new f d"]
  by (cases "LevelDBWrapper_init L n (LevelDBWrapper_new f d)")
    (auto simp: State_init_def State_new_def State_ok_def split: bool.splits)

lemma init_reads:
  assumes laws: "leveldb_laws L" "trigger_laws ops" and rep: "trig_rep L ops xs c"
    and st: "State_init L n (State_new f (disk (mStateFile (trig_State c)))) = (Inr True, st)"
    and es: "db_entries L (disk (mStateFile (trig_State c))) = Some es"
  shows "TransactionTriggerEvent_init L ops n (TransactionTriggerEvent_new f (disk (mStateFile (trig_State c)))) =
    (Inr True, \<lparr>trig_State = st, mTransactionTriggerEvents = mTransactionTriggerEvents c\<rparr>)"
proof -
  let ?d = "disk (mStateFile (trig_State c))"
  have m: "mTransactionTriggerEvents c = map (\<lambda>e. (te_target ops e, e)) xs"
    and srt: "sorted_wrt (<) (map (te_target ops) xs)"
    and get: "\<forall>e \<in> set xs. db_get L ?d (event_key ops e) = Some (te_enc ops e)"
    and only: "\<forall>k. db_get L ?d k \<noteq> None \<longrightarrow> k \<in> event_key ops ` set xs"
    using rep by (simp_all add: trig_rep_def)
  have dis: "distinct (map fst es)" and mo: "map_of es = db_get L ?d"
    using leveldb_lawsD(4,5) [OF laws(1) es] by simp_all
  have mem: "(k, v) \<in> set es \<longleftrightarrow> db_get L ?d k = Some v" for k v
    using dis mo by (metis map_of_eq_Some_iff)
  have ents: "\<forall>(k, v) \<in> set es. \<exists>e. v = te_enc ops e \<and> k = event_key ops e"
    using only get by (fastforce simp: mem)
  have inj: "te_enc ops a = te_enc ops b \<longleftrightarrow> a = b" for a b
    using laws(2) by (metis Inr_inject option.inject trigger_laws_def)
  obtain ys where it: "iterate_entries (\<lambda>_ v. load_segments ops (segments v)) es ([], True) =
        (Inr (), map (\<lambda>e. (te_target ops e, e)) ys, True)"
    and ys: "sorted_wrt (<) (map (te_target ops) ys)" "set ys = {e. (event_key ops e, te_enc ops e) \<in> set es}"
    using load_entries [OF laws(2) ents dis, of "[]"] by auto
  have "set ys = set xs" using get only inj by (fastforce simp: ys(2) mem)
  then have "ys = xs" by (rule sorted_map_unique [OF ys(1) srt])
  then show ?thesis using State_init_True [OF st] st es it
    by (simp add: TransactionTriggerEvent_init_def TransactionTriggerEvent_new_def State_readAllStates_def
        LevelDBWrapper_iterate_def m)
qed

section \<open>Properties\<close>

text \<open>C26: The events survive a restart: after any run of additions and removals on a fresh folder in which
  no event is added to a second that has one, a new object on the same folder loads exactly the events
  that are present, in the order of their dates.\<close>

theorem TransactionTriggerEvent_reload:
  assumes laws: "leveldb_laws L" "trigger_laws ops"
    and init: "TransactionTriggerEvent_init L ops n (TransactionTriggerEvent_new f (db_empty L)) = (Inr True, c0)"
    and run: "trigger_exec L ops os c0 = Some c" and events: "events_after ops os [] = Some xs"
    and again: "State_init L n (State_new f (disk (mStateFile (trig_State c)))) = (Inr True, st)"
    and readable: "db_entries L (disk (mStateFile (trig_State c))) \<noteq> None"
  shows "\<exists>c'. TransactionTriggerEvent_init L ops n (TransactionTriggerEvent_new f (disk (mStateFile (trig_State c)))) =
      (Inr True, c') \<and> map snd (mTransactionTriggerEvents c') = xs \<and>
      mTransactionTriggerEvents c' = mTransactionTriggerEvents c"
proof -
  from init obtain st0 es where st0: "State_init L n (State_new f (db_empty L)) = (Inr True, st0)"
    and es: "db_entries L (db_empty L) = Some es"
    and c0: "c0 = \<lparr>trig_State = st0, mTransactionTriggerEvents =
      fst (snd (iterate_entries (\<lambda>_ v. load_segments ops (segments v)) es ([], True)))\<rparr>"
    using State_init_True
    by (fastforce simp: TransactionTriggerEvent_init_def TransactionTriggerEvent_new_def State_readAllStates_def
        LevelDBWrapper_iterate_def split: prod.splits sum.splits bool.splits option.splits if_splits)
  have "map_of es = (\<lambda>_. None)" using leveldb_lawsD(5) [OF laws(1) es] leveldb_lawsD(1) [OF laws(1)] by auto
  then have "es = []" by (cases es) (auto simp: fun_eq_iff split: if_splits)
  then have "trig_rep L ops [] c0"
    using State_init_True [OF st0] leveldb_lawsD(1) [OF laws(1)] by (simp add: trig_rep_def c0)
  from trigger_exec_rep [OF laws this run events] have rep: "trig_rep L ops xs c" .
  then have "map snd (mTransactionTriggerEvents c) = xs" by (simp add: trig_rep_def comp_def)
  then show ?thesis using init_reads [OF laws rep again] readable by auto
qed

text \<open>After any run of additions and removals from an empty map, a search in a range that does not end
  before it starts returns exactly the present events whose date lies in it, in the order of the dates.\<close>

theorem TransactionTriggerEvent_range:
  assumes "te_ofp ops a \<le> te_ofp ops b"
  shows "\<exists>es. TransactionTriggerEvent_findInRange ops (a, b)
      (fold (trigger_step L ops) os (TransactionTriggerEvent_new f d)) = Inr es \<and>
    sorted (map (te_target ops) es) \<and>
    es = filter (\<lambda>e. te_ofp ops a \<le> te_target ops e \<and> te_target ops e \<le> te_ofp ops b)
      (map snd (mTransactionTriggerEvents (fold (trigger_step L ops) os (TransactionTriggerEvent_new f d))))"
proof -
  let ?c = "fold (trigger_step L ops) os (TransactionTriggerEvent_new f d)"
  let ?m = "mTransactionTriggerEvents ?c"
  let ?es = "map snd (filter (\<lambda>p. te_ofp ops a \<le> fst p \<and> fst p \<le> te_ofp ops b) ?m)"
  have "trigger_ok ops ?c"
    by (rule trigger_run.run_inv) (simp add: trigger_ok_def TransactionTriggerEvent_new_def)
  then have ok: "mm_ok ?m" and key: "\<forall>p \<in> set ?m. fst p = te_target ops (snd p)" by (auto simp: trigger_ok_def)
  have "TransactionTriggerEvent_findInRange ops (a, b) ?c = Inr ?es"
    using takeWhile_le_length [OF ok assms] range_filter [OF ok assms]
    by (simp add: TransactionTriggerEvent_findInRange_def Let_def)
  moreover have "map (te_target ops) ?es = map fst (filter (\<lambda>p. te_ofp ops a \<le> fst p \<and> fst p \<le> te_ofp ops b) ?m)"
    using key by (auto simp: map_eq_conv)
  then have "sorted (map (te_target ops) ?es)" using mm_ok_filter [OF ok] unfolding mm_ok_def by metis
  moreover have "?es = filter (\<lambda>e. te_ofp ops a \<le> te_target ops e \<and> te_target ops e \<le> te_ofp ops b) (map snd ?m)"
    unfolding filter_map comp_def using key by (intro arg_cong [where f = "map snd"] filter_cong) auto
  ultimately show ?thesis by blast
qed

text \<open>Two events of one second do not survive a restart. With the same date, the store holds their
  texts joined without a comma; with different dates in the same second, it only holds the second one.\<close>

theorem TransactionTriggerEvent_same_second:
  assumes "leveldb_laws L" and "trig_rep L ops [] c" and "event_key ops e = event_key ops g"
    and "TransactionTriggerEvent_add L ops e c = (Inr (), c1)" and "TransactionTriggerEvent_add L ops g c1 = (Inr (), c2)"
  shows "db_get L (disk (mStateFile (trig_State c2))) (event_key ops e) =
    Some (if te_target ops e = te_target ops g then te_enc ops e @ te_enc ops g else te_enc ops g)"
proof -
  let ?w = "mStateFile (trig_State c1)"
  have new: "event_key ops e \<notin> event_key ops ` set []" by simp
  have rep: "trig_rep L ops [e] c1" using trig_rep_add [OF assms(1,2) new assms(4)] by simp
  then have m: "mTransactionTriggerEvents c1 = [(te_target ops e, e)]"
    and opn: "mLevelDB ?w" "mInitalized_State (trig_State c1)" by (auto simp: trig_rep_def State_ok_def)
  define m2 where "m2 = mm_insert (te_target ops g) g (mTransactionTriggerEvents c1)"
  define es where "es = (if te_target ops e = te_target ops g then [e, g] else [g])"
  have rng: "mm_equal_range (te_target ops g) m2 = es" "es \<noteq> []"
    by (auto simp: m2_def m es_def mm_equal_range_def)
  from assms(5) opn obtain d where "db_put L (disk ?w) (event_key ops g) (concat (map (te_enc ops) es)) = Some d"
    and "disk (mStateFile (trig_State c2)) = d"
    by (auto simp: TransactionTriggerEvent_add_def TransactionTriggerEvent_updateState_def m2_def [symmetric] rng
        State_updateState_def LevelDBWrapper_setKeyValue_def event_key_def [symmetric] Let_def
        split: prod.splits option.splits)
  then have "db_get L (disk (mStateFile (trig_State c2))) (event_key ops e) = Some (concat (map (te_enc ops) es))"
    using leveldb_lawsD(2) [OF assms(1)] assms(3) by metis
  then show ?thesis by (simp add: es_def)
qed

text \<open>
  Example: an event is a number, its date in tenths of a second; it is written in letters.
\<close>

definition tally :: "nat \<Rightarrow> string" where
  "tally n = CHR ''x'' # replicate n CHR ''i''"

definition tally_ops :: "(nat, nat, nat) trigger_ops" where
  "tally_ops = \<lparr>te_target = (\<lambda>e. e), te_seconds = (\<lambda>t. int (t div 10)), te_same = (=), te_enc = tally,
     te_dec = (\<lambda>s. if s \<noteq> [] \<and> s = tally (length s - 1) then Inr (Some (length s - 1)) else Inr None),
     te_ofp = (\<lambda>p. p), te_tp = (\<lambda>t. t)\<rparr>"

lemma trigger_laws_tally [simp]: "trigger_laws tally_ops"
  by (auto simp: trigger_laws_def tally_ops_def tally_def)

definition trig_start :: "((string \<times> string) list, nat, nat) TriggerCache" where
  "trig_start = snd (TransactionTriggerEvent_init alist_leveldb tally_ops 0 (TransactionTriggerEvent_new ''t'' []))"

definition trig_end :: "((string \<times> string) list, nat, nat) TriggerCache" where
  "trig_end = the (trigger_exec alist_leveldb tally_ops [Add_Event 25, Add_Event 12, Add_Event 31, Remove_Event 25] trig_start)"

lemma TransactionTriggerEvent_reload_witness:
  "\<exists>c'. TransactionTriggerEvent_init alist_leveldb tally_ops 0
      (TransactionTriggerEvent_new ''t'' (disk (mStateFile (trig_State trig_end)))) = (Inr True, c') \<and>
    map snd (mTransactionTriggerEvents c') = [12, 31]"
proof -
  have i: "TransactionTriggerEvent_init alist_leveldb tally_ops 0 (TransactionTriggerEvent_new ''t'' (db_empty alist_leveldb))
      = (Inr True, trig_start)" by code_simp
  have x: "trigger_exec alist_leveldb tally_ops [Add_Event 25, Add_Event 12, Add_Event 31, Remove_Event 25] trig_start
      = Some trig_end" by code_simp
  have e: "events_after tally_ops [Add_Event 25, Add_Event 12, Add_Event 31, Remove_Event 25] [] = Some [12, 31]"
    by code_simp
  have d: "db_entries alist_leveldb (disk (mStateFile (trig_State trig_end))) \<noteq> None" by code_simp
  have "\<exists>st. State_init alist_leveldb 0 (State_new ''t'' (disk (mStateFile (trig_State trig_end)))) = (Inr True, st)"
    by (simp add: State_init_def State_new_def LevelDBWrapper_init_def LevelDBWrapper_new_def alist_leveldb_def
        init_loop_not_ioerror)
  then obtain st where
    "State_init alist_leveldb 0 (State_new ''t'' (disk (mStateFile (trig_State trig_end)))) = (Inr True, st)" ..
  from TransactionTriggerEvent_reload [OF alist_leveldb_laws trigger_laws_tally i x e this d] show ?thesis
    by (elim exE conjE, intro exI conjI)
qed

lemma TransactionTriggerEvent_range_witness:
  "\<exists>es. TransactionTriggerEvent_findInRange tally_ops (1, 3)
      (fold (trigger_step alist_leveldb tally_ops) [Add_Event 5, Add_Event 2] (TransactionTriggerEvent_new ''t'' [])) = Inr es \<and>
    es = [2]"
proof -
  have "mTransactionTriggerEvents (fold (trigger_step alist_leveldb tally_ops) [Add_Event 5, Add_Event 2]
      (TransactionTriggerEvent_new ''t'' [])) = [(2, 2), (5, 5)]" by code_simp
  then show ?thesis
    using TransactionTriggerEvent_range [of tally_ops 1 3 alist_leveldb "[Add_Event 5, Add_Event 2]" "''t''" "[]"]
    by (simp add: tally_ops_def)
qed

lemma TransactionTriggerEvent_same_second_witness:
  "\<exists>c1 c2. TransactionTriggerEvent_add alist_leveldb tally_ops 1 trig_start = (Inr (), c1) \<and>
     TransactionTriggerEvent_add alist_leveldb tally_ops 3 c1 = (Inr (), c2) \<and>
     db_get alist_leveldb (disk (mStateFile (trig_State c2))) (event_key tally_ops 1) = Some (tally 3)"
proof -
  have rep: "trig_rep alist_leveldb tally_ops [] trig_start"
  proof -
    have "mTransactionTriggerEvents trig_start = []" "disk (mStateFile (trig_State trig_start)) = []"
      "State_ok (trig_State trig_start)" "mInitalized_State (trig_State trig_start)" by code_simp+
    then show ?thesis by (simp add: trig_rep_def alist_leveldb_def)
  qed
  obtain c1 where c1: "TransactionTriggerEvent_add alist_leveldb tally_ops 1 trig_start = (Inr (), c1)"
    and opn: "mLevelDB (mStateFile (trig_State c1))" "mInitalized_State (trig_State c1)"
  proof -
    have "fst (TransactionTriggerEvent_add alist_leveldb tally_ops 1 trig_start) = Inr ()"
      "mLevelDB (mStateFile (trig_State (snd (TransactionTriggerEvent_add alist_leveldb tally_ops 1 trig_start))))"
      "mInitalized_State (trig_State (snd (TransactionTriggerEvent_add alist_leveldb tally_ops 1 trig_start)))" by code_simp+
    then show ?thesis using that by (metis prod.collapse)
  qed
  have "event_key tally_ops 1 = event_key tally_ops 3" "te_target tally_ops 1 \<noteq> te_target tally_ops 3"
    by (simp_all add: event_key_def tally_ops_def)
  moreover have "fst (TransactionTriggerEvent_add alist_leveldb tally_ops 3
      (snd (TransactionTriggerEvent_add alist_leveldb tally_ops 1 trig_start))) = Inr ()" by code_simp
  then obtain c2 where c2: "TransactionTriggerEvent_add alist_leveldb tally_ops 3 c1 = (Inr (), c2)"
    using c1 by (metis prod.collapse snd_conv)
  ultimately have "db_get alist_leveldb (disk (mStateFile (trig_State c2))) (event_key tally_ops 1) = Some (tally 3)"
    using TransactionTriggerEvent_same_second [OF alist_leveldb_laws rep _ c1 c2] by (simp add: tally_ops_def)
  then show ?thesis using c1 c2 by blast
qed

end
