(* ===== verification/Tasks.thy ===== *)
theory Tasks
  imports Prelude
begin

text \<open>
  The task system (\<open>src/task\<close>): tasks with parents that must be finished first (\<open>Task.cpp\<close>,
  \<open>CPUTask.cpp\<close>), the scheduler with its pending list and its queue of free workers
  (\<open>CPUSheduler.cpp\<close>) and the worker threads (\<open>CPUShedulerThread.cpp\<close>, \<open>Thread.cpp\<close>). Tasks and
  threads are numbers. One scheduler is modelled with the tasks that belong to it; its methods are
  atomic steps, the thread loop is cut where another thread can act in between.
\<close>

section \<open>State\<close>

record Task =
  mParentTaskPtrArray :: "nat option list"
  mTaskScheduled :: bool
  mFinishCommand :: bool
  mFinished :: bool

text \<open>
  Where a worker is: in \<open>mCondition.wait\<close>; at the head of the loop of \<open>ThreadFunction\<close>; after \<open>run\<close>,
  before \<open>getNextUndoneTask\<close>; with the result of that call, before it is assigned to \<open>mWaitingTask\<close>;
  after the loop, before it waits again.
\<close>

datatype phase = Waiting | Looping | Fetching | Fetched "nat option" | Returning

text \<open>
  Besides the members, \<open>ran\<close> lists the tasks whose \<open>run\<close> was called and \<open>commands\<close> those whose finish
  command was called, in order.
\<close>

record CPUSheduler =
  tasks :: "nat \<Rightarrow> Task"
  mPendingTasks :: "nat list"
  mFreeWorkerThreads :: "nat list"
  mWaitingTask :: "nat \<Rightarrow> nat option"
  thread_phase :: "nat \<Rightarrow> phase"
  mStopped :: bool
  ran :: "nat list"
  commands :: "nat list"

definition Task_new :: "nat option list \<Rightarrow> bool \<Rightarrow> Task" where
  "Task_new parents finishCommand =
     \<lparr>mParentTaskPtrArray = parents, mTaskScheduled = False, mFinishCommand = finishCommand, mFinished = False\<rparr>"

text \<open>The constructor: every worker asks for a task, finds none and is put into the free queue.\<close>

definition CPUSheduler_new :: "nat \<Rightarrow> (nat \<Rightarrow> Task) \<Rightarrow> CPUSheduler" where
  "CPUSheduler_new threadCount ts =
     \<lparr>tasks = ts, mPendingTasks = [], mFreeWorkerThreads = [0..<threadCount], mWaitingTask = (\<lambda>_. None),
      thread_phase = (\<lambda>_. Waiting), mStopped = False, ran = [], commands = []\<rparr>"

section \<open>Tasks and scheduling\<close>

definition taskScheduled :: "nat \<Rightarrow> CPUSheduler \<Rightarrow> CPUSheduler" where
  "taskScheduled t s = s\<lparr>tasks := (tasks s)(t := (tasks s t)\<lparr>mTaskScheduled := True\<rparr>)\<rparr>"

definition Task_setTaskFinished :: "nat \<Rightarrow> CPUSheduler \<Rightarrow> CPUSheduler" where
  "Task_setTaskFinished t s =
     s\<lparr>tasks := (tasks s)(t := (tasks s t)\<lparr>mFinished := True\<rparr>),
       commands := (if mFinishCommand (tasks s t) then commands s @ [t] else commands s)\<rparr>"

text \<open>The signal of \<open>setNewTask\<close> wakes a worker that waits; otherwise it is lost.\<close>

definition CPUShedulerThread_setNewTask :: "nat \<Rightarrow> nat \<Rightarrow> CPUSheduler \<Rightarrow> CPUSheduler" where
  "CPUShedulerThread_setNewTask th t s =
     s\<lparr>mWaitingTask := (mWaitingTask s)(th := Some t),
       thread_phase := (if thread_phase s th = Waiting then (thread_phase s)(th := Looping) else thread_phase s)\<rparr>"

text \<open>
  A task that is not ready schedules its parents, these ask theirs, and so on: the fuel bounds the
  depth, \<open>None\<close> is that it ran out.
\<close>

function (sequential)
    CPUTask_scheduleTask :: "nat \<Rightarrow> nat \<Rightarrow> CPUSheduler \<Rightarrow> CPUSheduler option"
  and CPUSheduler_sheduleTask :: "nat \<Rightarrow> nat \<Rightarrow> CPUSheduler \<Rightarrow> CPUSheduler option"
  and Task_isAllParentsReady :: "nat \<Rightarrow> nat \<Rightarrow> CPUSheduler \<Rightarrow> (bool \<times> CPUSheduler) option"
  and check_parents :: "nat \<Rightarrow> nat option list \<Rightarrow> bool \<Rightarrow> CPUSheduler \<Rightarrow> (bool \<times> CPUSheduler) option" where
  "CPUTask_scheduleTask 0 own s = None"
| "CPUTask_scheduleTask (Suc fuel) own s =
     (if mTaskScheduled (tasks s own) then Some s
      else map_option (taskScheduled own) (CPUSheduler_sheduleTask fuel own s))"
| "CPUSheduler_sheduleTask fuel task s =
     (if mStopped s then Some s
      else case Task_isAllParentsReady fuel task s of
          None \<Rightarrow> None
        | Some (ready, s1) \<Rightarrow>
            (case mFreeWorkerThreads s1 of
               t # free \<Rightarrow>
                 if ready then Some (CPUShedulerThread_setNewTask t task (s1\<lparr>mFreeWorkerThreads := free\<rparr>))
                 else Some (s1\<lparr>mPendingTasks := mPendingTasks s1 @ [task]\<rparr>)
             | [] \<Rightarrow> Some (s1\<lparr>mPendingTasks := mPendingTasks s1 @ [task]\<rparr>)))"
| "Task_isAllParentsReady fuel task s = check_parents fuel (mParentTaskPtrArray (tasks s task)) True s"
| "check_parents fuel [] allFinished s = Some (allFinished, s)"
| "check_parents fuel (None # ps) allFinished s = check_parents fuel ps allFinished s"
| "check_parents fuel (Some task # ps) allFinished s =
     (if mFinished (tasks s task) then check_parents fuel ps allFinished s
      else if mTaskScheduled (tasks s task) then check_parents fuel ps False s
      else case CPUTask_scheduleTask fuel task s of
          None \<Rightarrow> None
        | Some s1 \<Rightarrow> check_parents fuel ps False s1)"
  by pat_completeness auto
termination
  by (relation "measures [\<lambda>x. case x of Inl (Inl (f, _)) \<Rightarrow> f | Inl (Inr (f, _)) \<Rightarrow> f | Inr (Inl (f, _)) \<Rightarrow> f
        | Inr (Inr (f, _)) \<Rightarrow> f,
      \<lambda>x. case x of Inl (Inl _) \<Rightarrow> 0 | Inl (Inr _) \<Rightarrow> 3 | Inr (Inl _) \<Rightarrow> 2 | Inr (Inr _) \<Rightarrow> (1::nat),
      \<lambda>x. case x of Inr (Inr (_, ps, _)) \<Rightarrow> length ps | _ \<Rightarrow> 0]") auto

section \<open>The scheduler\<close>

text \<open>
  The loop of \<open>getNextUndoneTask\<close> from the position \<open>i\<close> on. Asking a task whether it is ready can append
  its parents to the list that is walked.
\<close>

fun next_undone :: "nat \<Rightarrow> nat \<Rightarrow> nat \<Rightarrow> CPUSheduler \<Rightarrow> (nat option \<times> CPUSheduler) option" where
  "next_undone fuel 0 i s = None"
| "next_undone fuel (Suc n) i s =
     (if length (mPendingTasks s) \<le> i then Some (None, s)
      else let task = mPendingTasks s ! i in
        case Task_isAllParentsReady fuel task s of
          None \<Rightarrow> None
        | Some (True, s1) \<Rightarrow>
            Some (Some task, s1\<lparr>mPendingTasks := take i (mPendingTasks s1) @ drop (Suc i) (mPendingTasks s1)\<rparr>)
        | Some (False, s1) \<Rightarrow> next_undone fuel n (Suc i) s1)"

definition CPUSheduler_getNextUndoneTask ::
    "nat \<Rightarrow> nat \<Rightarrow> nat option \<Rightarrow> CPUSheduler \<Rightarrow> (nat option \<times> CPUSheduler) option" where
  "CPUSheduler_getNextUndoneTask fuel n me s =
     (case next_undone fuel n 0 s of
        Some (None, s1) \<Rightarrow>
          Some (None, case me of None \<Rightarrow> s1 | Some th \<Rightarrow> s1\<lparr>mFreeWorkerThreads := mFreeWorkerThreads s1 @ [th]\<rparr>)
      | r \<Rightarrow> r)"

definition CPUSheduler_checkPendingTasks :: "nat \<Rightarrow> nat \<Rightarrow> CPUSheduler \<Rightarrow> CPUSheduler option" where
  "CPUSheduler_checkPendingTasks fuel n s =
     (if mStopped s then Some s
      else case CPUSheduler_getNextUndoneTask fuel n None s of
          None \<Rightarrow> None
        | Some (None, s1) \<Rightarrow> Some s1
        | Some (Some task, s1) \<Rightarrow> CPUSheduler_sheduleTask fuel task s1)"

definition CPUSheduler_stop :: "CPUSheduler \<Rightarrow> CPUSheduler" where
  "CPUSheduler_stop s = s\<lparr>mStopped := True, mPendingTasks := []\<rparr>"

section \<open>The steps of the threads\<close>

text \<open>
  \<open>Run th r\<close>: the worker runs its task, which returns \<open>r\<close> or throws (\<open>None\<close>); an exception terminates the
  application but not the loop. \<open>Schedule\<close> comes from any thread, \<open>Timer\<close> from the fuzzy timer.
\<close>

datatype label =
    Schedule nat
  | Timer_Check
  | Stop
  | Run nat "int option"
  | Fetch nat
  | Assign nat
  | Leave_Loop nat
  | Wait nat

fun sched_step :: "nat \<Rightarrow> nat \<Rightarrow> label \<Rightarrow> CPUSheduler \<Rightarrow> CPUSheduler option" where
  "sched_step fuel n (Schedule t) s = CPUTask_scheduleTask fuel t s"
| "sched_step fuel n Timer_Check s = CPUSheduler_checkPendingTasks fuel n s"
| "sched_step fuel n Stop s = Some (CPUSheduler_stop s)"
| "sched_step fuel n (Run th r) s =
     (case (thread_phase s th, mWaitingTask s th) of
        (Looping, Some t) \<Rightarrow>
          (let s1 = (if r = Some 0 then Task_setTaskFinished t s else s)
           in Some (s1\<lparr>ran := ran s1 @ [t], thread_phase := (thread_phase s1)(th := Fetching)\<rparr>))
      | _ \<Rightarrow> None)"
| "sched_step fuel n (Fetch th) s =
     (if thread_phase s th = Fetching then
        map_option (\<lambda>(x, s1). s1\<lparr>thread_phase := (thread_phase s1)(th := Fetched x)\<rparr>)
          (CPUSheduler_getNextUndoneTask fuel n (Some th) s)
      else None)"
| "sched_step fuel n (Assign th) s =
     (case thread_phase s th of
        Fetched x \<Rightarrow> Some (s\<lparr>mWaitingTask := (mWaitingTask s)(th := x), thread_phase := (thread_phase s)(th := Looping)\<rparr>)
      | _ \<Rightarrow> None)"
| "sched_step fuel n (Leave_Loop th) s =
     (if thread_phase s th = Looping \<and> mWaitingTask s th = None
      then Some (s\<lparr>thread_phase := (thread_phase s)(th := Returning)\<rparr>) else None)"
| "sched_step fuel n (Wait th) s =
     (if thread_phase s th = Returning then Some (s\<lparr>thread_phase := (thread_phase s)(th := Waiting)\<rparr>) else None)"

section \<open>Where a task is\<close>

text \<open>
  The task a worker has: what it has fetched while it is about to assign it, nothing between \<open>run\<close>
  and the fetch, else its \<open>mWaitingTask\<close>.
\<close>

definition hold :: "CPUSheduler \<Rightarrow> nat \<Rightarrow> nat option" where
  "hold s th = (case thread_phase s th of Fetching \<Rightarrow> None | Fetched x \<Rightarrow> x | _ \<Rightarrow> mWaitingTask s th)"

definition taken :: "CPUSheduler \<Rightarrow> nat \<Rightarrow> bool" where
  "taken s t = (t \<in> set (mPendingTasks s) \<or> (\<exists>th. hold s th = Some t) \<or> t \<in> set (ran s))"

definition uniq :: "CPUSheduler \<Rightarrow> bool" where
  "uniq s = (distinct (mPendingTasks s) \<and> distinct (ran s) \<and> set (mPendingTasks s) \<inter> set (ran s) = {} \<and>
     (\<forall>th t. hold s th = Some t \<longrightarrow> t \<notin> set (mPendingTasks s) \<and> t \<notin> set (ran s)) \<and>
     (\<forall>th th' t. hold s th = Some t \<longrightarrow> hold s th' = Some t \<longrightarrow> th = th'))"

definition parents_done :: "CPUSheduler \<Rightarrow> nat \<Rightarrow> bool" where
  "parents_done s t = (\<forall>p. Some p \<in> set (mParentTaskPtrArray (tasks s t)) \<longrightarrow> mFinished (tasks s p))"

text \<open>
  What holds between two steps; \<open>X\<close> are the tasks that are just being scheduled, whose flag is not yet
  set.
\<close>

definition sched_ok :: "nat set \<Rightarrow> CPUSheduler \<Rightarrow> bool" where
  "sched_ok X s = (uniq s \<and> (\<forall>th t. hold s th = Some t \<longrightarrow> parents_done s t) \<and>
     (\<forall>t. taken s t \<longrightarrow> mTaskScheduled (tasks s t) \<or> t \<in> X))"

text \<open>What scheduling leaves as it is, and which tasks it may place.\<close>

definition keeps :: "CPUSheduler \<Rightarrow> CPUSheduler \<Rightarrow> bool" where
  "keeps s s' =
     ((\<forall>t. mParentTaskPtrArray (tasks s' t) = mParentTaskPtrArray (tasks s t) \<and>
         mFinished (tasks s' t) = mFinished (tasks s t) \<and> (mTaskScheduled (tasks s t) \<longrightarrow> mTaskScheduled (tasks s' t))) \<and>
      mStopped s' = mStopped s \<and> ran s' = ran s)"

text \<open>Only a worker that waits can be moved by another thread.\<close>

definition phases_keep :: "CPUSheduler \<Rightarrow> CPUSheduler \<Rightarrow> bool" where
  "phases_keep s s' = (\<forall>th. thread_phase s th \<noteq> Waiting \<longrightarrow> thread_phase s' th = thread_phase s th)"

lemma phases_keep_refl [simp]: "phases_keep s s"
  by (simp add: phases_keep_def)

lemma phases_keep_trans: "phases_keep s t \<Longrightarrow> phases_keep t u \<Longrightarrow> phases_keep s u"
  by (simp add: phases_keep_def)

definition grows :: "(nat \<Rightarrow> bool) \<Rightarrow> CPUSheduler \<Rightarrow> CPUSheduler \<Rightarrow> bool" where
  "grows B s s' = (keeps s s' \<and> phases_keep s s' \<and> (\<exists>xs. mPendingTasks s' = mPendingTasks s @ xs) \<and> (\<forall>t. taken s' t \<longrightarrow> taken s t \<or> B t))"

lemma keeps_refl [simp]: "keeps s s"
  by (simp add: keeps_def)

lemma keeps_trans: "keeps s t \<Longrightarrow> keeps t u \<Longrightarrow> keeps s u"
  by (simp add: keeps_def)

lemma grows_refl [simp]: "grows B s s"
  by (simp add: grows_def)

lemma grows_trans: "grows B s t \<Longrightarrow> grows B t u \<Longrightarrow> grows B s u"
  by (auto simp: grows_def intro: keeps_trans phases_keep_trans)

lemma grows_mono: "grows B s t \<Longrightarrow> (\<And>u. B u \<Longrightarrow> C u) \<Longrightarrow> grows C s t"
  by (auto simp: grows_def)

lemma grows_keeps: "grows B s s' \<Longrightarrow> keeps s s'"
  by (simp add: grows_def)

lemma grows_phases: "grows B s s' \<Longrightarrow> phases_keep s s'"
  by (simp add: grows_def)

lemma keeps_done: "keeps s s' \<Longrightarrow> parents_done s' t = parents_done s t"
  by (simp add: keeps_def parents_done_def)

definition acyclic_by :: "(nat \<Rightarrow> nat) \<Rightarrow> CPUSheduler \<Rightarrow> bool" where
  "acyclic_by r s = (\<forall>t p. Some p \<in> set (mParentTaskPtrArray (tasks s t)) \<longrightarrow> r p < r t)"

lemma keeps_acyclic: "keeps s s' \<Longrightarrow> acyclic_by r s' = acyclic_by r s"
  by (simp add: keeps_def acyclic_by_def)

lemma hold_setNewTask:
  "hold (CPUShedulerThread_setNewTask th t s) th' =
     (if th' = th then (case thread_phase s th of Fetching \<Rightarrow> None | Fetched x \<Rightarrow> x | _ \<Rightarrow> Some t) else hold s th')"
  by (auto simp: hold_def CPUShedulerThread_setNewTask_def split: phase.splits)

lemma setNewTask_simps [simp]:
  "tasks (CPUShedulerThread_setNewTask th t s) = tasks s" "mPendingTasks (CPUShedulerThread_setNewTask th t s) = mPendingTasks s"
  "mStopped (CPUShedulerThread_setNewTask th t s) = mStopped s" "ran (CPUShedulerThread_setNewTask th t s) = ran s"
  "mFreeWorkerThreads (CPUShedulerThread_setNewTask th t s) = mFreeWorkerThreads s"
  by (simp_all add: CPUShedulerThread_setNewTask_def)

lemma hold_updates [simp]:
  "hold (s\<lparr>mFreeWorkerThreads := f\<rparr>) = hold s" "hold (s\<lparr>mPendingTasks := p\<rparr>) = hold s" "hold (s\<lparr>tasks := ts\<rparr>) = hold s"
  "hold (s\<lparr>ran := rs\<rparr>) = hold s" "hold (s\<lparr>mStopped := b\<rparr>) = hold s" "hold (s\<lparr>commands := cs\<rparr>) = hold s"
  by (simp_all add: hold_def fun_eq_iff split: phase.split)

text \<open>Giving a task to a worker and putting it into the pending list.\<close>

lemma sched_ok_give:
  assumes "sched_ok {} s" and "\<not> taken s t" and "parents_done s t"
  shows "sched_ok {t} (CPUShedulerThread_setNewTask th t (s\<lparr>mFreeWorkerThreads := f\<rparr>)) \<and>
    grows (\<lambda>u. u = t) s (CPUShedulerThread_setNewTask th t (s\<lparr>mFreeWorkerThreads := f\<rparr>))"
proof -
  let ?s = "CPUShedulerThread_setNewTask th t (s\<lparr>mFreeWorkerThreads := f\<rparr>)"
  have h: "hold ?s th' = Some u \<Longrightarrow> hold s th' = Some u \<or> th' = th \<and> u = t" for th' u
    using hold_def [of s th] by (auto simp: hold_setNewTask split: if_splits phase.splits)
  have new: "hold s th' \<noteq> Some t" for th' using assms(2) by (auto simp: taken_def)
  have tk: "taken ?s u \<Longrightarrow> taken s u \<or> u = t" for u using h by (auto simp: taken_def)
  have "uniq ?s"
    unfolding uniq_def
  proof (intro conjI allI impI)
    show "distinct (mPendingTasks ?s)" "distinct (ran ?s)" "set (mPendingTasks ?s) \<inter> set (ran ?s) = {}"
      using assms(1) by (simp_all add: sched_ok_def uniq_def)
    show "u \<notin> set (mPendingTasks ?s)" "u \<notin> set (ran ?s)" if "hold ?s th' = Some u" for th' u
      using h [OF that] assms(1,2) by (auto simp: sched_ok_def uniq_def taken_def)
    show "th1 = th2" if "hold ?s th1 = Some u" "hold ?s th2 = Some u" for th1 th2 u
      using h [OF that(1)] h [OF that(2)] new assms(1) by (auto simp: sched_ok_def uniq_def)
  qed
  moreover have "parents_done ?s u" if "hold ?s th' = Some u" for th' u
    using h [OF that] assms by (auto simp: sched_ok_def parents_done_def)
  moreover have "taken ?s u \<Longrightarrow> mTaskScheduled (tasks ?s u) \<or> u = t" for u
    using tk [of u] assms(1) by (auto simp: sched_ok_def)
  moreover have "phases_keep s ?s" by (simp add: phases_keep_def CPUShedulerThread_setNewTask_def)
  ultimately show ?thesis using tk by (auto simp: sched_ok_def grows_def keeps_def)
qed

lemma sched_ok_pend:
  assumes "sched_ok {} s" and "\<not> taken s t"
  shows "sched_ok {t} (s\<lparr>mPendingTasks := mPendingTasks s @ [t]\<rparr>) \<and>
    grows (\<lambda>u. u = t) s (s\<lparr>mPendingTasks := mPendingTasks s @ [t]\<rparr>)"
  using assms by (auto simp: sched_ok_def uniq_def taken_def grows_def keeps_def phases_keep_def parents_done_def)

lemma taken_scheduled [simp]: "taken (taskScheduled t s) u = taken s u"
  by (simp add: taken_def taskScheduled_def)

lemma sched_ok_flag: "sched_ok {t} s \<Longrightarrow> sched_ok {} (taskScheduled t s)"
  by (auto simp: sched_ok_def uniq_def taken_def parents_done_def taskScheduled_def)

lemma grows_flag: "grows B s (taskScheduled t s)"
  by (auto simp: grows_def keeps_def phases_keep_def taken_def taskScheduled_def)

lemma sched_ok_mono: "sched_ok X s \<Longrightarrow> X \<subseteq> Y \<Longrightarrow> sched_ok Y s"
  by (auto simp: sched_ok_def)

lemma sched_ok_drop: "sched_ok {t} s \<Longrightarrow> mTaskScheduled (tasks s t) \<Longrightarrow> sched_ok {} s"
  by (auto simp: sched_ok_def)

text \<open>Scheduling keeps all this: it only places the task and tasks of smaller rank.\<close>

lemma scheduling_ok:
  "CPUTask_scheduleTask f t s = Some s' \<Longrightarrow> acyclic_by r s \<Longrightarrow> sched_ok {} s \<Longrightarrow>
     sched_ok {} s' \<and> grows (\<lambda>u. r u \<le> r t) s s'"
  "CPUSheduler_sheduleTask f t s = Some s' \<Longrightarrow> acyclic_by r s \<Longrightarrow> sched_ok {} s \<Longrightarrow> \<not> taken s t \<Longrightarrow>
     sched_ok {t} s' \<and> grows (\<lambda>u. r u \<le> r t) s s'"
  "Task_isAllParentsReady f t s = Some (b, s') \<Longrightarrow> acyclic_by r s \<Longrightarrow> sched_ok {} s \<Longrightarrow>
     sched_ok {} s' \<and> grows (\<lambda>u. r u < r t) s s' \<and> (b \<longrightarrow> parents_done s' t)"
  "check_parents f ps a s = Some (b, s') \<Longrightarrow> acyclic_by r s \<Longrightarrow> sched_ok {} s \<Longrightarrow> \<forall>p. Some p \<in> set ps \<longrightarrow> r p < k \<Longrightarrow>
     sched_ok {} s' \<and> grows (\<lambda>u. r u < k) s s' \<and> (b \<longrightarrow> a \<and> (\<forall>p. Some p \<in> set ps \<longrightarrow> mFinished (tasks s p)))"
proof (induction f t s and f t s and f t s and f ps a s arbitrary: s' and s' and b s' and b s' k
    rule: CPUTask_scheduleTask_CPUSheduler_sheduleTask_Task_isAllParentsReady_check_parents.induct)
  case (1 own s)
  then show ?case by simp
next
  case (2 fuel own s)
  show ?case
  proof (cases "mTaskScheduled (tasks s own)")
    case True
    then show ?thesis using 2 by simp
  next
    case False
    then obtain s1 where s1: "CPUSheduler_sheduleTask fuel own s = Some s1" and s': "s' = taskScheduled own s1"
      using 2(2) by auto
    have "\<not> taken s own" using 2(4) False by (auto simp: sched_ok_def)
    from 2(1) [OF False s1 2(3,4) this] show ?thesis
      using sched_ok_flag grows_trans [OF _ grows_flag] by (auto simp: s')
  qed
next
  case (3 fuel task s)
  show ?case
  proof (cases "mStopped s")
    case True
    then show ?thesis using 3 sched_ok_mono [of "{}" s "{task}"] by simp
  next
    case False
    then obtain b s1 where rd: "Task_isAllParentsReady fuel task s = Some (b, s1)"
      using 3(2) by (auto split: option.splits)
    from 3(1) [OF False rd 3(3,4)] have s1: "sched_ok {} s1" "grows (\<lambda>u. r u < r task) s s1"
      and fin: "b \<longrightarrow> parents_done s1 task" by auto
    have g: "grows (\<lambda>u. r u \<le> r task) s s1" using s1(2) by (rule grows_mono) simp
    have nt: "\<not> taken s1 task" using s1(2) 3(5) by (auto simp: grows_def)
    have eq: "grows (\<lambda>u. u = task) s1 s2 \<Longrightarrow> grows (\<lambda>u. r u \<le> r task) s s2" for s2
      using grows_trans [OF g grows_mono] by simp
    show ?thesis
    proof (cases "mFreeWorkerThreads s1 \<noteq> [] \<and> b")
      case True
      then obtain th free where fr: "mFreeWorkerThreads s1 = th # free" by (cases "mFreeWorkerThreads s1") auto
      have "s' = CPUShedulerThread_setNewTask th task (s1\<lparr>mFreeWorkerThreads := free\<rparr>)"
        using 3(2) False rd fr True by simp
      then show ?thesis using sched_ok_give [OF s1(1) nt, of th free] fin True eq by auto
    next
      case no: False
      have "s' = s1\<lparr>mPendingTasks := mPendingTasks s1 @ [task]\<rparr>"
        using 3(2) False rd no by (auto split: list.splits if_splits)
      then show ?thesis using sched_ok_pend [OF s1(1) nt] eq by auto
    qed
  qed
next
  case (4 fuel task s)
  have b: "\<forall>p. Some p \<in> set (mParentTaskPtrArray (tasks s task)) \<longrightarrow> r p < r task" using 4(3) by (auto simp: acyclic_by_def)
  from 4(2) have "check_parents fuel (mParentTaskPtrArray (tasks s task)) True s = Some (b, s')" by simp
  from 4(1) [OF this 4(3,4) b] show ?case by (auto simp: parents_done_def grows_def keeps_def)
next
  case (5 fuel a s)
  then show ?case by simp
next
  case (6 fuel ps a s)
  then show ?case by simp
next
  case (7 fuel task ps a s)
  consider "mFinished (tasks s task)" | "\<not> mFinished (tasks s task)" "mTaskScheduled (tasks s task)"
    | "\<not> mFinished (tasks s task)" "\<not> mTaskScheduled (tasks s task)" by blast
  then show ?case
  proof cases
    case 1
    then show ?thesis using 7(1) [OF 1, of b s' k] 7(5-8) by simp
  next
    case 2
    then show ?thesis using 7(2) [OF 2, of b s' k] 7(5-8) by simp
  next
    case 3
    then obtain s1 where sc: "CPUTask_scheduleTask fuel task s = Some s1"
      and rest: "check_parents fuel ps False s1 = Some (b, s')" using 7(5) by (auto split: option.splits)
    from 7(3) [OF 3 sc 7(6,7)] have s1: "sched_ok {} s1" "grows (\<lambda>u. r u \<le> r task) s s1" by auto
    have "r task < k" using 7(8) by simp
    then have g: "grows (\<lambda>u. r u < k) s s1" using grows_mono [OF s1(2)] by simp
    have "acyclic_by r s1" using keeps_acyclic [OF grows_keeps [OF g]] 7(6) by simp
    from 7(4) [OF 3 sc rest this s1(1), of k] 7(8) grows_trans [OF g] show ?thesis by auto
  qed
qed

text \<open>Taking a task out of the pending list.\<close>

lemma set_remove_nth:
  "distinct xs \<Longrightarrow> i < length xs \<Longrightarrow> set (take i xs @ drop (Suc i) xs) = set xs - {xs ! i} \<and>
   distinct (take i xs @ drop (Suc i) xs)"
proof -
  assume d: "distinct xs" and i: "i < length xs"
  have split: "distinct (as @ x # bs) \<Longrightarrow> set (as @ bs) = set (as @ x # bs) - {x} \<and> distinct (as @ bs)"
    for as bs :: "'a list" and x by auto
  from split [of "take i xs" "xs ! i" "drop (Suc i) xs", folded id_take_nth_drop [OF i]] d show ?thesis by simp
qed

lemma sched_ok_take_out:
  assumes ok: "sched_ok {} s" and i: "i < length (mPendingTasks s)"
  defines "s' \<equiv> s\<lparr>mPendingTasks := take i (mPendingTasks s) @ drop (Suc i) (mPendingTasks s)\<rparr>"
  shows "sched_ok {} s' \<and> \<not> taken s' (mPendingTasks s ! i) \<and> mTaskScheduled (tasks s' (mPendingTasks s ! i)) \<and> keeps s s'"
proof -
  have d: "distinct (mPendingTasks s)" using ok by (simp add: sched_ok_def uniq_def)
  have mem: "mPendingTasks s ! i \<in> set (mPendingTasks s)" using i by simp
  have p: "set (mPendingTasks s') = set (mPendingTasks s) - {mPendingTasks s ! i}" "distinct (mPendingTasks s')"
    using set_remove_nth [OF d i] by (simp_all add: s'_def)
  have o: "hold s' = hold s" "ran s' = ran s" "tasks s' = tasks s" "mStopped s' = mStopped s" by (simp_all add: s'_def)
  have "uniq s'" using ok p by (auto simp: sched_ok_def uniq_def o)
  moreover have "taken s' t \<longleftrightarrow> taken s t \<and> t \<noteq> mPendingTasks s ! i" for t
    using ok mem p(1) by (auto simp: taken_def o sched_ok_def uniq_def)
  moreover have "taken s (mPendingTasks s ! i)" using mem by (simp add: taken_def)
  ultimately show ?thesis using ok by (auto simp: sched_ok_def o parents_done_def keeps_def)
qed

lemma next_undone_ok:
  "next_undone f n i s = Some (x, s') \<Longrightarrow> acyclic_by r s \<Longrightarrow> sched_ok {} s \<Longrightarrow>
   sched_ok {} s' \<and> keeps s s' \<and> phases_keep s s' \<and>
   (\<forall>t. x = Some t \<longrightarrow> \<not> taken s' t \<and> mTaskScheduled (tasks s' t) \<and> parents_done s' t)"
proof (induction f n i s arbitrary: x s' rule: next_undone.induct)
  case (1 f i s)
  then show ?case by simp
next
  case (2 f n i s)
  let ?t = "mPendingTasks s ! i"
  show ?case
  proof (cases "length (mPendingTasks s) \<le> i")
    case True
    then show ?thesis using 2(2,3,4) by auto
  next
    case False
    then obtain b s1 where rd: "Task_isAllParentsReady f ?t s = Some (b, s1)"
      using 2(2) by (auto simp: Let_def split: option.splits)
    from scheduling_ok(3) [OF rd 2(3,4)] have s1: "sched_ok {} s1" "grows (\<lambda>u. r u < r ?t) s s1"
      and fin: "b \<longrightarrow> parents_done s1 ?t" by auto
    have k: "keeps s s1" and ph: "phases_keep s s1" using s1(2) by (simp_all add: grows_def)
    obtain xs where "mPendingTasks s1 = mPendingTasks s @ xs" using s1(2) by (auto simp: grows_def)
    then have i: "i < length (mPendingTasks s1)" "mPendingTasks s1 ! i = ?t" using False by (simp_all add: nth_append)
    show ?thesis
    proof (cases b)
      case True
      let ?s2 = "s1\<lparr>mPendingTasks := take i (mPendingTasks s1) @ drop (Suc i) (mPendingTasks s1)\<rparr>"
      have "x = Some ?t" "s' = ?s2" using 2(2) False rd True by (auto simp: Let_def)
      moreover have "keeps s1 ?s2" "phases_keep s1 ?s2" by (simp_all add: keeps_def phases_keep_def)
      ultimately show ?thesis using sched_ok_take_out [OF s1(1) i(1)] i(2) fin True keeps_trans [OF k] keeps_done
        phases_keep_trans [OF ph] by auto
    next
      case no: False
      have nx: "next_undone f n (Suc i) s1 = Some (x, s')" using 2(2) False rd no by (auto simp: Let_def)
      have "acyclic_by r s1" using keeps_acyclic [OF k] 2(3) by simp
      from 2(1) [OF False refl rd [unfolded] _ _ nx this s1(1)] no k ph show ?thesis by (auto intro: keeps_trans phases_keep_trans)
    qed
  qed
qed

section \<open>Reachable states\<close>

inductive sched_reach :: "nat \<Rightarrow> nat \<Rightarrow> CPUSheduler \<Rightarrow> CPUSheduler \<Rightarrow> bool" for fuel n s0 where
  start: "sched_reach fuel n s0 s0"
| step: "sched_reach fuel n s0 s \<Longrightarrow> sched_step fuel n l s = Some s' \<Longrightarrow> sched_reach fuel n s0 s'"

text \<open>Every task ran after its parents, and these have finished.\<close>

definition in_order :: "CPUSheduler \<Rightarrow> bool" where
  "in_order s = (\<forall>i < length (ran s). \<forall>p. Some p \<in> set (mParentTaskPtrArray (tasks s (ran s ! i))) \<longrightarrow>
     p \<in> set (take i (ran s)) \<and> mFinished (tasks s p))"

definition sched_inv :: "(nat \<Rightarrow> nat) \<Rightarrow> CPUSheduler \<Rightarrow> bool" where
  "sched_inv r s = (acyclic_by r s \<and> sched_ok {} s \<and> in_order s \<and> (\<forall>t. mFinished (tasks s t) \<longrightarrow> t \<in> set (ran s)))"

lemma sched_inv_keeps: "sched_inv r s \<Longrightarrow> keeps s s' \<Longrightarrow> sched_ok {} s' \<Longrightarrow> sched_inv r s'"
  using keeps_acyclic [of s s' r] by (auto simp: sched_inv_def keeps_def in_order_def)

lemma sched_ok_hold:
  assumes "sched_ok {} s" and "tasks s' = tasks s" and "mPendingTasks s' = mPendingTasks s" and "ran s' = ran s"
    and "hold s' = hold s"
  shows "sched_ok {} s'"
  using assms by (simp add: sched_ok_def uniq_def taken_def parents_done_def)

text \<open>A worker fetches a task that nobody has.\<close>

lemma sched_ok_fetch:
  assumes ok: "sched_ok {} s" and ph: "thread_phase s th = Fetching"
    and new: "\<forall>t. x = Some t \<longrightarrow> \<not> taken s t \<and> mTaskScheduled (tasks s t) \<and> parents_done s t"
  shows "sched_ok {} (s\<lparr>thread_phase := (thread_phase s)(th := Fetched x)\<rparr>)"
proof -
  let ?s = "s\<lparr>thread_phase := (thread_phase s)(th := Fetched x)\<rparr>"
  have h: "hold ?s th' = (if th' = th then x else hold s th')" for th' by (simp add: hold_def split: phase.split)
  have "uniq ?s" unfolding uniq_def h using ok new by (auto simp: sched_ok_def uniq_def taken_def)
  moreover have "taken ?s t \<Longrightarrow> taken s t \<or> x = Some t" for t by (auto simp: taken_def h split: if_splits)
  ultimately show ?thesis using ok new by (fastforce simp: sched_ok_def h parents_done_def split: if_splits)
qed

lemma sched_inv_run:
  assumes inv: "sched_inv r s" and ph: "thread_phase s th = Looping" and t: "mWaitingTask s th = Some t"
    and b: "b \<longrightarrow> s1 = Task_setTaskFinished t s" "\<not> b \<longrightarrow> s1 = s"
  shows "sched_inv r (s1\<lparr>ran := ran s1 @ [t], thread_phase := (thread_phase s1)(th := Fetching)\<rparr>)"
proof -
  let ?s = "s1\<lparr>ran := ran s1 @ [t], thread_phase := (thread_phase s1)(th := Fetching)\<rparr>"
  have s1: "mPendingTasks s1 = mPendingTasks s" "ran s1 = ran s" "thread_phase s1 = thread_phase s" "mWaitingTask s1 = mWaitingTask s"
    "mParentTaskPtrArray (tasks s1 u) = mParentTaskPtrArray (tasks s u)" "mTaskScheduled (tasks s1 u) = mTaskScheduled (tasks s u)"
    "mFinished (tasks s1 u) = (mFinished (tasks s u) \<or> b \<and> u = t)" for u
    using b by (cases b; simp add: Task_setTaskFinished_def)+
  define s2 where "s2 = ?s"
  have ht: "hold s th = Some t" using ph t by (simp add: hold_def)
  have h: "hold s2 th' = (if th' = th then None else hold s th')" for th'
    by (simp add: hold_def s1 s2_def split: phase.split)
  have s2: "mPendingTasks s2 = mPendingTasks s" "ran s2 = ran s @ [t]" "tasks s2 = tasks s1" by (simp_all add: s2_def s1)
  have ok: "sched_ok {} s" "uniq s" using inv by (simp_all add: sched_inv_def sched_ok_def)
  have done_t: "parents_done s t" using ht ok by (auto simp: sched_ok_def)
  have "uniq s2" unfolding uniq_def h using ok(2) ht by (auto simp: uniq_def s2)
  moreover have tk: "taken s2 u \<Longrightarrow> taken s u" for u using ht by (auto simp: taken_def h s2 split: if_splits)
  ultimately have "sched_ok {} s2" using ok(1) by (auto simp: sched_ok_def h parents_done_def s1 s2 split: if_splits)
  moreover have "in_order s2"
    using inv done_t by (auto simp: in_order_def sched_inv_def s1 s2 nth_append less_Suc_eq parents_done_def)
  moreover have "acyclic_by r s2" using inv by (simp add: sched_inv_def acyclic_by_def s1 s2)
  ultimately have "sched_inv r s2" using inv by (auto simp: sched_inv_def s1 s2)
  then show ?thesis by (simp add: s2_def)
qed

lemma sched_inv_step:
  assumes inv: "sched_inv r s" and step: "sched_step fuel n l s = Some s'"
  shows "sched_inv r s'"
proof -
  have ac: "acyclic_by r s" and ok: "sched_ok {} s" using inv by (simp_all add: sched_inv_def)
  show ?thesis
  proof (cases l)
    case (Schedule t)
    then have "CPUTask_scheduleTask fuel t s = Some s'" using step by simp
    from scheduling_ok(1) [OF this ac ok] show ?thesis using sched_inv_keeps [OF inv] grows_keeps by blast
  next
    case Timer_Check
    show ?thesis
    proof (cases "mStopped s")
      case True
      then show ?thesis using step inv Timer_Check by (simp add: CPUSheduler_checkPendingTasks_def)
    next
      case False
      then obtain x s1 where nx: "next_undone fuel n 0 s = Some (x, s1)"
        using step Timer_Check
        by (auto simp: CPUSheduler_checkPendingTasks_def CPUSheduler_getNextUndoneTask_def split: option.splits)
      from next_undone_ok [OF nx ac ok] have s1: "sched_ok {} s1" "keeps s s1"
        and x: "\<forall>t. x = Some t \<longrightarrow> \<not> taken s1 t \<and> mTaskScheduled (tasks s1 t)" by auto
      have inv1: "sched_inv r s1" by (rule sched_inv_keeps [OF inv s1(2,1)])
      show ?thesis
      proof (cases x)
        case None
        then show ?thesis using step Timer_Check False nx inv1
          by (simp add: CPUSheduler_checkPendingTasks_def CPUSheduler_getNextUndoneTask_def)
      next
        case (Some t)
        then have sh: "CPUSheduler_sheduleTask fuel t s1 = Some s'" using step Timer_Check False nx
          by (simp add: CPUSheduler_checkPendingTasks_def CPUSheduler_getNextUndoneTask_def)
        have "acyclic_by r s1" using inv1 by (simp add: sched_inv_def)
        from scheduling_ok(2) [OF sh this s1(1)] x Some
        have s': "sched_ok {t} s'" "keeps s1 s'" by (auto simp: grows_def)
        have "mTaskScheduled (tasks s' t)" using x Some s'(2) by (simp add: keeps_def)
        from sched_inv_keeps [OF inv1 s'(2) sched_ok_drop [OF s'(1) this]] show ?thesis .
      qed
    qed
  next
    case Stop
    have "sched_ok {} (CPUSheduler_stop s)"
      using ok by (auto simp: CPUSheduler_stop_def sched_ok_def uniq_def taken_def parents_done_def)
    then show ?thesis using step inv Stop
      by (auto simp: sched_inv_def CPUSheduler_stop_def acyclic_by_def in_order_def)
  next
    case (Run th b)
    then obtain t where t: "thread_phase s th = Looping" "mWaitingTask s th = Some t"
      using step by (auto split: phase.splits option.splits)
    let ?s1 = "if b = Some 0 then Task_setTaskFinished t s else s"
    have "s' = ?s1\<lparr>ran := ran ?s1 @ [t], thread_phase := (thread_phase ?s1)(th := Fetching)\<rparr>"
      using step Run t by (simp add: Let_def)
    then show ?thesis using sched_inv_run [OF inv t, of "b = Some 0" ?s1] by simp
  next
    case (Fetch th)
    then obtain x s1 where ph: "thread_phase s th = Fetching" and nx: "next_undone fuel n 0 s = Some (x, s1)"
      using step by (auto simp: CPUSheduler_getNextUndoneTask_def split: option.splits if_splits)
    from next_undone_ok [OF nx ac ok] have s1: "sched_ok {} s1" "keeps s s1" "phases_keep s s1"
      and x: "\<forall>t. x = Some t \<longrightarrow> \<not> taken s1 t \<and> mTaskScheduled (tasks s1 t) \<and> parents_done s1 t" by auto
    define s2 where "s2 = (case x of None \<Rightarrow> s1\<lparr>mFreeWorkerThreads := mFreeWorkerThreads s1 @ [th]\<rparr> | Some _ \<Rightarrow> s1)"
    have s2: "tasks s2 = tasks s1" "mPendingTasks s2 = mPendingTasks s1" "ran s2 = ran s1" "hold s2 = hold s1"
      "thread_phase s2 = thread_phase s1" "mStopped s2 = mStopped s1"
      by (simp_all add: s2_def split: option.split)
    have s': "s' = s2\<lparr>thread_phase := (thread_phase s2)(th := Fetched x)\<rparr>"
      using step Fetch ph nx by (auto simp: CPUSheduler_getNextUndoneTask_def s2_def split: option.splits)
    have ok2: "sched_ok {} s2" by (rule sched_ok_hold [OF s1(1) s2(1-4)])
    have x2: "\<forall>t. x = Some t \<longrightarrow> \<not> taken s2 t \<and> mTaskScheduled (tasks s2 t) \<and> parents_done s2 t"
      using x by (simp add: taken_def parents_done_def s2)
    have "thread_phase s1 th = Fetching" using s1(3) ph by (simp add: phases_keep_def)
    then have "sched_ok {} s'" unfolding s' using sched_ok_fetch [OF ok2 _ x2] s2 by simp
    moreover have "keeps s s'" using s1(2) by (simp add: s' keeps_def s2)
    ultimately show ?thesis using sched_inv_keeps [OF inv] by blast
  next
    case (Assign th)
    then obtain x where ph: "thread_phase s th = Fetched x"
      and s': "s' = s\<lparr>mWaitingTask := (mWaitingTask s)(th := x), thread_phase := (thread_phase s)(th := Looping)\<rparr>"
      using step by (auto split: phase.splits)
    have "hold s' = hold s" using ph by (auto simp: hold_def s' fun_eq_iff split: phase.split)
    then have "sched_ok {} s'" by (intro sched_ok_hold [OF ok]) (simp_all add: s')
    then show ?thesis using sched_inv_keeps [OF inv] by (simp add: s' keeps_def)
  next
    case (Leave_Loop th)
    then have s': "s' = s\<lparr>thread_phase := (thread_phase s)(th := Returning)\<rparr>" and ph: "thread_phase s th = Looping"
      using step by (auto split: if_splits)
    have "hold s' = hold s" using ph by (auto simp: hold_def s' fun_eq_iff split: phase.split)
    then have "sched_ok {} s'" by (intro sched_ok_hold [OF ok]) (simp_all add: s')
    then show ?thesis using sched_inv_keeps [OF inv] by (simp add: s' keeps_def)
  next
    case (Wait th)
    then have s': "s' = s\<lparr>thread_phase := (thread_phase s)(th := Waiting)\<rparr>" and ph: "thread_phase s th = Returning"
      using step by (auto split: if_splits)
    have "hold s' = hold s" using ph by (auto simp: hold_def s' fun_eq_iff split: phase.split)
    then have "sched_ok {} s'" by (intro sched_ok_hold [OF ok]) (simp_all add: s')
    then show ?thesis using sched_inv_keeps [OF inv] by (simp add: s' keeps_def)
  qed
qed

section \<open>No task is lost while the free workers wait\<close>

definition quiet :: "CPUSheduler \<Rightarrow> bool" where
  "quiet s = (\<not> mStopped s \<and> distinct (mFreeWorkerThreads s) \<and>
     (\<forall>th \<in> set (mFreeWorkerThreads s). thread_phase s th = Waiting \<and> mWaitingTask s th = None))"

definition conserved :: "CPUSheduler \<Rightarrow> bool" where
  "conserved s = (\<forall>t. mTaskScheduled (tasks s t) \<longrightarrow> taken s t)"

text \<open>Nothing is lost, the free workers still wait, and no worker that was not free becomes free.\<close>

definition safe :: "CPUSheduler \<Rightarrow> CPUSheduler \<Rightarrow> bool" where
  "safe s s' = (quiet s' \<and> (\<forall>t. taken s t \<longrightarrow> taken s' t) \<and>
     (\<forall>t. mTaskScheduled (tasks s' t) \<longrightarrow> taken s' t \<or> (mTaskScheduled (tasks s t) \<and> \<not> taken s t)) \<and>
     (\<exists>xs. mPendingTasks s' = mPendingTasks s @ xs) \<and> set (mFreeWorkerThreads s') \<subseteq> set (mFreeWorkerThreads s))"

lemma safe_refl: "quiet s \<Longrightarrow> safe s s"
  by (simp add: safe_def)

lemma safe_trans: "safe s t \<Longrightarrow> safe t u \<Longrightarrow> safe s u"
  unfolding safe_def by (metis (no_types, lifting) append_assoc subset_trans)

lemma safe_conserved: "safe s s' \<Longrightarrow> conserved s \<Longrightarrow> conserved s'"
  by (auto simp: safe_def conserved_def)

lemma safe_give:
  assumes q: "quiet s" and fr: "mFreeWorkerThreads s = th # free"
  shows "safe s (CPUShedulerThread_setNewTask th t (s\<lparr>mFreeWorkerThreads := free\<rparr>)) \<and>
    taken (CPUShedulerThread_setNewTask th t (s\<lparr>mFreeWorkerThreads := free\<rparr>)) t"
proof -
  define s' where "s' = CPUShedulerThread_setNewTask th t (s\<lparr>mFreeWorkerThreads := free\<rparr>)"
  have th: "thread_phase s th = Waiting" "mWaitingTask s th = None" "th \<notin> set free" using q fr by (simp_all add: quiet_def)
  have h: "hold s' th' = (if th' = th then Some t else hold s th')" for th'
    using th by (simp add: s'_def hold_setNewTask)
  have o: "mPendingTasks s' = mPendingTasks s" "ran s' = ran s" "tasks s' = tasks s" "mFreeWorkerThreads s' = free"
    "mStopped s' = mStopped s" by (simp_all add: s'_def)
  have none: "hold s th = None" using th by (simp add: hold_def)
  have tk: "taken s u \<Longrightarrow> taken s' u" for u using none by (auto simp: taken_def o h split: if_splits) (metis option.distinct(1))
  moreover have "quiet s'" using q fr th by (auto simp: quiet_def o) (auto simp: s'_def CPUShedulerThread_setNewTask_def)
  moreover have "taken s' t" using h by (auto simp: taken_def)
  ultimately show ?thesis using fr o by (auto simp: safe_def conserved_def s'_def [symmetric])
qed

lemma safe_pend: "quiet s \<Longrightarrow> safe s (s\<lparr>mPendingTasks := mPendingTasks s @ [t]\<rparr>) \<and> taken (s\<lparr>mPendingTasks := mPendingTasks s @ [t]\<rparr>) t"
  by (auto simp: safe_def quiet_def taken_def conserved_def)

lemma safe_flag: "safe s s' \<Longrightarrow> taken s' t \<Longrightarrow> safe s (taskScheduled t s')"
  by (auto simp: safe_def quiet_def conserved_def) (auto simp: taskScheduled_def split: if_splits)

lemma scheduling_safe:
  "CPUTask_scheduleTask f t s = Some s' \<Longrightarrow> quiet s \<Longrightarrow> safe s s'"
  "CPUSheduler_sheduleTask f t s = Some s' \<Longrightarrow> quiet s \<Longrightarrow> safe s s' \<and> taken s' t"
  "Task_isAllParentsReady f t s = Some (b, s') \<Longrightarrow> quiet s \<Longrightarrow> safe s s'"
  "check_parents f ps a s = Some (b, s') \<Longrightarrow> quiet s \<Longrightarrow> safe s s'"
proof (induction f t s and f t s and f t s and f ps a s arbitrary: s' and s' and b s' and b s'
    rule: CPUTask_scheduleTask_CPUSheduler_sheduleTask_Task_isAllParentsReady_check_parents.induct)
  case (2 fuel own s)
  then show ?case by (cases "mTaskScheduled (tasks s own)") (auto simp: safe_refl intro: safe_flag)
next
  case (3 fuel task s)
  have ns: "\<not> mStopped s" using 3(3) by (simp add: quiet_def)
  then obtain b s1 where rd: "Task_isAllParentsReady fuel task s = Some (b, s1)"
    using 3(2) by (auto split: option.splits)
  have s1: "safe s s1" by (rule 3(1) [OF ns rd 3(3)])
  then have q: "quiet s1" by (simp add: safe_def)
  show ?case
  proof (cases "mFreeWorkerThreads s1 \<noteq> [] \<and> b")
    case True
    then obtain th free where fr: "mFreeWorkerThreads s1 = th # free" by (cases "mFreeWorkerThreads s1") auto
    have "s' = CPUShedulerThread_setNewTask th task (s1\<lparr>mFreeWorkerThreads := free\<rparr>)"
      using 3(2) ns rd fr True by simp
    then show ?thesis using safe_give [OF q fr, of task] safe_trans [OF s1] by simp
  next
    case False
    then have "s' = s1\<lparr>mPendingTasks := mPendingTasks s1 @ [task]\<rparr>"
      using 3(2) ns rd by (auto split: list.splits if_splits)
    then show ?thesis using safe_pend [OF q, of task] safe_trans [OF s1] by simp
  qed
next
  case (7 fuel task ps a s)
  consider "mFinished (tasks s task)" | "\<not> mFinished (tasks s task)" "mTaskScheduled (tasks s task)"
    | "\<not> mFinished (tasks s task)" "\<not> mTaskScheduled (tasks s task)" by blast
  then show ?case
  proof cases
    case 3
    then obtain s1 where sc: "CPUTask_scheduleTask fuel task s = Some s1"
      and rest: "check_parents fuel ps False s1 = Some (b, s')" using 7(5) by (auto split: option.splits)
    have "safe s s1" by (rule 7(3) [OF 3 sc 7(6)])
    moreover from this have "quiet s1" by (simp add: safe_def)
    from 7(4) [OF 3 sc rest this] have "safe s1 s'" .
    ultimately show ?thesis by (rule safe_trans)
  qed (use 7 in simp_all)
qed (simp_all add: safe_refl)

lemma next_undone_safe:
  "next_undone f n i s = Some (x, s') \<Longrightarrow> quiet s \<Longrightarrow>
   quiet s' \<and> (\<forall>t. taken s t \<longrightarrow> taken s' t \<or> x = Some t) \<and>
   (conserved s \<longrightarrow> (\<forall>t. mTaskScheduled (tasks s' t) \<longrightarrow> taken s' t \<or> x = Some t)) \<and>
   set (mFreeWorkerThreads s') \<subseteq> set (mFreeWorkerThreads s)"
proof (induction f n i s arbitrary: x s' rule: next_undone.induct)
  case (1 f i s)
  then show ?case by simp
next
  case (2 f n i s)
  let ?t = "mPendingTasks s ! i"
  show ?case
  proof (cases "length (mPendingTasks s) \<le> i")
    case True
    then show ?thesis using 2(2,3) by (auto simp: conserved_def)
  next
    case False
    then obtain b s1 where rd: "Task_isAllParentsReady f ?t s = Some (b, s1)"
      using 2(2) by (auto simp: Let_def split: option.splits)
    have s1: "safe s s1" by (rule scheduling_safe(3) [OF rd 2(3)])
    show ?thesis
    proof (cases b)
      case True
      obtain xs where "mPendingTasks s1 = mPendingTasks s @ xs" using s1 by (auto simp: safe_def)
      then have pend: "mPendingTasks s1 ! i = ?t" "i < length (mPendingTasks s1)" using False by (simp_all add: nth_append)
      define s2 where "s2 = s1\<lparr>mPendingTasks := take i (mPendingTasks s1) @ drop (Suc i) (mPendingTasks s1)\<rparr>"
      have eq: "x = Some ?t" "s' = s2" using 2(2) False rd True by (auto simp: Let_def s2_def)
      have "set (mPendingTasks s1) = set (take i (mPendingTasks s1) @ ?t # drop (Suc i) (mPendingTasks s1))"
        using id_take_nth_drop [OF pend(2)] pend(1) by metis
      then have "set (mPendingTasks s1) = insert ?t (set (mPendingTasks s2))" by (simp add: s2_def)
      moreover have o: "hold s2 = hold s1" "ran s2 = ran s1" "tasks s2 = tasks s1" "mFreeWorkerThreads s2 = mFreeWorkerThreads s1"
        "mStopped s2 = mStopped s1" "thread_phase s2 = thread_phase s1" "mWaitingTask s2 = mWaitingTask s1"
        by (simp_all add: s2_def)
      ultimately have "\<forall>u. taken s1 u \<longrightarrow> taken s2 u \<or> u = ?t" by (auto simp: taken_def)
      then show ?thesis using s1 unfolding eq safe_def quiet_def conserved_def o by blast
    next
      case no: False
      have nx: "next_undone f n (Suc i) s1 = Some (x, s')" using 2(2) False rd no by (auto simp: Let_def)
      have "quiet s1" using s1 by (simp add: safe_def)
      with 2(1) [OF False refl rd _ _ nx] no have ih: "quiet s'" "\<forall>t. taken s1 t \<longrightarrow> taken s' t \<or> x = Some t"
        "conserved s1 \<longrightarrow> (\<forall>t. mTaskScheduled (tasks s' t) \<longrightarrow> taken s' t \<or> x = Some t)"
        "set (mFreeWorkerThreads s') \<subseteq> set (mFreeWorkerThreads s1)" by blast+
      show ?thesis using ih s1 safe_conserved [OF s1] unfolding safe_def by blast
    qed
  qed
qed

text \<open>A worker that does not wait is not moved by a walk through the pending list.\<close>

lemma scheduling_phases:
  "CPUTask_scheduleTask f t s = Some s' \<Longrightarrow> phases_keep s s'"
  "CPUSheduler_sheduleTask f t s = Some s' \<Longrightarrow> phases_keep s s'"
  "Task_isAllParentsReady f t s = Some (b, s') \<Longrightarrow> phases_keep s s'"
  "check_parents f ps a s = Some (b, s') \<Longrightarrow> phases_keep s s'"
proof (induction f t s and f t s and f t s and f ps a s arbitrary: s' and s' and b s' and b s'
    rule: CPUTask_scheduleTask_CPUSheduler_sheduleTask_Task_isAllParentsReady_check_parents.induct)
  case (2 fuel own s)
  then show ?case
    by (cases "mTaskScheduled (tasks s own)") (auto simp: phases_keep_def taskScheduled_def)
next
  case (3 fuel task s)
  then show ?case
    by (fastforce simp: phases_keep_def CPUShedulerThread_setNewTask_def split: if_splits option.splits list.splits)
next
  case (7 fuel task ps a s)
  then show ?case by (auto split: if_splits option.splits intro: phases_keep_trans)
qed simp_all

lemma next_undone_phase:
  "next_undone f n i s = Some (x, s') \<Longrightarrow> thread_phase s th = Fetching \<Longrightarrow> thread_phase s' th = Fetching"
proof (induction f n i s arbitrary: x s' rule: next_undone.induct)
  case (2 f n i s)
  then show ?case
    using scheduling_phases(3) [of f "mPendingTasks s ! i" s]
    by (fastforce simp: Let_def phases_keep_def split: if_splits option.splits bool.splits)
qed simp

text \<open>
  A run in which the free workers wait whenever a task can be placed: \<open>thread_phase\<close> and \<open>mWaitingTask\<close>
  of a worker in the free queue.
\<close>

definition places :: "label \<Rightarrow> bool" where
  "places l = (case l of Schedule _ \<Rightarrow> True | Timer_Check \<Rightarrow> True | Fetch _ \<Rightarrow> True | _ \<Rightarrow> False)"

inductive quiet_reach :: "nat \<Rightarrow> nat \<Rightarrow> CPUSheduler \<Rightarrow> CPUSheduler \<Rightarrow> bool" for fuel n s0 where
  start: "quiet_reach fuel n s0 s0"
| step: "quiet_reach fuel n s0 s \<Longrightarrow> l \<noteq> Stop \<Longrightarrow> (places l \<Longrightarrow> quiet s) \<Longrightarrow> sched_step fuel n l s = Some s' \<Longrightarrow>
    quiet_reach fuel n s0 s'"

definition free_ok :: "CPUSheduler \<Rightarrow> bool" where
  "free_ok s = (distinct (mFreeWorkerThreads s) \<and> \<not> mStopped s \<and> (\<forall>th \<in> set (mFreeWorkerThreads s).
     thread_phase s th = Fetched None \<or> (thread_phase s th \<in> {Waiting, Looping, Returning} \<and> mWaitingTask s th = None)))"

lemma quiet_free_ok: "quiet s \<Longrightarrow> free_ok s"
  by (simp add: quiet_def free_ok_def)

lemma quiet_step:
  assumes inv: "free_ok s" "conserved s" and l: "l \<noteq> Stop" "places l \<Longrightarrow> quiet s" and step: "sched_step fuel n l s = Some s'"
  shows "free_ok s' \<and> conserved s'"
proof (cases l)
  case (Schedule t)
  then have "CPUTask_scheduleTask fuel t s = Some s'" "quiet s" using step l(2) by (simp_all add: places_def)
  from scheduling_safe(1) [OF this] show ?thesis using inv quiet_free_ok safe_conserved by (auto simp: safe_def)
next
  case Timer_Check
  then have q: "quiet s" using l(2) by (simp add: places_def)
  then have ns: "\<not> mStopped s" by (simp add: quiet_def)
  then obtain x s1 where nx: "next_undone fuel n 0 s = Some (x, s1)"
    using step Timer_Check
    by (auto simp: CPUSheduler_checkPendingTasks_def CPUSheduler_getNextUndoneTask_def split: option.splits)
  from next_undone_safe [OF nx q] inv(2) have q1: "quiet s1"
    and c1: "\<forall>t. mTaskScheduled (tasks s1 t) \<longrightarrow> taken s1 t \<or> x = Some t" by auto
  show ?thesis
  proof (cases x)
    case None
    then show ?thesis using step Timer_Check ns nx quiet_free_ok [OF q1] c1
      by (simp add: CPUSheduler_checkPendingTasks_def CPUSheduler_getNextUndoneTask_def conserved_def)
  next
    case (Some t)
    then have sh: "CPUSheduler_sheduleTask fuel t s1 = Some s'" using step Timer_Check ns nx
      by (simp add: CPUSheduler_checkPendingTasks_def CPUSheduler_getNextUndoneTask_def)
    from scheduling_safe(2) [OF this q1] have s': "safe s1 s'" "taken s' t" by simp_all
    then have "conserved s'" using c1 Some unfolding safe_def conserved_def by blast
    then show ?thesis using s'(1) quiet_free_ok by (simp add: safe_def)
  qed
next
  case Stop
  with l show ?thesis by simp
next
  case (Run th b)
  then obtain t where t: "thread_phase s th = Looping" "mWaitingTask s th = Some t"
    using step by (auto split: phase.splits option.splits)
  define s1 where "s1 = (if b = Some 0 then Task_setTaskFinished t s else s)"
  have s': "s' = s1\<lparr>ran := ran s1 @ [t], thread_phase := (thread_phase s1)(th := Fetching)\<rparr>"
    using step Run t by (simp add: Let_def s1_def)
  have o: "mPendingTasks s' = mPendingTasks s" "ran s' = ran s @ [t]" "mFreeWorkerThreads s' = mFreeWorkerThreads s"
    "mStopped s' = mStopped s" "mTaskScheduled (tasks s' u) = mTaskScheduled (tasks s u)"
    "thread_phase s' = (thread_phase s)(th := Fetching)" "mWaitingTask s' = mWaitingTask s" for u
    by (simp_all add: s' s1_def Task_setTaskFinished_def)
  have h: "hold s' th' = (if th' = th then None else hold s th')" for th'
    using o by (simp add: hold_def split: phase.split)
  have "hold s th = Some t" using t by (simp add: hold_def)
  then have "taken s u \<Longrightarrow> taken s' u" for u by (auto simp: taken_def o h) (metis option.inject)
  moreover have "th \<notin> set (mFreeWorkerThreads s)" using inv(1) t by (auto simp: free_ok_def)
  ultimately show ?thesis using inv by (auto simp: free_ok_def conserved_def o)
next
  case (Fetch th)
  then have q: "quiet s" using l(2) by (simp add: places_def)
  from Fetch obtain x s1 where ph: "thread_phase s th = Fetching" and nx: "next_undone fuel n 0 s = Some (x, s1)"
    using step by (auto simp: CPUSheduler_getNextUndoneTask_def split: option.splits if_splits)
  from next_undone_safe [OF nx q] inv(2) have q1: "quiet s1"
    and c1: "\<forall>t. mTaskScheduled (tasks s1 t) \<longrightarrow> taken s1 t \<or> x = Some t"
    and f1: "set (mFreeWorkerThreads s1) \<subseteq> set (mFreeWorkerThreads s)" by auto
  have nf: "th \<notin> set (mFreeWorkerThreads s1)" using q f1 ph by (auto simp: quiet_def)
  have ph1: "thread_phase s1 th = Fetching" by (rule next_undone_phase [OF nx ph])
  define s2 where "s2 = (case x of None \<Rightarrow> s1\<lparr>mFreeWorkerThreads := mFreeWorkerThreads s1 @ [th]\<rparr> | Some _ \<Rightarrow> s1)"
  have s': "s' = s2\<lparr>thread_phase := (thread_phase s2)(th := Fetched x)\<rparr>"
    using step Fetch ph nx by (auto simp: CPUSheduler_getNextUndoneTask_def s2_def split: option.splits)
  have o: "tasks s' = tasks s1" "mPendingTasks s' = mPendingTasks s1" "ran s' = ran s1" "mStopped s' = mStopped s1"
    "thread_phase s' = (thread_phase s1)(th := Fetched x)" "mWaitingTask s' = mWaitingTask s1"
    "mFreeWorkerThreads s' = mFreeWorkerThreads s1 @ (if x = None then [th] else [])"
    by (simp_all add: s' s2_def split: option.split)
  have h: "hold s' th' = (if th' = th then x else hold s1 th')" for th'
    using o by (simp add: hold_def split: phase.split)
  have "hold s1 th = None" using ph1 by (simp add: hold_def)
  then have "\<forall>u. taken s1 u \<longrightarrow> taken s' u" by (auto simp: taken_def o h) (metis option.distinct(1))
  moreover have "x = Some u \<Longrightarrow> taken s' u" for u using h by (auto simp: taken_def)
  ultimately have "conserved s'" using c1 unfolding conserved_def o by blast
  moreover have "free_ok s'" using q1 nf by (auto simp: free_ok_def quiet_def o)
  ultimately show ?thesis by simp
next
  case (Assign th)
  then obtain x where ph: "thread_phase s th = Fetched x"
    and s': "s' = s\<lparr>mWaitingTask := (mWaitingTask s)(th := x), thread_phase := (thread_phase s)(th := Looping)\<rparr>"
    using step by (auto split: phase.splits)
  have "hold s' = hold s" using ph by (auto simp: hold_def s' fun_eq_iff split: phase.split)
  then show ?thesis using inv ph by (auto simp: free_ok_def conserved_def taken_def s')
next
  case (Leave_Loop th)
  then have s': "s' = s\<lparr>thread_phase := (thread_phase s)(th := Returning)\<rparr>" and ph: "thread_phase s th = Looping"
    using step by (auto split: if_splits)
  have "hold s' = hold s" using ph by (auto simp: hold_def s' fun_eq_iff split: phase.split)
  then show ?thesis using inv ph by (auto simp: free_ok_def conserved_def taken_def s')
next
  case (Wait th)
  then have s': "s' = s\<lparr>thread_phase := (thread_phase s)(th := Waiting)\<rparr>" and ph: "thread_phase s th = Returning"
    using step by (auto split: if_splits)
  have "hold s' = hold s" using ph by (auto simp: hold_def s' fun_eq_iff split: phase.split)
  then show ?thesis using inv ph by (auto simp: free_ok_def conserved_def taken_def s')
qed

section \<open>Termination\<close>

lemma keeps_flag: "keeps s s' \<Longrightarrow> keeps s (taskScheduled t s')"
  using grows_flag [of "\<lambda>_. True" s' t] by (auto simp: grows_def intro: keeps_trans)

lemma scheduling_keeps:
  "CPUTask_scheduleTask f t s = Some s' \<Longrightarrow> keeps s s'"
  "CPUSheduler_sheduleTask f t s = Some s' \<Longrightarrow> keeps s s'"
  "Task_isAllParentsReady f t s = Some (b, s') \<Longrightarrow> keeps s s'"
  "check_parents f ps a s = Some (b, s') \<Longrightarrow> keeps s s'"
proof (induction f t s and f t s and f t s and f ps a s arbitrary: s' and s' and b s' and b s'
    rule: CPUTask_scheduleTask_CPUSheduler_sheduleTask_Task_isAllParentsReady_check_parents.induct)
  case (2 fuel own s)
  then show ?case by (cases "mTaskScheduled (tasks s own)") (auto intro: keeps_flag)
next
  case (3 fuel task s)
  show ?case
  proof (cases "mStopped s")
    case True
    then show ?thesis using 3(2) by simp
  next
    case False
    then obtain b s1 where rd: "Task_isAllParentsReady fuel task s = Some (b, s1)"
      using 3(2) by (auto split: option.splits)
    have "keeps s s1" by (rule 3(1) [OF False rd])
    moreover have "keeps s1 s'" using 3(2) False rd by (auto simp: keeps_def split: if_splits list.splits)
    ultimately show ?thesis by (rule keeps_trans)
  qed
next
  case (7 fuel task ps a s)
  then show ?case by (auto split: if_splits option.splits intro: keeps_trans)
qed simp_all

text \<open>The fuel has to exceed the rank of a task, the length of the longest chain of ancestors.\<close>

lemma scheduling_terminates:
  "acyclic_by r s \<Longrightarrow> r t < f \<Longrightarrow> CPUTask_scheduleTask f t s \<noteq> None"
  "acyclic_by r s \<Longrightarrow> r t \<le> f \<Longrightarrow> CPUSheduler_sheduleTask f t s \<noteq> None"
  "acyclic_by r s \<Longrightarrow> r t \<le> f \<Longrightarrow> Task_isAllParentsReady f t s \<noteq> None"
  "acyclic_by r s \<Longrightarrow> \<forall>p. Some p \<in> set ps \<longrightarrow> r p < f \<Longrightarrow> check_parents f ps a s \<noteq> None"
proof (induction f t s and f t s and f t s and f ps a s
    rule: CPUTask_scheduleTask_CPUSheduler_sheduleTask_Task_isAllParentsReady_check_parents.induct)
  case (3 fuel task s)
  then show ?case by (fastforce split: list.split)
next
  case (4 fuel task s)
  have "\<forall>p. Some p \<in> set (mParentTaskPtrArray (tasks s task)) \<longrightarrow> r p < fuel"
    using 4(2,3) by (fastforce simp: acyclic_by_def)
  with 4 show ?case by simp
next
  case (7 fuel task ps a s)
  consider "mFinished (tasks s task)" | "\<not> mFinished (tasks s task)" "mTaskScheduled (tasks s task)"
    | "\<not> mFinished (tasks s task)" "\<not> mTaskScheduled (tasks s task)" by blast
  then show ?case
  proof cases
    case 3
    then obtain s1 where s1: "CPUTask_scheduleTask fuel task s = Some s1" using 7(3,5,6) by auto
    have "acyclic_by r s1" using keeps_acyclic [OF scheduling_keeps(1) [OF s1]] 7(5) by simp
    then show ?thesis using 7(4) [OF 3 s1] 7(6) 3 s1 by simp
  qed (use 7 in simp_all)
qed simp_all

section \<open>Properties\<close>

text \<open>The start: no task is scheduled or finished.\<close>

definition fresh :: "(nat \<Rightarrow> Task) \<Rightarrow> bool" where
  "fresh ts = (\<forall>t. \<not> mTaskScheduled (ts t) \<and> \<not> mFinished (ts t))"

lemma CPUSheduler_new_simps [simp]:
  "tasks (CPUSheduler_new k ts) = ts" "ran (CPUSheduler_new k ts) = []" "hold (CPUSheduler_new k ts) th = None"
  "mPendingTasks (CPUSheduler_new k ts) = []" "mStopped (CPUSheduler_new k ts) = False"
  by (simp_all add: CPUSheduler_new_def hold_def)

lemma taken_new [simp]: "\<not> taken (CPUSheduler_new k ts) t"
  by (simp add: taken_def)

lemma sched_inv_new: "acyclic_by r (CPUSheduler_new k ts) \<Longrightarrow> fresh ts \<Longrightarrow> sched_inv r (CPUSheduler_new k ts)"
  by (simp add: sched_inv_def sched_ok_def uniq_def in_order_def fresh_def)

lemma reach_inv: "sched_reach fuel n s0 s \<Longrightarrow> sched_inv r s0 \<Longrightarrow> sched_inv r s"
  by (induction rule: sched_reach.induct) (auto intro: sched_inv_step)


text \<open>Scheduling a task always returns, with all its unfinished ancestors scheduled on the way, when the
  parents of tasks form no cycle: fuel above the rank of the task is enough.\<close>

theorem CPUTask_scheduleTask_terminates:
  assumes "acyclic_by r s" and "r t < fuel" and "\<not> mStopped s"
  shows "\<exists>s'. CPUTask_scheduleTask fuel t s = Some s' \<and> mTaskScheduled (tasks s' t)"
proof -
  obtain s' where s': "CPUTask_scheduleTask fuel t s = Some s'" using scheduling_terminates(1) [OF assms(1,2)] by auto
  moreover from this have "mTaskScheduled (tasks s' t)"
    by (cases fuel) (auto simp: taskScheduled_def split: if_splits)
  ultimately show ?thesis by blast
qed

text \<open>C28: As long as the workers of the free queue are waiting for their signal whenever a task can be placed,
  and the scheduler is not stopped, no task is lost: a scheduled task has run, is in the pending list, or
  is with a worker.\<close>

theorem CPUSheduler_no_task_lost:
  assumes "fresh ts" and "quiet_reach fuel n (CPUSheduler_new threadCount ts) s" and "mTaskScheduled (tasks s t)"
  shows "t \<in> set (ran s) \<or> t \<in> set (mPendingTasks s) \<or> (\<exists>th. hold s th = Some t)"
proof -
  have "free_ok s \<and> conserved s" using assms(2)
  proof (induction rule: quiet_reach.induct)
    case start
    show ?case using assms(1) by (simp add: free_ok_def conserved_def fresh_def CPUSheduler_new_def)
  next
    case (step s l s')
    then show ?case using quiet_step [of s l fuel n s'] by simp
  qed
  then show ?thesis using assms(3) by (auto simp: conserved_def taken_def)
qed

text \<open>
  One worker, two tasks without parents. While the worker is between \<open>getNextUndoneTask\<close>, which puts
  it into the free queue, and the assignment of the result, the second task is given to it.
\<close>

definition two_tasks :: "nat \<Rightarrow> Task" where
  "two_tasks t = Task_new [] False"

fun run_labels :: "label list \<Rightarrow> CPUSheduler \<Rightarrow> CPUSheduler option" where
  "run_labels [] s = Some s"
| "run_labels (l # ls) s = (case sched_step 2 3 l s of None \<Rightarrow> None | Some s' \<Rightarrow> run_labels ls s')"

lemma run_labels_reach:
  "sched_reach 2 3 s0 s \<Longrightarrow> run_labels ls s = Some s' \<Longrightarrow> sched_reach 2 3 s0 s'"
  by (induction ls arbitrary: s) (auto split: option.splits intro: sched_reach.step)

text \<open>C0: A task can be lost: \<open>getNextUndoneTask\<close> puts the worker into the free queue before its null result
  is assigned to \<open>mWaitingTask\<close>, and that assignment overwrites a task it is given in between. In a
  reachable state the second task is scheduled, but it has not run, is not pending and no worker has it.\<close>

theorem CPUSheduler_task_lost:
  "\<exists>s. sched_reach 2 3 (CPUSheduler_new 1 two_tasks) s \<and> mTaskScheduled (tasks s 1) \<and> 1 \<notin> set (ran s) \<and>
     1 \<notin> set (mPendingTasks s) \<and> (\<forall>th. hold s th \<noteq> Some 1) \<and> mFreeWorkerThreads s = []"
proof -
  let ?ls = "[Schedule 0, Run 0 (Some 0), Fetch 0, Schedule 1, Assign 0]"
  define s where "s = the (run_labels ?ls (CPUSheduler_new 1 two_tasks))"
  have r: "run_labels ?ls (CPUSheduler_new 1 two_tasks) = Some s"
    and s: "mTaskScheduled (tasks s 1)" "ran s = [0]" "mPendingTasks s = []" "mFreeWorkerThreads s = []"
      "hold s = (\<lambda>_. None)"
    by (simp_all add: s_def CPUSheduler_new_def two_tasks_def Task_new_def CPUShedulerThread_setNewTask_def
        taskScheduled_def Task_setTaskFinished_def CPUSheduler_getNextUndoneTask_def eval_nat_numeral hold_def fun_eq_iff)
  have "sched_reach 2 3 (CPUSheduler_new 1 two_tasks) s"
    by (rule run_labels_reach [OF sched_reach.start r])
  then show ?thesis using s by auto
qed

text \<open>Three tasks: the third needs the two others.\<close>

definition three_tasks :: "nat \<Rightarrow> Task" where
  "three_tasks t = Task_new (if t = 2 then [Some 0, Some 1] else []) False"

lemma three_tasks_acyclic: "acyclic_by (\<lambda>t. if t = 2 then 1 else 0) (CPUSheduler_new 1 three_tasks)"
  by (auto simp: acyclic_by_def three_tasks_def Task_new_def)

lemma three_tasks_fresh [simp]: "fresh three_tasks"
  by (simp add: fresh_def three_tasks_def Task_new_def)

definition three_done :: CPUSheduler where
  "three_done = the (run_labels [Schedule 2, Run 0 (Some 0), Fetch 0, Assign 0, Run 0 (Some 0), Fetch 0, Assign 0, Run 0 (Some 0)]
     (CPUSheduler_new 1 three_tasks))"

lemma three_run:
  "run_labels [Schedule 2, Run 0 (Some 0), Fetch 0, Assign 0, Run 0 (Some 0), Fetch 0, Assign 0, Run 0 (Some 0)]
     (CPUSheduler_new 1 three_tasks) = Some three_done" "ran three_done = [0, 1, 2]"
  by (simp_all add: three_done_def CPUSheduler_new_def three_tasks_def Task_new_def CPUShedulerThread_setNewTask_def
        taskScheduled_def Task_setTaskFinished_def CPUSheduler_getNextUndoneTask_def eval_nat_numeral)


lemma CPUTask_scheduleTask_terminates_witness:
  "\<exists>s'. CPUTask_scheduleTask 2 2 (CPUSheduler_new 1 three_tasks) = Some s' \<and> mTaskScheduled (tasks s' 2)"
  using CPUTask_scheduleTask_terminates [OF three_tasks_acyclic, of 2 2] by simp

lemma CPUSheduler_no_task_lost_witness:
  "\<exists>s. CPUTask_scheduleTask 2 2 (CPUSheduler_new 1 three_tasks) = Some s \<and>
     (2 \<in> set (ran s) \<or> 2 \<in> set (mPendingTasks s) \<or> (\<exists>th. hold s th = Some 2))"
proof -
  obtain s where s: "CPUTask_scheduleTask 2 2 (CPUSheduler_new 1 three_tasks) = Some s" "mTaskScheduled (tasks s 2)"
    by (simp add: CPUSheduler_new_def three_tasks_def Task_new_def taskScheduled_def CPUShedulerThread_setNewTask_def
        eval_nat_numeral)
  have "quiet (CPUSheduler_new 1 three_tasks)" by (simp add: quiet_def CPUSheduler_new_def)
  then have "quiet_reach 2 3 (CPUSheduler_new 1 three_tasks) s"
    using quiet_reach.step [OF quiet_reach.start, of "Schedule 2" "CPUSheduler_new 1 three_tasks" 2 3 s] s(1) by simp
  from CPUSheduler_no_task_lost [OF three_tasks_fresh this s(2)] s(1) show ?thesis by blast
qed

end
