(* ===== verification/Json.thy ===== *)
theory Json
  imports Prelude
begin

text \<open>
  JSON values as the node sees them through rapidjson: a document is a value of the datatype below,
  and the accessors are the documented ones: a getter on a value of another kind is a failed
  assertion, \<open>HasMember\<close> and \<open>operator[]\<close> look at the first member of the name.
  \<open>rapidjson_helper::checkMember\<close> belongs to the blockchain library and is a parameter of its users.
\<close>

datatype json =
    JNull
  | JBool bool
  | JInt int
  | JDouble
  | JStr string
  | JArr "json list"
  | JObj "(string \<times> json) list"

fun js_members :: "json \<Rightarrow> (string \<times> json) list" where
  "js_members (JObj ms) = ms"
| "js_members _ = []"

definition js_is_object :: "json \<Rightarrow> bool" where
  "js_is_object j = (case j of JObj _ \<Rightarrow> True | _ \<Rightarrow> False)"

definition js_is_string :: "json \<Rightarrow> bool" where
  "js_is_string j = (case j of JStr _ \<Rightarrow> True | _ \<Rightarrow> False)"

definition js_is_bool :: "json \<Rightarrow> bool" where
  "js_is_bool j = (case j of JBool _ \<Rightarrow> True | _ \<Rightarrow> False)"

text \<open>The integer getters are defined on the values their type holds only.\<close>

definition js_is_int :: "json \<Rightarrow> bool" where
  "js_is_int j = (case j of JInt i \<Rightarrow> - (2 ^ 31) \<le> i \<and> i < 2 ^ 31 | _ \<Rightarrow> False)"

definition js_is_uint :: "json \<Rightarrow> bool" where
  "js_is_uint j = (case j of JInt i \<Rightarrow> 0 \<le> i \<and> i < 2 ^ 32 | _ \<Rightarrow> False)"

definition js_is_int64 :: "json \<Rightarrow> bool" where
  "js_is_int64 j = (case j of JInt i \<Rightarrow> - (2 ^ 63) \<le> i \<and> i < 2 ^ 63 | _ \<Rightarrow> False)"

definition js_is_uint64 :: "json \<Rightarrow> bool" where
  "js_is_uint64 j = (case j of JInt i \<Rightarrow> 0 \<le> i \<and> i < 2 ^ 64 | _ \<Rightarrow> False)"

definition js_has :: "string \<Rightarrow> json \<Rightarrow> bool" where
  "js_has k j = (map_of (js_members j) k \<noteq> None)"

definition js_get :: "string \<Rightarrow> json \<Rightarrow> json result" where
  "js_get k j = (case map_of (js_members j) k of None \<Rightarrow> Inl AssertFailed | Some v \<Rightarrow> Inr v)"

definition js_string :: "json \<Rightarrow> string result" where
  "js_string j = (case j of JStr s \<Rightarrow> Inr s | _ \<Rightarrow> Inl AssertFailed)"

definition js_bool :: "json \<Rightarrow> bool result" where
  "js_bool j = (case j of JBool b \<Rightarrow> Inr b | _ \<Rightarrow> Inl AssertFailed)"

definition js_int :: "json \<Rightarrow> int result" where
  "js_int j = (case j of JInt i \<Rightarrow> if js_is_int j then Inr i else Inl AssertFailed | _ \<Rightarrow> Inl AssertFailed)"

definition js_int64 :: "json \<Rightarrow> int result" where
  "js_int64 j = (case j of JInt i \<Rightarrow> if js_is_int64 j then Inr i else Inl AssertFailed | _ \<Rightarrow> Inl AssertFailed)"

definition js_elements :: "json \<Rightarrow> json list result" where
  "js_elements j = (case j of JArr js \<Rightarrow> Inr js | _ \<Rightarrow> Inl AssertFailed)"

named_theorems json_simps \<open>evaluation of the accessors\<close>

lemma js_simps [simp, json_simps]:
  "js_string (JStr s) = Inr s" "js_bool (JBool b) = Inr b" "js_elements (JArr js) = Inr js"
  "js_is_object (JObj ms)" "js_is_string (JStr s)" "js_is_bool (JBool b)"
  by (simp_all add: js_string_def js_bool_def js_elements_def js_is_object_def js_is_string_def js_is_bool_def)

lemma js_int_JInt [simp, json_simps]:
  "- (2 ^ 31) \<le> i \<Longrightarrow> i < 2 ^ 31 \<Longrightarrow> js_int (JInt i) = Inr i"
  "- (2 ^ 63) \<le> i \<Longrightarrow> i < 2 ^ 63 \<Longrightarrow> js_int64 (JInt i) = Inr i"
  by (simp_all add: js_int_def js_int64_def js_is_int_def js_is_int64_def)

text \<open>What \<open>checkMember\<close> promises: it passes exactly the members of the asked kind.\<close>

datatype member_type = MT_STRING | MT_INTEGER | MT_OBJECT | MT_ARRAY | MT_BOOL

definition js_kind :: "member_type \<Rightarrow> json \<Rightarrow> bool" where
  "js_kind t j = (case t of
      MT_STRING \<Rightarrow> js_is_string j
    | MT_INTEGER \<Rightarrow> (case j of JInt _ \<Rightarrow> True | _ \<Rightarrow> False)
    | MT_OBJECT \<Rightarrow> js_is_object j
    | MT_ARRAY \<Rightarrow> (case j of JArr _ \<Rightarrow> True | _ \<Rightarrow> False)
    | MT_BOOL \<Rightarrow> js_is_bool j)"

type_synonym member_check = "json \<Rightarrow> string \<Rightarrow> member_type \<Rightarrow> unit result"

definition check_laws :: "member_check \<Rightarrow> bool" where
  "check_laws chk = (\<forall>j k t. is_ok (chk j k t) \<longleftrightarrow> (\<exists>v. map_of (js_members j) k = Some v \<and> js_kind t v))"

definition check_member :: member_check where
  "check_member j k t = (case map_of (js_members j) k of
      None \<Rightarrow> Inl (Gradido InvalidMember)
    | Some v \<Rightarrow> if js_kind t v then Inr () else Inl (Gradido InvalidMember))"

lemma check_laws_member [simp]: "check_laws check_member"
  by (auto simp: check_laws_def check_member_def is_ok_def split: option.splits)

lemma check_ok:
  assumes "check_laws chk" "map_of (js_members j) k = Some v" "js_kind t v"
  shows "chk j k t = Inr ()"
proof -
  from assms have "is_ok (chk j k t)" by (simp add: check_laws_def)
  then show ?thesis by (cases "chk j k t") auto
qed

lemma check_fails:
  assumes "check_laws chk" "map_of (js_members j) k = None"
  shows "\<exists>e. chk j k t = Inl e"
proof -
  from assms have "\<not> is_ok (chk j k t)" by (simp add: check_laws_def)
  then show ?thesis by (cases "chk j k t") auto
qed

end
