(* ===== verification/Hiero.thy ===== *)
theory Hiero
  imports Json
begin

text \<open>
  The message classes of \<open>src/hiero\<close>: each is built from a decoded protobuf message and gives one back
  (\<open>getMessage\<close>), some are built from the JSON of the mirror node as well. A protobuf message is the
  record of its fields, a singular field an option and a repeated one a list, as protopuf gives them.
  Timestamps, identifiers and their encodings (nested messages of type \<open>'m\<close>) belong to the blockchain
  library: the parameter \<open>L\<close>, with what it promises in \<open>hiero_lib_laws\<close>.
\<close>

named_theorems hiero_simps \<open>the message classes under the laws of the library\<close>

section \<open>The library\<close>

text \<open>
  \<open>ts_of s n\<close> is \<open>Timestamp(s, n)\<close>, \<open>ts_enc s n\<close> the message \<open>TimestampMessage{s, n}\<close>; \<open>_dec\<close> and
  \<open>_enc\<close> are the deserialising and serialising roles, \<open>_empty\<close> the members \<open>empty()\<close>.
\<close>

record ('t, 'i, 'a, 'p, 'm) hiero_lib =
  ts_of :: "int \<Rightarrow> int \<Rightarrow> 't"
  ts_seconds :: "'t \<Rightarrow> int"
  ts_nanos :: "'t \<Rightarrow> int"
  ts_enc :: "int \<Rightarrow> int \<Rightarrow> 'm"
  ts_dec :: "'m \<Rightarrow> 't"
  tid_none :: 'i
  tid_of :: "'t \<Rightarrow> 'a \<Rightarrow> int \<Rightarrow> bool \<Rightarrow> 'i"
  tid_empty :: "'i \<Rightarrow> bool"
  tid_enc :: "'i \<Rightarrow> 'm"
  tid_dec :: "'m \<Rightarrow> 'i"
  acc_none :: 'a
  acc_of :: "string \<Rightarrow> 'a result"
  acc_empty :: "'a \<Rightarrow> bool"
  acc_enc :: "'a \<Rightarrow> 'm"
  acc_dec :: "'m \<Rightarrow> 'a"
  top_none :: 'p
  top_empty :: "'p \<Rightarrow> bool"
  top_enc :: "'p \<Rightarrow> 'm"
  top_dec :: "'m \<Rightarrow> 'p"
  b64_dec :: "string \<Rightarrow> bytes result"
  hex_dec :: "string \<Rightarrow> bytes result"

definition hiero_lib_laws :: "('t, 'i, 'a, 'p, 'm) hiero_lib \<Rightarrow> bool" where
  "hiero_lib_laws L =
     ((\<forall>t. ts_dec L (ts_enc L (ts_seconds L t) (ts_nanos L t)) = t) \<and>
      (\<forall>t. ts_of L (ts_seconds L t) (ts_nanos L t) = t) \<and>
      (\<forall>i. tid_dec L (tid_enc L i) = i) \<and> (\<forall>a. acc_dec L (acc_enc L a) = a) \<and> (\<forall>p. top_dec L (top_enc L p) = p) \<and>
      (\<forall>i. tid_empty L i \<longleftrightarrow> i = tid_none L) \<and> (\<forall>a. acc_empty L a \<longleftrightarrow> a = acc_none L) \<and> (\<forall>p. top_empty L p \<longleftrightarrow> p = top_none L))"

lemma hiero_lib_lawsD [hiero_simps]:
  assumes "hiero_lib_laws L"
  shows "ts_dec L (ts_enc L (ts_seconds L t) (ts_nanos L t)) = t" "ts_of L (ts_seconds L t) (ts_nanos L t) = t"
    and "tid_dec L (tid_enc L i) = i" "acc_dec L (acc_enc L a) = a" "top_dec L (top_enc L p) = p"
    and "tid_empty L i \<longleftrightarrow> i = tid_none L" "acc_empty L a \<longleftrightarrow> a = acc_none L" "top_empty L p \<longleftrightarrow> p = top_none L"
  using assms by (simp_all add: hiero_lib_laws_def)

section \<open>rapidjson.cpp\<close>

text \<open>\<open>strtol\<close> has 64 bits on the targets of the node.\<close>

definition timestampFromJson :: "('t, 'i, 'a, 'p, 'm) hiero_lib \<Rightarrow> json \<Rightarrow> 't result" where
  "timestampFromJson L value =
     bindR (js_string value) (\<lambda>str.
       let secondsString = takeWhile (\<lambda>c. c \<noteq> CHR ''.'') str in
       if length secondsString = length str then Inl (Gradido InvalidData)
       else Inr (ts_of L (strtoll secondsString) (strtoll (drop (length secondsString + 1) str))))"

section \<open>ConsensusMessageChunkInfo\<close>

record 'i ConsensusMessageChunkInfo =
  mInitialTransactionID :: 'i
  mTotal :: int
  mNumber :: int

record 'm ConsensusMessageChunkInfoMessage =
  ci_initialTransactionID :: "'m option"
  ci_total :: "int option"
  ci_number :: "int option"

definition ConsensusMessageChunkInfo_new :: "('t, 'i, 'a, 'p, 'm) hiero_lib \<Rightarrow> 'i ConsensusMessageChunkInfo" where
  "ConsensusMessageChunkInfo_new L = \<lparr>mInitialTransactionID = tid_none L, mTotal = 0, mNumber = 0\<rparr>"

definition ConsensusMessageChunkInfo_empty :: "('t, 'i, 'a, 'p, 'm) hiero_lib \<Rightarrow> 'i ConsensusMessageChunkInfo \<Rightarrow> bool" where
  "ConsensusMessageChunkInfo_empty L ci = tid_empty L (mInitialTransactionID ci)"

definition ConsensusMessageChunkInfo_of_message ::
    "('t, 'i, 'a, 'p, 'm) hiero_lib \<Rightarrow> 'm ConsensusMessageChunkInfoMessage \<Rightarrow> 'i ConsensusMessageChunkInfo result" where
  "ConsensusMessageChunkInfo_of_message L m =
     bindR (opt_value (ci_initialTransactionID m)) (\<lambda>i.
     bindR (opt_value (ci_total m)) (\<lambda>t.
     bindR (opt_value (ci_number m)) (\<lambda>n.
       Inr \<lparr>mInitialTransactionID = tid_dec L i, mTotal = t, mNumber = n\<rparr>)))"

definition ConsensusMessageChunkInfo_getMessage ::
    "('t, 'i, 'a, 'p, 'm) hiero_lib \<Rightarrow> 'i ConsensusMessageChunkInfo \<Rightarrow> 'm ConsensusMessageChunkInfoMessage" where
  "ConsensusMessageChunkInfo_getMessage L ci =
     \<lparr>ci_initialTransactionID = Some (tid_enc L (mInitialTransactionID ci)), ci_total = Some (mTotal ci),
      ci_number = Some (mNumber ci)\<rparr>"

text \<open>
  From the JSON of the mirror node. The constructor reads \<open>number\<close> into both counters.
\<close>

definition json_initialTransactionId ::
    "('t, 'i, 'a, 'p, 'm) hiero_lib \<Rightarrow> member_check \<Rightarrow> json \<Rightarrow> 'i result" where
  "json_initialTransactionId L chk j =
     bindR (chk j ''account_id'' MT_STRING) (\<lambda>_.
     bindR (chk j ''nonce'' MT_INTEGER) (\<lambda>_.
     bindR (chk j ''transaction_valid_start'' MT_STRING) (\<lambda>_.
     bindR (bindR (bindR (js_get ''account_id'' j) js_string) (acc_of L)) (\<lambda>accountId.
     bindR (bindR (js_get ''transaction_valid_start'' j) (timestampFromJson L)) (\<lambda>start.
     bindR (bindR (js_get ''nonce'' j) js_int) (\<lambda>nonce.
       Inr (tid_of L start accountId nonce (map_of (js_members j) ''scheduled'' = Some (JBool True)))))))))"

definition ConsensusMessageChunkInfo_of_json ::
    "('t, 'i, 'a, 'p, 'm) hiero_lib \<Rightarrow> member_check \<Rightarrow> json \<Rightarrow> 'i ConsensusMessageChunkInfo result" where
  "ConsensusMessageChunkInfo_of_json L chk j =
     bindR (case map_of (js_members j) ''initial_transaction_id'' of
              Some obj \<Rightarrow> if js_is_object obj then json_initialTransactionId L chk obj else Inr (tid_none L)
            | None \<Rightarrow> Inr (tid_none L)) (\<lambda>i.
     bindR (chk j ''number'' MT_INTEGER) (\<lambda>_.
     bindR (chk j ''total'' MT_INTEGER) (\<lambda>_.
     bindR (bindR (js_get ''number'' j) js_int) (\<lambda>n.
     bindR (bindR (js_get ''number'' j) js_int) (\<lambda>t.
       Inr \<lparr>mInitialTransactionID = i, mTotal = t, mNumber = n\<rparr>)))))"

section \<open>ConsensusTopicResponse\<close>

record ('t, 'i) ConsensusTopicResponse =
  mConsensusTimestamp :: 't
  mMessage :: "bytes option"
  mRunningHash :: "bytes option"
  mSequenceNumber :: u64
  mRunningHashVersion :: u64
  mChunkInfo :: "'i ConsensusMessageChunkInfo"

record 'm ConsensusTopicResponseMessage =
  tr_consensusTimestamp :: "'m option"
  tr_message :: "bytes option"
  tr_runningHash :: "bytes option"
  tr_sequenceNumber :: "u64 option"
  tr_runningHashVersion :: "u64 option"
  tr_chunkInfo :: "'m ConsensusMessageChunkInfoMessage option"

definition ConsensusTopicResponse_of_message ::
    "('t, 'i, 'a, 'p, 'm) hiero_lib \<Rightarrow> 'm ConsensusTopicResponseMessage \<Rightarrow> ('t, 'i) ConsensusTopicResponse result" where
  "ConsensusTopicResponse_of_message L m =
     bindR (opt_value (tr_consensusTimestamp m)) (\<lambda>t.
     bindR (opt_value (tr_message m)) (\<lambda>msg.
     bindR (case tr_runningHash m of None \<Rightarrow> Inr (None, 0)
            | Some h \<Rightarrow> bindR (opt_value (tr_runningHashVersion m)) (\<lambda>v. Inr (Some h, v))) (\<lambda>(hash, version).
     bindR (case tr_chunkInfo m of None \<Rightarrow> Inr (ConsensusMessageChunkInfo_new L)
            | Some c \<Rightarrow> ConsensusMessageChunkInfo_of_message L c) (\<lambda>ci.
       Inr \<lparr>mConsensusTimestamp = ts_dec L t, mMessage = Some msg, mRunningHash = hash,
            mSequenceNumber = (case tr_sequenceNumber m of None \<Rightarrow> 0 | Some n \<Rightarrow> n),
            mRunningHashVersion = version, mChunkInfo = ci\<rparr>))))"

definition ConsensusTopicResponse_of_json ::
    "('t, 'i, 'a, 'p, 'm) hiero_lib \<Rightarrow> member_check \<Rightarrow> json \<Rightarrow> ('t, 'i) ConsensusTopicResponse result" where
  "ConsensusTopicResponse_of_json L chk j =
     bindR (chk j ''consensus_timestamp'' MT_STRING) (\<lambda>_.
     bindR (chk j ''message'' MT_STRING) (\<lambda>_.
     bindR (chk j ''running_hash'' MT_STRING) (\<lambda>_.
     bindR (chk j ''running_hash_version'' MT_INTEGER) (\<lambda>_.
     bindR (chk j ''sequence_number'' MT_INTEGER) (\<lambda>_.
     bindR (bindR (js_get ''consensus_timestamp'' j) (timestampFromJson L)) (\<lambda>t.
     bindR (bindR (bindR (js_get ''message'' j) js_string) (b64_dec L)) (\<lambda>msg.
     bindR (bindR (bindR (js_get ''running_hash'' j) js_string) (b64_dec L)) (\<lambda>hash.
     bindR (bindR (js_get ''running_hash_version'' j) js_int) (\<lambda>version.
     bindR (bindR (js_get ''sequence_number'' j) js_int64) (\<lambda>nr.
     bindR (case map_of (js_members j) ''chunk_info'' of
              Some obj \<Rightarrow> if js_is_object obj then ConsensusMessageChunkInfo_of_json L chk obj else Inr (ConsensusMessageChunkInfo_new L)
            | None \<Rightarrow> Inr (ConsensusMessageChunkInfo_new L)) (\<lambda>ci.
       Inr \<lparr>mConsensusTimestamp = t, mMessage = Some msg, mRunningHash = Some hash, mSequenceNumber = word_of_int nr,
            mRunningHashVersion = word_of_int version, mChunkInfo = ci\<rparr>)))))))))))"

text \<open>A response without a message or a running hash holds a null pointer there.\<close>

definition ConsensusTopicResponse_getMessage ::
    "('t, 'i, 'a, 'p, 'm) hiero_lib \<Rightarrow> ('t, 'i) ConsensusTopicResponse \<Rightarrow> 'm ConsensusTopicResponseMessage result" where
  "ConsensusTopicResponse_getMessage L r =
     (case mMessage r of None \<Rightarrow> Inl UndefinedBehaviour
      | Some msg \<Rightarrow>
     (case mRunningHash r of None \<Rightarrow> Inl UndefinedBehaviour
      | Some hash \<Rightarrow>
       Inr \<lparr>tr_consensusTimestamp = Some (ts_enc L (ts_seconds L (mConsensusTimestamp r)) (ts_nanos L (mConsensusTimestamp r))),
            tr_message = Some msg,
            tr_runningHash = (if hash \<noteq> [] then Some hash else None),
            tr_sequenceNumber = (if mSequenceNumber r \<noteq> 0 then Some (mSequenceNumber r) else None),
            tr_runningHashVersion = (if hash \<noteq> [] then Some (mRunningHashVersion r) else None),
            tr_chunkInfo = (if ConsensusMessageChunkInfo_empty L (mChunkInfo r) then None
                            else Some (ConsensusMessageChunkInfo_getMessage L (mChunkInfo r)))\<rparr>))"

definition ConsensusTopicResponse_isMessageSame ::
    "('t, 'i) ConsensusTopicResponse \<Rightarrow> ('t, 'i) ConsensusTopicResponse \<Rightarrow> bool result" where
  "ConsensusTopicResponse_isMessageSame r other =
     (case (mMessage r, mMessage other) of
        (Some a, Some b) \<Rightarrow> Inr (a = b)
      | _ \<Rightarrow> Inl UndefinedBehaviour)"

section \<open>Service endpoints and the address book\<close>

record ServiceEndpoint =
  mIpAddressV4 :: bytes
  mPort :: int
  mDomainName :: string

record ServiceEndpointMessage =
  se_ipAddressV4 :: "bytes option"
  se_port :: "int option"
  se_domain_name :: "string option"

definition ServiceEndpoint_of_message :: "ServiceEndpointMessage \<Rightarrow> ServiceEndpoint result" where
  "ServiceEndpoint_of_message m =
     bindR (case se_ipAddressV4 m of
              Some ip \<Rightarrow> Inr (ip, [])
            | None \<Rightarrow> bindR (opt_value (se_domain_name m)) (\<lambda>d. Inr ([], d))) (\<lambda>(ip, d).
     bindR (opt_value (se_port m)) (\<lambda>port.
       Inr \<lparr>mIpAddressV4 = ip, mPort = port, mDomainName = d\<rparr>))"

definition ServiceEndpoint_getMessage :: "ServiceEndpoint \<Rightarrow> ServiceEndpointMessage" where
  "ServiceEndpoint_getMessage e =
     \<lparr>se_ipAddressV4 = (if mIpAddressV4 e \<noteq> [] then Some (mIpAddressV4 e) else None), se_port = Some (mPort e),
      se_domain_name = (if mIpAddressV4 e \<noteq> [] then None else Some (mDomainName e))\<rparr>"

fun dotted :: "bytes \<Rightarrow> string" where
  "dotted [] = []"
| "dotted [b] = to_string (unat b)"
| "dotted (b # bs) = to_string (unat b) @ CHR ''.'' # dotted bs"

definition ServiceEndpoint_getIpAddressV4String :: "ServiceEndpoint \<Rightarrow> string result" where
  "ServiceEndpoint_getIpAddressV4String e =
     (if length (mIpAddressV4 e) = 4 then Inr (dotted (mIpAddressV4 e)) else Inl (Gradido InvalidData))"

definition ServiceEndpoint_getConnectionString :: "ServiceEndpoint \<Rightarrow> string result" where
  "ServiceEndpoint_getConnectionString e =
     bindR (if mIpAddressV4 e \<noteq> [] then ServiceEndpoint_getIpAddressV4String e else Inr (mDomainName e)) (\<lambda>url.
       Inr (url @ CHR '':'' # to_string_int (mPort e)))"

record 'a NodeAddress =
  mRsaPubkey :: string
  mNodeId :: int
  mNodeAccountId :: 'a
  mNodeCertHash :: "bytes option"
  mServiceEndpoint :: "ServiceEndpoint list"
  mDescription :: string

record 'm NodeAddressMessage =
  na_RSA_Pubkey :: "string option"
  na_nodeId :: "int option"
  na_nodeAccountId :: "'m option"
  na_nodeCertHash :: "bytes option"
  na_serviceEndpoint :: "ServiceEndpointMessage list"
  na_description :: "string option"

text \<open>The certificate hash comes as the bytes of a hexadecimal text.\<close>

definition NodeAddress_of_message ::
    "('t, 'i, 'a, 'p, 'm) hiero_lib \<Rightarrow> 'm NodeAddressMessage \<Rightarrow> 'a NodeAddress result" where
  "NodeAddress_of_message L m =
     bindR (opt_value (na_RSA_Pubkey m)) (\<lambda>key.
     bindR (opt_value (na_nodeAccountId m)) (\<lambda>acc.
     bindR (opt_value (na_nodeCertHash m)) (\<lambda>hash.
     bindR (hex_dec L (map (\<lambda>b. char_of (unat b)) hash)) (\<lambda>cert.
     bindR (mapR ServiceEndpoint_of_message (na_serviceEndpoint m)) (\<lambda>eps.
     bindR (opt_value (na_description m)) (\<lambda>d.
       Inr \<lparr>mRsaPubkey = key, mNodeId = (case na_nodeId m of None \<Rightarrow> 0 | Some n \<Rightarrow> n), mNodeAccountId = acc_dec L acc,
            mNodeCertHash = Some cert, mServiceEndpoint = eps, mDescription = d\<rparr>))))))"

text \<open>
  \<open>getMessage\<close> assigns the account through \<open>value()\<close> of a field that is still empty.
\<close>

definition NodeAddress_getMessage ::
    "('t, 'i, 'a, 'p, 'm) hiero_lib \<Rightarrow> 'a NodeAddress \<Rightarrow> 'm NodeAddressMessage result" where
  "NodeAddress_getMessage L n =
     (let message = \<lparr>na_RSA_Pubkey = Some (mRsaPubkey n),
                     na_nodeId = (if mNodeId n \<noteq> 0 then Some (mNodeId n) else None),
                     na_nodeAccountId = None, na_nodeCertHash = None, na_serviceEndpoint = [], na_description = None\<rparr>
      in bindR (opt_value (na_nodeAccountId message)) (\<lambda>_.
         case mNodeCertHash n of
           None \<Rightarrow> Inl UndefinedBehaviour
         | Some hash \<Rightarrow>
             Inr (message\<lparr>na_nodeAccountId := Some (acc_enc L (mNodeAccountId n)), na_nodeCertHash := Some hash,
                          na_serviceEndpoint := map ServiceEndpoint_getMessage (mServiceEndpoint n),
                          na_description := Some (mDescription n)\<rparr>)))"

text \<open>\<open>rand() % size\<close>: a division by zero on an empty list. \<open>r\<close> is the value of \<open>rand()\<close>.\<close>

definition NodeAddress_pickRandomEndpoint :: "nat \<Rightarrow> 'a NodeAddress \<Rightarrow> ServiceEndpoint result" where
  "NodeAddress_pickRandomEndpoint r n =
     (if mServiceEndpoint n = [] then Inl UndefinedBehaviour
      else Inr (mServiceEndpoint n ! (r mod length (mServiceEndpoint n))))"

record 'a NodeAddressBook =
  mNodeAddresses :: "'a NodeAddress list"

definition NodeAddressBook_of_message ::
    "('t, 'i, 'a, 'p, 'm) hiero_lib \<Rightarrow> 'm NodeAddressMessage list \<Rightarrow> 'a NodeAddressBook result" where
  "NodeAddressBook_of_message L ms =
     bindR (mapR (NodeAddress_of_message L) ms) (\<lambda>ns. Inr \<lparr>mNodeAddresses = ns\<rparr>)"

definition NodeAddressBook_getMessage ::
    "('t, 'i, 'a, 'p, 'm) hiero_lib \<Rightarrow> 'a NodeAddressBook \<Rightarrow> 'm NodeAddressMessage list result" where
  "NodeAddressBook_getMessage L b = mapR (NodeAddress_getMessage L) (mNodeAddresses b)"

definition NodeAddressBook_pickRandomNode :: "nat \<Rightarrow> 'a NodeAddressBook \<Rightarrow> 'a NodeAddress result" where
  "NodeAddressBook_pickRandomNode r b =
     (if mNodeAddresses b = [] then Inl UndefinedBehaviour
      else Inr (mNodeAddresses b ! (r mod length (mNodeAddresses b))))"

text \<open>
  \<open>Addressbook::load\<close>: the content of the file, if it can be opened, decoded by protopuf (\<open>dec\<close>).
\<close>

definition Addressbook_load ::
    "('t, 'i, 'a, 'p, 'm) hiero_lib \<Rightarrow> (bytes \<Rightarrow> 'm NodeAddressMessage list option) \<Rightarrow> bytes option
       \<Rightarrow> 'a NodeAddressBook result" where
  "Addressbook_load L dec content =
     (case content of
        None \<Rightarrow> Inl (Gradido FileNotFound)
      | Some buffer \<Rightarrow>
          (case dec buffer of
             None \<Rightarrow> Inl (Gradido InvalidData)
           | Some message \<Rightarrow> NodeAddressBook_of_message L message))"

definition Addressbook_pickRandomEndpoint :: "nat \<Rightarrow> nat \<Rightarrow> 'a NodeAddressBook \<Rightarrow> ServiceEndpoint result" where
  "Addressbook_pickRandomEndpoint r1 r2 b =
     bindR (NodeAddressBook_pickRandomNode r1 b) (NodeAddress_pickRandomEndpoint r2)"

section \<open>Queries\<close>

datatype ResponseType = ANSWER_ONLY | ANSWER_STATE_PROOF | COST_ANSWER | COST_ANSWER_STATE_PROOF

text \<open>A query header is its response type, in its message an option; so are the two queries below.\<close>

record QueryHeader =
  mResponseType :: ResponseType

definition QueryHeader_of_message :: "ResponseType option \<Rightarrow> QueryHeader result" where
  "QueryHeader_of_message m = bindR (opt_value m) (\<lambda>t. Inr \<lparr>mResponseType = t\<rparr>)"

definition QueryHeader_getMessage :: "QueryHeader \<Rightarrow> ResponseType option" where
  "QueryHeader_getMessage h = Some (mResponseType h)"

record 'i TransactionGetReceiptQuery =
  mHeader_Receipt :: QueryHeader
  mTransactionId :: 'i
  mIncludeDuplicates :: bool
  mIncludeChildReceipts :: bool

record 'm TransactionGetReceiptQueryMessage =
  rq_header :: "ResponseType option option"
  rq_transactionID :: "'m option"
  rq_includeDuplicates :: "bool option"
  rq_include_child_receipts :: "bool option"

definition TransactionGetReceiptQuery_of_message ::
    "('t, 'i, 'a, 'p, 'm) hiero_lib \<Rightarrow> 'm TransactionGetReceiptQueryMessage \<Rightarrow> 'i TransactionGetReceiptQuery result" where
  "TransactionGetReceiptQuery_of_message L m =
     bindR (bindR (opt_value (rq_header m)) QueryHeader_of_message) (\<lambda>h.
     bindR (opt_value (rq_transactionID m)) (\<lambda>i.
     bindR (opt_value (rq_includeDuplicates m)) (\<lambda>dup.
     bindR (opt_value (rq_include_child_receipts m)) (\<lambda>child.
       Inr \<lparr>mHeader_Receipt = h, mTransactionId = tid_dec L i, mIncludeDuplicates = dup, mIncludeChildReceipts = child\<rparr>))))"

definition TransactionGetReceiptQuery_getMessage ::
    "('t, 'i, 'a, 'p, 'm) hiero_lib \<Rightarrow> 'i TransactionGetReceiptQuery \<Rightarrow> 'm TransactionGetReceiptQueryMessage" where
  "TransactionGetReceiptQuery_getMessage L q =
     \<lparr>rq_header = Some (QueryHeader_getMessage (mHeader_Receipt q)), rq_transactionID = Some (tid_enc L (mTransactionId q)),
      rq_includeDuplicates = Some (mIncludeDuplicates q), rq_include_child_receipts = Some (mIncludeChildReceipts q)\<rparr>"

record 'p ConsensusGetTopicInfoQuery =
  mHeader_Info :: QueryHeader
  mTopicId_Info :: 'p

record 'm ConsensusGetTopicInfoQueryMessage =
  iq_header :: "ResponseType option option"
  iq_topicID :: "'m option"

definition ConsensusGetTopicInfoQuery_of_message ::
    "('t, 'i, 'a, 'p, 'm) hiero_lib \<Rightarrow> 'm ConsensusGetTopicInfoQueryMessage \<Rightarrow> 'p ConsensusGetTopicInfoQuery result" where
  "ConsensusGetTopicInfoQuery_of_message L m =
     bindR (bindR (opt_value (iq_header m)) QueryHeader_of_message) (\<lambda>h.
     bindR (opt_value (iq_topicID m)) (\<lambda>p.
       Inr \<lparr>mHeader_Info = h, mTopicId_Info = top_dec L p\<rparr>))"

definition ConsensusGetTopicInfoQuery_getMessage ::
    "('t, 'i, 'a, 'p, 'm) hiero_lib \<Rightarrow> 'p ConsensusGetTopicInfoQuery \<Rightarrow> 'm ConsensusGetTopicInfoQueryMessage" where
  "ConsensusGetTopicInfoQuery_getMessage L q =
     \<lparr>iq_header = Some (QueryHeader_getMessage (mHeader_Info q)), iq_topicID = Some (top_enc L (mTopicId_Info q))\<rparr>"

text \<open>The two pointers of \<open>Query\<close>; its message has a field for each, and the receipt query comes first.\<close>

record ('i, 'p) Query =
  mTransactionGetReceiptQuery :: "'i TransactionGetReceiptQuery option"
  mConsensusGetTopicInfoQuery :: "'p ConsensusGetTopicInfoQuery option"

record 'm QueryMessage =
  q_transactionGetReceipt :: "'m TransactionGetReceiptQueryMessage option"
  q_consensusGetTopicInfo :: "'m ConsensusGetTopicInfoQueryMessage option"

definition Query_of_message :: "('t, 'i, 'a, 'p, 'm) hiero_lib \<Rightarrow> 'm QueryMessage \<Rightarrow> ('i, 'p) Query result" where
  "Query_of_message L m =
     (case q_transactionGetReceipt m of
        Some r \<Rightarrow> bindR (TransactionGetReceiptQuery_of_message L r) (\<lambda>q.
                  Inr \<lparr>mTransactionGetReceiptQuery = Some q, mConsensusGetTopicInfoQuery = None\<rparr>)
      | None \<Rightarrow>
     (case q_consensusGetTopicInfo m of
        Some i \<Rightarrow> bindR (ConsensusGetTopicInfoQuery_of_message L i) (\<lambda>q.
                  Inr \<lparr>mTransactionGetReceiptQuery = None, mConsensusGetTopicInfoQuery = Some q\<rparr>)
      | None \<Rightarrow> Inr \<lparr>mTransactionGetReceiptQuery = None, mConsensusGetTopicInfoQuery = None\<rparr>))"

definition Query_getMessage :: "('t, 'i, 'a, 'p, 'm) hiero_lib \<Rightarrow> ('i, 'p) Query \<Rightarrow> 'm QueryMessage" where
  "Query_getMessage L q =
     (case mTransactionGetReceiptQuery q of
        Some r \<Rightarrow> \<lparr>q_transactionGetReceipt = Some (TransactionGetReceiptQuery_getMessage L r), q_consensusGetTopicInfo = None\<rparr>
      | None \<Rightarrow> \<lparr>q_transactionGetReceipt = None,
                 q_consensusGetTopicInfo = map_option (ConsensusGetTopicInfoQuery_getMessage L) (mConsensusGetTopicInfoQuery q)\<rparr>)"

record ('t, 'p) ConsensusTopicQuery =
  mTopicId_Query :: 'p
  mConsensusStartTime :: 't
  mConsensusEndTime :: 't
  mLimit :: u64

record 'm ConsensusTopicQueryMessage =
  tq_topicID :: "'m option"
  tq_consensusStartTime :: "'m option"
  tq_consensusEndTime :: "'m option"
  tq_limit :: "u64 option"

definition ConsensusTopicQuery_of_message ::
    "('t, 'i, 'a, 'p, 'm) hiero_lib \<Rightarrow> 'm ConsensusTopicQueryMessage \<Rightarrow> ('t, 'p) ConsensusTopicQuery result" where
  "ConsensusTopicQuery_of_message L m =
     bindR (opt_value (tq_topicID m)) (\<lambda>p.
     bindR (opt_value (tq_consensusStartTime m)) (\<lambda>s.
     bindR (opt_value (tq_consensusEndTime m)) (\<lambda>e.
     bindR (opt_value (tq_limit m)) (\<lambda>l.
       Inr \<lparr>mTopicId_Query = top_dec L p, mConsensusStartTime = ts_dec L s, mConsensusEndTime = ts_dec L e, mLimit = l\<rparr>))))"

definition ConsensusTopicQuery_getMessage ::
    "('t, 'i, 'a, 'p, 'm) hiero_lib \<Rightarrow> ('t, 'p) ConsensusTopicQuery \<Rightarrow> 'm ConsensusTopicQueryMessage" where
  "ConsensusTopicQuery_getMessage L q =
     \<lparr>tq_topicID = Some (top_enc L (mTopicId_Query q)),
      tq_consensusStartTime = Some (ts_enc L (ts_seconds L (mConsensusStartTime q)) (ts_nanos L (mConsensusStartTime q))),
      tq_consensusEndTime = Some (ts_enc L (ts_seconds L (mConsensusEndTime q)) (ts_nanos L (mConsensusEndTime q))),
      tq_limit = Some (mLimit q)\<rparr>"

section \<open>Responses\<close>

text \<open>A response code is the number of its \<open>enum\<close> value; \<open>OK\<close> is 0 in \<open>ResponseCodeEnum.h\<close>.\<close>

record ResponseHeader =
  mNodeTransactionPrecheckCode :: int
  mResponseType_Response :: ResponseType
  mCost :: u64
  mStateProof :: "bytes option"

record ResponseHeaderMessage =
  rh_nodeTransactionPrecheckCode :: "int option"
  rh_responseType :: "ResponseType option"
  rh_cost :: "u64 option"
  rh_stateProof :: "bytes option"

definition ResponseHeader_of_message :: "ResponseHeaderMessage \<Rightarrow> ResponseHeader result" where
  "ResponseHeader_of_message m =
     bindR (opt_value (rh_nodeTransactionPrecheckCode m)) (\<lambda>c.
     bindR (opt_value (rh_responseType m)) (\<lambda>t.
     bindR (opt_value (rh_cost m)) (\<lambda>cost.
       Inr \<lparr>mNodeTransactionPrecheckCode = c, mResponseType_Response = t, mCost = cost, mStateProof = rh_stateProof m\<rparr>)))"

definition ResponseHeader_getMessage :: "ResponseHeader \<Rightarrow> ResponseHeaderMessage" where
  "ResponseHeader_getMessage h =
     \<lparr>rh_nodeTransactionPrecheckCode = Some (mNodeTransactionPrecheckCode h),
      rh_responseType = Some (mResponseType_Response h), rh_cost = Some (mCost h), rh_stateProof = mStateProof h\<rparr>"

record ('a, 'p) TransactionReceipt =
  mStatus :: int
  mAccountID :: 'a
  mTopicID :: 'p
  mTopicSequenceNumber :: u64
  mTopicRunningHash :: "bytes option"
  mTopicRunningHashVersion :: u64

record 'm TransactionReceiptMessage =
  rc_status :: "int option"
  rc_accountID :: "'m option"
  rc_topicID :: "'m option"
  rc_topicSequenceNumber :: "u64 option"
  rc_topicRunningHash :: "bytes option"
  rc_topicRunningHashVersion :: "u64 option"

text \<open>
  The constructor does not initialise the two numbers of a receipt: \<open>junk\<close> and \<open>junk2\<close> are what the
  memory held before.
\<close>

definition TransactionReceipt_of_message ::
    "('t, 'i, 'a, 'p, 'm) hiero_lib \<Rightarrow> u64 \<Rightarrow> u64 \<Rightarrow> 'm TransactionReceiptMessage \<Rightarrow> ('a, 'p) TransactionReceipt result" where
  "TransactionReceipt_of_message L junk junk2 m =
     bindR (opt_value (rc_status m)) (\<lambda>status.
       Inr \<lparr>mStatus = status,
            mAccountID = (case rc_accountID m of None \<Rightarrow> acc_none L | Some a \<Rightarrow> acc_dec L a),
            mTopicID = (case rc_topicID m of None \<Rightarrow> top_none L | Some p \<Rightarrow> top_dec L p),
            mTopicSequenceNumber = (case rc_topicSequenceNumber m of None \<Rightarrow> junk | Some n \<Rightarrow> n),
            mTopicRunningHash = rc_topicRunningHash m,
            mTopicRunningHashVersion = (case rc_topicRunningHashVersion m of None \<Rightarrow> junk2 | Some n \<Rightarrow> n)\<rparr>)"

definition TransactionReceipt_getMessage ::
    "('t, 'i, 'a, 'p, 'm) hiero_lib \<Rightarrow> ('a, 'p) TransactionReceipt \<Rightarrow> 'm TransactionReceiptMessage" where
  "TransactionReceipt_getMessage L r =
     \<lparr>rc_status = Some (mStatus r),
      rc_accountID = (if acc_empty L (mAccountID r) then None else Some (acc_enc L (mAccountID r))),
      rc_topicID = (if top_empty L (mTopicID r) then None else Some (top_enc L (mTopicID r))),
      rc_topicSequenceNumber = (if mTopicSequenceNumber r \<noteq> 0 then Some (mTopicSequenceNumber r) else None),
      rc_topicRunningHash = mTopicRunningHash r,
      rc_topicRunningHashVersion = (if mTopicRunningHashVersion r \<noteq> 0 then Some (mTopicRunningHashVersion r) else None)\<rparr>"

record ('a, 'p) TransactionGetReceiptResponse =
  mHeader_Response :: ResponseHeader
  mReceipt :: "('a, 'p) TransactionReceipt"
  mDuplicateTransactionReceipts :: "('a, 'p) TransactionReceipt list"

record 'm TransactionGetReceiptResponseMessage =
  gr_header :: "ResponseHeaderMessage option"
  gr_receipt :: "'m TransactionReceiptMessage option"
  gr_duplicateTransactionReceipts :: "'m TransactionReceiptMessage list"

definition TransactionGetReceiptResponse_of_message ::
    "('t, 'i, 'a, 'p, 'm) hiero_lib \<Rightarrow> u64 \<Rightarrow> u64 \<Rightarrow> 'm TransactionGetReceiptResponseMessage
       \<Rightarrow> ('a, 'p) TransactionGetReceiptResponse result" where
  "TransactionGetReceiptResponse_of_message L junk junk2 m =
     bindR (bindR (opt_value (gr_header m)) ResponseHeader_of_message) (\<lambda>h.
     bindR (bindR (opt_value (gr_receipt m)) (TransactionReceipt_of_message L junk junk2)) (\<lambda>r.
     bindR (mapR (TransactionReceipt_of_message L junk junk2) (gr_duplicateTransactionReceipts m)) (\<lambda>ds.
       Inr \<lparr>mHeader_Response = h, mReceipt = r, mDuplicateTransactionReceipts = ds\<rparr>)))"

definition TransactionGetReceiptResponse_getMessage ::
    "('t, 'i, 'a, 'p, 'm) hiero_lib \<Rightarrow> ('a, 'p) TransactionGetReceiptResponse \<Rightarrow> 'm TransactionGetReceiptResponseMessage" where
  "TransactionGetReceiptResponse_getMessage L r =
     \<lparr>gr_header = Some (ResponseHeader_getMessage (mHeader_Response r)),
      gr_receipt = Some (TransactionReceipt_getMessage L (mReceipt r)),
      gr_duplicateTransactionReceipts = map (TransactionReceipt_getMessage L) (mDuplicateTransactionReceipts r)\<rparr>"

text \<open>A \<open>Response\<close> is a pointer to a receipt response; its message has the one field.\<close>

definition Response_of_message ::
    "('t, 'i, 'a, 'p, 'm) hiero_lib \<Rightarrow> u64 \<Rightarrow> u64 \<Rightarrow> 'm TransactionGetReceiptResponseMessage option
       \<Rightarrow> ('a, 'p) TransactionGetReceiptResponse option result" where
  "Response_of_message L junk junk2 m =
     (case m of None \<Rightarrow> Inr None
      | Some r \<Rightarrow> map_sum id Some (TransactionGetReceiptResponse_of_message L junk junk2 r))"

definition Response_getMessage ::
    "('t, 'i, 'a, 'p, 'm) hiero_lib \<Rightarrow> ('a, 'p) TransactionGetReceiptResponse option
       \<Rightarrow> 'm TransactionGetReceiptResponseMessage option" where
  "Response_getMessage L r = map_option (TransactionGetReceiptResponse_getMessage L) r"

section \<open>Topic information\<close>

text \<open>\<open>kp\<close> is the constructor of \<open>KeyPairEd25519\<close> from a public key, \<open>pub\<close> its \<open>getPublicKey\<close>.\<close>

record 'k HieroKey =
  mEd25519 :: "'k option"
  mHasECDSA_secp256k1 :: bool

record KeyMessage =
  km_ed25519 :: "bytes option"
  km_ECDSA_secp256k1 :: "bytes option"

definition Key_new :: "'k HieroKey" where
  "Key_new = \<lparr>mEd25519 = None, mHasECDSA_secp256k1 = False\<rparr>"

definition Key_of_message :: "(bytes \<Rightarrow> 'k result) \<Rightarrow> KeyMessage \<Rightarrow> 'k HieroKey result" where
  "Key_of_message kp m =
     (case km_ed25519 m of
        Some b \<Rightarrow> bindR (kp b) (\<lambda>k. Inr \<lparr>mEd25519 = Some k, mHasECDSA_secp256k1 = False\<rparr>)
      | None \<Rightarrow> Inr \<lparr>mEd25519 = None, mHasECDSA_secp256k1 = (km_ECDSA_secp256k1 m \<noteq> None)\<rparr>)"

definition Key_getMessage :: "('k \<Rightarrow> bytes) \<Rightarrow> 'k HieroKey \<Rightarrow> KeyMessage result" where
  "Key_getMessage pub k =
     (case mEd25519 k of
        Some e \<Rightarrow> Inr \<lparr>km_ed25519 = Some (pub e), km_ECDSA_secp256k1 = None\<rparr>
      | None \<Rightarrow>
          if mHasECDSA_secp256k1 k then Inl (Gradido NotImplemented)
          else Inr \<lparr>km_ed25519 = None, km_ECDSA_secp256k1 = None\<rparr>)"

text \<open>The seconds of the renewal period are \<open>None\<close> for a default constructed duration.\<close>

record ('t, 'a, 'k) ConsensusTopicInfo =
  mMemo :: string
  mRunningHash_Info :: "bytes option"
  mSequenceNumber_Info :: u64
  mExpirationTime :: 't
  mAdminKey :: "'k HieroKey"
  mSubmitKey :: "'k HieroKey"
  mAutoRenewPeriod :: "int option"
  mAutoRenewAccountID :: 'a
  mLedgerId :: "bytes option"

record 'm ConsensusTopicInfoMessage =
  ti_memo :: "string option"
  ti_runningHash :: "bytes option"
  ti_sequenceNumber :: "u64 option"
  ti_expirationTime :: "'m option"
  ti_adminKey :: "KeyMessage option"
  ti_submitKey :: "KeyMessage option"
  ti_autoRenewPeriod :: "int option option"
  ti_autoRenewAccount :: "'m option"
  ti_ledger_id :: "bytes option"

text \<open>\<open>junk\<close> is the value of the sequence number, which this constructor does not initialise.\<close>

definition ConsensusTopicInfo_of_message ::
    "('t, 'i, 'a, 'p, 'm) hiero_lib \<Rightarrow> (bytes \<Rightarrow> 'k result) \<Rightarrow> u64 \<Rightarrow> 'm ConsensusTopicInfoMessage
       \<Rightarrow> ('t, 'a, 'k) ConsensusTopicInfo result" where
  "ConsensusTopicInfo_of_message L kp junk m =
     bindR (opt_value (ti_expirationTime m)) (\<lambda>t.
     bindR (case ti_adminKey m of None \<Rightarrow> Inr Key_new | Some k \<Rightarrow> Key_of_message kp k) (\<lambda>admin.
     bindR (case ti_submitKey m of None \<Rightarrow> Inr Key_new | Some k \<Rightarrow> Key_of_message kp k) (\<lambda>submit.
       Inr \<lparr>mMemo = (case ti_memo m of None \<Rightarrow> [] | Some s \<Rightarrow> s), mRunningHash_Info = ti_runningHash m,
            mSequenceNumber_Info = (case ti_sequenceNumber m of None \<Rightarrow> junk | Some n \<Rightarrow> n),
            mExpirationTime = ts_dec L t, mAdminKey = admin, mSubmitKey = submit,
            mAutoRenewPeriod = Option.bind (ti_autoRenewPeriod m) id,
            mAutoRenewAccountID = (case ti_autoRenewAccount m of None \<Rightarrow> acc_none L | Some a \<Rightarrow> acc_dec L a),
            mLedgerId = ti_ledger_id m\<rparr>)))"

record ('t, 'a, 'p, 'k) ConsensusGetTopicInfoResponse =
  mResponseHeader :: ResponseHeader
  mTopicId_InfoResponse :: 'p
  mTopicInfo :: "('t, 'a, 'k) ConsensusTopicInfo"

record 'm ConsensusGetTopicInfoResponseMessage =
  ir_header :: "ResponseHeaderMessage option"
  ir_topicID :: "'m option"
  ir_topicInfo :: "'m ConsensusTopicInfoMessage option"

text \<open>The default constructors of the header and of the topic information, of which the time is that of \<open>Timestamp()\<close>.\<close>

definition ResponseHeader_new :: ResponseHeader where
  "ResponseHeader_new = \<lparr>mNodeTransactionPrecheckCode = 0, mResponseType_Response = ANSWER_ONLY, mCost = 0, mStateProof = None\<rparr>"

definition ConsensusTopicInfo_new :: "('t, 'i, 'a, 'p, 'm) hiero_lib \<Rightarrow> 't \<Rightarrow> ('t, 'a, 'k) ConsensusTopicInfo" where
  "ConsensusTopicInfo_new L t0 =
     \<lparr>mMemo = [], mRunningHash_Info = None, mSequenceNumber_Info = 0, mExpirationTime = t0, mAdminKey = Key_new,
      mSubmitKey = Key_new, mAutoRenewPeriod = None, mAutoRenewAccountID = acc_none L, mLedgerId = None\<rparr>"

definition ConsensusGetTopicInfoResponse_of_message ::
    "('t, 'i, 'a, 'p, 'm) hiero_lib \<Rightarrow> 't \<Rightarrow> (bytes \<Rightarrow> 'k result) \<Rightarrow> u64 \<Rightarrow> 'm ConsensusGetTopicInfoResponseMessage
       \<Rightarrow> ('t, 'a, 'p, 'k) ConsensusGetTopicInfoResponse result" where
  "ConsensusGetTopicInfoResponse_of_message L t0 kp junk m =
     bindR (case ir_header m of None \<Rightarrow> Inr ResponseHeader_new | Some h \<Rightarrow> ResponseHeader_of_message h) (\<lambda>h.
     bindR (case ir_topicInfo m of None \<Rightarrow> Inr (ConsensusTopicInfo_new L t0)
            | Some i \<Rightarrow> ConsensusTopicInfo_of_message L kp junk i) (\<lambda>i.
       Inr \<lparr>mResponseHeader = h,
            mTopicId_InfoResponse = (case ir_topicID m of None \<Rightarrow> top_none L | Some p \<Rightarrow> top_dec L p), mTopicInfo = i\<rparr>))"

section \<open>ConsensusSubmitMessageTransactionBody\<close>

record ('i, 'p) ConsensusSubmitMessageTransactionBody =
  mTopicId_Submit :: 'p
  mMessage_Submit :: "bytes option"
  mChunkInfo_Submit :: "'i ConsensusMessageChunkInfo"

record 'm ConsensusSubmitMessageTransactionBodyMessage =
  sb_topicID :: "'m option"
  sb_message :: "bytes option"
  sb_chunkInfo :: "'m ConsensusMessageChunkInfoMessage option"

definition ConsensusSubmitMessageTransactionBody_of_message ::
    "('t, 'i, 'a, 'p, 'm) hiero_lib \<Rightarrow> 'm ConsensusSubmitMessageTransactionBodyMessage
       \<Rightarrow> ('i, 'p) ConsensusSubmitMessageTransactionBody result" where
  "ConsensusSubmitMessageTransactionBody_of_message L m =
     bindR (case sb_chunkInfo m of None \<Rightarrow> Inr (ConsensusMessageChunkInfo_new L)
            | Some c \<Rightarrow> ConsensusMessageChunkInfo_of_message L c) (\<lambda>ci.
       Inr \<lparr>mTopicId_Submit = (case sb_topicID m of None \<Rightarrow> top_none L | Some p \<Rightarrow> top_dec L p),
            mMessage_Submit = sb_message m, mChunkInfo_Submit = ci\<rparr>)"

definition ConsensusSubmitMessageTransactionBody_getMessage ::
    "('t, 'i, 'a, 'p, 'm) hiero_lib \<Rightarrow> ('i, 'p) ConsensusSubmitMessageTransactionBody
       \<Rightarrow> 'm ConsensusSubmitMessageTransactionBodyMessage result" where
  "ConsensusSubmitMessageTransactionBody_getMessage L b =
     (case mMessage_Submit b of
        None \<Rightarrow> Inl UndefinedBehaviour
      | Some msg \<Rightarrow>
          Inr \<lparr>sb_topicID = Some (top_enc L (mTopicId_Submit b)), sb_message = Some msg,
               sb_chunkInfo = Some (ConsensusMessageChunkInfo_getMessage L (mChunkInfo_Submit b))\<rparr>)"

section \<open>Round trips\<close>

lemma ConsensusMessageChunkInfo_message [hiero_simps]:
  "hiero_lib_laws L \<Longrightarrow> ConsensusMessageChunkInfo_of_message L (ConsensusMessageChunkInfo_getMessage L ci) = Inr ci"
  by (simp add: ConsensusMessageChunkInfo_of_message_def ConsensusMessageChunkInfo_getMessage_def hiero_simps)

lemma QueryHeader_message [hiero_simps]: "QueryHeader_of_message (QueryHeader_getMessage h) = Inr h"
  by (simp add: QueryHeader_of_message_def QueryHeader_getMessage_def)

lemma TransactionGetReceiptQuery_message [hiero_simps]:
  "hiero_lib_laws L \<Longrightarrow> TransactionGetReceiptQuery_of_message L (TransactionGetReceiptQuery_getMessage L q) = Inr q"
  by (simp add: TransactionGetReceiptQuery_of_message_def TransactionGetReceiptQuery_getMessage_def hiero_simps)

lemma ConsensusGetTopicInfoQuery_message [hiero_simps]:
  "hiero_lib_laws L \<Longrightarrow> ConsensusGetTopicInfoQuery_of_message L (ConsensusGetTopicInfoQuery_getMessage L q) = Inr q"
  by (simp add: ConsensusGetTopicInfoQuery_of_message_def ConsensusGetTopicInfoQuery_getMessage_def hiero_simps)

lemma Query_message [hiero_simps]:
  assumes "hiero_lib_laws L" "mTransactionGetReceiptQuery q = None \<or> mConsensusGetTopicInfoQuery q = None"
  shows "Query_of_message L (Query_getMessage L q) = Inr q"
proof (cases q)
  case (fields r i)
  with assms show ?thesis
    by (cases r; cases i) (auto simp: Query_of_message_def Query_getMessage_def hiero_simps)
qed

lemma ConsensusTopicQuery_message [hiero_simps]:
  "hiero_lib_laws L \<Longrightarrow> ConsensusTopicQuery_of_message L (ConsensusTopicQuery_getMessage L q) = Inr q"
  by (simp add: ConsensusTopicQuery_of_message_def ConsensusTopicQuery_getMessage_def hiero_simps)

lemma ConsensusSubmitMessageTransactionBody_message [hiero_simps]:
  assumes "hiero_lib_laws L" "ConsensusSubmitMessageTransactionBody_getMessage L b = Inr m"
  shows "ConsensusSubmitMessageTransactionBody_of_message L m = Inr b"
  using assms
  by (auto simp: ConsensusSubmitMessageTransactionBody_of_message_def ConsensusSubmitMessageTransactionBody_getMessage_def
      hiero_simps split: option.splits)

lemma ResponseHeader_message [hiero_simps]: "ResponseHeader_of_message (ResponseHeader_getMessage h) = Inr h"
  by (simp add: ResponseHeader_of_message_def ResponseHeader_getMessage_def)

text \<open>A number that is zero is not written, and is read back as what the memory held.\<close>

lemma TransactionReceipt_message [hiero_simps]:
  "hiero_lib_laws L \<Longrightarrow> TransactionReceipt_of_message L j j2 (TransactionReceipt_getMessage L r)
     = Inr (r\<lparr>mTopicSequenceNumber := (if mTopicSequenceNumber r = 0 then j else mTopicSequenceNumber r),
              mTopicRunningHashVersion := (if mTopicRunningHashVersion r = 0 then j2 else mTopicRunningHashVersion r)\<rparr>)"
  by (simp add: TransactionReceipt_of_message_def TransactionReceipt_getMessage_def hiero_simps)

lemma Key_message [hiero_simps]:
  assumes "\<And>k. kp (pub k) = Inr k" "Key_getMessage pub k = Inr m" "mEd25519 k = None \<or> \<not> mHasECDSA_secp256k1 k"
  shows "Key_of_message kp m = Inr k"
  using assms by (cases k) (auto simp: Key_getMessage_def Key_of_message_def split: option.splits if_splits)

lemma ServiceEndpoint_message [hiero_simps]:
  "mIpAddressV4 e = [] \<or> mDomainName e = [] \<Longrightarrow> ServiceEndpoint_of_message (ServiceEndpoint_getMessage e) = Inr e"
  by (auto simp: ServiceEndpoint_of_message_def ServiceEndpoint_getMessage_def)

lemma NodeAddress_getMessage_throws [hiero_simps]: "NodeAddress_getMessage L n = Inl (Std BadOptionalAccess)"
  by (simp add: NodeAddress_getMessage_def)

text \<open>The normal form of a response: what \<open>getMessage\<close> keeps of it.\<close>

definition response_normal :: "('t, 'i, 'a, 'p, 'm) hiero_lib \<Rightarrow> ('t, 'i) ConsensusTopicResponse \<Rightarrow> ('t, 'i) ConsensusTopicResponse" where
  "response_normal L r =
     (let r1 = (if mRunningHash r = Some [] then r\<lparr>mRunningHash := None, mRunningHashVersion := 0\<rparr> else r)
      in if ConsensusMessageChunkInfo_empty L (mChunkInfo r) then r1\<lparr>mChunkInfo := ConsensusMessageChunkInfo_new L\<rparr> else r1)"

section \<open>The JSON of the mirror node\<close>

lemma parse_digits_zeros: "parse_digits 0 (replicate k (CHR ''0'') @ s) = parse_digits 0 s"
  by (induction k) (simp_all add: is_digit_def digit_val_def)

lemma strtoll_zeros:
  assumes "n < 2 ^ 63"
  shows "strtoll (replicate k (CHR ''0'') @ to_string n) = int n"
proof -
  have "split_sign (dropWhile is_space (replicate k (CHR ''0'') @ to_string n))
      = (False, replicate k (CHR ''0'') @ to_string n)"
    using split_sign_to_string [of n] by (cases k) (simp_all add: split_sign_def is_space_def)
  then show ?thesis using assms by (simp add: strtoll_def parse_digits_zeros)
qed

lemma no_dot_to_string: "c \<in> set (to_string n) \<Longrightarrow> c \<noteq> CHR ''.''"
  using to_string_all_digits [of n] by (auto simp: list_all_iff is_digit_def)

text \<open>A timestamp as the mirror node writes it: seconds, a dot, nanoseconds padded to nine digits.\<close>

definition timestamp_text :: "nat \<Rightarrow> nat \<Rightarrow> string" where
  "timestamp_text s n = to_string s @ CHR ''.'' # replicate (9 - length (to_string n)) (CHR ''0'') @ to_string n"

lemma timestampFromJson_text [hiero_simps]:
  assumes "s < 2 ^ 63" "n < 2 ^ 63"
  shows "timestampFromJson L (JStr (timestamp_text s n)) = Inr (ts_of L (int s) (int n))"
proof -
  have "takeWhile (\<lambda>c. c \<noteq> CHR ''.'') (timestamp_text s n) = to_string s"
    by (simp add: timestamp_text_def no_dot_to_string takeWhile_append2)
  then show ?thesis
    using assms strtoll_zeros [OF assms(2), of "9 - length (to_string n)"] strtoll_to_string [OF assms(1)]
    by (simp add: timestampFromJson_def timestamp_text_def)
qed

text \<open>
  The document of a response. The transaction identifier has the account \<open>acc\<close>, the start \<open>s.n\<close>, the
  nonce and the scheduled flag.
\<close>

definition mirror_document ::
    "(bytes \<Rightarrow> string) \<Rightarrow> string \<Rightarrow> nat \<times> nat \<Rightarrow> nat \<times> nat \<Rightarrow> int \<Rightarrow> bool \<Rightarrow> bytes \<Rightarrow> bytes \<Rightarrow> int \<Rightarrow> int \<Rightarrow> int \<Rightarrow> int \<Rightarrow> json" where
  "mirror_document b64 acc consensus start nonce scheduled msg hash version nr tot number =
     JObj [(''chunk_info'', JObj
              [(''initial_transaction_id'', JObj
                  [(''account_id'', JStr acc), (''nonce'', JInt nonce), (''scheduled'', JBool scheduled),
                   (''transaction_valid_start'', JStr (timestamp_text (fst start) (snd start)))]),
               (''number'', JInt number), (''total'', JInt tot)]),
           (''consensus_timestamp'', JStr (timestamp_text (fst consensus) (snd consensus))),
           (''message'', JStr (b64 msg)), (''running_hash'', JStr (b64 hash)),
           (''running_hash_version'', JInt version), (''sequence_number'', JInt nr)]"

text \<open>The same response as the message of the gRPC interface.\<close>

definition grpc_message ::
    "('t, 'i, 'a, 'p, 'm) hiero_lib \<Rightarrow> 'a \<Rightarrow> nat \<times> nat \<Rightarrow> nat \<times> nat \<Rightarrow> int \<Rightarrow> bool \<Rightarrow> bytes \<Rightarrow> bytes \<Rightarrow> int \<Rightarrow> int \<Rightarrow> int \<Rightarrow> int
       \<Rightarrow> 'm ConsensusTopicResponseMessage" where
  "grpc_message L acc consensus start nonce scheduled msg hash version nr tot number =
     \<lparr>tr_consensusTimestamp = Some (ts_enc L (int (fst consensus)) (int (snd consensus))), tr_message = Some msg,
      tr_runningHash = Some hash, tr_sequenceNumber = Some (word_of_int nr),
      tr_runningHashVersion = Some (word_of_int version),
      tr_chunkInfo = Some \<lparr>ci_initialTransactionID =
          Some (tid_enc L (tid_of L (ts_of L (int (fst start)) (int (snd start))) acc nonce scheduled)),
        ci_total = Some tot, ci_number = Some number\<rparr>\<rparr>"

definition int32 :: "int \<Rightarrow> bool" where
  "int32 i = (- (2 ^ 31) \<le> i \<and> i < 2 ^ 31)"

lemma json_initialTransactionId_mirror:
  assumes "check_laws chk" "acc_of L accText = Inr acc" "s < 2 ^ 63" "n < 2 ^ 63" "int32 nonce"
  shows "json_initialTransactionId L chk (JObj
       [(''account_id'', JStr accText), (''nonce'', JInt nonce), (''scheduled'', JBool scheduled),
        (''transaction_valid_start'', JStr (timestamp_text s n))])
     = Inr (tid_of L (ts_of L (int s) (int n)) acc nonce scheduled)"
  using assms
  by (simp add: json_initialTransactionId_def check_ok js_get_def js_kind_def hiero_simps int32_def)

lemma ConsensusTopicResponse_of_json_mirror:
  assumes "check_laws chk" "acc_of L accText = Inr acc" "\<And>b. b64_dec L (b64 b) = Inr b"
    and "fst c < 2 ^ 63" "snd c < 2 ^ 63" "fst s < 2 ^ 63" "snd s < 2 ^ 63"
    and "int32 nonce" "int32 version" "int32 number" "0 \<le> nr" "nr < 2 ^ 63"
  shows "ConsensusTopicResponse_of_json L chk
      (mirror_document b64 accText c s nonce scheduled msg hash version nr tot number)
    = Inr \<lparr>mConsensusTimestamp = ts_of L (int (fst c)) (int (snd c)), mMessage = Some msg, mRunningHash = Some hash,
           mSequenceNumber = word_of_int nr, mRunningHashVersion = word_of_int version,
           mChunkInfo = \<lparr>mInitialTransactionID = tid_of L (ts_of L (int (fst s)) (int (snd s))) acc nonce scheduled,
                         mTotal = number, mNumber = number\<rparr>\<rparr>"
proof -
  have int64: "- (2 ^ 63) \<le> nr" using assms(11) by simp
  show ?thesis
    using assms int64
    by (simp add: ConsensusTopicResponse_of_json_def ConsensusMessageChunkInfo_of_json_def mirror_document_def check_ok
        js_get_def js_kind_def hiero_simps int32_def json_initialTransactionId_mirror)
qed

section \<open>A concrete library\<close>

datatype lib_message = LM_time int int | LM_id "((int \<times> int) \<times> string \<times> int \<times> bool) option" | LM_text string

definition plain_text :: "bytes \<Rightarrow> string" where
  "plain_text = map (\<lambda>b. char_of (unat b))"

definition plain_bytes :: "string \<Rightarrow> bytes" where
  "plain_bytes = map (\<lambda>c. word_of_nat (of_char c))"

lemma plain_bytes_text [simp]: "plain_bytes (plain_text bs) = bs"
proof (induction bs)
  case Nil
  show ?case by (simp add: plain_bytes_def plain_text_def)
next
  case (Cons b bs)
  have "(of_char (char_of (unat b) :: char) :: nat) = unat b" using unat_bounds(4) [of b] by simp
  with Cons show ?case by (simp add: plain_bytes_def plain_text_def)
qed

definition example_lib :: "(int \<times> int, ((int \<times> int) \<times> string \<times> int \<times> bool) option, string, string, lib_message) hiero_lib" where
  "example_lib = \<lparr>ts_of = Pair, ts_seconds = fst, ts_nanos = snd, ts_enc = LM_time,
     ts_dec = (\<lambda>m. case m of LM_time s n \<Rightarrow> (s, n) | _ \<Rightarrow> (0, 0)),
     tid_none = None, tid_of = (\<lambda>t a n s. Some (t, a, n, s)), tid_empty = (\<lambda>i. i = None), tid_enc = LM_id,
     tid_dec = (\<lambda>m. case m of LM_id i \<Rightarrow> i | _ \<Rightarrow> None),
     acc_none = [], acc_of = Inr, acc_empty = (\<lambda>a. a = []), acc_enc = LM_text, acc_dec = (\<lambda>m. case m of LM_text s \<Rightarrow> s | _ \<Rightarrow> []),
     top_none = [], top_empty = (\<lambda>a. a = []), top_enc = LM_text, top_dec = (\<lambda>m. case m of LM_text s \<Rightarrow> s | _ \<Rightarrow> []),
     b64_dec = Inr \<circ> plain_bytes, hex_dec = Inr \<circ> plain_bytes\<rparr>"

lemma example_lib_laws [simp]: "hiero_lib_laws example_lib"
  by (auto simp: hiero_lib_laws_def example_lib_def)

section \<open>Properties\<close>

text \<open>A topic response that has a message and a running hash comes back from the message it gives, in normal form: an empty running hash is read back as a missing one, with its version lost, and the counters of a chunk info without a transaction identifier are lost. A response without a running hash dereferences a null pointer.\<close>

theorem ConsensusTopicResponse_roundtrip:
  assumes "hiero_lib_laws L" "mMessage r = Some msg"
  shows "bindR (ConsensusTopicResponse_getMessage L r) (ConsensusTopicResponse_of_message L)
     = (if mRunningHash r = None then Inl UndefinedBehaviour else Inr (response_normal L r))"
proof (cases r)
  case (fields t m h nr v ci)
  with assms show ?thesis
    by (auto simp: ConsensusTopicResponse_getMessage_def ConsensusTopicResponse_of_message_def response_normal_def Let_def
        ConsensusMessageChunkInfo_empty_def hiero_simps split: option.splits)
qed

definition example_response :: "(int \<times> int, ((int \<times> int) \<times> string \<times> int \<times> bool) option) ConsensusTopicResponse" where
  "example_response = \<lparr>mConsensusTimestamp = (17, 5), mMessage = Some [1, 2], mRunningHash = Some [], mSequenceNumber = 9,
     mRunningHashVersion = 3, mChunkInfo = \<lparr>mInitialTransactionID = None, mTotal = 4, mNumber = 2\<rparr>\<rparr>"

lemma ConsensusTopicResponse_roundtrip_witness:
  "bindR (ConsensusTopicResponse_getMessage example_lib example_response) (ConsensusTopicResponse_of_message example_lib)
     = Inr \<lparr>mConsensusTimestamp = (17, 5), mMessage = Some [1, 2], mRunningHash = None, mSequenceNumber = 9,
            mRunningHashVersion = 0, mChunkInfo = \<lparr>mInitialTransactionID = None, mTotal = 0, mNumber = 0\<rparr>\<rparr>"
proof -
  have "mMessage example_response = Some [1, 2]" "mRunningHash example_response \<noteq> None"
    by (simp_all add: example_response_def)
  moreover have "response_normal example_lib example_response = \<lparr>mConsensusTimestamp = (17, 5), mMessage = Some [1, 2],
      mRunningHash = None, mSequenceNumber = 9, mRunningHashVersion = 0,
      mChunkInfo = \<lparr>mInitialTransactionID = None, mTotal = 0, mNumber = 0\<rparr>\<rparr>"
    by (simp add: response_normal_def example_response_def example_lib_def Let_def ConsensusMessageChunkInfo_empty_def
        ConsensusMessageChunkInfo_new_def)
  ultimately show ?thesis
    using ConsensusTopicResponse_roundtrip [of example_lib example_response "[1, 2]"] by simp
qed

text \<open>The same response read from the JSON of the mirror node and from the message of the gRPC interface gives the same object, but for the number of chunks: from JSON it is the number of the chunk.\<close>

theorem ConsensusTopicResponse_rest_equals_grpc:
  assumes "hiero_lib_laws L" "check_laws chk" "acc_of L accText = Inr acc" "\<And>b. b64_dec L (b64 b) = Inr b"
    and "\<And>s n. ts_dec L (ts_enc L s n) = ts_of L s n"
    and "fst c < 2 ^ 63" "snd c < 2 ^ 63" "fst s < 2 ^ 63" "snd s < 2 ^ 63"
    and "int32 nonce" "int32 version" "int32 number" "0 \<le> nr" "nr < 2 ^ 63"
  shows "ConsensusTopicResponse_of_json L chk (mirror_document b64 accText c s nonce scheduled msg hash version nr tot number)
     = map_sum id (\<lambda>r. r\<lparr>mChunkInfo := (mChunkInfo r)\<lparr>mTotal := number\<rparr>\<rparr>)
         (ConsensusTopicResponse_of_message L (grpc_message L acc c s nonce scheduled msg hash version nr tot number))"
  using assms(1,5)
  by (simp add: ConsensusTopicResponse_of_json_mirror [OF assms(2-4,6-14)] ConsensusTopicResponse_of_message_def
      ConsensusMessageChunkInfo_of_message_def grpc_message_def hiero_simps)

lemma ConsensusTopicResponse_rest_equals_grpc_witness:
  "map_sum id (\<lambda>r. mTotal (mChunkInfo r)) (ConsensusTopicResponse_of_json example_lib check_member
      (mirror_document plain_text ''0.0.2'' (5, 6) (3, 4) 0 False [7] [8, 9] 3 12 3 1))
     = (Inr 1 :: int result)"
proof -
  have lib: "acc_of example_lib ''0.0.2'' = Inr ''0.0.2''" "\<And>b. b64_dec example_lib (plain_text b) = Inr b"
    "\<And>s n. ts_dec example_lib (ts_enc example_lib s n) = ts_of example_lib s n"
    "tid_dec example_lib (tid_enc example_lib i) = i" for i
    by (simp_all add: example_lib_def)
  show ?thesis
    by (subst ConsensusTopicResponse_rest_equals_grpc [of example_lib check_member "''0.0.2''" "''0.0.2''" plain_text])
      (simp_all add: lib int32_def ConsensusTopicResponse_of_message_def ConsensusMessageChunkInfo_of_message_def grpc_message_def)
qed

text \<open>A receipt response comes back from its own message, whatever the memory held before, exactly when neither the receipt nor a duplicate has a zero sequence number or a zero hash version.\<close>

theorem TransactionGetReceiptResponse_roundtrip:
  assumes "hiero_lib_laws L"
  shows "(\<forall>junk junk2. Response_of_message L junk junk2 (Response_getMessage L (Some r)) = Inr (Some r))
     \<longleftrightarrow> (\<forall>t \<in> insert (mReceipt r) (set (mDuplicateTransactionReceipts r)).
            mTopicSequenceNumber t \<noteq> 0 \<and> mTopicRunningHashVersion t \<noteq> 0)"
    (is "?L \<longleftrightarrow> ?R")
proof -
  let ?fix = "\<lambda>j j2 t. t\<lparr>mTopicSequenceNumber := (if mTopicSequenceNumber t = 0 then j else mTopicSequenceNumber t),
              mTopicRunningHashVersion := (if mTopicRunningHashVersion t = 0 then j2 else mTopicRunningHashVersion t)\<rparr>"
  have read: "Response_of_message L j j2 (Response_getMessage L (Some r))
      = Inr (Some (r\<lparr>mReceipt := ?fix j j2 (mReceipt r),
                     mDuplicateTransactionReceipts := map (?fix j j2) (mDuplicateTransactionReceipts r)\<rparr>))" for j j2
    using assms
    by (simp add: Response_of_message_def Response_getMessage_def TransactionGetReceiptResponse_of_message_def
        TransactionGetReceiptResponse_getMessage_def hiero_simps mapR_map [where h = "?fix j j2"])
  have same: "r\<lparr>mReceipt := a, mDuplicateTransactionReceipts := bs\<rparr> = r
      \<longleftrightarrow> a = mReceipt r \<and> bs = mDuplicateTransactionReceipts r" for a bs
    by (cases r) auto
  have fixed: "?fix j j2 t = t \<longleftrightarrow> (mTopicSequenceNumber t = 0 \<longrightarrow> j = 0) \<and> (mTopicRunningHashVersion t = 0 \<longrightarrow> j2 = 0)" for j j2 t
    by (cases t) auto
  have maps: "map (?fix j j2) ts = ts \<longleftrightarrow> (\<forall>t \<in> set ts. ?fix j j2 t = t)" for j j2 ts
    by (induction ts) auto
  show ?thesis
    by (simp only: read sum.inject option.inject same maps fixed) (metis (no_types, lifting) insert_iff zero_neq_one)
qed

lemma TransactionGetReceiptResponse_roundtrip_witness:
  "\<exists>junk junk2. Response_of_message example_lib junk junk2 (Response_getMessage example_lib
       (Some \<lparr>mHeader_Response = ResponseHeader_new,
              mReceipt = \<lparr>mStatus = 22, mAccountID = [], mTopicID = ''0.0.7'', mTopicSequenceNumber = 0,
                          mTopicRunningHash = None, mTopicRunningHashVersion = 3\<rparr>,
              mDuplicateTransactionReceipts = []\<rparr>))
     \<noteq> Inr (Some \<lparr>mHeader_Response = ResponseHeader_new,
              mReceipt = \<lparr>mStatus = 22, mAccountID = [], mTopicID = ''0.0.7'', mTopicSequenceNumber = 0,
                          mTopicRunningHash = None, mTopicRunningHashVersion = 3\<rparr>,
              mDuplicateTransactionReceipts = []\<rparr>)"
  using TransactionGetReceiptResponse_roundtrip [OF example_lib_laws,
      of "\<lparr>mHeader_Response = ResponseHeader_new,
              mReceipt = \<lparr>mStatus = 22, mAccountID = [], mTopicID = ''0.0.7'', mTopicSequenceNumber = 0,
                          mTopicRunningHash = None, mTopicRunningHashVersion = 3\<rparr>,
              mDuplicateTransactionReceipts = []\<rparr>"]
  by simp

text \<open>An address book with at least one node cannot be serialised: \<open>getMessage\<close> of every node address throws.\<close>

theorem NodeAddressBook_not_serialisable:
  "NodeAddressBook_getMessage L b
     = (if mNodeAddresses b = [] then Inr [] else Inl (Std BadOptionalAccess))"
  by (cases "mNodeAddresses b") (simp_all add: NodeAddressBook_getMessage_def hiero_simps)

end
