(* ===== verification/Ordering.thy ===== *)
theory Ordering
  imports Hiero IdCaches
begin

text \<open>
  \<open>controller::SimpleOrderingManager\<close> (\<open>src/controller/SimpleOrderingManager.cpp\<close>) puts the messages of
  a topic into the order of their sequence numbers and hands them to the blockchain of the community,
  one after the other; \<open>task::HieroMessageToTransactionTask\<close> deserialises and checks a message before.
  Transactions, their validation and the blockchains of the node are the parameter \<open>N\<close>; what changes
  in them is the state \<open>'c\<close>.
\<close>

section \<open>The rest of the node\<close>

text \<open>
  \<open>oo_known\<close>: the provider has a blockchain for the community; \<open>oo_confirm\<close> is
  \<open>createAndAddConfirmedTransaction\<close>, \<open>oo_setSeq\<close> \<open>updateLastKnownSequenceNumber\<close>, \<open>oo_notify\<close> the message
  about a failed transaction to the listening community server, if there is one; \<open>oo_lastConfirmedAt\<close>
  the time of the last transaction; \<open>oo_pair\<close> is \<open>findCrossGroupTransactionPair\<close> of the ordering manager
  of another community: the number of its deserialisation task. \<open>oo_now\<close> is the clock, \<open>oo_timespan\<close>
  \<open>MAGIC_NUMBER_MAX_TIMESPAN_BETWEEN_CREATING_AND_RECEIVING_TRANSACTION\<close>, \<open>oo_sleep\<close> what the rest of the
  node does in 250 ms.
\<close>

record ('t, 'tx, 'i, 'c) node_ops =
  oo_known :: "'c \<Rightarrow> string \<Rightarrow> bool"
  oo_confirm :: "string \<Rightarrow> 'tx \<Rightarrow> bytes \<Rightarrow> 't \<Rightarrow> 'c \<Rightarrow> bool result \<times> 'c"
  oo_setSeq :: "string \<Rightarrow> u64 \<Rightarrow> 'c \<Rightarrow> unit result \<times> 'c"
  oo_notify :: "string \<Rightarrow> 'tx \<Rightarrow> 'c \<Rightarrow> 'c"
  oo_exists :: "'c \<Rightarrow> string \<Rightarrow> 'tx \<Rightarrow> bool"
  oo_lastConfirmedAt :: "'c \<Rightarrow> string \<Rightarrow> 't option"
  oo_pair :: "'c \<Rightarrow> string \<Rightarrow> 'i \<Rightarrow> nat option"
  oo_now :: "'c \<Rightarrow> int"
  oo_timespan :: int
  oo_sleep :: "'c \<Rightarrow> 'c"
  tx_decode :: "bytes option \<Rightarrow> 'tx option result"
  tx_valid :: "'tx \<Rightarrow> unit result"
  tx_inbound :: "'tx \<Rightarrow> bool"
  tx_otherGroup :: "'tx \<Rightarrow> string"
  tx_pairingId :: "'tx \<Rightarrow> 'i option result"
  tx_isPairing :: "'tx \<Rightarrow> 'tx \<Rightarrow> bool"
  tid_bytes :: "'i \<Rightarrow> bytes"
  tid_isEmpty :: "'i \<Rightarrow> bool"

section \<open>HieroMessageToTransactionTask\<close>

text \<open>\<open>task_finished\<close> is the flag of the base class \<open>Task\<close>. Tasks are shared: they live in a store.\<close>

record ('t, 'tx) HieroMessageToTransactionTask =
  mConsensusTimestamp_Task :: 't
  mTransactionRaw :: "bytes option"
  mCommunityId_Task :: string
  mTransaction :: "'tx option"
  mSuccess :: bool
  task_finished :: bool

definition HieroMessageToTransactionTask_new ::
    "'t \<Rightarrow> bytes option \<Rightarrow> string \<Rightarrow> ('t, 'tx) HieroMessageToTransactionTask" where
  "HieroMessageToTransactionTask_new t raw community =
     \<lparr>mConsensusTimestamp_Task = t, mTransactionRaw = raw, mCommunityId_Task = community, mTransaction = None,
      mSuccess = False, task_finished = False\<rparr>"

text \<open>Without a transaction the notification dereferences a null pointer, if there is a server to notify.\<close>

definition notificateFailedTransaction ::
    "('t, 'tx, 'i, 'c) node_ops \<Rightarrow> string \<Rightarrow> ('t, 'tx) HieroMessageToTransactionTask \<Rightarrow> 'c \<Rightarrow> unit result \<times> 'c" where
  "notificateFailedTransaction N community task c =
     (if oo_known N c community then
        (case mTransaction task of
           None \<Rightarrow> (Inl UndefinedBehaviour, c)
         | Some tx \<Rightarrow> (Inr (), oo_notify N community tx c))
      else (Inr (), c))"

text \<open>The result says whether the ordering manager was signalled.\<close>

definition HieroMessageToTransactionTask_run ::
    "('t::linorder, 'tx, 'i, 'c) node_ops \<Rightarrow> ('t, 'tx) HieroMessageToTransactionTask \<Rightarrow> 'c
       \<Rightarrow> bool result \<times> ('t, 'tx) HieroMessageToTransactionTask \<times> 'c" where
  "HieroMessageToTransactionTask_run N task c =
     (let community = mCommunityId_Task task in
      if \<not> oo_known N c community then (Inr False, task, c)
      else case tx_decode N (mTransactionRaw task) of
        Inl e \<Rightarrow> (Inl e, task, c)
      | Inr None \<Rightarrow> (Inr False, task, c)
      | Inr (Some tx) \<Rightarrow>
          let task1 = task\<lparr>mTransaction := Some tx\<rparr> in
          if oo_exists N c community tx then (Inr False, task1, c)
          else case tx_valid N tx of
            Inl (Gradido _) \<Rightarrow>
              (case notificateFailedTransaction N community task1 c of (r, c') \<Rightarrow> (map_sum id (\<lambda>_. False) r, task1, c'))
          | Inl e \<Rightarrow> (Inl e, task1, c)
          | Inr _ \<Rightarrow>
              if (case oo_lastConfirmedAt N c community of None \<Rightarrow> False | Some t \<Rightarrow> mConsensusTimestamp_Task task < t) then
                (case notificateFailedTransaction N community task1 c of (r, c') \<Rightarrow> (map_sum id (\<lambda>_. False) r, task1, c'))
              else (Inr True, task1\<lparr>mSuccess := True\<rparr>, c))"

section \<open>SimpleOrderingManager\<close>

record ('t, 'i) TopicResponseDeserializer =
  consensusTopicResponse :: "('t, 'i) ConsensusTopicResponse"
  deserializeTask :: nat
  putIntoListTime :: int

record ('t, 'i, 'x) SimpleOrderingManager =
  mLastTransactions :: 'x
  mTransactions :: "('t \<times> ('t, 'i) TopicResponseDeserializer) list"
  mCommunityId_SOM :: string
  mLastSequenceNumber :: u64
  exit_called :: bool

text \<open>
  The manager with the store of tasks and the rest of the node. \<open>handed\<close> is a ghost: the entries given
  to \<open>processTransaction\<close> so far.
\<close>

record ('t, 'tx, 'i, 'x, 'c) ordering =
  manager :: "('t, 'i, 'x) SimpleOrderingManager"
  tasks :: "('t, 'tx) HieroMessageToTransactionTask list"
  node :: 'c
  handed :: "('t, 'i) ConsensusTopicResponse list"

definition SimpleOrderingManager_new :: "('x, 'o, 't) expire_cache \<Rightarrow> string \<Rightarrow> ('t, 'i, 'x) SimpleOrderingManager" where
  "SimpleOrderingManager_new E community =
     \<lparr>mLastTransactions = ec_new E, mTransactions = [], mCommunityId_SOM = community, mLastSequenceNumber = 0,
      exit_called = False\<rparr>"

definition SimpleOrderingManager_init :: "u64 \<Rightarrow> ('t, 'i, 'x) SimpleOrderingManager \<Rightarrow> ('t, 'i, 'x) SimpleOrderingManager" where
  "SimpleOrderingManager_init lastKnownSequenceNumber m = m\<lparr>mLastSequenceNumber := lastKnownSequenceNumber\<rparr>"

definition SimpleOrderingManager_updateSequenceNumber ::
    "u64 \<Rightarrow> ('t, 'i, 'x) SimpleOrderingManager \<Rightarrow> unit result \<times> ('t, 'i, 'x) SimpleOrderingManager" where
  "SimpleOrderingManager_updateSequenceNumber new m =
     (if mLastSequenceNumber m = 0 then (Inr (), m\<lparr>mLastSequenceNumber := new\<rparr>)
      else if mLastSequenceNumber m + 1 = new \<or> new = 1 then (Inr (), m\<lparr>mLastSequenceNumber := new\<rparr>)
      else (Inl (Gradido InvalidData), m))"

datatype PushResult = FOUND_IN_LAST_TRANSACTIONS | FOUND_IN_TRANSACTIONS | ADDED | IN_SHUTDOWN

text \<open>The loop over the entries with the same timestamp.\<close>

fun same_message_in :: "('t, 'i) ConsensusTopicResponse \<Rightarrow> ('t, 'i) TopicResponseDeserializer list \<Rightarrow> bool result" where
  "same_message_in r [] = Inr False"
| "same_message_in r (w # ws) =
     bindR (ConsensusTopicResponse_isMessageSame (consensusTopicResponse w) r) (\<lambda>same.
       if same then Inr True else same_message_in r ws)"

text \<open>
  \<open>pushTransaction\<close>. A response without a running hash dereferences a null pointer. Scheduling the
  task is the scheduler's part: the task is new in the store. \<open>octet\<close> is the key of the cache.
\<close>

definition SimpleOrderingManager_pushTransaction ::
    "('t::linorder, 'tx, 'i, 'c) node_ops \<Rightarrow> ('x, 'o, 't) expire_cache \<Rightarrow> (bytes \<Rightarrow> 'o) \<Rightarrow> ('t, 'i) ConsensusTopicResponse
       \<Rightarrow> ('t, 'tx, 'i, 'x, 'c) ordering \<Rightarrow> PushResult result \<times> ('t, 'tx, 'i, 'x, 'c) ordering" where
  "SimpleOrderingManager_pushTransaction N E octet r s =
     (let m = manager s; t = mConsensusTimestamp r in
      if exit_called m then (Inr IN_SHUTDOWN, s)
      else case mRunningHash r of
        None \<Rightarrow> (Inl UndefinedBehaviour, s)
      | Some hash \<Rightarrow>
         (case ec_get E (octet hash) (mLastTransactions m) of (existing, x) \<Rightarrow>
            let s1 = s\<lparr>manager := m\<lparr>mLastTransactions := x\<rparr>\<rparr> in
            if existing = Some t then (Inr FOUND_IN_LAST_TRANSACTIONS, s1)
            else case same_message_in r (mm_equal_range t (mTransactions m)) of
              Inl e \<Rightarrow> (Inl e, s1)
            | Inr True \<Rightarrow> (Inr FOUND_IN_TRANSACTIONS, s1)
            | Inr False \<Rightarrow>
               (Inr ADDED,
                s1\<lparr>manager := (manager s1)\<lparr>mLastTransactions := ec_add E (octet hash) t x,
                     mTransactions := mm_insert t \<lparr>consensusTopicResponse = r, deserializeTask = length (tasks s),
                                                   putIntoListTime = oo_now N (node s)\<rparr> (mTransactions m)\<rparr>,
                   tasks := tasks s @ [HieroMessageToTransactionTask_new t (mMessage r) (mCommunityId_SOM m)]\<rparr>)))"

definition SimpleOrderingManager_findCrossGroupTransactionPair ::
    "'i \<Rightarrow> ('t, 'i, 'x) SimpleOrderingManager \<Rightarrow> nat option" where
  "SimpleOrderingManager_findCrossGroupTransactionPair transactionId m =
     (if exit_called m then None
      else map_option (\<lambda>p. deserializeTask (snd p))
             (find (\<lambda>p. mInitialTransactionID (mChunkInfo (consensusTopicResponse (snd p))) = transactionId) (mTransactions m)))"

text \<open>
  \<open>processTransaction\<close>. The number it stores is the one of the transaction before: \<open>mLastSequenceNumber\<close>
  is updated by the caller later. Exceptions of the blockchain library are caught, others are not.
\<close>

definition confirm_and_store ::
    "('t, 'tx, 'i, 'c) node_ops \<Rightarrow> string \<Rightarrow> u64 \<Rightarrow> ('t, 'i) ConsensusTopicResponse \<Rightarrow> 'tx \<Rightarrow> 'c \<Rightarrow> unit result \<times> 'c" where
  "confirm_and_store N community stored r tx c =
     (case oo_confirm N community tx (tid_bytes N (mInitialTransactionID (mChunkInfo r))) (mConsensusTimestamp r) c of
        (Inl e, c1) \<Rightarrow> (Inl e, c1)
      | (Inr _, c1) \<Rightarrow> oo_setSeq N community stored c1)"

definition catch_failed ::
    "('t, 'tx, 'i, 'c) node_ops \<Rightarrow> string \<Rightarrow> u64 \<Rightarrow> 'tx \<Rightarrow> unit result \<times> 'c \<Rightarrow> unit result \<times> 'c" where
  "catch_failed N community stored tx p =
     (case p of
        (Inl (Gradido _), c) \<Rightarrow>
          (case oo_setSeq N community stored (oo_notify N community tx c) of
             (Inl (Gradido _), c1) \<Rightarrow> (Inr (), c1)
           | (Inl (Std _), c1) \<Rightarrow> (Inr (), c1)
           | (r, c1) \<Rightarrow> (r, c1))
      | (r, c) \<Rightarrow> (r, c))"

definition SimpleOrderingManager_processTransaction ::
    "('t, 'tx, 'i, 'c) node_ops \<Rightarrow> ('t, 'i) ConsensusTopicResponse \<Rightarrow> 'tx \<Rightarrow> ('t, 'tx, 'i, 'x, 'c) ordering
       \<Rightarrow> unit result \<times> ('t, 'tx, 'i, 'x, 'c) ordering" where
  "SimpleOrderingManager_processTransaction N r tx s0 =
     (let s = s0\<lparr>handed := handed s0 @ [r]\<rparr>;
          community = mCommunityId_SOM (manager s);
          stored = mLastSequenceNumber (manager s)
      in if \<not> oo_known N (node s) community then (Inl (Gradido CommunityNotFound), s)
         else if tid_isEmpty N (mInitialTransactionID (mChunkInfo r)) then (Inl (Gradido InvalidData), s)
         else (case catch_failed N community stored tx (confirm_and_store N community stored r tx (node s)) of
                 (res, c) \<Rightarrow> (res, s\<lparr>node := c\<rparr>)))"

section \<open>The thread of the manager\<close>

text \<open>
  One round of \<open>ThreadFunction\<close>, under the lock: \<open>Inr None\<close> returns, \<open>Inr (Some n)\<close> goes to the condition
  of the loop with \<open>transactionsCount = n\<close>. The count it is entered with is \<open>count\<close>: only a round that
  comes to its end sets it, a \<open>continue\<close> does not.
\<close>

text \<open>The entry fails: its sender is notified, it is erased, its number is the last one.\<close>

definition skip_entry ::
    "('t, 'tx, 'i, 'c) node_ops \<Rightarrow> nat \<Rightarrow> ('t, 'tx) HieroMessageToTransactionTask \<Rightarrow> u64 \<Rightarrow> ('t, 'tx, 'i, 'x, 'c) ordering
       \<Rightarrow> nat option result \<times> ('t, 'tx, 'i, 'x, 'c) ordering" where
  "skip_entry N count task current s =
     (case notificateFailedTransaction N (mCommunityId_SOM (manager s)) task (node s) of
        (Inl e, c) \<Rightarrow> (Inl e, s\<lparr>node := c\<rparr>)
      | (Inr _, c) \<Rightarrow>
          (case SimpleOrderingManager_updateSequenceNumber current
                  ((manager s)\<lparr>mTransactions := tl (mTransactions (manager s))\<rparr>) of
             (r, m) \<Rightarrow> (map_sum id (\<lambda>_. Some count) r, s\<lparr>node := c, manager := m\<rparr>)))"

text \<open>The end of a round: a successful task is processed; then the entry is erased.\<close>

definition finish_entry ::
    "('t, 'tx, 'i, 'c) node_ops \<Rightarrow> ('t, 'i) TopicResponseDeserializer \<Rightarrow> ('t, 'tx) HieroMessageToTransactionTask \<Rightarrow> 'tx
       \<Rightarrow> ('t, 'tx, 'i, 'x, 'c) ordering \<Rightarrow> nat option result \<times> ('t, 'tx, 'i, 'x, 'c) ordering" where
  "finish_entry N w task tx s =
     (case (if mSuccess task then SimpleOrderingManager_processTransaction N (consensusTopicResponse w) tx s else (Inr (), s)) of
        (Inl e, s1) \<Rightarrow> (Inl e, s1)
      | (Inr _, s1) \<Rightarrow>
          (case SimpleOrderingManager_updateSequenceNumber (mSequenceNumber (consensusTopicResponse w))
                  ((manager s1)\<lparr>mTransactions := tl (mTransactions (manager s1))\<rparr>) of
             (r, m) \<Rightarrow> (map_sum id (\<lambda>_. Some (length (mTransactions m))) r, s1\<lparr>manager := m\<rparr>)))"

text \<open>The checks of an inbound cross group transaction: fail, wait for the pair, or go on.\<close>

datatype inbound = Inbound_skip | Inbound_wait | Inbound_ok

definition inbound_check ::
    "('t, 'tx, 'i, 'c) node_ops \<Rightarrow> ('t, 'i) TopicResponseDeserializer \<Rightarrow> 'tx \<Rightarrow> ('t, 'tx, 'i, 'x, 'c) ordering \<Rightarrow> inbound result" where
  "inbound_check N w tx s =
     (if putIntoListTime w + oo_timespan N < oo_now N (node s) then Inr Inbound_skip
      else if \<not> oo_known N (node s) (tx_otherGroup N tx) then Inr Inbound_skip
      else case tx_pairingId N tx of
        Inl e \<Rightarrow> Inl e
      | Inr None \<Rightarrow> Inr Inbound_skip
      | Inr (Some i) \<Rightarrow>
          (case oo_pair N (node s) (tx_otherGroup N tx) i of
             None \<Rightarrow> Inr Inbound_wait
           | Some p \<Rightarrow>
               if \<not> task_finished (tasks s ! p) then Inr Inbound_wait
               else case mTransaction (tasks s ! p) of
                 None \<Rightarrow> Inl UndefinedBehaviour
               | Some ptx \<Rightarrow> Inr (if tx_isPairing N ptx tx then Inbound_ok else Inbound_skip)))"

definition ThreadFunction_round ::
    "('t, 'tx, 'i, 'c) node_ops \<Rightarrow> nat \<Rightarrow> ('t, 'tx, 'i, 'x, 'c) ordering \<Rightarrow> nat option result \<times> ('t, 'tx, 'i, 'x, 'c) ordering" where
  "ThreadFunction_round N count s =
     (let m = manager s in
      case mTransactions m of
        [] \<Rightarrow> (Inr None, s)
      | (_, w) # rest \<Rightarrow>
          let task = tasks s ! deserializeTask w;
              current = mSequenceNumber (consensusTopicResponse w);
              last = mLastSequenceNumber m
          in if \<not> task_finished task then (Inr None, s)
             else if last + 1 < current then (Inr None, s)
             else if last \<noteq> 0 \<and> current \<le> last then (Inr (Some count), s\<lparr>manager := m\<lparr>mTransactions := rest\<rparr>\<rparr>)
             else case mTransaction task of
               None \<Rightarrow> (Inl UndefinedBehaviour, s)
             | Some tx \<Rightarrow>
                 if tx_inbound N tx then
                   (case inbound_check N w tx s of
                      Inl e \<Rightarrow> (Inl e, s)
                    | Inr Inbound_skip \<Rightarrow> skip_entry N count task current s
                    | Inr Inbound_wait \<Rightarrow> (Inr (Some count), s\<lparr>node := oo_sleep N (node s)\<rparr>)
                    | Inr Inbound_ok \<Rightarrow> finish_entry N w task tx s)
                 else finish_entry N w task tx s)"

text \<open>
  The loop. Between two rounds the lock is free: the list says what the other threads do in each gap,
  and its length how many rounds are looked at; \<open>None\<close> is a run that is not over by then.
\<close>

fun ThreadFunction ::
    "('t, 'tx, 'i, 'c) node_ops \<Rightarrow> (('t, 'tx, 'i, 'x, 'c) ordering \<Rightarrow> ('t, 'tx, 'i, 'x, 'c) ordering) list \<Rightarrow> nat
       \<Rightarrow> ('t, 'tx, 'i, 'x, 'c) ordering \<Rightarrow> unit result option \<times> ('t, 'tx, 'i, 'x, 'c) ordering" where
  "ThreadFunction N [] count s = (None, s)"
| "ThreadFunction N (gap # gaps) count s =
     (case ThreadFunction_round N count s of
        (Inl e, s') \<Rightarrow> (Some (Inl e), s')
      | (Inr None, s') \<Rightarrow> (Some (Inr ()), s')
      | (Inr (Some n), s') \<Rightarrow> if n = 0 then (Some (Inr ()), s') else ThreadFunction N gaps n (gap s'))"

section \<open>What a round does\<close>

text \<open>A number that is neither waited for nor dropped is the next one; the first number may be 0.\<close>

definition next_number :: "u64 \<Rightarrow> u64 \<Rightarrow> bool" where
  "next_number old current = (current = old + 1 \<and> old < current \<or> old = 0 \<and> current = 0)"

lemma next_numberI:
  assumes "\<not> old + 1 < current" "\<not> (old \<noteq> 0 \<and> current \<le> old)"
  shows "next_number old current"
proof (cases "old = 0")
  case True
  with assms(1) have "current \<le> 1" by simp
  then have "unat current \<le> 1" by (simp add: word_le_nat_alt)
  then have "unat current = 0 \<or> unat current = 1" by auto
  then have "current = 0 \<or> current = 1" by (metis unat_0 unsigned_1 word_eq_iff_unsigned)
  with True show ?thesis by (auto simp: next_number_def)
next
  case False
  with assms(2) have less: "old < current" by simp
  then have "old + 1 \<le> current" by (rule inc_le)
  with assms(1) less show ?thesis by (auto simp: next_number_def)
qed

lemma next_number_le: "next_number old current \<Longrightarrow> old \<le> current"
  by (auto simp: next_number_def)

lemma updateSequenceNumber_next [simp]:
  "next_number (mLastSequenceNumber m) current \<Longrightarrow>
   SimpleOrderingManager_updateSequenceNumber current m = (Inr (), m\<lparr>mLastSequenceNumber := current\<rparr>)"
  by (auto simp: SimpleOrderingManager_updateSequenceNumber_def next_number_def)

lemma processTransaction_effect:
  assumes "SimpleOrderingManager_processTransaction N r tx s = (res, s')"
  shows "manager s' = manager s \<and> tasks s' = tasks s \<and> handed s' = handed s @ [r]"
  using assms
  by (auto simp: SimpleOrderingManager_processTransaction_def Let_def split: if_splits prod.splits)

text \<open>
  The three things a round does to the manager: it leaves the entries or drops the first; it takes the
  first entry as the next number, handed over or not; it throws after handing the first one over.
\<close>

definition round_keeps :: "('t, 'tx, 'i, 'x, 'c) ordering \<Rightarrow> ('t, 'tx, 'i, 'x, 'c) ordering \<Rightarrow> bool" where
  "round_keeps s s' = (handed s' = handed s \<and>
     (manager s' = manager s \<or> manager s' = (manager s)\<lparr>mTransactions := tl (mTransactions (manager s))\<rparr>))"

definition round_takes ::
    "('t, 'tx, 'i, 'x, 'c) ordering \<Rightarrow> ('t, 'i) TopicResponseDeserializer \<Rightarrow> ('t, 'tx, 'i, 'x, 'c) ordering \<Rightarrow> bool" where
  "round_takes s w s' = (handed s' \<in> {handed s, handed s @ [consensusTopicResponse w]} \<and>
     manager s' = (manager s)\<lparr>mTransactions := tl (mTransactions (manager s)),
                              mLastSequenceNumber := mSequenceNumber (consensusTopicResponse w)\<rparr>)"

definition round_throws ::
    "('t, 'tx, 'i, 'x, 'c) ordering \<Rightarrow> ('t, 'i) TopicResponseDeserializer \<Rightarrow> ('t, 'tx, 'i, 'x, 'c) ordering \<Rightarrow> bool" where
  "round_throws s w s' = (handed s' = handed s @ [consensusTopicResponse w] \<and> manager s' = manager s)"

lemma skip_entry_effect:
  assumes "skip_entry N count task (mSequenceNumber (consensusTopicResponse w)) s = (r, s')"
    and "next_number (mLastSequenceNumber (manager s)) (mSequenceNumber (consensusTopicResponse w))"
  shows "tasks s' = tasks s \<and> (round_keeps s s' \<or> is_ok r \<and> round_takes s w s')"
  using assms
  by (auto simp: skip_entry_def round_keeps_def round_takes_def split: prod.splits sum.splits)

lemma finish_entry_effect:
  assumes "finish_entry N w task tx s = (r, s')"
    and "next_number (mLastSequenceNumber (manager s)) (mSequenceNumber (consensusTopicResponse w))"
  shows "tasks s' = tasks s \<and> (is_ok r \<and> round_takes s w s' \<or> \<not> is_ok r \<and> round_throws s w s')"
proof (cases "mSuccess task")
  case False
  with assms show ?thesis by (auto simp: finish_entry_def round_takes_def)
next
  case True
  obtain res s1 where p: "SimpleOrderingManager_processTransaction N (consensusTopicResponse w) tx s = (res, s1)"
    by (cases "SimpleOrderingManager_processTransaction N (consensusTopicResponse w) tx s")
  note e = processTransaction_effect [OF p]
  show ?thesis
  proof (cases res)
    case (Inl e1)
    with assms(1) True p e show ?thesis by (auto simp: finish_entry_def round_throws_def)
  next
    case (Inr u)
    with assms True p e show ?thesis by (auto simp: finish_entry_def round_takes_def)
  qed
qed

lemma ThreadFunction_round_effect:
  assumes "ThreadFunction_round N count s = (r, s')"
  shows "tasks s' = tasks s \<and>
     (round_keeps s s' \<or>
      (\<exists>t w rest. mTransactions (manager s) = (t, w) # rest \<and>
         next_number (mLastSequenceNumber (manager s)) (mSequenceNumber (consensusTopicResponse w)) \<and>
         (is_ok r \<and> round_takes s w s' \<or> \<not> is_ok r \<and> round_throws s w s')))"
proof (cases "mTransactions (manager s)")
  case Nil
  with assms show ?thesis by (simp add: ThreadFunction_round_def round_keeps_def)
next
  case (Cons p rest)
  obtain t w where p: "p = (t, w)" by (cases p)
  let ?task = "tasks s ! deserializeTask w" and ?cur = "mSequenceNumber (consensusTopicResponse w)"
    and ?last = "mLastSequenceNumber (manager s)"
  consider (wait) "\<not> task_finished ?task \<or> ?last + 1 < ?cur"
    | (drop) "task_finished ?task" "\<not> ?last + 1 < ?cur" "?last \<noteq> 0" "?cur \<le> ?last"
    | (go) "task_finished ?task" "\<not> ?last + 1 < ?cur" "\<not> (?last \<noteq> 0 \<and> ?cur \<le> ?last)" by blast
  then show ?thesis
  proof cases
    case wait
    with assms Cons p show ?thesis by (auto simp: ThreadFunction_round_def round_keeps_def Let_def split: if_splits)
  next
    case drop
    with assms Cons p show ?thesis by (auto simp: ThreadFunction_round_def round_keeps_def Let_def split: if_splits)
  next
    case go
    then have n: "next_number ?last ?cur" by (auto intro: next_numberI)
    show ?thesis
    proof (cases "mTransaction ?task")
      case None
      with go assms Cons p show ?thesis by (auto simp: ThreadFunction_round_def round_keeps_def Let_def split: if_splits)
    next
      case (Some tx)
      have body: "(if tx_inbound N tx then
                   (case inbound_check N w tx s of
                      Inl e \<Rightarrow> (Inl e, s)
                    | Inr Inbound_skip \<Rightarrow> skip_entry N count ?task ?cur s
                    | Inr Inbound_wait \<Rightarrow> (Inr (Some count), s\<lparr>node := oo_sleep N (node s)\<rparr>)
                    | Inr Inbound_ok \<Rightarrow> finish_entry N w ?task tx s)
                 else finish_entry N w ?task tx s) = (r, s')"
        using assms Cons p go Some by (auto simp: ThreadFunction_round_def Let_def split: if_splits)
      have "tasks s' = tasks s \<and> (round_keeps s s' \<or> is_ok r \<and> round_takes s w s' \<or> \<not> is_ok r \<and> round_throws s w s')"
        using body skip_entry_effect [OF _ n, of N count ?task r s'] finish_entry_effect [OF _ n, of N ?task tx r s']
        by (auto split: if_splits sum.splits inbound.splits simp: round_keeps_def)
      with Cons p n show ?thesis by blast
    qed
  qed
qed

section \<open>Runs\<close>

text \<open>
  What happens to the manager: a message is pushed, a worker runs a task and marks it as finished, the
  thread does a round, the rest of the node goes on, the node exits. A round that throws ends the thread
  (\<open>Thread::run\<close> terminates the application); the flag says that it is alive.
\<close>

datatype ('t, 'i, 'c) ordering_event =
    Push "('t, 'i) ConsensusTopicResponse"
  | Run_task nat
  | Round nat
  | Node 'c
  | Exit

fun ordering_step ::
    "('t::linorder, 'tx, 'i, 'c) node_ops \<Rightarrow> ('x, 'o, 't) expire_cache \<Rightarrow> (bytes \<Rightarrow> 'o) \<Rightarrow> ('t, 'i, 'c) ordering_event
       \<Rightarrow> bool \<times> ('t, 'tx, 'i, 'x, 'c) ordering \<Rightarrow> bool \<times> ('t, 'tx, 'i, 'x, 'c) ordering" where
  "ordering_step N E octet (Push r) (alive, s) = (alive, snd (SimpleOrderingManager_pushTransaction N E octet r s))"
| "ordering_step N E octet (Run_task k) (alive, s) =
     (if k < length (tasks s) \<and> \<not> task_finished (tasks s ! k) then
        (case HieroMessageToTransactionTask_run N (tasks s ! k) (node s) of
           (r, task, c) \<Rightarrow> (alive, s\<lparr>tasks := (tasks s)[k := task\<lparr>task_finished := is_ok r\<rparr>], node := c\<rparr>))
      else (alive, s))"
| "ordering_step N E octet (Round count) (alive, s) =
     (if alive then (case ThreadFunction_round N count s of (r, s') \<Rightarrow> (is_ok r, s')) else (alive, s))"
| "ordering_step N E octet (Node c) (alive, s) = (alive, s\<lparr>node := c\<rparr>)"
| "ordering_step N E octet Exit (alive, s) = (False, s\<lparr>manager := (manager s)\<lparr>exit_called := True\<rparr>\<rparr>)"

definition ordering_start :: "('x, 'o, 't) expire_cache \<Rightarrow> string \<Rightarrow> u64 \<Rightarrow> 'c \<Rightarrow> bool \<times> ('t, 'tx, 'i, 'x, 'c) ordering" where
  "ordering_start E community n0 c =
     (True, \<lparr>manager = SimpleOrderingManager_init n0 (SimpleOrderingManager_new E community), tasks = [], node = c, handed = []\<rparr>)"

definition seq_order :: "u64 \<Rightarrow> u64 \<Rightarrow> bool" where
  "seq_order a b = (a < b \<or> a = 0 \<and> b = 0)"

definition ordering_inv :: "u64 \<Rightarrow> bool \<times> ('t::linorder, 'tx, 'i, 'x, 'c) ordering \<Rightarrow> bool" where
  "ordering_inv n0 p = (case p of (alive, s) \<Rightarrow>
     mm_ok (mTransactions (manager s)) \<and>
     (\<forall>(t, w) \<in> set (mTransactions (manager s)).
        deserializeTask w < length (tasks s) \<and> mConsensusTimestamp (consensusTopicResponse w) = t) \<and>
     sorted_wrt seq_order (map mSequenceNumber (handed s)) \<and>
     (\<forall>r \<in> set (handed s). seq_order n0 (mSequenceNumber r)) \<and>
     n0 \<le> mLastSequenceNumber (manager s) \<and>
     (alive \<longrightarrow> (\<forall>r \<in> set (handed s). mSequenceNumber r \<le> mLastSequenceNumber (manager s))))"

lemma set_tl: "x \<in> set (tl xs) \<Longrightarrow> x \<in> set xs"
  by (cases xs) auto

lemma mm_ok_tl: "mm_ok m \<Longrightarrow> mm_ok (tl m)"
  by (cases m) (auto simp: mm_ok_Cons)

text \<open>A run only adds to what was handed over, and the last number never falls.\<close>

definition ordering_le :: "bool \<times> ('t, 'tx, 'i, 'x, 'c) ordering \<Rightarrow> bool \<times> ('t, 'tx, 'i, 'x, 'c) ordering \<Rightarrow> bool" where
  "ordering_le p q = ((\<exists>rs. handed (snd q) = handed (snd p) @ rs) \<and>
     mLastSequenceNumber (manager (snd p)) \<le> mLastSequenceNumber (manager (snd q)))"

lemma next_number_order:
  assumes "next_number n current" "m \<le> n"
  shows "seq_order m current"
proof (cases "n = 0 \<and> current = 0")
  case True
  with assms(2) have "m = 0" by (simp add: word_le_0_iff)
  with True show ?thesis by (simp add: seq_order_def)
next
  case False
  with assms(1) have "n < current" by (auto simp: next_number_def)
  with assms(2) show ?thesis by (simp add: seq_order_def le_less_trans)
qed

lemma pushTransaction_effect:
  assumes "SimpleOrderingManager_pushTransaction N E octet r s = (res, s')"
  shows "handed s' = handed s \<and> node s' = node s \<and>
     mLastSequenceNumber (manager s') = mLastSequenceNumber (manager s) \<and>
     (res \<noteq> Inr ADDED \<and> mTransactions (manager s') = mTransactions (manager s) \<and> tasks s' = tasks s \<or>
      res = Inr ADDED \<and>
      mTransactions (manager s') = mm_insert (mConsensusTimestamp r) \<lparr>consensusTopicResponse = r,
        deserializeTask = length (tasks s), putIntoListTime = oo_now N (node s)\<rparr> (mTransactions (manager s)) \<and>
      tasks s' = tasks s @ [HieroMessageToTransactionTask_new (mConsensusTimestamp r) (mMessage r) (mCommunityId_SOM (manager s))])"
  using assms
  by (auto simp: SimpleOrderingManager_pushTransaction_def Let_def
      split: if_splits option.splits prod.splits sum.splits bool.splits)

lemma ordering_inv_push:
  assumes "ordering_inv n0 (alive, s)" "SimpleOrderingManager_pushTransaction N E octet r s = (res, s')"
  shows "ordering_inv n0 (alive, s')"
  using assms(1) pushTransaction_effect [OF assms(2)]
  by (fastforce simp: ordering_inv_def set_mm_insert intro: mm_ok_insert)

lemma ordering_inv_tl:
  assumes "ordering_inv n0 (alive, s)" "mTransactions (manager s') = tl (mTransactions (manager s))"
    and "mLastSequenceNumber (manager s') = mLastSequenceNumber (manager s)" "tasks s' = tasks s" "handed s' = handed s"
  shows "ordering_inv n0 (alive, s')"
  using assms by (auto simp: ordering_inv_def mm_ok_tl dest: set_tl)

lemma ordering_inv_takes:
  assumes inv: "ordering_inv n0 (True, s)" and n: "next_number (mLastSequenceNumber (manager s)) (mSequenceNumber (consensusTopicResponse w))"
    and t: "round_takes s w s'" "tasks s' = tasks s"
  shows "ordering_inv n0 (True, s')"
proof -
  let ?old = "mLastSequenceNumber (manager s)" and ?cur = "mSequenceNumber (consensusTopicResponse w)"
  define s1 where "s1 = s\<lparr>manager := (manager s)\<lparr>mTransactions := tl (mTransactions (manager s))\<rparr>\<rparr>"
  have "ordering_inv n0 (True, s1)" by (rule ordering_inv_tl [OF inv]) (simp_all add: s1_def)
  moreover have "?old \<le> ?cur" using n by (rule next_number_le)
  moreover have "seq_order m ?cur" if "m \<le> ?old" for m using next_number_order [OF n that] .
  ultimately show ?thesis
    using t by (auto simp: ordering_inv_def round_takes_def s1_def sorted_wrt_append intro: order_trans)
qed

lemma ordering_inv_throws:
  assumes inv: "ordering_inv n0 (True, s)" and n: "next_number (mLastSequenceNumber (manager s)) (mSequenceNumber (consensusTopicResponse w))"
    and t: "round_throws s w s'" "tasks s' = tasks s"
  shows "ordering_inv n0 (False, s')"
  using inv t next_number_order [OF n]
  by (auto simp: ordering_inv_def round_throws_def sorted_wrt_append)

lemma ordering_inv_dead: "ordering_inv n0 (alive, s) \<Longrightarrow> ordering_inv n0 (False, s)"
  by (simp add: ordering_inv_def)

lemma ordering_inv_round:
  assumes inv: "ordering_inv n0 (True, s)" and r: "ThreadFunction_round N count s = (r, s')"
  shows "ordering_inv n0 (is_ok r, s')"
proof -
  have tasks: "tasks s' = tasks s" using ThreadFunction_round_effect [OF r] by blast
  consider (keep) "round_keeps s s'"
    | (entry) t w rest where "mTransactions (manager s) = (t, w) # rest"
        "next_number (mLastSequenceNumber (manager s)) (mSequenceNumber (consensusTopicResponse w))"
        "is_ok r \<and> round_takes s w s' \<or> \<not> is_ok r \<and> round_throws s w s'"
    using ThreadFunction_round_effect [OF r] by blast
  then show ?thesis
  proof cases
    case keep
    then have "ordering_inv n0 (True, s')"
      using inv tasks ordering_inv_tl [OF inv, of s'] by (auto simp: round_keeps_def ordering_inv_def)
    then show ?thesis by (cases "is_ok r") (auto intro: ordering_inv_dead)
  next
    case entry
    then show ?thesis
      using ordering_inv_takes [OF inv entry(2) _ tasks] ordering_inv_throws [OF inv entry(2) _ tasks] by auto
  qed
qed

lemma ordering_inv_step:
  assumes inv: "ordering_inv n0 p"
  shows "ordering_inv n0 (ordering_step N E octet e p)"
proof (cases p)
  case (Pair alive s)
  show ?thesis
  proof (cases e)
    case (Push r)
    obtain res s' where "SimpleOrderingManager_pushTransaction N E octet r s = (res, s')"
      by (cases "SimpleOrderingManager_pushTransaction N E octet r s")
    with inv Pair Push show ?thesis using ordering_inv_push [of n0 alive s N E octet r res s'] by simp
  next
    case (Run_task k)
    with inv Pair show ?thesis by (auto simp: ordering_inv_def split: prod.splits)
  next
    case (Round count)
    obtain r s' where "ThreadFunction_round N count s = (r, s')" by (cases "ThreadFunction_round N count s")
    with inv Pair Round show ?thesis using ordering_inv_round [of n0 s N count r s'] by auto
  next
    case (Node c)
    with inv Pair show ?thesis by (simp add: ordering_inv_def)
  next
    case Exit
    with inv Pair show ?thesis by (simp add: ordering_inv_def)
  qed
qed

lemma ordering_le_round:
  assumes "ThreadFunction_round N count s = (r, s')"
  shows "ordering_le (a, s) (b, s')"
proof -
  consider (keep) "round_keeps s s'"
    | (entry) w where "next_number (mLastSequenceNumber (manager s)) (mSequenceNumber (consensusTopicResponse w))"
        "round_takes s w s' \<or> round_throws s w s'"
    using ThreadFunction_round_effect [OF assms] by blast
  then show ?thesis
  proof cases
    case keep
    then show ?thesis by (auto simp: ordering_le_def round_keeps_def)
  next
    case entry
    from next_number_le [OF entry(1)] entry(2) show ?thesis
      by (auto simp: ordering_le_def round_takes_def round_throws_def)
  qed
qed

lemma ordering_le_step: "ordering_le p (ordering_step N E octet e p)"
proof (cases p)
  case (Pair alive s)
  show ?thesis
  proof (cases e)
    case (Push r)
    obtain res s' where "SimpleOrderingManager_pushTransaction N E octet r s = (res, s')"
      by (cases "SimpleOrderingManager_pushTransaction N E octet r s")
    with Pair Push show ?thesis using pushTransaction_effect [of N E octet r s res s'] by (simp add: ordering_le_def)
  next
    case (Round count)
    obtain r s' where "ThreadFunction_round N count s = (r, s')" by (cases "ThreadFunction_round N count s")
    with Pair Round show ?thesis using ordering_le_round [of N count s r s'] by (auto simp: ordering_le_def)
  qed (auto simp: ordering_le_def Pair split: prod.splits)
qed

interpretation ordering_run: step_monotone "ordering_step N E octet" "ordering_inv n0" ordering_le
  for N :: "('t::linorder, 'tx, 'i, 'c) node_ops" and E :: "('x, 'o, 't) expire_cache" and octet :: "bytes \<Rightarrow> 'o" and n0
proof
  show "ordering_inv n0 p \<Longrightarrow> ordering_inv n0 (ordering_step N E octet e p)" for e p by (rule ordering_inv_step)
  show "ordering_le p p" for p :: "bool \<times> ('t, 'tx, 'i, 'x, 'c) ordering" by (simp add: ordering_le_def)
  show "ordering_le p r" if "ordering_le p q" "ordering_le q r" for p q r :: "bool \<times> ('t, 'tx, 'i, 'x, 'c) ordering"
    using that by (auto simp: ordering_le_def)
  show "ordering_le p (ordering_step N E octet e p)" for e p by (rule ordering_le_step)
qed

lemma ordering_inv_start: "ordering_inv n0 (ordering_start E community n0 c)"
  by (simp add: ordering_inv_def ordering_start_def SimpleOrderingManager_init_def SimpleOrderingManager_new_def)

section \<open>Draining the queue\<close>

text \<open>What the blockchain promises: it is there, and it throws only exceptions of the blockchain library.\<close>

definition gradido_result :: "'a result \<Rightarrow> bool" where
  "gradido_result r = (case r of Inl (Gradido _) \<Rightarrow> True | Inl _ \<Rightarrow> False | Inr _ \<Rightarrow> True)"

definition gradido_errors :: "('t, 'tx, 'i, 'c) node_ops \<Rightarrow> string \<Rightarrow> bool" where
  "gradido_errors N community =
     ((\<forall>c. oo_known N c community) \<and>
      (\<forall>tx b t c. gradido_result (fst (oo_confirm N community tx b t c))) \<and>
      (\<forall>n c. gradido_result (fst (oo_setSeq N community n c))))"

lemma gradido_result_cases:
  assumes "gradido_result r"
  obtains g where "r = Inl (Gradido g)" | a where "r = Inr a"
  using assms by (auto simp: gradido_result_def split: sum.splits error.splits)

lemma catch_failed_ok:
  assumes "gradido_errors N community" "gradido_result (fst p)"
  shows "fst (catch_failed N community stored tx p) = Inr ()"
proof -
  obtain r c where p: "p = (r, c)" by (cases p)
  obtain r1 c1 where c1: "oo_setSeq N community stored (oo_notify N community tx c) = (r1, c1)"
    by (cases "oo_setSeq N community stored (oo_notify N community tx c)")
  have "gradido_result r1" using assms(1) c1 unfolding gradido_errors_def by (metis fst_conv)
  moreover have "gradido_result r" using assms(2) p by simp
  ultimately show ?thesis
    by (elim gradido_result_cases) (simp_all add: catch_failed_def p c1)
qed

lemma processTransaction_ok:
  assumes "gradido_errors N (mCommunityId_SOM (manager s))" "\<not> tid_isEmpty N (mInitialTransactionID (mChunkInfo r))"
  shows "fst (SimpleOrderingManager_processTransaction N r tx s) = Inr ()"
proof -
  have "gradido_result (fst (confirm_and_store N (mCommunityId_SOM (manager s)) n r tx c))" for n c
    using assms(1)
    by (auto simp: confirm_and_store_def gradido_errors_def gradido_result_def split: prod.splits sum.splits error.splits)
      (metis fst_conv)+
  from catch_failed_ok [OF assms(1) this] have
    "fst (catch_failed N (mCommunityId_SOM (manager s)) n tx (confirm_and_store N (mCommunityId_SOM (manager s)) n r tx c)) = Inr ()"
    for n c .
  then show ?thesis
    using assms by (simp add: SimpleOrderingManager_processTransaction_def Let_def gradido_errors_def split: prod.split)
      (metis fst_conv)
qed

text \<open>An entry whose task has finished with a transaction that needs no pair and has an identifier.\<close>

definition ready :: "('t, 'tx, 'i, 'c) node_ops \<Rightarrow> ('t, 'tx) HieroMessageToTransactionTask list \<Rightarrow> ('t, 'i) TopicResponseDeserializer \<Rightarrow> bool" where
  "ready N ts w = (case mTransaction (ts ! deserializeTask w) of
      None \<Rightarrow> False
    | Some tx \<Rightarrow> task_finished (ts ! deserializeTask w) \<and> mSuccess (ts ! deserializeTask w) \<and> \<not> tx_inbound N tx \<and>
        \<not> tid_isEmpty N (mInitialTransactionID (mChunkInfo (consensusTopicResponse w))))"

lemma round_ready:
  assumes q: "mTransactions (manager s) = (t, w) # rest" and ready: "ready N (tasks s) w"
    and errors: "gradido_errors N (mCommunityId_SOM (manager s))"
    and nr: "next_number (mLastSequenceNumber (manager s)) (mSequenceNumber (consensusTopicResponse w))"
    and pos: "mSequenceNumber (consensusTopicResponse w) \<noteq> 0"
  shows "\<exists>s'. ThreadFunction_round N count s = (Inr (Some (length rest)), s') \<and> tasks s' = tasks s \<and>
     handed s' = handed s @ [consensusTopicResponse w] \<and>
     manager s' = (manager s)\<lparr>mTransactions := rest, mLastSequenceNumber := mSequenceNumber (consensusTopicResponse w)\<rparr>"
proof -
  obtain tx where tx: "mTransaction (tasks s ! deserializeTask w) = Some tx"
    and task: "task_finished (tasks s ! deserializeTask w)" "mSuccess (tasks s ! deserializeTask w)" "\<not> tx_inbound N tx"
    and i: "\<not> tid_isEmpty N (mInitialTransactionID (mChunkInfo (consensusTopicResponse w)))"
    using ready by (auto simp: ready_def split: option.splits)
  have ok: "fst (SimpleOrderingManager_processTransaction N (consensusTopicResponse w) tx s) = Inr ()"
    using errors i by (rule processTransaction_ok)
  obtain s1 where p: "SimpleOrderingManager_processTransaction N (consensusTopicResponse w) tx s = (Inr (), s1)"
    using ok by (metis prod.collapse)
  note e = processTransaction_effect [OF p]
  have order: "\<not> mLastSequenceNumber (manager s) + 1 < mSequenceNumber (consensusTopicResponse w)"
    "\<not> (mLastSequenceNumber (manager s) \<noteq> 0 \<and> mSequenceNumber (consensusTopicResponse w) \<le> mLastSequenceNumber (manager s))"
    using nr pos by (auto simp: next_number_def)
  have "ThreadFunction_round N count s = finish_entry N w (tasks s ! deserializeTask w) tx s"
    unfolding ThreadFunction_round_def using q tx task order by (auto simp: Let_def simp del: not_less)
  then show ?thesis
    using p e q nr task(2) by (auto simp: finish_entry_def)
qed

text \<open>Numbers that follow each other, the first one behind \<open>n\<close>, without wrap-around.\<close>

fun consecutive :: "u64 \<Rightarrow> u64 list \<Rightarrow> bool" where
  "consecutive n [] = True"
| "consecutive n (x # xs) = (next_number n x \<and> x \<noteq> 0 \<and> consecutive x xs)"

lemma ThreadFunction_drains:
  assumes "mTransactions (manager s) = q" "\<forall>p \<in> set q. ready N (tasks s) (snd p)"
    and "gradido_errors N (mCommunityId_SOM (manager s))"
    and "consecutive (mLastSequenceNumber (manager s)) (map (\<lambda>p. mSequenceNumber (consensusTopicResponse (snd p))) q)"
  shows "\<exists>s'. ThreadFunction N (replicate (Suc (length q)) id) count s = (Some (Inr ()), s') \<and>
     mTransactions (manager s') = [] \<and> handed s' = handed s @ map (\<lambda>p. consensusTopicResponse (snd p)) q"
  using assms
proof (induction q arbitrary: s count)
  case Nil
  then show ?case by (simp add: ThreadFunction_round_def)
next
  case (Cons p q)
  obtain t w where p: "p = (t, w)" by (cases p)
  have nr: "next_number (mLastSequenceNumber (manager s)) (mSequenceNumber (consensusTopicResponse w))"
    "mSequenceNumber (consensusTopicResponse w) \<noteq> 0" using Cons.prems(4) p by auto
  obtain s1 where r: "ThreadFunction_round N count s = (Inr (Some (length q)), s1)"
    and tasks: "tasks s1 = tasks s" and handed: "handed s1 = handed s @ [consensusTopicResponse w]"
    and m: "manager s1 = (manager s)\<lparr>mTransactions := q, mLastSequenceNumber := mSequenceNumber (consensusTopicResponse w)\<rparr>"
    using round_ready [of s t w q N count] Cons.prems p nr by auto
  show ?case
  proof (cases "q = []")
    case True
    with r m handed p show ?thesis by simp
  next
    case False
    have "\<exists>s'. ThreadFunction N (replicate (Suc (length q)) id) (length q) s1 = (Some (Inr ()), s') \<and>
       mTransactions (manager s') = [] \<and> handed s' = handed s1 @ map (\<lambda>p. consensusTopicResponse (snd p)) q"
      by (rule Cons.IH) (use Cons.prems tasks m p in auto)
    then obtain s2 where s2: "ThreadFunction N (replicate (Suc (length q)) id) (length q) s1 = (Some (Inr ()), s2)"
        "mTransactions (manager s2) = []" "handed s2 = handed s1 @ map (\<lambda>p. consensusTopicResponse (snd p)) q"
      by (elim exE conjE) (rule that)
    have run: "ThreadFunction N (replicate (Suc (length (p # q))) id) count s = (Some (Inr ()), s2)"
      using r False s2(1) by (simp only: replicate_Suc list.size add_0_right add_Suc_right ThreadFunction.simps) simp
    have "handed s2 = handed s @ map (\<lambda>p. consensusTopicResponse (snd p)) (p # q)" using s2(3) handed p by simp
    with run s2(2) show ?thesis by blast
  qed
qed

section \<open>Messages pushed twice\<close>

lemma same_message_in_found:
  assumes "w \<in> set ws" "mMessage (consensusTopicResponse w) = mMessage r"
  shows "same_message_in r ws \<noteq> Inr False"
  using assms
proof (induction ws)
  case Nil
  then show ?case by simp
next
  case (Cons v vs)
  show ?case
  proof (cases "ConsensusTopicResponse_isMessageSame (consensusTopicResponse v) r")
    case (Inl e)
    then show ?thesis by simp
  next
    case (Inr same)
    show ?thesis
    proof (cases same)
      case True
      with Inr show ?thesis by simp
    next
      case False
      with Inr have "mMessage (consensusTopicResponse v) \<noteq> mMessage r"
        by (auto simp: ConsensusTopicResponse_isMessageSame_def split: option.splits)
      with Cons.prems have "w \<in> set vs" by auto
      with Cons Inr False show ?thesis by simp
    qed
  qed
qed

definition queued :: "('t, 'i) ConsensusTopicResponse \<Rightarrow> ('t, 'tx, 'i, 'x, 'c) ordering \<Rightarrow> bool" where
  "queued r s = (\<exists>w. (mConsensusTimestamp r, w) \<in> set (mTransactions (manager s)) \<and> mMessage (consensusTopicResponse w) = mMessage r)"

lemma queued_step:
  assumes "queued r s" "\<And>n. e \<noteq> Round n"
  shows "queued r (snd (ordering_step N E octet e (alive, s)))"
proof (cases e)
  case (Push r2)
  obtain res s' where "SimpleOrderingManager_pushTransaction N E octet r2 s = (res, s')"
    by (cases "SimpleOrderingManager_pushTransaction N E octet r2 s")
  with assms(1) Push show ?thesis
    using pushTransaction_effect [of N E octet r2 s res s'] by (auto simp: queued_def set_mm_insert)
next
  case (Run_task k)
  with assms(1) show ?thesis by (auto simp: queued_def split: prod.splits)
qed (use assms in \<open>auto simp: queued_def\<close>)

lemma queued_run:
  assumes "queued r s" "\<forall>e \<in> set es. \<forall>n. e \<noteq> Round n"
  shows "queued r (snd (fold (ordering_step N E octet) es (alive, s)))"
  using assms
proof (induction es arbitrary: alive s)
  case Nil
  then show ?case by simp
next
  case (Cons e es)
  obtain alive' s' where e: "ordering_step N E octet e (alive, s) = (alive', s')"
    by (cases "ordering_step N E octet e (alive, s)")
  from Cons.prems have "queued r s'" using queued_step [of r s e N E octet alive] e by auto
  with Cons e show ?case by simp
qed

lemma push_queued:
  assumes "queued r s" "SimpleOrderingManager_pushTransaction N E octet r s = (res, s')"
  shows "res \<noteq> Inr ADDED \<and> mTransactions (manager s') = mTransactions (manager s)"
proof -
  obtain w where "w \<in> set (mm_equal_range (mConsensusTimestamp r) (mTransactions (manager s)))"
    "mMessage (consensusTopicResponse w) = mMessage r"
    using assms(1) by (force simp: queued_def mm_equal_range_def)
  from same_message_in_found [OF this] assms(2) show ?thesis
    by (auto simp: SimpleOrderingManager_pushTransaction_def Let_def
        split: if_splits option.splits prod.splits sum.splits bool.splits)
qed

section \<open>Messages that are thrown away\<close>

text \<open>Every entry has a finished task and a number that is not above the last one.\<close>

definition stale :: "('t, 'tx, 'i, 'x, 'c) ordering \<Rightarrow> bool" where
  "stale s = (mLastSequenceNumber (manager s) \<noteq> 0 \<and> mLastSequenceNumber (manager s) \<noteq> - 1 \<and>
     (\<forall>p \<in> set (mTransactions (manager s)). task_finished (tasks s ! deserializeTask (snd p)) \<and>
        mSequenceNumber (consensusTopicResponse (snd p)) \<le> mLastSequenceNumber (manager s)))"

lemma ThreadFunction_stale:
  assumes "stale s" "mTransactions (manager s) = p # rest"
  shows "ThreadFunction N (gap # gaps) 0 s = (Some (Inr ()), s\<lparr>manager := (manager s)\<lparr>mTransactions := rest\<rparr>\<rparr>)"
proof -
  obtain t w where p: "p = (t, w)" by (cases p)
  have le: "mSequenceNumber (consensusTopicResponse w) \<le> mLastSequenceNumber (manager s)"
    and nz: "mLastSequenceNumber (manager s) \<noteq> 0" and fin: "task_finished (tasks s ! deserializeTask w)"
    using assms p by (auto simp: stale_def)
  have "\<not> mLastSequenceNumber (manager s) + 1 < mSequenceNumber (consensusTopicResponse w)"
  proof -
    have "\<not> mLastSequenceNumber (manager s) + 1 \<le> mLastSequenceNumber (manager s)"
      using assms(1) by (simp add: stale_def inc_less_eq_self_iff_eq)
    with le show ?thesis by (meson less_imp_le order_trans)
  qed
  with le nz fin assms(2) p show ?thesis by (simp add: ThreadFunction_round_def Let_def)
qed


lemma stale_drop: "stale s \<Longrightarrow> stale (s\<lparr>manager := (manager s)\<lparr>mTransactions := tl (mTransactions (manager s))\<rparr>\<rparr>)"
  by (auto simp: stale_def dest: set_tl)

section \<open>Two managers that wait for each other\<close>

text \<open>
  The locks of \<open>ThreadFunction\<close> on inbound entries: a thread takes \<open>mTransactionsMutex\<close> of its own manager
  for the round and, in \<open>findCrossGroupTransactionPair\<close>, that of the manager of the other community, which
  it releases again; then the round ends. \<open>other i\<close> is the manager that the first entry of \<open>i\<close> asks.
\<close>

datatype lock_phase = Outside | Locked | Searching | Searched

definition holds :: "(nat \<Rightarrow> nat) \<Rightarrow> (nat \<Rightarrow> lock_phase) \<Rightarrow> nat \<Rightarrow> nat list" where
  "holds other ph i = (case ph i of Outside \<Rightarrow> [] | Locked \<Rightarrow> [i] | Searching \<Rightarrow> [i, other i] | Searched \<Rightarrow> [i])"

definition lock_free :: "nat list \<Rightarrow> (nat \<Rightarrow> nat) \<Rightarrow> (nat \<Rightarrow> lock_phase) \<Rightarrow> nat \<Rightarrow> bool" where
  "lock_free ms other ph l = list_all (\<lambda>i. l \<notin> set (holds other ph i)) ms"

inductive lock_step :: "nat list \<Rightarrow> (nat \<Rightarrow> nat) \<Rightarrow> (nat \<Rightarrow> lock_phase) \<Rightarrow> (nat \<Rightarrow> lock_phase) \<Rightarrow> bool" for ms other where
  enter: "i \<in> set ms \<Longrightarrow> ph i = Outside \<Longrightarrow> lock_free ms other ph i \<Longrightarrow> lock_step ms other ph (ph(i := Locked))"
| search: "i \<in> set ms \<Longrightarrow> ph i = Locked \<Longrightarrow> lock_free ms other ph (other i) \<Longrightarrow> lock_step ms other ph (ph(i := Searching))"
| found: "i \<in> set ms \<Longrightarrow> ph i = Searching \<Longrightarrow> lock_step ms other ph (ph(i := Searched))"
| leave: "i \<in> set ms \<Longrightarrow> ph i = Searched \<Longrightarrow> lock_step ms other ph (ph(i := Outside))"

inductive_cases lock_stepE: "lock_step ms other ph ph'"

lemma lock_step_stuck:
  assumes "\<forall>i \<in> set ms. ph i = Locked" "other ` set ms \<subseteq> set ms"
  shows "\<not> lock_step ms other ph ph'"
  using assms by (fastforce elim!: lock_stepE simp: lock_free_def list_all_iff holds_def image_subset_iff)

lemma lock_enter_all:
  assumes "distinct xs" "set xs \<subseteq> set ms" "\<forall>i \<in> set ms. ph i = (if i \<in> set xs then Outside else Locked)"
  shows "\<exists>ph'. (lock_step ms other)\<^sup>*\<^sup>* ph ph' \<and> (\<forall>i \<in> set ms. ph' i = Locked)"
  using assms
proof (induction xs arbitrary: ph)
  case Nil
  then show ?case by auto
next
  case (Cons x xs)
  have "lock_step ms other ph (ph(x := Locked))"
    using Cons.prems by (intro enter) (auto simp: lock_free_def list_all_iff holds_def)
  moreover have "\<exists>ph'. (lock_step ms other)\<^sup>*\<^sup>* (ph(x := Locked)) ph' \<and> (\<forall>i \<in> set ms. ph' i = Locked)"
    by (rule Cons.IH) (use Cons.prems in auto)
  ultimately show ?case by (meson converse_rtranclp_into_rtranclp)
qed

section \<open>A concrete node\<close>

text \<open>The blockchain keeps what it confirmed; a message of one byte or more is a transaction of its bytes.\<close>

definition example_node :: "(nat, bytes, nat, bytes list) node_ops" where
  "example_node = \<lparr>oo_known = (\<lambda>_ _. True), oo_confirm = (\<lambda>_ tx _ _ c. (Inr True, c @ [tx])), oo_setSeq = (\<lambda>_ _ c. (Inr (), c)),
     oo_notify = (\<lambda>_ _ c. c), oo_exists = (\<lambda>_ _ _. False), oo_lastConfirmedAt = (\<lambda>_ _. None), oo_pair = (\<lambda>_ _ _. None),
     oo_now = (\<lambda>_. 0), oo_timespan = 10, oo_sleep = (\<lambda>c. c),
     tx_decode = (\<lambda>b. case b of Some (x # xs) \<Rightarrow> Inr (Some (x # xs)) | _ \<Rightarrow> Inr None), tx_valid = (\<lambda>_. Inr ()),
     tx_inbound = (\<lambda>_. False), tx_otherGroup = (\<lambda>_. []), tx_pairingId = (\<lambda>_. Inr None), tx_isPairing = (\<lambda>_ _. True),
     tid_bytes = (\<lambda>_. []), tid_isEmpty = (\<lambda>i. i = 0)\<rparr>"

definition message_nr :: "nat \<Rightarrow> bytes \<Rightarrow> (nat, nat) ConsensusTopicResponse" where
  "message_nr n b = \<lparr>mConsensusTimestamp = n, mMessage = Some b, mRunningHash = Some [word_of_nat n],
     mSequenceNumber = word_of_nat n, mRunningHashVersion = 3,
     mChunkInfo = \<lparr>mInitialTransactionID = 1, mTotal = 1, mNumber = 1\<rparr>\<rparr>"

definition example_start :: "bool \<times> (nat, bytes, nat, (bytes \<times> nat) list, bytes list) ordering" where
  "example_start = ordering_start keep_cache ''com'' 0 []"

lemmas example_ordering_defs = example_start_def ordering_start_def SimpleOrderingManager_init_def SimpleOrderingManager_new_def
  SimpleOrderingManager_pushTransaction_def HieroMessageToTransactionTask_run_def HieroMessageToTransactionTask_new_def
  example_node_def message_nr_def keep_cache_def mm_equal_range_def

section \<open>Properties\<close>

text \<open>C31: Whatever is pushed, whatever the workers and the rest of the node do in between: the messages reach the blockchain in the order of their sequence numbers, no number twice and none at or below the number the manager started with; a number 0 may repeat only while no other number came.\<close>

theorem SimpleOrderingManager_in_order:
  "let s = snd (fold (ordering_step N E octet) es (ordering_start E community n0 c)) in
     sorted_wrt (\<lambda>a b. a < b \<or> a = 0 \<and> b = 0) (map mSequenceNumber (handed s)) \<and>
     (\<forall>r \<in> set (handed s). n0 < mSequenceNumber r \<or> n0 = 0 \<and> mSequenceNumber r = 0)"
proof -
  obtain alive s where run: "fold (ordering_step N E octet) es (ordering_start E community n0 c) = (alive, s)"
    by (cases "fold (ordering_step N E octet) es (ordering_start E community n0 c)")
  have "ordering_inv n0 (fold (ordering_step N E octet) es (ordering_start E community n0 c))"
    by (rule ordering_run.run_inv [OF ordering_inv_start])
  then show ?thesis
    unfolding run by (simp add: ordering_inv_def seq_order_def [abs_def])
qed

lemma SimpleOrderingManager_in_order_witness:
  "handed (snd (fold (ordering_step example_node keep_cache id)
      [Push (message_nr 2 [5]), Push (message_nr 1 [4]), Run_task 0, Run_task 1, Round 0, Round 0] example_start))
     = [message_nr 1 [4], message_nr 2 [5]] \<and>
   (0 :: u64) < mSequenceNumber (message_nr 1 [4])"
proof -
  have run: "handed (snd (fold (ordering_step example_node keep_cache id)
      [Push (message_nr 2 [5]), Push (message_nr 1 [4]), Run_task 0, Run_task 1, Round 0, Round 0] example_start))
     = [message_nr 1 [4], message_nr 2 [5]]"
    by (simp add: example_ordering_defs Let_def ThreadFunction_round_def finish_entry_def
        SimpleOrderingManager_processTransaction_def confirm_and_store_def catch_failed_def
        SimpleOrderingManager_updateSequenceNumber_def word_le_nat_alt)
  with SimpleOrderingManager_in_order [of example_node keep_cache id
      "[Push (message_nr 2 [5]), Push (message_nr 1 [4]), Run_task 0, Run_task 1, Round 0, Round 0]" "''com''" 0 "[]"]
  show ?thesis unfolding example_start_def Let_def by (simp add: message_nr_def)
qed


definition example_queue :: "(nat, bytes, nat, (bytes \<times> nat) list, bytes list) ordering" where
  "example_queue = \<lparr>manager = \<lparr>mLastTransactions = [], mTransactions =
        [(3, \<lparr>consensusTopicResponse = message_nr 3 [5], deserializeTask = 0, putIntoListTime = 0\<rparr>),
         (4, \<lparr>consensusTopicResponse = message_nr 4 [6], deserializeTask = 1, putIntoListTime = 0\<rparr>)],
      mCommunityId_SOM = ''com'', mLastSequenceNumber = 2, exit_called = False\<rparr>,
    tasks = [\<lparr>mConsensusTimestamp_Task = 3, mTransactionRaw = Some [5], mCommunityId_Task = ''com'', mTransaction = Some [5],
              mSuccess = True, task_finished = True\<rparr>,
             \<lparr>mConsensusTimestamp_Task = 4, mTransactionRaw = Some [6], mCommunityId_Task = ''com'', mTransaction = Some [6],
              mSuccess = True, task_finished = True\<rparr>],
    node = [], handed = []\<rparr>"


text \<open>C33: A message that was put into the queue is not put there a second time as long as the thread has not worked on the queue, even where the cache of the last transactions has forgotten it.\<close>

theorem SimpleOrderingManager_no_double_push:
  assumes "SimpleOrderingManager_pushTransaction N E octet r s = (Inr ADDED, s1)"
    and "\<forall>e \<in> set es. \<forall>n. e \<noteq> Round n"
    and "snd (fold (ordering_step N E octet) es (alive, s1)) = s2"
    and "SimpleOrderingManager_pushTransaction N E octet r s2 = (res, s3)"
  shows "res \<noteq> Inr ADDED \<and> mTransactions (manager s3) = mTransactions (manager s2)"
proof -
  have "queued r s1"
    using pushTransaction_effect [OF assms(1)] by (auto simp: queued_def set_mm_insert)
  then have "queued r s2" using queued_run [OF _ assms(2)] assms(3) by metis
  then show ?thesis using push_queued assms(4) by blast
qed

lemma SimpleOrderingManager_no_double_push_witness:
  "fst (SimpleOrderingManager_pushTransaction example_node keep_cache (\<lambda>_. ()) (message_nr 1 [4])
     (snd (fold (ordering_step example_node keep_cache (\<lambda>_. ())) [Push (message_nr 2 [5]), Run_task 0]
       (True, snd (SimpleOrderingManager_pushTransaction example_node keep_cache (\<lambda>_. ()) (message_nr 1 [4])
          (snd (ordering_start keep_cache ''com'' 0 [])))))))
   \<noteq> Inr ADDED"
proof -
  define s0 :: "(nat, bytes, nat, (unit \<times> nat) list, bytes list) ordering" where "s0 = snd (ordering_start keep_cache ''com'' 0 [])"
  define s1 where "s1 = snd (SimpleOrderingManager_pushTransaction example_node keep_cache (\<lambda>_. ()) (message_nr 1 [4]) s0)"
  define s2 where "s2 = snd (fold (ordering_step example_node keep_cache (\<lambda>_. ())) [Push (message_nr 2 [5]), Run_task 0] (True, s1))"
  have "SimpleOrderingManager_pushTransaction example_node keep_cache (\<lambda>_. ()) (message_nr 1 [4]) s0 = (Inr ADDED, s1)"
    by (simp add: s1_def s0_def example_ordering_defs Let_def)
  moreover have "\<forall>e \<in> set [Push (message_nr 2 [5]), Run_task 0 :: (nat, nat, bytes list) ordering_event]. \<forall>n. e \<noteq> Round n" by simp
  ultimately have "fst (SimpleOrderingManager_pushTransaction example_node keep_cache (\<lambda>_. ()) (message_nr 1 [4]) s2) \<noteq> Inr ADDED"
    using SimpleOrderingManager_no_double_push s2_def by (metis prod.collapse)
  then show ?thesis by (simp only: s0_def s1_def s2_def not_False_eq_True)
qed

text \<open>A message that is no Gradido transaction ends the node: its task finishes without a transaction, and the next call of the thread function dereferences the null pointer.\<close>

theorem SimpleOrderingManager_invalid_message:
  fixes s :: "('t::linorder, 'tx, 'i, 'x, 'c) ordering"
  assumes "mTransactions (manager s) = []"
    and "SimpleOrderingManager_pushTransaction N E octet r s = (Inr ADDED, s1)"
    and "oo_known N (node s) (mCommunityId_SOM (manager s))" "tx_decode N (mMessage r) = Inr None"
    and "next_number (mLastSequenceNumber (manager s)) (mSequenceNumber r)" "mSequenceNumber r \<noteq> 0"
  shows "fst (ThreadFunction N (gap # gaps) 0 (snd (fold (ordering_step N E octet) [Push r, Run_task (length (tasks s))] (True, s))))
     = Some (Inl UndefinedBehaviour)"
proof -
  let ?t = "HieroMessageToTransactionTask_new (mConsensusTimestamp r) (mMessage r) (mCommunityId_SOM (manager s))
      :: ('t, 'tx) HieroMessageToTransactionTask"
  define s2 where "s2 = s1\<lparr>tasks := (tasks s1)[length (tasks s) := ?t\<lparr>task_finished := True\<rparr>]\<rparr>"
  define w where "w = \<lparr>consensusTopicResponse = r, deserializeTask = length (tasks s), putIntoListTime = oo_now N (node s)\<rparr>"
  have s1: "mTransactions (manager s1) = [(mConsensusTimestamp r, w)]" "tasks s1 = tasks s @ [?t]" "node s1 = node s"
    "mLastSequenceNumber (manager s1) = mLastSequenceNumber (manager s)"
    using pushTransaction_effect [OF assms(2)] assms(1) by (auto simp: w_def)
  have run: "HieroMessageToTransactionTask_run N ?t (node s) = (Inr False, ?t, node s)"
    using assms(3,4) by (simp add: HieroMessageToTransactionTask_run_def HieroMessageToTransactionTask_new_def Let_def)
  have "fold (ordering_step N E octet) [Push r, Run_task (length (tasks s))] (True, s) = (True, s2)"
    using assms(2) s1 run by (simp add: s2_def nth_append HieroMessageToTransactionTask_new_def)
  moreover have "fst (ThreadFunction_round N 0 s2) = Inl UndefinedBehaviour"
    using s1 assms(5,6)
    by (auto simp: ThreadFunction_round_def s2_def w_def Let_def nth_append HieroMessageToTransactionTask_new_def next_number_def)
  ultimately show ?thesis by (auto split: prod.splits)
qed

lemma SimpleOrderingManager_invalid_message_witness:
  "fst (ThreadFunction example_node [id] 0
     (snd (fold (ordering_step example_node keep_cache id) [Push (message_nr 1 []), Run_task 0] example_start)))
   = Some (Inl UndefinedBehaviour)"
proof -
  define s0 :: "(nat, bytes, nat, (bytes \<times> nat) list, bytes list) ordering" where "s0 = snd example_start"
  obtain res s1 where p: "SimpleOrderingManager_pushTransaction example_node keep_cache id (message_nr 1 []) s0 = (res, s1)"
    by (cases "SimpleOrderingManager_pushTransaction example_node keep_cache id (message_nr 1 []) s0")
  then have "res = Inr ADDED" by (auto simp: s0_def example_ordering_defs Let_def)
  moreover have "mTransactions (manager s0) = []" "tasks s0 = []" "example_start = (True, s0)"
    "oo_known example_node (node s0) (mCommunityId_SOM (manager s0))" "mLastSequenceNumber (manager s0) = 0"
    by (simp_all add: s0_def example_ordering_defs)
  moreover have "tx_decode example_node (mMessage (message_nr 1 [])) = Inr None" "next_number 0 (mSequenceNumber (message_nr 1 []))"
    "mSequenceNumber (message_nr 1 []) \<noteq> 0"
    by (simp_all add: example_node_def message_nr_def next_number_def)
  ultimately show ?thesis
    using SimpleOrderingManager_invalid_message [of s0 example_node keep_cache id "message_nr 1 []" s1 id "[]"] p by simp
qed

text \<open>After a topic reset the numbers start again: messages with numbers up to the last one are thrown away. Every call of the thread function throws away one of them and returns, because the count of its loop is still zero; nothing is handed over and the last number stays.\<close>

theorem SimpleOrderingManager_topic_reset_lost:
  assumes "stale s"
  shows "((\<lambda>s. snd (ThreadFunction N (gap # gaps) 0 s)) ^^ n) s
     = (if n \<le> length (mTransactions (manager s)) then
          s\<lparr>manager := (manager s)\<lparr>mTransactions := drop n (mTransactions (manager s))\<rparr>\<rparr>
        else s\<lparr>manager := (manager s)\<lparr>mTransactions := []\<rparr>\<rparr>)"
  using assms
proof (induction n arbitrary: s)
  case 0
  show ?case by simp
next
  case (Suc n)
  show ?case
  proof (cases "mTransactions (manager s)")
    case Nil
    then have "ThreadFunction N (gap # gaps) 0 s = (Some (Inr ()), s)" by (simp add: ThreadFunction_round_def)
    moreover have "s\<lparr>manager := (manager s)\<lparr>mTransactions := []\<rparr>\<rparr> = s" using Nil by simp
    ultimately show ?thesis using Suc.IH [OF Suc.prems] Nil by (simp add: funpow_Suc_right del: funpow.simps ThreadFunction.simps)
  next
    case (Cons p rest)
    define s1 where "s1 = s\<lparr>manager := (manager s)\<lparr>mTransactions := rest\<rparr>\<rparr>"
    have "stale s1" using stale_drop [OF Suc.prems] Cons by (simp add: s1_def)
    note IH = Suc.IH [OF this]
    have "ThreadFunction N (gap # gaps) 0 s = (Some (Inr ()), s1)"
      unfolding s1_def by (rule ThreadFunction_stale [OF Suc.prems Cons])
    then show ?thesis
      using IH Cons by (simp add: funpow_Suc_right s1_def del: funpow.simps ThreadFunction.simps)
  qed
qed

lemma SimpleOrderingManager_topic_reset_lost_witness:
  "((\<lambda>s. snd (ThreadFunction example_node [id] 0 s)) ^^ 2)
      (example_queue\<lparr>manager := (manager example_queue)\<lparr>mLastSequenceNumber := 9\<rparr>\<rparr>)
   = example_queue\<lparr>manager := (manager example_queue)\<lparr>mLastSequenceNumber := 9, mTransactions := []\<rparr>\<rparr>"
proof -
  have "stale (example_queue\<lparr>manager := (manager example_queue)\<lparr>mLastSequenceNumber := 9\<rparr>\<rparr>)"
    by (simp add: stale_def example_queue_def message_nr_def word_le_nat_alt)
  from SimpleOrderingManager_topic_reset_lost [OF this, where N = example_node and gap = id and gaps = "[]" and n = 2] show ?thesis
    by (simp add: example_queue_def)
qed

text \<open>Threads of ordering managers whose first entries are inbound transactions that ask each other's communities (or their own) can all stop for ever: each holds its own lock and waits for another one.\<close>

theorem SimpleOrderingManager_lock_cycle:
  assumes "distinct ms" "other ` set ms \<subseteq> set ms"
  shows "\<exists>ph. (lock_step ms other)\<^sup>*\<^sup>* (\<lambda>_. Outside) ph \<and> (\<forall>ph'. \<not> lock_step ms other ph ph') \<and>
     (\<forall>i \<in> set ms. ph i = Locked)"
proof -
  obtain ph where "(lock_step ms other)\<^sup>*\<^sup>* (\<lambda>_. Outside) ph" "\<forall>i \<in> set ms. ph i = Locked"
    using lock_enter_all [OF assms(1), of ms "\<lambda>_. Outside" other] by auto
  with lock_step_stuck [OF _ assms(2)] show ?thesis by blast
qed

lemma SimpleOrderingManager_lock_cycle_witness:
  "\<exists>ph. (lock_step [0, 1] (\<lambda>i. 1 - i))\<^sup>*\<^sup>* (\<lambda>_. Outside) ph \<and> (\<forall>ph'. \<not> lock_step [0, 1] (\<lambda>i. 1 - i) ph ph')"
  using SimpleOrderingManager_lock_cycle [of "[0, 1]" "\<lambda>i. 1 - i"] by fastforce

end
