(* ===== verification/Sync.thy ===== *)
theory Sync
  imports Ordering
begin

text \<open>
  Reading a topic from a mirror node: the REST part of \<open>client::hiero::MirrorClient\<close>
  (\<open>src/client/hiero/MirrorClient.cpp\<close>), the catch-up at the start of the node
  (\<open>src/task/SyncTopicOnStartup.cpp\<close>) and the listeners that push a message that arrives
  (\<open>src/hiero/MessageListener.cpp\<close>, \<open>src/hiero/MessageListenerQuery.cpp\<close>).
\<close>

section \<open>MirrorClient\<close>

text \<open>\<open>JsonRequest::getRequest\<close> gives a document or throws an exception derived from \<open>std::exception\<close>.\<close>

datatype http_answer = Document json | Request_failed

datatype RequestResponseTypes = OK | NOT_FOUND | PARAMETER_ERROR

text \<open>
  \<open>HasMember\<close> on a value that is no object is a failed assertion; so is \<open>operator[]\<close> with a name, and the
  messages of an error are an array.
\<close>

fun check_messages :: "member_check \<Rightarrow> json list \<Rightarrow> unit result" where
  "check_messages chk [] = Inr ()"
| "check_messages chk (m # ms) = bindR (chk m ''message'' MT_STRING) (\<lambda>_. check_messages chk ms)"

definition MirrorClient_isErrorInRequest :: "member_check \<Rightarrow> json \<Rightarrow> RequestResponseTypes result" where
  "MirrorClient_isErrorInRequest chk j =
     (if \<not> js_is_object j then Inl AssertFailed
      else case map_of (js_members j) ''_status'' of
        None \<Rightarrow> Inr OK
      | Some status \<Rightarrow>
          bindR (chk status ''messages'' MT_ARRAY) (\<lambda>_.
          bindR (js_get ''messages'' status) (\<lambda>messages.
          bindR (js_elements messages) (\<lambda>ms.
            if length ms = 1 then
              bindR (if js_is_object messages then js_get ''message'' messages else Inl AssertFailed) (\<lambda>m.
              bindR (js_string m) (\<lambda>text.
                if text = ''Not found'' then Inr NOT_FOUND
                else bindR (check_messages chk ms) (\<lambda>_. Inr PARAMETER_ERROR)))
            else bindR (check_messages chk ms) (\<lambda>_. Inr PARAMETER_ERROR)))))"

text \<open>Exceptions end in the null document; a failed assertion does not.\<close>

definition MirrorClient_requestAndCatch :: "member_check \<Rightarrow> (string \<Rightarrow> http_answer) \<Rightarrow> string \<Rightarrow> json result" where
  "MirrorClient_requestAndCatch chk http path =
     (case http (''/api/v1'' @ path) of
        Request_failed \<Rightarrow> Inr JNull
      | Document j \<Rightarrow>
          (case MirrorClient_isErrorInRequest chk j of
             Inr OK \<Rightarrow> Inr j
           | Inr _ \<Rightarrow> Inr JNull
           | Inl (Gradido _) \<Rightarrow> Inr JNull
           | Inl (Std _) \<Rightarrow> Inr JNull
           | Inl e \<Rightarrow> Inl e))"

text \<open>\<open>str\<close> is \<open>toString\<close> of a timestamp; \<open>None\<close> is the empty one.\<close>

definition list_path :: "('t \<Rightarrow> string) \<Rightarrow> string \<Rightarrow> 't option \<Rightarrow> u32 \<Rightarrow> string \<Rightarrow> string" where
  "list_path str topic confirmedAt limit order =
     ''/topics/'' @ topic @ ''/messages'' @ ''?limit='' @ to_string (unat limit) @ ''&order='' @ order @
     (case confirmedAt of
        None \<Rightarrow> []
      | Some t \<Rightarrow> ''&timestamp='' @
          (if order = ''asc'' \<or> order = ''ASC'' then ''gt:''
           else if order = ''desc'' \<or> order = ''DESC'' then ''lt:'' else []) @ str t)"

definition MirrorClient_listTopicMessagesById ::
    "('t, 'i, 'a, 'p, 'm) hiero_lib \<Rightarrow> member_check \<Rightarrow> (string \<Rightarrow> http_answer) \<Rightarrow> ('t \<Rightarrow> string) \<Rightarrow> string \<Rightarrow> 't option \<Rightarrow> u32
       \<Rightarrow> string \<Rightarrow> ('t, 'i) ConsensusTopicResponse list result" where
  "MirrorClient_listTopicMessagesById L chk http str topic confirmedAt limit order =
     bindR (MirrorClient_requestAndCatch chk http (list_path str topic confirmedAt limit order)) (\<lambda>j.
       if j = JNull then Inr []
       else bindR (chk j ''messages'' MT_ARRAY) (\<lambda>_.
            bindR (bindR (js_get ''messages'' j) js_elements) (mapR (ConsensusTopicResponse_of_json L chk))))"

text \<open>The default constructed response, of which the timestamp is \<open>Timestamp()\<close>.\<close>

definition ConsensusTopicResponse_new :: "('t, 'i, 'a, 'p, 'm) hiero_lib \<Rightarrow> 't \<Rightarrow> ('t, 'i) ConsensusTopicResponse" where
  "ConsensusTopicResponse_new L t0 =
     \<lparr>mConsensusTimestamp = t0, mMessage = None, mRunningHash = None, mSequenceNumber = 0, mRunningHashVersion = 0,
      mChunkInfo = ConsensusMessageChunkInfo_new L\<rparr>"

definition MirrorClient_getTopicMessageBySequenceNumber ::
    "('t, 'i, 'a, 'p, 'm) hiero_lib \<Rightarrow> member_check \<Rightarrow> (string \<Rightarrow> http_answer) \<Rightarrow> 't \<Rightarrow> string \<Rightarrow> u64
       \<Rightarrow> ('t, 'i) ConsensusTopicResponse result" where
  "MirrorClient_getTopicMessageBySequenceNumber L chk http t0 topic sequenceNumber =
     bindR (MirrorClient_requestAndCatch chk http (''/topics/'' @ topic @ ''/messages/'' @ to_string (unat sequenceNumber))) (\<lambda>j.
       if j = JNull then Inr (ConsensusTopicResponse_new L t0) else ConsensusTopicResponse_of_json L chk j)"

definition MirrorClient_getTopicMessageByConsensusTimestamp ::
    "('t, 'i, 'a, 'p, 'm) hiero_lib \<Rightarrow> member_check \<Rightarrow> (string \<Rightarrow> http_answer) \<Rightarrow> 't \<Rightarrow> ('t \<Rightarrow> string) \<Rightarrow> 't
       \<Rightarrow> ('t, 'i) ConsensusTopicResponse result" where
  "MirrorClient_getTopicMessageByConsensusTimestamp L chk http t0 str confirmedAt =
     bindR (MirrorClient_requestAndCatch chk http (''/topics'' @ ''/messages/'' @ str confirmedAt)) (\<lambda>j.
       if j = JNull then Inr (ConsensusTopicResponse_new L t0) else ConsensusTopicResponse_of_json L chk j)"

section \<open>Listeners\<close>

text \<open>A message in several chunks is logged as fatal, which ends the program.\<close>

definition MessageListenerQuery_onMessageArrived ::
    "('t, 'i, 'a, 'p, 'm) hiero_lib \<Rightarrow> ('t::linorder, 'tx, 'i, 'c) node_ops \<Rightarrow> ('x, 'o, 't) expire_cache \<Rightarrow> (bytes \<Rightarrow> 'o)
       \<Rightarrow> ('t, 'i) ConsensusTopicResponse \<Rightarrow> ('t, 'tx, 'i, 'x, 'c) ordering \<Rightarrow> PushResult result \<times> ('t, 'tx, 'i, 'x, 'c) ordering" where
  "MessageListenerQuery_onMessageArrived L N E octet response s =
     (if \<not> ConsensusMessageChunkInfo_empty L (mChunkInfo response) \<and> 1 < mTotal (mChunkInfo response) then
        (Inl AssertFailed, s)
      else if \<not> oo_known N (node s) (mCommunityId_SOM (manager s)) then (Inl UndefinedBehaviour, s)
      else SimpleOrderingManager_pushTransaction N E octet response s)"

definition MessageListener_onMessageArrived ::
    "('t, 'i, 'a, 'p, 'm) hiero_lib \<Rightarrow> ('t::linorder, 'tx, 'i, 'c) node_ops \<Rightarrow> ('x, 'o, 't) expire_cache \<Rightarrow> (bytes \<Rightarrow> 'o)
       \<Rightarrow> 'm ConsensusTopicResponseMessage \<Rightarrow> ('t, 'tx, 'i, 'x, 'c) ordering
       \<Rightarrow> PushResult result \<times> ('t, 'tx, 'i, 'x, 'c) ordering" where
  "MessageListener_onMessageArrived L N E octet message s =
     (case ConsensusTopicResponse_of_message L message of
        Inl e \<Rightarrow> (Inl e, s)
      | Inr response \<Rightarrow> MessageListenerQuery_onMessageArrived L N E octet response s)"

section \<open>SyncTopicOnStartup\<close>

text \<open>
  \<open>pages\<close> is \<open>listTopicMessagesById\<close> in ascending order, \<open>None\<close> the empty timestamp. The loop pushes a page and
  asks for the next one behind its last message, as long as pages are full.
\<close>

fun push_all ::
    "('t::linorder, 'tx, 'i, 'c) node_ops \<Rightarrow> ('x, 'o, 't) expire_cache \<Rightarrow> (bytes \<Rightarrow> 'o) \<Rightarrow> ('t, 'i) ConsensusTopicResponse list
       \<Rightarrow> ('t, 'tx, 'i, 'x, 'c) ordering \<Rightarrow> unit result \<times> ('t, 'tx, 'i, 'x, 'c) ordering" where
  "push_all N E octet [] s = (Inr (), s)"
| "push_all N E octet (r # rs) s =
     (case SimpleOrderingManager_pushTransaction N E octet r s of
        (Inl e, s') \<Rightarrow> (Inl e, s')
      | (Inr _, s') \<Rightarrow> push_all N E octet rs s')"

definition bulk_size :: u32 where
  "bulk_size = 25"

fun load_loop ::
    "('t::linorder, 'tx, 'i, 'c) node_ops \<Rightarrow> ('x, 'o, 't) expire_cache \<Rightarrow> (bytes \<Rightarrow> 'o)
       \<Rightarrow> ('t option \<Rightarrow> u32 \<Rightarrow> ('t, 'i) ConsensusTopicResponse list result) \<Rightarrow> nat \<Rightarrow> u32 \<Rightarrow> 't option
       \<Rightarrow> ('t, 'tx, 'i, 'x, 'c) ordering \<Rightarrow> (u32 \<times> 't option) result option \<times> ('t, 'tx, 'i, 'x, 'c) ordering" where
  "load_loop N E octet pages 0 added confirmedAt s = (None, s)"
| "load_loop N E octet pages (Suc fuel) added confirmedAt s =
     (case pages confirmedAt bulk_size of
        Inl e \<Rightarrow> (Some (Inl e), s)
      | Inr responses \<Rightarrow>
          if responses = [] then (Some (Inr (added, confirmedAt)), s)
          else (case push_all N E octet responses s of
                  (Inl e, s') \<Rightarrow> (Some (Inl e), s')
                | (Inr _, s') \<Rightarrow>
                    let count = word_of_nat (length responses) :: u32;
                        confirmed = Some (mConsensusTimestamp (last responses))
                    in if count = bulk_size then load_loop N E octet pages fuel (added + count) confirmed s'
                       else (Some (Inr (added + count, confirmed)), s')))"

definition SyncTopicOnStartup_loadTransactionsFromMirrorNode ::
    "('t::linorder, 'tx, 'i, 'c) node_ops \<Rightarrow> ('x, 'o, 't) expire_cache \<Rightarrow> (bytes \<Rightarrow> 'o)
       \<Rightarrow> ('p \<Rightarrow> 't option \<Rightarrow> u32 \<Rightarrow> ('t, 'i) ConsensusTopicResponse list result) \<Rightarrow> nat \<Rightarrow> 'p \<Rightarrow> 't option
       \<Rightarrow> ('t, 'tx, 'i, 'x, 'c) ordering \<Rightarrow> (u32 \<times> 't option) result option \<times> ('t, 'tx, 'i, 'x, 'c) ordering" where
  "SyncTopicOnStartup_loadTransactionsFromMirrorNode N E octet pages fuel topicId confirmedAt s =
     load_loop N E octet (pages topicId) fuel 0 confirmedAt s"

datatype LastTransactionState = IDENTICAL | NONE | Mirror_NOT_FOUND | INVALID | NOT_IDENTICAL

text \<open>
  \<open>lastTransaction\<close> is the last transaction of the blockchain with the time of its confirmation, \<open>mirror\<close> is
  \<open>getTopicMessageByConsensusTimestamp\<close>, \<open>same\<close> compares fingerprints. The second component is the last
  known sequence number.
\<close>

definition SyncTopicOnStartup_checkLastTransaction ::
    "(bytes option \<Rightarrow> 'tx option result) \<Rightarrow> ('tx \<Rightarrow> 'tx \<Rightarrow> bool) \<Rightarrow> ('t \<Rightarrow> ('t, 'i) ConsensusTopicResponse result)
       \<Rightarrow> ('t \<times> 'tx) option \<Rightarrow> u64 \<Rightarrow> (LastTransactionState \<times> u64) result" where
  "SyncTopicOnStartup_checkLastTransaction decode same mirror lastTransaction lastKnown =
     (case lastTransaction of
        None \<Rightarrow> Inr (NONE, lastKnown)
      | Some (confirmedAt, own) \<Rightarrow>
          bindR (mirror confirmedAt) (\<lambda>r.
            if mMessage r = None then Inr (Mirror_NOT_FOUND, lastKnown)
            else bindR (decode (mMessage r)) (\<lambda>d. case d of
                None \<Rightarrow> Inr (INVALID, lastKnown)
              | Some tx \<Rightarrow>
                  if same own tx then Inr (IDENTICAL, mSequenceNumber r) else Inr (NOT_IDENTICAL, lastKnown))))"

text \<open>
  \<open>run\<close>, up to \<open>startListening\<close>: the result is the time to listen from. \<open>topicInfo\<close> is the topic that the
  network names, if it names one.
\<close>

definition SyncTopicOnStartup_run ::
    "('t::linorder, 'tx, 'i, 'c) node_ops \<Rightarrow> ('x, 'o, 't) expire_cache \<Rightarrow> (bytes \<Rightarrow> 'o)
       \<Rightarrow> ('p \<Rightarrow> 't option \<Rightarrow> u32 \<Rightarrow> ('t, 'i) ConsensusTopicResponse list result)
       \<Rightarrow> ('tx \<Rightarrow> 'tx \<Rightarrow> bool) \<Rightarrow> ('t \<Rightarrow> ('t, 'i) ConsensusTopicResponse result) \<Rightarrow> nat \<Rightarrow> ('t \<times> 'tx) option \<Rightarrow> u64 \<Rightarrow> 'p \<Rightarrow> 'p option
       \<Rightarrow> ('t, 'tx, 'i, 'x, 'c) ordering \<Rightarrow> 't option result option \<times> ('t, 'tx, 'i, 'x, 'c) ordering" where
  "SyncTopicOnStartup_run N E octet pages same mirror fuel lastTransaction lastKnown topicId topicInfo s =
     (case SyncTopicOnStartup_checkLastTransaction (tx_decode N) same mirror lastTransaction lastKnown of
        Inl e \<Rightarrow> (Some (Inl e), s)
      | Inr (state, known) \<Rightarrow>
          (case SyncTopicOnStartup_loadTransactionsFromMirrorNode N E octet pages fuel topicId
                  (if state = IDENTICAL then map_option fst lastTransaction else None)
                  (s\<lparr>manager := SimpleOrderingManager_init known (manager s)\<rparr>) of
             (None, s1) \<Rightarrow> (None, s1)
           | (Some (Inl e), s1) \<Rightarrow> (Some (Inl e), s1)
           | (Some (Inr (_, confirmedAt)), s1) \<Rightarrow>
               (case topicInfo of
                  None \<Rightarrow> (Some (Inr confirmedAt), s1)
                | Some p \<Rightarrow>
                    if p = topicId then (Some (Inr confirmedAt), s1)
                    else (case SyncTopicOnStartup_loadTransactionsFromMirrorNode N E octet pages fuel p confirmedAt s1 of
                            (None, s2) \<Rightarrow> (None, s2)
                          | (Some (Inl e), s2) \<Rightarrow> (Some (Inl e), s2)
                          | (Some (Inr (_, c)), s2) \<Rightarrow> (Some (Inr c), s2)))))"

section \<open>Paging\<close>

lemma push_all_append:
  "push_all N E octet (rs @ rs') s = (case push_all N E octet rs s of
     (Inl e, s') \<Rightarrow> (Inl e, s') | (Inr _, s') \<Rightarrow> push_all N E octet rs' s')"
  by (induction rs arbitrary: s) (auto split: prod.splits sum.splits)

text \<open>The messages behind a timestamp.\<close>

definition after :: "'t::linorder option \<Rightarrow> ('t, 'i) ConsensusTopicResponse list \<Rightarrow> ('t, 'i) ConsensusTopicResponse list" where
  "after c ms = filter (\<lambda>r. case c of None \<Rightarrow> True | Some t \<Rightarrow> t < mConsensusTimestamp r) ms"

lemma sorted_after: "sorted_wrt (<) (map mConsensusTimestamp ms) \<Longrightarrow> sorted_wrt (<) (map mConsensusTimestamp (after c ms))"
  by (simp add: after_def sorted_wrt_map sorted_wrt_filter)

lemma after_last_taken:
  assumes sorted: "sorted_wrt (<) (map mConsensusTimestamp ms)" and n: "0 < n" "n \<le> length (after c ms)"
  shows "after (Some (mConsensusTimestamp (last (take n (after c ms))))) ms = drop n (after c ms)"
proof -
  define new where "new = after c ms"
  define front where "front = take n new"
  define rear where "rear = drop n new"
  have new: "new = front @ rear" and ne: "front \<noteq> []" using n by (auto simp: front_def rear_def new_def)
  let ?t = "mConsensusTimestamp (last front)"
  have s: "sorted_wrt (<) (map mConsensusTimestamp (front @ rear))"
    using sorted_after [OF sorted, of c] new by (simp only: new_def)
  have le: "\<not> ?t < mConsensusTimestamp r" if r: "r \<in> set front" for r
  proof -
    have split: "front = butlast front @ [last front]" using ne by simp
    with s have "sorted_wrt (<) (map mConsensusTimestamp (butlast front) @ [?t])"
      by (metis list.simps(8,9) map_append sorted_wrt_append)
    moreover have "r \<in> set (butlast front @ [last front])" using r split by metis
    ultimately show ?thesis by (auto simp: sorted_wrt_append)
  qed
  have gt: "?t < mConsensusTimestamp r" if "r \<in> set rear" for r
    using s ne that by (auto simp: sorted_wrt_append)
  have "last front \<in> set new" using ne new by simp
  then have later: "case c of None \<Rightarrow> True | Some t \<Rightarrow> t < ?t" by (simp add: new_def after_def)
  have "after (Some ?t) ms = filter (\<lambda>r. ?t < mConsensusTimestamp r) new"
    using later by (auto simp: after_def new_def intro!: filter_cong split: option.splits)
  also have "\<dots> = rear"
    using le gt by (simp add: new filter_id_conv)
  finally show ?thesis by (simp add: front_def rear_def new_def)
qed

text \<open>The mirror node: a topic is a list of messages in the order of their timestamps, a page its part behind a timestamp.\<close>

definition mirror_pages :: "('t::linorder, 'i) ConsensusTopicResponse list \<Rightarrow> 't option \<Rightarrow> u32 \<Rightarrow> ('t, 'i) ConsensusTopicResponse list result" where
  "mirror_pages ms c limit = Inr (take (unat limit) (after c ms))"

lemma load_loop_all:
  assumes "sorted_wrt (<) (map mConsensusTimestamp ms)"
    and "push_all N E octet (after c ms) s = (Inr (), s')" and "length (after c ms) < 25 * fuel"
  shows "load_loop N E octet (mirror_pages ms) fuel added c s
     = (Some (Inr (added + word_of_nat (length (after c ms)),
          if after c ms = [] then c else Some (mConsensusTimestamp (last (after c ms))))), s')"
  using assms(2,3)
proof (induction fuel arbitrary: added c s)
  case 0
  then show ?case by simp
next
  case (Suc fuel)
  let ?new = "after c ms"
  have page: "mirror_pages ms c bulk_size = Inr (take 25 ?new)" by (simp add: mirror_pages_def bulk_size_def)
  show ?case
  proof (cases "length ?new < 25")
    case True
    have "(word_of_nat (length ?new) :: u32) \<noteq> bulk_size"
    proof
      assume "(word_of_nat (length ?new) :: u32) = bulk_size"
      then have "unat (word_of_nat (length ?new) :: u32) = 25" by (simp add: bulk_size_def)
      with True show False by (simp add: unat_of_nat)
    qed
    with True page Suc.prems(1) show ?thesis by (cases "?new = []") (simp_all add: Let_def)
  next
    case False
    let ?front = "take 25 ?new" and ?rear = "drop 25 ?new"
    let ?c = "Some (mConsensusTimestamp (last ?front))"
    have front: "length ?front = 25" using False by simp
    have ne: "?front \<noteq> []" using front by (metis length_0_conv zero_neq_numeral)
    have rear: "after ?c ms = ?rear"
      by (rule after_last_taken [OF assms(1)]) (use False in auto)
    obtain u s1 where push: "push_all N E octet ?front s = (Inr u, s1)" "push_all N E octet ?rear s1 = (Inr (), s')"
      using Suc.prems(1) push_all_append [of N E octet ?front ?rear s] by (auto split: prod.splits sum.splits)
    have "load_loop N E octet (mirror_pages ms) (Suc fuel) added c s
        = load_loop N E octet (mirror_pages ms) fuel (added + 25) ?c s1"
      using page ne push(1) front by (simp add: Let_def bulk_size_def)
    also have "\<dots> = (Some (Inr (added + 25 + word_of_nat (length ?rear),
          if ?rear = [] then ?c else Some (mConsensusTimestamp (last ?rear)))), s')"
      using Suc.IH [of ?c s1 "added + 25"] push(2) Suc.prems(2) False by (simp add: rear)
    also have "added + 25 + word_of_nat (length ?rear) = added + word_of_nat (length ?new)"
      using False by (simp add: of_nat_diff)
    also have "(if ?rear = [] then ?c else Some (mConsensusTimestamp (last ?rear)))
        = (if ?new = [] then c else Some (mConsensusTimestamp (last ?new)))"
      using False by (auto simp: last_drop)
    finally show ?thesis .
  qed
qed

section \<open>Properties\<close>

text \<open>C34: The catch-up over pages of 25 messages reads what one pass over the topic reads: exactly the messages behind the given time are pushed, each once and in order, the loop ends after at most one page more than the messages fill, and the time to listen from is that of the last one.\<close>

theorem SyncTopicOnStartup_reads_topic:
  assumes "sorted_wrt (<) (map mConsensusTimestamp ms)" "pages topicId = mirror_pages ms"
    and "push_all N E octet (after c ms) s = (Inr (), s')" "length (after c ms) < 25 * fuel"
  shows "SyncTopicOnStartup_loadTransactionsFromMirrorNode N E octet pages fuel topicId c s
     = (Some (Inr (word_of_nat (length (after c ms)),
          if after c ms = [] then c else Some (mConsensusTimestamp (last (after c ms))))), s')"
  using load_loop_all [OF assms(1,3,4), of 0] assms(2)
  by (simp add: SyncTopicOnStartup_loadTransactionsFromMirrorNode_def)

lemma SyncTopicOnStartup_reads_topic_witness:
  "fst (SyncTopicOnStartup_loadTransactionsFromMirrorNode example_node keep_cache id
      (\<lambda>_ :: unit. mirror_pages [message_nr 1 [4], message_nr 2 [5], message_nr 3 [6]]) 1 () (Some 1) (snd example_start))
   = Some (Inr (2, Some 3))"
proof -
  have new: "after (Some 1) [message_nr 1 [4], message_nr 2 [5], message_nr 3 [6]] = [message_nr 2 [5], message_nr 3 [6]]"
    by (simp add: after_def message_nr_def)
  obtain r s' where p: "push_all example_node keep_cache id [message_nr 2 [5], message_nr 3 [6]] (snd example_start) = (r, s')"
    by (cases "push_all example_node keep_cache id [message_nr 2 [5], message_nr 3 [6]] (snd example_start)")
  then have "r = Inr ()" by (auto simp: example_ordering_defs Let_def)
  with p new have "push_all example_node keep_cache id (after (Some 1) [message_nr 1 [4], message_nr 2 [5], message_nr 3 [6]])
      (snd example_start) = (Inr (), s')" by simp
  with new have "SyncTopicOnStartup_loadTransactionsFromMirrorNode example_node keep_cache id
      (\<lambda>_ :: unit. mirror_pages [message_nr 1 [4], message_nr 2 [5], message_nr 3 [6]]) 1 () (Some 1) (snd example_start)
    = (Some (Inr (2, Some (mConsensusTimestamp (message_nr 3 [6])))), s')"
    by (subst SyncTopicOnStartup_reads_topic [where ms = "[message_nr 1 [4], message_nr 2 [5], message_nr 3 [6]]" and s' = s'])
      (simp_all add: message_nr_def)
  then show ?thesis by (simp add: message_nr_def)
qed

text \<open>An error answer of the mirror node with exactly one message, as it gives for a message it does not have, is a failed assertion: the code looks for a member in the array of messages. With several messages it is the null document.\<close>

theorem MirrorClient_not_found_aborts:
  assumes "check_laws chk" "http (''/api/v1'' @ path) = Document (JObj doc)"
    and "map_of doc ''_status'' = Some (JObj status)" "map_of status ''messages'' = Some (JArr ms)"
    and "\<forall>m \<in> set ms. \<exists>text. map_of (js_members m) ''message'' = Some (JStr text)"
  shows "MirrorClient_requestAndCatch chk http path = (if length ms = 1 then Inl AssertFailed else Inr JNull)"
proof -
  have "chk (JObj status) ''messages'' MT_ARRAY = Inr ()"
    using assms(1,4) by (intro check_ok) (auto simp: js_kind_def)
  moreover have "check_messages chk ms = Inr ()"
    using assms(5)
  proof (induction ms)
    case Nil
    show ?case by simp
  next
    case (Cons m ms)
    then have "chk m ''message'' MT_STRING = Inr ()"
      using assms(1) by (auto simp: js_kind_def intro: check_ok)
    with Cons show ?case by simp
  qed
  moreover have "\<not> js_is_object (JArr ms)" by (simp add: js_is_object_def)
  ultimately show ?thesis
    using assms(2-4) by (simp add: MirrorClient_requestAndCatch_def MirrorClient_isErrorInRequest_def js_get_def)
qed

lemma MirrorClient_not_found_aborts_witness:
  "MirrorClient_requestAndCatch check_member
     (\<lambda>_. Document (JObj [(''_status'', JObj [(''messages'', JArr [JObj [(''message'', JStr ''Not found'')]])])]))
     ''/topics/messages/17.5'' = Inl AssertFailed"
  by (subst MirrorClient_not_found_aborts [where doc = "[(''_status'', JObj [(''messages'', JArr [JObj [(''message'', JStr ''Not found'')]])])]"
        and status = "[(''messages'', JArr [JObj [(''message'', JStr ''Not found'')]])]"
        and ms = "[JObj [(''message'', JStr ''Not found'')]]"]) simp_all

end
