(* ===== verification/WriteTask.thy ===== *)
theory WriteTask
  imports BlockFile IndexCache
begin

text \<open>
  From the cache into the block file: \<open>task::WriteTransactionsToBlockTask\<close>
  (\<open>src/task/WriteTransactionsToBlockTask.cpp\<close>) collects transactions, appends them to the block file
  and writes the index; \<open>TaskObserver\<close> (\<open>src/controller/TaskObserver.cpp\<close>) keeps the tasks that are
  scheduled but not finished. Entries and tasks are shared between the objects: they live in stores and
  are named by their positions there.
\<close>

section \<open>State\<close>

text \<open>An entry: its part for the index and the serialised transaction.\<close>

record NodeTransactionEntry =
  nt_index :: node_entry
  nt_serialized :: bytes

definition NodeTransactionEntry_setFileCursor :: "u32 \<Rightarrow> NodeTransactionEntry \<Rightarrow> NodeTransactionEntry" where
  "NodeTransactionEntry_setFileCursor newFileCursorValue e = e\<lparr>nt_index := (nt_index e)\<lparr>ne_fileCursor := newFileCursorValue\<rparr>\<rparr>"

definition NodeTransactionEntry_isAddressIndexInvolved :: "u32 \<Rightarrow> NodeTransactionEntry \<Rightarrow> bool" where
  "NodeTransactionEntry_isAddressIndexInvolved addressIndex e = (addressIndex \<in> set (ne_addressIndices (nt_index e)))"

definition entry_nr :: "NodeTransactionEntry \<Rightarrow> u64" where
  "entry_nr e = ne_transactionNr (nt_index e)"

record WriteTransactionsToBlockTask =
  mTransactions_Write :: "(u64 \<times> nat) list"
  mCreationDate :: int
  write_scheduled :: bool
  write_finished :: bool

record TaskObserver =
  mBlockWriteTasks :: "(nat \<times> nat) list"
  mTransactionsFromPendingTasks :: "(u64 \<times> nat) list"

text \<open>What the tasks of one block share: its file and index, the stores, the observer of the blockchain.\<close>

record block_data =
  blockFile :: bf_state
  blockIndex :: BlockIndexCache
  entries :: "NodeTransactionEntry list"
  writeTasks :: "WriteTransactionsToBlockTask list"
  observer :: TaskObserver

text \<open>
  The surroundings: opening the block file, the hash of the library, bytes of memory that is not
  initialised, other threads at the locks and at the index, the community index of the provider, and the
  constructor of an entry from a serialised transaction.
\<close>

record block_env =
  bv_io :: block_io
  bv_ghash :: "bytes \<Rightarrow> bytes"
  bv_junk :: bytes
  bv_junk_index :: "nat \<Rightarrow> u8"
  bv_lock :: "nat \<Rightarrow> locks \<Rightarrow> locks"
  bv_wait :: "nat \<Rightarrow> BlockIndexCache \<Rightarrow> BlockIndexCache"
  bv_coin :: "string \<Rightarrow> u32 result"
  bv_entry :: "bytes \<Rightarrow> node_entry result"

section \<open>WriteTransactionsToBlockTask\<close>

text \<open>\<open>mCreationDate\<close> is never set: it is the default value of a time point.\<close>

definition WriteTransactionsToBlockTask_new :: WriteTransactionsToBlockTask where
  "WriteTransactionsToBlockTask_new =
     \<lparr>mTransactions_Write = [], mCreationDate = 0, write_scheduled = False, write_finished = False\<rparr>"

text \<open>\<open>t\<close> is the number of the task, \<open>p\<close> that of the entry.\<close>

definition update_task :: "nat \<Rightarrow> (WriteTransactionsToBlockTask \<Rightarrow> WriteTransactionsToBlockTask)
    \<Rightarrow> 'z block_data_scheme \<Rightarrow> 'z block_data_scheme" where
  "update_task t f s = s\<lparr>writeTasks := (writeTasks s)[t := f (writeTasks s ! t)]\<rparr>"

definition WriteTransactionsToBlockTask_addSerializedTransaction ::
    "block_env \<Rightarrow> nat \<Rightarrow> nat \<Rightarrow> 'z block_data_scheme \<Rightarrow> unit result \<times> 'z block_data_scheme" where
  "WriteTransactionsToBlockTask_addSerializedTransaction E t p s =
     (let task = writeTasks s ! t; e = entries s ! p in
      if write_scheduled task \<or> write_finished task then (Inl AssertFailed, s)
      else
        let s1 = update_task t (\<lambda>w. w\<lparr>mTransactions_Write := omap_insert (entry_nr e) p (mTransactions_Write w)\<rparr>) s in
        (case BlockIndexCache_addEntry (bv_coin E) (nt_index e) (blockIndex s1) of
           (r, c) \<Rightarrow> (map_sum id (\<lambda>_. ()) r, s1\<lparr>blockIndex := c\<rparr>)))"

definition WriteTransactionsToBlockTask_getTransaction :: "u64 \<Rightarrow> WriteTransactionsToBlockTask \<Rightarrow> nat option" where
  "WriteTransactionsToBlockTask_getTransaction nr task = map_of (mTransactions_Write task) nr"

text \<open>
  The first loop of \<open>run\<close>. The last number is a signed \<open>int\<close> of 32 bits: the sum is undefined at its
  largest value, and the comparison with the 64 bit number extends the sign.
\<close>

fun collect_lines :: "NodeTransactionEntry list \<Rightarrow> (u64 \<times> nat) list \<Rightarrow> u32 \<Rightarrow> bytes list result" where
  "collect_lines es [] lastTransactionNr = Inr []"
| "collect_lines es ((_, p) # ts) lastTransactionNr =
     (let nr = entry_nr (es ! p) in
      if 0 < sint lastTransactionNr \<and> sint lastTransactionNr = 2 ^ 31 - 1 then Inl UndefinedBehaviour
      else if 0 < sint lastTransactionNr \<and> (scast (lastTransactionNr + 1) :: u64) \<noteq> nr then Inl (Gradido BlockchainOrder)
      else bindR (collect_lines es ts (ucast nr)) (\<lambda>ls. Inr (nt_serialized (es ! p) # ls)))"

text \<open>The second loop: every entry and the index get the position of the line.\<close>

fun store_cursors :: "bool \<Rightarrow> (u64 \<times> nat) list \<Rightarrow> u32 list \<Rightarrow> 'z block_data_scheme \<Rightarrow> unit result \<times> 'z block_data_scheme" where
  "store_cursors isFirst ((_, p) # ts) (cursor # cursors) s =
     (if \<not> isFirst \<and> cursor = 0 then (Inl AssertFailed, s)
      else
        let s1 = s\<lparr>entries := (entries s)[p := NodeTransactionEntry_setFileCursor cursor (entries s ! p)]\<rparr> in
        (case BlockIndexCache_addFileCursorForTransaction (entry_nr (entries s ! p)) cursor (blockIndex s1) of
           (Inl e, c) \<Rightarrow> (Inl e, s1\<lparr>blockIndex := c\<rparr>)
         | (Inr _, c) \<Rightarrow> store_cursors False ts cursors (s1\<lparr>blockIndex := c\<rparr>)))"
| "store_cursors isFirst _ _ s = (Inr (), s)"

definition WriteTransactionsToBlockTask_run ::
    "block_env \<Rightarrow> nat \<Rightarrow> 'z block_data_scheme \<Rightarrow> unit result \<times> 'z block_data_scheme" where
  "WriteTransactionsToBlockTask_run E t s =
     (let ts = mTransactions_Write (writeTasks s ! t) in
      case collect_lines (entries s) ts 0 of
        Inl e \<Rightarrow> (Inl e, s)
      | Inr lines \<Rightarrow>
          (case BlockFile_appendLines (bv_io E) (bv_ghash E) lines (blockFile s) of
             (Inl e, f) \<Rightarrow> (Inl e, s\<lparr>blockFile := f\<rparr>)
           | (Inr positions, f) \<Rightarrow>
               if length positions \<noteq> length lines then (Inl AssertFailed, s\<lparr>blockFile := f\<rparr>)
               else (case store_cursors True ts positions (s\<lparr>blockFile := f\<rparr>) of
                       (Inl e, s1) \<Rightarrow> (Inl e, s1)
                     | (Inr _, s1) \<Rightarrow>
                         (case BlockIndexCache_writeIntoFile (bv_lock E) (bv_ghash E) (bv_junk_index E) (blockIndex s1)
                                 (snd (blockFile s1)) of
                            (r, fs) \<Rightarrow> (map_sum id (\<lambda>_. ()) r, s1\<lparr>blockFile := (fst (blockFile s1), fs)\<rparr>)))))"

section \<open>TaskObserver\<close>

definition TaskObserver_addBlockWriteTask :: "nat \<Rightarrow> 'z block_data_scheme \<Rightarrow> bool \<times> 'z block_data_scheme" where
  "TaskObserver_addBlockWriteTask t s =
     (if map_of (mBlockWriteTasks (observer s)) t \<noteq> None then (False, s)
      else (True, s\<lparr>observer := \<lparr>mBlockWriteTasks = omap_insert t t (mBlockWriteTasks (observer s)),
             mTransactionsFromPendingTasks = fold (\<lambda>(nr, p). omap_insert nr p) (mTransactions_Write (writeTasks s ! t))
               (mTransactionsFromPendingTasks (observer s))\<rparr>\<rparr>))"

definition TaskObserver_removeBlockWriteTask :: "nat \<Rightarrow> 'z block_data_scheme \<Rightarrow> bool \<times> 'z block_data_scheme" where
  "TaskObserver_removeBlockWriteTask t s =
     (if map_of (mBlockWriteTasks (observer s)) t = None then (False, s)
      else (True, s\<lparr>observer := \<lparr>mBlockWriteTasks = omap_erase t (mBlockWriteTasks (observer s)),
             mTransactionsFromPendingTasks = fold (\<lambda>(nr, p). omap_erase nr) (mTransactions_Write (writeTasks s ! t))
               (mTransactionsFromPendingTasks (observer s))\<rparr>\<rparr>))"

text \<open>\<open>removeTask\<close> knows tasks of this type only.\<close>

definition TaskObserver_removeTask :: "string \<Rightarrow> nat \<Rightarrow> 'z block_data_scheme \<Rightarrow> bool \<times> 'z block_data_scheme" where
  "TaskObserver_removeTask ressourceType t s =
     (if ressourceType = ''WriteTransactionsToBlockTask'' then TaskObserver_removeBlockWriteTask t s else (False, s))"

definition TaskObserver_isTransactionPending :: "u64 \<Rightarrow> TaskObserver \<Rightarrow> bool" where
  "TaskObserver_isTransactionPending nr obs = (map_of (mTransactionsFromPendingTasks obs) nr \<noteq> None)"

fun first_with :: "u64 \<Rightarrow> WriteTransactionsToBlockTask list \<Rightarrow> (nat \<times> nat) list \<Rightarrow> nat option" where
  "first_with nr tasks [] = None"
| "first_with nr tasks ((_, t) # ts) =
     (case WriteTransactionsToBlockTask_getTransaction nr (tasks ! t) of
        Some p \<Rightarrow> Some p
      | None \<Rightarrow> first_with nr tasks ts)"

definition TaskObserver_getTransaction :: "u64 \<Rightarrow> 'z block_data_scheme \<Rightarrow> nat option" where
  "TaskObserver_getTransaction nr s =
     (case first_with nr (writeTasks s) (mBlockWriteTasks (observer s)) of
        Some p \<Rightarrow> Some p
      | None \<Rightarrow> map_of (mTransactionsFromPendingTasks (observer s)) nr)"

text \<open>
  A worker runs the task and marks it as finished, which runs the finish command; an exception ends the
  application (\<open>CPUShedulerThread::ThreadFunction\<close>).
\<close>

definition TaskObserverFinishCommand_taskFinished :: "nat \<Rightarrow> 'z block_data_scheme \<Rightarrow> 'z block_data_scheme" where
  "TaskObserverFinishCommand_taskFinished t s = snd (TaskObserver_removeTask ''WriteTransactionsToBlockTask'' t s)"

definition run_scheduled :: "block_env \<Rightarrow> nat \<Rightarrow> 'z block_data_scheme \<Rightarrow> unit result \<times> 'z block_data_scheme" where
  "run_scheduled E t s =
     (case WriteTransactionsToBlockTask_run E t s of
        (Inl e, s1) \<Rightarrow> (Inl e, s1)
      | (Inr _, s1) \<Rightarrow>
          (Inr (), TaskObserverFinishCommand_taskFinished t (update_task t (\<lambda>w. w\<lparr>write_finished := True\<rparr>) s1)))"

end
