(* ===== verification/CacheBlock.thy ===== *)
theory CacheBlock
  imports WriteTask IdCaches
begin

text \<open>
  \<open>cache::Block\<close> (\<open>src/cache/Block.cpp\<close>): one block of the blockchain. New transactions go into a cache,
  into the index and into a write task, which a timer hands to a worker; reading looks into the cache, the
  write task, the observed tasks and the block file, in this order.
\<close>

section \<open>State\<close>

record 'x CacheBlock =
  mBlockNr_Cache :: u32
  mSerializedTransactions :: 'x
  mTransactionWriteTask :: "nat option"
  mExitCalled_Cache :: bool

record 'x block_sys = block_data +
  cacheBlock :: "'x CacheBlock"

type_synonym 'x block_cache = "('x, u64, nat) expire_cache"

section \<open>Operations\<close>

definition CacheBlock_new ::
    "block_env \<Rightarrow> 'x block_cache \<Rightarrow> string \<Rightarrow> u32 \<Rightarrow> node_fs \<Rightarrow> unit result \<times> 'x block_sys" where
  "CacheBlock_new E X folder blockNr fs =
     (case BlockFile_new (bv_io E) folder blockNr fs of
        (r, f) \<Rightarrow> (r, \<lparr>blockFile = f, blockIndex = BlockIndexCache_new folder blockNr, entries = [], writeTasks = [],
          observer = \<lparr>mBlockWriteTasks = [], mTransactionsFromPendingTasks = []\<rparr>,
          cacheBlock = \<lparr>mBlockNr_Cache = blockNr, mSerializedTransactions = ec_new X, mTransactionWriteTask = None,
                        mExitCalled_Cache = False\<rparr>\<rparr>))"

text \<open>The loop of \<open>init\<close> over the entries of a rebuilt index.\<close>

fun add_rebuilt :: "(string \<Rightarrow> u32 result) \<Rightarrow> node_entry list \<Rightarrow> u64 \<Rightarrow> BlockIndexCache \<Rightarrow> unit result \<times> BlockIndexCache" where
  "add_rebuilt coin [] prevId c = (Inr (), c)"
| "add_rebuilt coin (e # es) prevId c =
     (if ne_transactionNr e \<le> prevId then (Inl (Gradido BlockchainOrder), c)
      else (case BlockIndexCache_addEntry coin e c of
              (Inl x, c') \<Rightarrow> (Inl x, c')
            | (Inr _, c') \<Rightarrow> add_rebuilt coin es (ne_transactionNr e) c'))"

text \<open>
  \<open>init\<close> is false for a block that does not exist yet. The task that rebuilds the index runs on a worker:
  an exception there ends the application. \<open>None\<close> is that the fuel of a loop ran out.
\<close>

definition CacheBlock_rebuild ::
    "block_env \<Rightarrow> nat \<Rightarrow> (bytes \<Rightarrow> 'ct option result) \<Rightarrow> ('ct \<Rightarrow> u32 \<Rightarrow> node_entry result) \<Rightarrow> 'x block_sys
       \<Rightarrow> (bool result \<times> 'x block_sys) option" where
  "CacheBlock_rebuild E fuel deser mkEntry s =
     (case BlockFile_rebuildBlockIndex (bv_io E) (bv_ghash E) (bv_junk E) fuel (blockFile s) of
        None \<Rightarrow> None
      | Some (Inl e, f) \<Rightarrow> Some (Inl e, s\<lparr>blockFile := f\<rparr>)
      | Some (Inr task, f) \<Rightarrow>
          (case RebuildBlockIndexTask_run deser mkEntry task of
             (Inl e, _) \<Rightarrow> Some (Inl e, s\<lparr>blockFile := f\<rparr>)
           | (Inr _, task') \<Rightarrow>
               (case BlockIndexCache_reset (bv_lock E) (blockIndex s) (snd f) of
                  (Inl e, c, fs) \<Rightarrow> Some (Inl e, s\<lparr>blockFile := (fst f, fs), blockIndex := c\<rparr>)
                | (Inr _, c, fs) \<Rightarrow>
                    (case add_rebuilt (bv_coin E) (mTransactionEntries task') 0 c of
                       (r, c') \<Rightarrow> Some (map_sum id (\<lambda>_. True) r, s\<lparr>blockFile := (fst f, fs), blockIndex := c'\<rparr>)))))"

definition CacheBlock_init ::
    "block_env \<Rightarrow> nat \<Rightarrow> (u8 \<Rightarrow> bool) \<Rightarrow> (bytes \<Rightarrow> 'ct option result) \<Rightarrow> ('ct \<Rightarrow> u32 \<Rightarrow> node_entry result) \<Rightarrow> 'x block_sys
       \<Rightarrow> (bool result \<times> 'x block_sys) option" where
  "CacheBlock_init E fuel enum_contains deser mkEntry s =
     (case BlockIndexCache_loadFromFile (bv_lock E) (bv_ghash E) (bv_junk E) enum_contains fuel (blockIndex s) (snd (blockFile s)) of
        None \<Rightarrow> None
      | Some (r, c, fs) \<Rightarrow>
          let s1 = s\<lparr>blockIndex := c, blockFile := (fst (blockFile s), fs)\<rparr> in
          (case r of
             Inl e \<Rightarrow> Some (Inl e, s1)
           | Inr True \<Rightarrow> Some (Inr True, s1)
           | Inr False \<Rightarrow>
               if mCurrentFileSize (fst (blockFile s1)) = 0 then Some (Inr False, s1)
               else CacheBlock_rebuild E fuel deser mkEntry s1))"

definition CacheBlock_exit :: "block_env \<Rightarrow> 'x block_sys \<Rightarrow> unit result \<times> 'x block_sys" where
  "CacheBlock_exit E s =
     (let s1 = s\<lparr>cacheBlock := (cacheBlock s)\<lparr>mExitCalled_Cache := True\<rparr>\<rparr> in
      case mTransactionWriteTask (cacheBlock s1) of
        None \<Rightarrow> (Inr (), s1)
      | Some t \<Rightarrow>
          (case WriteTransactionsToBlockTask_run E t s1 of
             (Inl e, s2) \<Rightarrow> (Inl e, s2)
           | (Inr _, s2) \<Rightarrow> (Inr (), s2\<lparr>cacheBlock := (cacheBlock s2)\<lparr>mTransactionWriteTask := None\<rparr>\<rparr>)))"

text \<open>The write task of the block, created where there is none.\<close>

definition with_write_task :: "'x block_sys \<Rightarrow> nat \<times> 'x block_sys" where
  "with_write_task s =
     (case mTransactionWriteTask (cacheBlock s) of
        Some t \<Rightarrow> (t, s)
      | None \<Rightarrow> (length (writeTasks s),
                 s\<lparr>writeTasks := writeTasks s @ [WriteTransactionsToBlockTask_new],
                   cacheBlock := (cacheBlock s)\<lparr>mTransactionWriteTask := Some (length (writeTasks s))\<rparr>\<rparr>))"

definition CacheBlock_pushTransaction ::
    "block_env \<Rightarrow> 'x block_cache \<Rightarrow> nat \<Rightarrow> 'x block_sys \<Rightarrow> bool result \<times> 'x block_sys" where
  "CacheBlock_pushTransaction E X p s =
     (if mExitCalled_Cache (cacheBlock s) then (Inr False, s)
      else case with_write_task s of
        (t, s1) \<Rightarrow>
          (case WriteTransactionsToBlockTask_addSerializedTransaction E t p s1 of
             (Inl e, s2) \<Rightarrow> (Inl e, s2)
           | (Inr _, s2) \<Rightarrow>
               (Inr True, s2\<lparr>cacheBlock := (cacheBlock s2)\<lparr>mSerializedTransactions :=
                  ec_add X (entry_nr (entries s2 ! p)) p (mSerializedTransactions (cacheBlock s2))\<rparr>\<rparr>)))"

text \<open>A line of the file becomes a new entry.\<close>

definition CacheBlock_addTransaction ::
    "block_env \<Rightarrow> 'x block_cache \<Rightarrow> bytes \<Rightarrow> u32 \<Rightarrow> 'x block_sys \<Rightarrow> unit result \<times> 'x block_sys" where
  "CacheBlock_addTransaction E X serializedTransaction fileCursor s =
     (case bv_entry E serializedTransaction of
        Inl e \<Rightarrow> (Inl e, s)
      | Inr i \<Rightarrow>
          let e = \<lparr>nt_index = i\<lparr>ne_fileCursor := fileCursor\<rparr>, nt_serialized = serializedTransaction\<rparr> in
          if mExitCalled_Cache (cacheBlock s) then (Inr (), s)
          else (Inr (), s\<lparr>entries := entries s @ [e],
                  cacheBlock := (cacheBlock s)\<lparr>mSerializedTransactions :=
                    ec_add X (entry_nr e) (length (entries s)) (mSerializedTransactions (cacheBlock s))\<rparr>\<rparr>))"

text \<open>The part of \<open>getTransaction\<close> that reads the file.\<close>

definition getTransaction_file ::
    "block_env \<Rightarrow> 'x block_cache \<Rightarrow> u64 \<Rightarrow> u32 \<Rightarrow> 'x block_sys \<Rightarrow> nat result \<times> 'x block_sys" where
  "getTransaction_file E X nr fileCursor s =
     (case BlockFile_readLine (bv_io E) (bv_junk E) fileCursor (blockFile s) of
        (Inl (Gradido EndReaching), f) \<Rightarrow> (Inl (Gradido TransactionNotFound), s\<lparr>blockFile := f\<rparr>)
      | (Inl e, f) \<Rightarrow> (Inl e, s\<lparr>blockFile := f\<rparr>)
      | (Inr blockLine, f) \<Rightarrow>
          (case CacheBlock_addTransaction E X blockLine fileCursor (s\<lparr>blockFile := f\<rparr>) of
             (Inl e, s1) \<Rightarrow> (Inl e, s1)
           | (Inr _, s1) \<Rightarrow>
               (case ec_get X nr (mSerializedTransactions (cacheBlock s1)) of
                  (r, x) \<Rightarrow> (case r of None \<Rightarrow> Inl (Gradido TransactionNotFound) | Some p \<Rightarrow> Inr p,
                             s1\<lparr>cacheBlock := (cacheBlock s1)\<lparr>mSerializedTransactions := x\<rparr>\<rparr>))))"

text \<open>The position in the file: where it is 0, a last look after a while (\<open>env\<close> of the second call).\<close>

definition getTransaction_cursor ::
    "block_env \<Rightarrow> u64 \<Rightarrow> 'x block_sys \<Rightarrow> u32 result \<times> 'x block_sys" where
  "getTransaction_cursor E nr s =
     (case BlockIndexCache_getFileCursorForTransactionNr (bv_wait E) nr (blockIndex s) of
        (Inl e, c) \<Rightarrow> (Inl e, s\<lparr>blockIndex := c\<rparr>)
      | (Inr None, c) \<Rightarrow> (Inl (Gradido TransactionNotFound), s\<lparr>blockIndex := c\<rparr>)
      | (Inr (Some cursor), c) \<Rightarrow>
          if cursor = 0 \<and> nr < mMaxTransactionNr c then
            (case BlockIndexCache_getFileCursorForTransactionNr (bv_wait E) nr (bv_wait E 0 c) of
               (Inl e, c') \<Rightarrow> (Inl e, s\<lparr>blockIndex := c'\<rparr>)
             | (Inr None, c') \<Rightarrow> (Inl (Gradido TransactionNotFound), s\<lparr>blockIndex := c'\<rparr>)
             | (Inr (Some cursor'), c') \<Rightarrow> (Inr cursor', s\<lparr>blockIndex := c'\<rparr>))
          else (Inr cursor, s\<lparr>blockIndex := c\<rparr>))"

text \<open>
  \<open>getTransaction\<close>. When the entry is still missing after it was read, the code reads the line once more
  for the log and throws.
\<close>

definition CacheBlock_getTransaction ::
    "block_env \<Rightarrow> 'x block_cache \<Rightarrow> u64 \<Rightarrow> 'x block_sys \<Rightarrow> nat result \<times> 'x block_sys" where
  "CacheBlock_getTransaction E X nr s0 =
     (if nr = 0 then (Inl AssertFailed, s0)
      else case ec_get X nr (mSerializedTransactions (cacheBlock s0)) of
        (r, x) \<Rightarrow>
          let s = s0\<lparr>cacheBlock := (cacheBlock s0)\<lparr>mSerializedTransactions := x\<rparr>\<rparr> in
          (case r of
             Some p \<Rightarrow> (Inr p, s)
           | None \<Rightarrow>
               (case (case mTransactionWriteTask (cacheBlock s) of
                        None \<Rightarrow> None
                      | Some t \<Rightarrow> WriteTransactionsToBlockTask_getTransaction nr (writeTasks s ! t)) of
                  Some p \<Rightarrow> (Inr p, s)
                | None \<Rightarrow>
                    (case (if TaskObserver_isTransactionPending nr (observer s) then TaskObserver_getTransaction nr s else None) of
                       Some p \<Rightarrow> (Inr p, s)
                     | None \<Rightarrow>
                         (case getTransaction_cursor E nr s of
                            (Inl e, s1) \<Rightarrow> (Inl e, s1)
                          | (Inr cursor, s1) \<Rightarrow> getTransaction_file E X nr cursor s1)))))"

definition CacheBlock_hasSpaceLeft :: "'x block_sys \<Rightarrow> bool" where
  "CacheBlock_hasSpaceLeft s = (mCurrentFileSize (fst (blockFile s)) + 32 < (128 * 1024 * 1024 :: u32))"

text \<open>
  The timer hands the write task to a worker. The result says whether a task was scheduled; \<open>locked\<close> is
  that another thread has the mutex.
\<close>

definition CacheBlock_callFromTimer ::
    "bool \<Rightarrow> int \<Rightarrow> int \<Rightarrow> 'x block_sys \<Rightarrow> (TimerReturn \<times> nat option) \<times> 'x block_sys" where
  "CacheBlock_callFromTimer locked now writeToDiskTimeout s =
     (if locked then ((GO_ON, None), s)
      else if mExitCalled_Cache (cacheBlock s) then ((REMOVE_ME, None), s)
      else case mTransactionWriteTask (cacheBlock s) of
        None \<Rightarrow> ((GO_ON, None), s)
      | Some t \<Rightarrow>
          if now - mCreationDate (writeTasks s ! t) > writeToDiskTimeout then
            (case TaskObserver_addBlockWriteTask t s of
               (_, s1) \<Rightarrow>
                 ((GO_ON, Some t),
                  update_task t (\<lambda>w. w\<lparr>write_scheduled := True\<rparr>)
                    (s1\<lparr>cacheBlock := (cacheBlock s1)\<lparr>mTransactionWriteTask := None\<rparr>\<rparr>)))
          else ((GO_ON, None), s))"

section \<open>The timer of a block\<close>

text \<open>The constructor registers the object, here the number \<open>self\<close>, with the timer; the destructor removes it.\<close>

definition CacheBlock_addTimer :: "int \<Rightarrow> nat \<Rightarrow> int \<Rightarrow> 'x block_sys \<Rightarrow> FuzzyTimer \<Rightarrow> bool \<times> FuzzyTimer" where
  "CacheBlock_addTimer now self timeoutCheck s =
     FuzzyTimer_addTimer now (''cache::'' @ mBlockPath (fst (blockFile s))) (Some self) timeoutCheck (- 1)"

definition CacheBlock_destroy ::
    "block_env \<Rightarrow> 'x block_cache \<Rightarrow> bool \<Rightarrow> FuzzyTimer \<Rightarrow> 'x block_sys \<Rightarrow> unit result \<times> FuzzyTimer \<times> 'x block_sys" where
  "CacheBlock_destroy E X locked ft s =
     (case CacheBlock_exit E s of
        (Inl e, s1) \<Rightarrow> (Inl e, ft, s1)
      | (Inr _, s1) \<Rightarrow>
          (case FuzzyTimer_removeTimer locked (''controller::'' @ mBlockPath (fst (blockFile s1))) ft of
             (Inl e, ft') \<Rightarrow> (Inl e, ft', s1)
           | (Inr _, ft') \<Rightarrow>
               (Inr (), ft', s1\<lparr>cacheBlock := (cacheBlock s1)\<lparr>mSerializedTransactions :=
                  ec_clear X (mSerializedTransactions (cacheBlock s1))\<rparr>\<rparr>)))"

end
