(* ===== verification/BlockLog.thy ===== *)
theory BlockLog
  imports CacheBlock
begin

text \<open>
  What a block promises: it is a list of serialised transactions with consecutive numbers to which
  transactions are added, and which answers every number it has with its bytes, wherever they are at the
  moment: in the cache, in the write task, in a task that waits for its worker or only in the block file.
\<close>

section \<open>The abstract block\<close>

record block_log =
  log_lines :: "bytes list"
  log_written :: nat
  log_pending :: bool

datatype block_op =
    OpPush NodeTransactionEntry
  | OpTimer bool int int
  | OpWork
  | OpGet u64

datatype block_answer = Done | Line bytes | Failed error

text \<open>The number of the i-th transaction of a block that begins with the number \<open>n0\<close>.\<close>

definition nr_at :: "nat \<Rightarrow> nat \<Rightarrow> u64" where
  "nr_at n0 i = word_of_nat (n0 + i)"

definition log_step :: "nat \<Rightarrow> block_op \<Rightarrow> block_log \<Rightarrow> block_answer \<times> block_log" where
  "log_step n0 op a =
     (case op of
        OpPush e \<Rightarrow> (Done, a\<lparr>log_lines := log_lines a @ [nt_serialized e]\<rparr>)
      | OpTimer locked now timeout \<Rightarrow>
          (Done, if \<not> locked \<and> \<not> log_pending a \<and> log_written a < length (log_lines a) \<and> now > timeout
                 then a\<lparr>log_pending := True\<rparr> else a)
      | OpWork \<Rightarrow> (Done, if log_pending a then a\<lparr>log_pending := False, log_written := length (log_lines a)\<rparr> else a)
      | OpGet nr \<Rightarrow>
          (if n0 \<le> unat nr \<and> unat nr < n0 + length (log_lines a) then Line (log_lines a ! (unat nr - n0))
           else Failed (Gradido TransactionNotFound), a))"

text \<open>
  The operations of the program, as the blockchain, the timer and the worker call them. A pushed entry is a
  new object.
\<close>

definition block_step :: "block_env \<Rightarrow> 'x block_cache \<Rightarrow> block_op \<Rightarrow> 'x block_sys \<Rightarrow> block_answer \<times> 'x block_sys" where
  "block_step E X op s =
     (case op of
        OpPush e \<Rightarrow>
          (case CacheBlock_pushTransaction E X (length (entries s)) (s\<lparr>entries := entries s @ [e]\<rparr>) of
             (Inl x, s') \<Rightarrow> (Failed x, s')
           | (Inr _, s') \<Rightarrow> (Done, s'))
      | OpTimer locked now timeout \<Rightarrow> (Done, snd (CacheBlock_callFromTimer locked now timeout s))
      | OpWork \<Rightarrow>
          (case mBlockWriteTasks (observer s) of
             [] \<Rightarrow> (Done, s)
           | (_, t) # _ \<Rightarrow>
               (case run_scheduled E t s of
                  (Inl x, s') \<Rightarrow> (Failed x, s')
                | (Inr _, s') \<Rightarrow> (Done, s')))
      | OpGet nr \<Rightarrow>
          (case CacheBlock_getTransaction E X nr s of
             (Inl x, s') \<Rightarrow> (Failed x, s')
           | (Inr p, s') \<Rightarrow> (Line (nt_serialized (entries s' ! p)), s')))"

text \<open>
  What the promise needs: the numbers follow each other and fit the signed 32 bit number of the write task,
  a line fits its size field and the file the signed cursors, an entry has less than 256 addresses and a
  known community and can be read back; and no transaction comes while a task waits for its worker.
\<close>

definition push_ok :: "block_env \<Rightarrow> nat \<Rightarrow> NodeTransactionEntry \<Rightarrow> block_log \<Rightarrow> bool" where
  "push_ok E n0 e a =
     (entry_nr e = nr_at n0 (length (log_lines a)) \<and> n0 + length (log_lines a) < 2 ^ 31 - 1 \<and>
      sint (ne_fileCursor (nt_index e)) < 0 \<and> length (ne_addressIndices (nt_index e)) < 256 \<and>
      27 \<le> length (nt_serialized e) \<and> length (nt_serialized e) < 2 ^ 16 \<and>
      length (enc_lines (log_lines a @ [nt_serialized e])) + 32 < 2 ^ 31 \<and>
      (ne_coinCommunityId (nt_index e) = [] \<or> (\<exists>i. bv_coin E (ne_coinCommunityId (nt_index e)) = Inr i)) \<and>
      (\<exists>i. bv_entry E (nt_serialized e) = Inr i \<and> ne_transactionNr i = entry_nr e))"

definition log_ok :: "block_env \<Rightarrow> nat \<Rightarrow> block_op \<Rightarrow> block_log \<Rightarrow> bool" where
  "log_ok E n0 op a =
     (case op of
        OpPush e \<Rightarrow> \<not> log_pending a \<and> push_ok E n0 e a
      | OpGet nr \<Rightarrow> nr \<noteq> 0
      | _ \<Rightarrow> True)"

lemma unat_nr_at: "n0 + i < 2 ^ 31 \<Longrightarrow> unat (nr_at n0 i) = n0 + i"
  by (simp add: nr_at_def del: of_nat_add)

section \<open>The index of the block\<close>

text \<open>How many blocks the index file gets from the entries of an index.\<close>

definition index_blocks :: "(int \<times> month_map) list \<Rightarrow> nat" where
  "index_blocks M = sum_list (map (\<lambda>(y, ms). 1 + sum_list (map (\<lambda>(mo, es). 1 + length es) ms)) M)"

lemma sum_list_omap_put:
  "omap_ok m \<Longrightarrow> sum_list (map f (omap_put k v m)) + (case map_of m k of None \<Rightarrow> 0 | Some v' \<Rightarrow> f (k, v'))
     = sum_list (map f m) + (f (k, v) :: nat)"
proof (induction k v m rule: omap_put.induct)
  case (1 k v)
  show ?case by simp
next
  case (2 k v k' v' m)
  have "map_of m k = None" if "k < k'"
    using that 2(2) by (force simp: omap_ok_Cons map_of_eq_None_iff)
  with 2 show ?case by (auto simp: omap_ok_Cons split: option.splits)
qed

lemma index_blocks_set_month:
  assumes "years_ok M"
  shows "index_blocks (set_month y mo (month_of y mo M @ [e]) M) \<le> index_blocks M + 3"
proof -
  define g where "g = (\<lambda>(mo :: nat, es :: BlockIndexEntry list). 1 + length es)"
  define f where "f = (\<lambda>(y :: int, ms). 1 + sum_list (map g ms))"
  have ib: "index_blocks N = sum_list (map f N)" for N by (simp add: index_blocks_def f_def g_def)
  have inner: "sum_list (map g (omap_put mo (month_of y mo M @ [e]) (months_of y M))) \<le> sum_list (map g (months_of y M)) + 2"
    using sum_list_omap_put [OF years_okD(2) [OF assms], of g mo "month_of y mo M @ [e]" y]
    by (auto simp: month_of_def g_def split: option.splits)
  show ?thesis
    using sum_list_omap_put [OF years_okD(1) [OF assms], of f y "omap_put mo (month_of y mo M @ [e]) (months_of y M)"] inner
    by (auto simp: set_month_def ib f_def months_of_def split: option.splits)
qed

definition index_rep :: "nat \<Rightarrow> bytes list \<Rightarrow> nat \<Rightarrow> BlockIndexCache \<Rightarrow> bool" where
  "index_rep n0 ls w c =
     (index_inv c \<and>
      (\<forall>nr. map_of (mTransactionNrsFileCursors c) nr =
         (if n0 \<le> unat nr \<and> unat nr < n0 + w then Some (word_of_nat (cursor_of ls (unat nr - n0))) else None)) \<and>
      (\<forall>y mo. \<forall>e \<in> set (month_of y mo (mYearMonthAddressIndexEntries c)).
         n0 \<le> unat (be_transactionNr e) \<and> unat (be_transactionNr e) < n0 + length ls \<and>
         length (be_addressIndices e) < 256 \<and> be_addressIndiceCount e = word_of_nat (length (be_addressIndices e))) \<and>
      mMinTransactionNr c = (if ls = [] then 0 else nr_at n0 0) \<and>
      mMaxTransactionNr c = (if ls = [] then 0 else nr_at n0 (length ls - 1)) \<and>
      (\<forall>i < length ls. \<exists>y mo. \<exists>e \<in> set (month_of y mo (mYearMonthAddressIndexEntries c)). be_transactionNr e = nr_at n0 i) \<and>
      index_blocks (mYearMonthAddressIndexEntries c) \<le> 3 * length ls)"

lemma index_rep_entries:
  assumes "index_rep n0 ls w c" and "ls \<noteq> []"
  shows "mYearMonthAddressIndexEntries c \<noteq> []"
proof
  assume "mYearMonthAddressIndexEntries c = []"
  then have "month_of y mo (mYearMonthAddressIndexEntries c) = []" for y mo by (simp add: month_of_def months_of_def)
  moreover have "0 < length ls" using assms(2) by simp
  then have "\<exists>y mo. \<exists>e \<in> set (month_of y mo (mYearMonthAddressIndexEntries c)). be_transactionNr e = nr_at n0 0"
    using assms(1) unfolding index_rep_def by blast
  ultimately show False by simp
qed

lemma index_rep_new: "index_rep n0 [] 0 (BlockIndexCache_new f n)"
  by (simp add: index_rep_def) (simp add: BlockIndexCache_new_def month_of_def months_of_def index_blocks_def)

lemma cursor_of_append: "i \<le> length ls \<Longrightarrow> cursor_of (ls @ ms) i = cursor_of ls i"
  by (simp add: cursor_of_def)

lemma update_min_max_names [simp]:
  "mFolderPath_Index (update_min_max nr c) = mFolderPath_Index c" "mBlockNr_Index (update_min_max nr c) = mBlockNr_Index c"
  by (simp_all add: update_min_max_def Let_def)

lemma min_max_dirty:
  "mMinTransactionNr (update_min_max nr (c\<lparr>mDirty := b\<rparr>)\<lparr>mYearMonthAddressIndexEntries := M\<rparr>) =
     (if mMinTransactionNr c = 0 then nr else min nr (mMinTransactionNr c))"
  "mMaxTransactionNr (update_min_max nr (c\<lparr>mDirty := b\<rparr>)\<lparr>mYearMonthAddressIndexEntries := M\<rparr>) =
     max nr (mMaxTransactionNr c)"
  by simp_all

lemma min_max_nr_at:
  assumes "0 < n0" and "n0 + length ls < 2 ^ 31 - 1"
    and "mMinTransactionNr c = (if ls = [] then 0 else nr_at n0 0)"
    and "mMaxTransactionNr c = (if ls = [] then 0 else nr_at n0 (length ls - 1))"
  shows "mMinTransactionNr (update_min_max (nr_at n0 (length ls)) c) = nr_at n0 0"
    and "mMaxTransactionNr (update_min_max (nr_at n0 (length ls)) c) = nr_at n0 (length ls)"
    and "nr_at n0 0 \<noteq> 0" and "min (nr_at n0 (length ls)) (nr_at n0 0) = nr_at n0 0"
proof -
  have u: "unat (nr_at n0 0) = n0" "unat (nr_at n0 (length ls)) = n0 + length ls"
    "unat (nr_at n0 (length ls - 1)) = n0 + (length ls - 1)"
    using assms(2) by (simp_all add: unat_nr_at)
  then show nz: "nr_at n0 0 \<noteq> 0" using assms(1) by auto
  show mn: "min (nr_at n0 (length ls)) (nr_at n0 0) = nr_at n0 0" using u by (simp add: min_def word_le_nat_alt)
  show "mMinTransactionNr (update_min_max (nr_at n0 (length ls)) c) = nr_at n0 0"
    using assms(3) nz mn by simp
  have "mMaxTransactionNr c \<le> nr_at n0 (length ls)"
    using assms(4) u by (cases ls) (simp_all add: word_le_nat_alt)
  then show "mMaxTransactionNr (update_min_max (nr_at n0 (length ls)) c) = nr_at n0 (length ls)"
    by (simp add: max_def)
qed

text \<open>An entry without a cursor is added.\<close>

lemma addEntry_rep:
  assumes rep: "index_rep n0 ls w c" and n0: "0 < n0" and w: "w \<le> length ls"
    and ok: "n0 + length ls < 2 ^ 31 - 1" "ne_transactionNr e = nr_at n0 (length ls)"
    and cur: "sint (ne_fileCursor e) < 0" and addrs: "length (ne_addressIndices e) < 256"
    and coin: "ne_coinCommunityId e = [] \<or> (\<exists>i. gci (ne_coinCommunityId e) = Inr i)"
  shows "\<exists>c'. BlockIndexCache_addEntry gci e c = (Inr True, c') \<and> index_rep n0 (ls @ [l]) w c' \<and>
    mFolderPath_Index c' = mFolderPath_Index c \<and> mBlockNr_Index c' = mBlockNr_Index c"
proof -
  let ?nr = "nr_at n0 (length ls)" let ?M = "mYearMonthAddressIndexEntries c"
  let ?es = "month_of (ne_year e) (ne_month e) ?M"
  obtain coinIndex where ci: "(if ne_coinCommunityId e \<noteq> [] then gci (ne_coinCommunityId e) else Inr 0) = Inr coinIndex"
    using coin by (cases "ne_coinCommunityId e = []") auto
  let ?entry = "\<lparr>be_transactionNr = ?nr, be_addressIndices = ne_addressIndices e,
    be_coinCommunityIdIndex = coinIndex, be_transactionType = ne_transactionType e,
    be_addressIndiceCount = word_of_nat (length (ne_addressIndices e))\<rparr>"
  have unr: "unat ?nr = n0 + length ls" using ok(1) by (intro unat_nr_at) simp
  have len: "unat (word_of_nat (length (ne_addressIndices e)) :: u16) = length (ne_addressIndices e)"
    "(ucast (word_of_nat (length (ne_addressIndices e)) :: u16) :: u8) = word_of_nat (length (ne_addressIndices e))"
    using addrs by (simp_all add: unsigned_of_nat take_bit_nat_eq_self)
  have old: "n0 \<le> unat (be_transactionNr x) \<and> unat (be_transactionNr x) < n0 + length ls" if "x \<in> set ?es" for x
    using rep that by (simp add: index_rep_def)
  have last: "\<not> (?es \<noteq> [] \<and> ?nr \<le> be_transactionNr (last ?es))"
    using old [of "last ?es"] unr by (auto simp: word_le_nat_alt)
  have "mMinTransactionNr c = (if ls = [] then 0 else nr_at n0 0)"
    "mMaxTransactionNr c = (if ls = [] then 0 else nr_at n0 (length ls - 1))"
    using rep by (simp_all add: index_rep_def)
  note mm = min_max_nr_at [OF n0 ok(1) this]
  have inv: "index_inv c" and yo: "years_ok ?M" using rep by (auto simp: index_rep_def index_inv_alt)
  let ?c1 = "update_min_max ?nr (update_min_max ?nr c\<lparr>mDirty := True\<rparr>)"
  let ?c' = "?c1\<lparr>mYearMonthAddressIndexEntries := set_month (ne_year e) (ne_month e) (?es @ [?entry]) ?M\<rparr>"
  have add: "BlockIndexCache_addEntry gci e c = (Inr True, ?c')"
    using cur len addrs last ok(2) ci
    by (simp add: BlockIndexCache_addEntry_def BlockIndexCache_addIndices_def
        BlockIndexCache_addFileCursorForTransaction_def Let_def month_of_set_month yo set_month_twice)
  have "index_inv ?c'" using index_inv_addEntry [OF inv, of gci e] add by simp
  moreover have "unat x - n0 < length ls" if "n0 \<le> unat x" "unat x < n0 + w" for x :: u64 using that w by simp
  then have "\<forall>nr. map_of (mTransactionNrsFileCursors ?c') nr =
      (if n0 \<le> unat nr \<and> unat nr < n0 + w then Some (word_of_nat (cursor_of (ls @ [l]) (unat nr - n0))) else None)"
    using rep by (simp add: index_rep_def cursor_of_append less_imp_le)
  moreover have "mMinTransactionNr ?c' = nr_at n0 0" "mMaxTransactionNr ?c' = ?nr"
    unfolding min_max_dirty mm(1,2) using mm(3,4) by simp_all
  moreover have "index_blocks (mYearMonthAddressIndexEntries ?c') \<le> 3 * length (ls @ [l])"
    using index_blocks_set_month [OF yo, of "ne_year e" "ne_month e" ?entry] rep by (simp add: index_rep_def)
  moreover have "\<forall>y mo. \<forall>x \<in> set (month_of y mo (mYearMonthAddressIndexEntries ?c')).
         n0 \<le> unat (be_transactionNr x) \<and> unat (be_transactionNr x) < n0 + length (ls @ [l]) \<and>
         length (be_addressIndices x) < 256 \<and> be_addressIndiceCount x = word_of_nat (length (be_addressIndices x))"
  proof (intro allI ballI)
    fix y mo x
    assume "x \<in> set (month_of y mo (mYearMonthAddressIndexEntries ?c'))"
    then have "x = ?entry \<or> x \<in> set (month_of y mo ?M)" by (auto simp: month_of_set_month yo split: if_splits)
    then show "n0 \<le> unat (be_transactionNr x) \<and> unat (be_transactionNr x) < n0 + length (ls @ [l]) \<and>
         length (be_addressIndices x) < 256 \<and> be_addressIndiceCount x = word_of_nat (length (be_addressIndices x))"
    proof
      assume "x = ?entry"
      then show ?thesis using addrs unr by simp
    next
      assume "x \<in> set (month_of y mo ?M)"
      then show ?thesis using rep by (fastforce simp: index_rep_def)
    qed
  qed
  moreover have "\<forall>i < length (ls @ [l]). \<exists>y mo. \<exists>x \<in> set (month_of y mo (mYearMonthAddressIndexEntries ?c')).
      be_transactionNr x = nr_at n0 i"
  proof (intro allI impI)
    fix i
    assume "i < length (ls @ [l])"
    then consider "i < length ls" | "i = length ls" by fastforce
    then show "\<exists>y mo. \<exists>x \<in> set (month_of y mo (mYearMonthAddressIndexEntries ?c')). be_transactionNr x = nr_at n0 i"
    proof cases
      case 1
      then obtain y mo x where x: "x \<in> set (month_of y mo ?M)" "be_transactionNr x = nr_at n0 i"
        using rep by (auto simp: index_rep_def)
      then have "x \<in> set (month_of y mo (mYearMonthAddressIndexEntries ?c'))" by (auto simp: month_of_set_month yo)
      with x(2) show ?thesis by blast
    next
      case 2
      have "?entry \<in> set (month_of (ne_year e) (ne_month e) (mYearMonthAddressIndexEntries ?c'))"
        by (simp add: month_of_set_month yo)
      with 2 show ?thesis by (intro exI [of _ "ne_year e"] exI [of _ "ne_month e"] bexI [of _ ?entry]) simp_all
    qed
  qed
  ultimately show ?thesis using add by (intro exI [of _ ?c']) (simp add: index_rep_def)
qed

text \<open>The next cursor is stored.\<close>

lemma cursor_of_pos: "0 < i \<Longrightarrow> i \<le> length ls \<Longrightarrow> 0 < cursor_of ls i"
  by (cases ls; cases i) (simp_all add: cursor_of_def)

lemma cursor_of_less: "i < length ls \<Longrightarrow> cursor_of ls i < length (enc_lines ls)"
  using cursor_of_bound [of i ls] by simp

lemma addFileCursor_rep:
  assumes rep: "index_rep n0 ls i c" and n0: "0 < n0" and i: "i < length ls"
    and small: "length (enc_lines ls) < 2 ^ 31" and nrs: "n0 + length ls < 2 ^ 31"
  shows "\<exists>c'. BlockIndexCache_addFileCursorForTransaction (nr_at n0 i) (word_of_nat (cursor_of ls i)) c = (Inr True, c') \<and>
    index_rep n0 ls (Suc i) c' \<and> mFolderPath_Index c' = mFolderPath_Index c \<and> mBlockNr_Index c' = mBlockNr_Index c"
proof -
  let ?cur = "word_of_nat (cursor_of ls i) :: u32"
  let ?c' = "c\<lparr>mDirty := True, mTransactionNrsFileCursors := omap_put (nr_at n0 i) ?cur (mTransactionNrsFileCursors c)\<rparr>"
  have lt: "cursor_of ls i < 2 ^ 31" using cursor_of_less [OF i] small by simp
  have ui: "unat (nr_at n0 i) = n0 + i" using i nrs by (simp add: unat_nr_at)
  have sgn: "\<not> sint ?cur < 0" using lt by (simp add: sint_word_of_nat_u32)
  have first: "\<not> (?cur = 0 \<and> nr_at n0 i > mMinTransactionNr c)"
  proof (cases "i = 0")
    case True
    then show ?thesis using rep i by (auto simp: index_rep_def)
  next
    case False
    then have "0 < cursor_of ls i" using i by (intro cursor_of_pos) simp_all
    then have "unat ?cur \<noteq> 0" using lt by simp
    then show ?thesis by auto
  qed
  have inv: "index_inv c" using rep by (simp add: index_rep_def)
  then have ok: "omap_ok (mTransactionNrsFileCursors c)" by (simp add: index_inv_def)
  have none: "map_of (mTransactionNrsFileCursors c) (nr_at n0 i) = None" using rep ui by (simp add: index_rep_def)
  have add: "BlockIndexCache_addFileCursorForTransaction (nr_at n0 i) ?cur c = (Inr True, ?c')"
    unfolding BlockIndexCache_addFileCursorForTransaction_def if_not_P [OF sgn] if_not_P [OF first]
    using none by (simp add: Let_def)
  have "index_inv ?c'" using index_inv_cursor_add [OF inv, of "nr_at n0 i" ?cur] add by simp
  moreover have "\<forall>nr. map_of (mTransactionNrsFileCursors ?c') nr =
      (if n0 \<le> unat nr \<and> unat nr < n0 + Suc i then Some (word_of_nat (cursor_of ls (unat nr - n0))) else None)"
  proof
    fix nr :: u64
    have "nr = nr_at n0 i \<longleftrightarrow> unat nr = n0 + i" using ui by (metis word_unat_eq_iff)
    then show "map_of (mTransactionNrsFileCursors ?c') nr =
      (if n0 \<le> unat nr \<and> unat nr < n0 + Suc i then Some (word_of_nat (cursor_of ls (unat nr - n0))) else None)"
      using rep ok by (auto simp: index_rep_def map_of_omap_put)
  qed
  ultimately show ?thesis using add rep by (intro exI [of _ ?c']) (simp add: index_rep_def)
qed

text \<open>The index file is written once every entry has its cursor.\<close>

definition index_path :: "BlockIndexCache \<Rightarrow> string" where
  "index_path c = BlockIndexFile_fileName (mFolderPath_Index c) (mBlockNr_Index c)"

lemma year_seq_size:
  assumes "\<forall>(y, ms) \<in> set M. \<forall>(mo, es) \<in> set ms. \<forall>e \<in> set es. length (be_addressIndices e) < 256"
  shows "sum_list (map IndexBlock_size (year_seq cs M)) \<le> 1100 * index_blocks M"
proof -
  have entry: "IndexBlock_size (data_block cs e) \<le> 1100" if "length (be_addressIndices e) < 256" for e
    using that by (simp add: data_block_def)
  have entries: "sum_list (map (IndexBlock_size \<circ> data_block cs) es) \<le> 1100 * length es"
    if "\<forall>e \<in> set es. length (be_addressIndices e) < 256" for es
    using that
  proof (induction es)
    case (Cons e es)
    then show ?case using entry [of e] by simp
  qed simp
  have months: "sum_list (map IndexBlock_size (month_seq cs ms)) \<le> 1100 * sum_list (map (\<lambda>(mo, es). 1 + length es) ms)"
    if "\<forall>(mo, es) \<in> set ms. \<forall>e \<in> set es. length (be_addressIndices e) < 256" for ms
    using that
  proof (induction ms)
    case (Cons p ms)
    then show ?case using entries [of "snd p"] by (cases p) (fastforce simp: month_seq_def)
  qed (simp add: month_seq_def)
  show ?thesis using assms
  proof (induction M)
    case (Cons p M)
    then show ?case using months [of "snd p"] by (cases p) (fastforce simp: year_seq_def index_blocks_def)
  qed (simp add: year_seq_def)
qed

lemma writeIntoFile_rep:
  assumes rep: "index_rep n0 ls (length ls) c" and ne: "ls \<noteq> []" and small: "length (enc_lines ls) < 2 ^ 31"
    and nrs: "n0 + length ls < 2 ^ 31" and free: "\<not> held (index_path c) (fs_locks fs)"
    and hash: "\<And>x. length (ghash x) = 32"
  shows "\<exists>content. BlockIndexCache_writeIntoFile env ghash junk c fs =
    (Inr True, \<lparr>fs_locks = (fs_locks fs)(index_path c \<mapsto> False), fs_files = (fs_files fs)(index_path c \<mapsto> content)\<rparr>)"
proof -
  let ?M = "mYearMonthAddressIndexEntries c" let ?cs = "mTransactionNrsFileCursors c" let ?bs = "year_seq ?cs ?M"
  have yo: "years_ok ?M" using rep by (simp add: index_rep_def index_inv_alt)
  have ok: "entry_ok (\<lambda>_. True) ?cs e" if "e \<in> set (month_of y mo ?M)" for y mo e
  proof -
    have e: "n0 \<le> unat (be_transactionNr e)" "unat (be_transactionNr e) < n0 + length ls"
      "length (be_addressIndices e) < 256" "be_addressIndiceCount e = word_of_nat (length (be_addressIndices e))"
      using rep that by (auto simp: index_rep_def)
    let ?i = "unat (be_transactionNr e) - n0"
    have cur: "map_of ?cs (be_transactionNr e) = Some (word_of_nat (cursor_of ls ?i))"
      using rep e by (simp add: index_rep_def)
    have "cursor_of ls ?i < 2 ^ 31" using cursor_of_less [of ?i ls] e small by fastforce
    then have "0 \<le> sint (word_of_nat (cursor_of ls ?i) :: u32)" by (simp add: sint_word_of_nat_u32)
    then show ?thesis using e cur by (simp add: entry_ok_def cursor_in_def)
  qed
  have mem: "es = month_of y mo ?M" if "(y, ms) \<in> set ?M" "(mo, es) \<in> set ms" for y ms mo es
  proof -
    have "map_of ?M y = Some ms" using that(1) omap_ok_distinct [OF years_okD(1) [OF yo]] by simp
    moreover have "omap_ok ms" using yo calculation by (auto simp: years_ok_def)
    then have "map_of ms mo = Some es" using that(2) omap_ok_distinct [of ms] by simp
    ultimately show ?thesis by (simp add: month_of_def months_of_def)
  qed
  have oks: "\<forall>(y, ms) \<in> set ?M. \<forall>(mo, es) \<in> set ms. \<forall>e \<in> set es. entry_ok (\<lambda>_. True) ?cs e"
    using ok mem by fast
  then have "\<forall>(y, ms) \<in> set ?M. \<forall>(mo, es) \<in> set ms. \<forall>e \<in> set es. length (be_addressIndices e) < 256"
    by (fastforce simp: entry_ok_def)
  then have size: "sum_list (map IndexBlock_size ?bs) \<le> 1100 * (3 * length ls)"
    using year_seq_size [of ?M ?cs] rep by (fastforce simp: index_rep_def)
  have "length ls < 2 ^ 31" using nrs by simp
  then have sml: "sum_list (map IndexBlock_size ?bs) + 33 < 2 ^ 64" using size by simp
  obtain bf fs1 where nw: "BlockIndexFile_new (mFolderPath_Index c) (mBlockNr_Index c) fs = (bf, fs1)"
    by (cases "BlockIndexFile_new (mFolderPath_Index c) (mBlockNr_Index c) fs")
  then have bf: "mDataBlocks bf = []" "mFileName_Index bf = index_path c" "index_file_ok bf" "fs_locks fs1 = fs_locks fs"
    "\<And>x. (fs_files fs1)(index_path c \<mapsto> x) = (fs_files fs)(index_path c \<mapsto> x)"
    using index_file_ok_new(1) [of "mFolderPath_Index c" "mBlockNr_Index c" fs]
    by (auto simp: BlockIndexFile_new_def Let_def index_path_def split: if_splits)
  let ?bf = "fold push_block ?bs bf"
  have cne: "?cs \<noteq> []"
  proof
    assume "?cs = []"
    moreover have "unat (nr_at n0 0) = n0" using nrs by (simp add: unat_nr_at)
    then have "map_of ?cs (nr_at n0 0) \<noteq> None" using rep ne by (simp add: index_rep_def)
    ultimately show False by simp
  qed
  have ser: "BlockIndexCache_serialize c fs = (Inr (Some ?bf), fs1)"
    using cne nw all_blocks_push [OF oks] index_rep_entries [OF rep ne] by (simp add: BlockIndexCache_serialize_def)
  have "sum_list (map IndexBlock_size (mDataBlocks ?bf)) + 33 < 2 ^ 64" using sml by (simp add: fold_push bf)
  from serialize_ok [where ghash = ghash and junk = junk, OF fold_push(3) [OF bf(3)] this hash] obtain vf where
    vf: "BlockIndexFile_serialize ghash junk ?bf = (Inr vf, ?bf\<lparr>mDataBlocks := []\<rparr>)" "vf_ok vf" by blast
  have "\<not> held (index_path c) (fs_locks fs1)" using free bf by simp
  from writeToFile_ok [OF vf(2) this, of env] show ?thesis
    using ser vf(1) bf by (auto simp: BlockIndexCache_writeIntoFile_def BlockIndexFile_writeToFile_def fold_push)
qed

section \<open>The queue of a write task\<close>

text \<open>A queue of the transactions from the i-th on, with the entries \<open>es\<close>.\<close>

fun queue_ok :: "NodeTransactionEntry list \<Rightarrow> nat \<Rightarrow> bytes list \<Rightarrow> nat \<Rightarrow> (u64 \<times> nat) list \<Rightarrow> bool" where
  "queue_ok es n0 ls i [] = (i = length ls)"
| "queue_ok es n0 ls i ((nr, p) # q) =
     (i < length ls \<and> nr = nr_at n0 i \<and> p < length es \<and> entry_nr (es ! p) = nr \<and> nt_serialized (es ! p) = ls ! i \<and>
      queue_ok es n0 ls (Suc i) q)"

definition same_entries :: "NodeTransactionEntry list \<Rightarrow> NodeTransactionEntry list \<Rightarrow> bool" where
  "same_entries es es' =
     (length es \<le> length es' \<and>
      (\<forall>p < length es. entry_nr (es' ! p) = entry_nr (es ! p) \<and> nt_serialized (es' ! p) = nt_serialized (es ! p)))"

lemma same_entries_refl [simp]: "same_entries es es"
  by (simp add: same_entries_def)

lemma same_entries_trans: "same_entries es es' \<Longrightarrow> same_entries es' es'' \<Longrightarrow> same_entries es es''"
  by (auto simp: same_entries_def)

lemma same_entries_append [simp]: "same_entries es (es @ xs)"
  by (auto simp: same_entries_def nth_append)

lemma same_entries_cursor: "same_entries es (es[p := NodeTransactionEntry_setFileCursor cur (es ! p)])"
  by (cases "p < length es")
    (auto simp: same_entries_def nth_list_update NodeTransactionEntry_setFileCursor_def entry_nr_def)

lemma queue_ok_entries: "queue_ok es n0 ls i q \<Longrightarrow> same_entries es es' \<Longrightarrow> queue_ok es' n0 ls i q"
  by (induction es n0 ls i q rule: queue_ok.induct) (auto simp: same_entries_def)

lemma queue_ok_length: "queue_ok es n0 ls i q \<Longrightarrow> i + length q = length ls"
  by (induction es n0 ls i q rule: queue_ok.induct) auto

lemma queue_ok_nrs:
  "queue_ok es n0 ls i q \<Longrightarrow> n0 + length ls < 2 ^ 31 \<Longrightarrow> nr \<in> fst ` set q \<Longrightarrow>
   n0 + i \<le> unat nr \<and> unat nr < n0 + length ls"
proof (induction es n0 ls i q rule: queue_ok.induct)
  case (2 es n0 ls i nr' p q)
  from 2(4) consider "nr = nr'" | "nr \<in> fst ` set q" by auto
  then show ?case
  proof cases
    case 1
    then show ?thesis using 2 by (simp add: unat_nr_at)
  next
    case 2
    with "2.IH" "2.prems"(1,2) show ?thesis by simp
  qed
qed simp

lemma queue_ok_omap: "queue_ok es n0 ls i q \<Longrightarrow> n0 + length ls < 2 ^ 31 \<Longrightarrow> omap_ok q"
proof (induction es n0 ls i q rule: queue_ok.induct)
  case (2 es n0 ls i nr p q)
  then have "queue_ok es n0 ls (Suc i) q" "nr = nr_at n0 i" "i < length ls" by simp_all
  moreover have "nr < nr'" if "nr' \<in> fst ` set q" for nr'
    using queue_ok_nrs [OF calculation(1) 2(3) that] 2(3) calculation by (simp add: word_less_nat_alt unat_nr_at)
  ultimately show ?case using 2 by (simp add: omap_ok_Cons)
qed simp

lemma queue_ok_get:
  "queue_ok es n0 ls i q \<Longrightarrow> n0 + length ls < 2 ^ 31 \<Longrightarrow>
   (case map_of q nr of
      None \<Rightarrow> \<not> (n0 + i \<le> unat nr \<and> unat nr < n0 + length ls)
    | Some p \<Rightarrow> n0 + i \<le> unat nr \<and> unat nr < n0 + length ls \<and> p < length es \<and> entry_nr (es ! p) = nr \<and>
        nt_serialized (es ! p) = ls ! (unat nr - n0))"
proof (induction es n0 ls i q rule: queue_ok.induct)
  case (2 es n0 ls i nr' p q)
  then have u: "unat nr' = n0 + i" by (simp add: unat_nr_at)
  show ?case
  proof (cases "nr = nr'")
    case True
    then show ?thesis using 2 u by simp
  next
    case False
    then have "unat nr \<noteq> n0 + i" using u by (metis word_unat_eq_iff)
    then show ?thesis using 2 False by (auto split: option.splits)
  qed
qed simp

lemma queue_ok_snoc:
  "queue_ok es n0 ls i q \<Longrightarrow> entry_nr e = nr_at n0 (length ls) \<Longrightarrow>
   queue_ok (es @ [e]) n0 (ls @ [nt_serialized e]) i (q @ [(entry_nr e, length es)])"
  by (induction es n0 ls i q rule: queue_ok.induct) (auto simp: nth_append)

lemma collect_lines_queue:
  "queue_ok es n0 ls i q \<Longrightarrow> n0 + length ls < 2 ^ 31 \<Longrightarrow> 0 < n0 \<Longrightarrow> lst = 0 \<or> 0 < i \<and> lst = word_of_nat (n0 + i - 1) \<Longrightarrow>
   collect_lines es q lst = Inr (drop i ls)"
proof (induction es n0 ls i q arbitrary: lst rule: queue_ok.induct)
  case (1 es n0 ls i)
  then show ?case by simp
next
  case (2 es n0 ls i nr p q)
  have i: "i < length ls" and nr: "entry_nr (es ! p) = nr_at n0 i" using "2.prems" by auto
  have nxt: "collect_lines es q (ucast (nr_at n0 i)) = Inr (drop (Suc i) ls)"
  proof (rule "2.IH")
    have "(ucast (nr_at n0 i) :: u32) = word_of_nat (n0 + i)"
      using "2.prems"(2) i by (simp add: nr_at_def unsigned_of_nat take_bit_nat_eq_self del: of_nat_add)
    then show "ucast (nr_at n0 i) = 0 \<or> 0 < Suc i \<and> ucast (nr_at n0 i) = (word_of_nat (n0 + Suc i - 1) :: u32)" by simp
  qed (use "2.prems" in simp_all)
  have ok: "sint lst = 0 \<or> 0 < sint lst \<and> sint lst < 2 ^ 31 - 1 \<and> (scast (lst + 1) :: u64) = nr_at n0 i"
    using "2.prems"(4)
  proof
    assume lst: "0 < i \<and> lst = word_of_nat (n0 + i - 1)"
    then obtain k where k: "n0 + i = Suc k" "lst = word_of_nat k" using "2.prems"(3) by (cases "n0 + i") auto
    then have "sint lst = int k" using "2.prems"(2) i by (simp add: sint_word_of_nat_u32)
    moreover have "0 < k" using k(1) lst "2.prems"(3) by simp
    moreover have "lst + 1 = word_of_nat (n0 + i)" unfolding k by simp
    then have "(scast (lst + 1) :: u64) = nr_at n0 i"
      using "2.prems"(2) i by (simp add: nr_at_def scast_eq sint_word_of_nat_u32 del: of_nat_add)
    moreover have "k + 1 < 2 ^ 31 - 1 + 1" using k(1) "2.prems"(2) i by simp
    ultimately show ?thesis by auto
  qed simp
  have "\<not> (0 < sint lst \<and> sint lst = 2 ^ 31 - 1)" "\<not> (0 < sint lst \<and> (scast (lst + 1) :: u64) \<noteq> entry_nr (es ! p))"
    using ok nr by auto
  moreover have "drop i ls = nt_serialized (es ! p) # drop (Suc i) ls" using "2.prems" by (simp add: Cons_nth_drop_Suc)
  ultimately show ?case using nxt nr by (auto simp: Let_def)
qed

lemma store_cursors_rep:
  fixes s :: "'z block_data_scheme"
  assumes "queue_ok (entries s) n0 ls i q" and "index_rep n0 (ls @ ms) i (blockIndex s)" and "0 < n0"
    and "length (enc_lines (ls @ ms)) < 2 ^ 31" and "n0 + length (ls @ ms) < 2 ^ 31" and "\<not> isFirst \<Longrightarrow> 0 < i"
  shows "\<exists>es' c'. store_cursors isFirst q (cursors_from (cursor_of ls i) (drop i ls)) s =
      (Inr (), s\<lparr>entries := es', blockIndex := c'\<rparr>) \<and> index_rep n0 (ls @ ms) (length ls) c' \<and>
      same_entries (entries s) es' \<and> mFolderPath_Index c' = mFolderPath_Index (blockIndex s) \<and>
      mBlockNr_Index c' = mBlockNr_Index (blockIndex s)"
  using assms
proof (induction q arbitrary: i s isFirst)
  case Nil
  then show ?case by (intro exI [of _ "entries s"] exI [of _ "blockIndex s"]) simp
next
  case (Cons x q)
  obtain nr p where x: "x = (nr, p)" by (cases x)
  have i: "i < length ls" and nr: "entry_nr (entries s ! p) = nr_at n0 i" and q: "queue_ok (entries s) n0 ls (Suc i) q"
    using Cons.prems(1) x by auto
  let ?cur = "word_of_nat (cursor_of ls i) :: u32"
  let ?es = "(entries s)[p := NodeTransactionEntry_setFileCursor ?cur (entries s ! p)]"
  have il: "i < length (ls @ ms)" and ci: "cursor_of (ls @ ms) i = cursor_of ls i" using i by (simp_all add: cursor_of_append)
  from addFileCursor_rep [OF Cons.prems(2,3) il Cons.prems(4,5), unfolded ci] obtain c where
    c: "BlockIndexCache_addFileCursorForTransaction (nr_at n0 i) ?cur (blockIndex s) = (Inr True, c)"
      "index_rep n0 (ls @ ms) (Suc i) c" "mFolderPath_Index c = mFolderPath_Index (blockIndex s)"
      "mBlockNr_Index c = mBlockNr_Index (blockIndex s)" by blast
  let ?s = "s\<lparr>entries := ?es, blockIndex := c\<rparr>"
  have lt: "cursor_of ls i < 2 ^ 31" using cursor_of_less [OF i] Cons.prems(4) by simp
  have nz: "\<not> (\<not> isFirst \<and> ?cur = 0)"
  proof
    assume z: "\<not> isFirst \<and> ?cur = 0"
    then have "0 < cursor_of ls i" using Cons.prems(6) i by (intro cursor_of_pos) simp_all
    moreover have "unat ?cur = cursor_of ls i" using lt by simp
    ultimately show False using z by simp
  qed
  have drop: "drop i ls = ls ! i # drop (Suc i) ls" using i by (simp add: Cons_nth_drop_Suc)
  have cf: "cursors_from (cursor_of ls i) (drop i ls) = ?cur # cursors_from (cursor_of ls (Suc i)) (drop (Suc i) ls)"
    unfolding drop using cursor_of_Suc [OF i] by (simp add: add.assoc)
  have step: "store_cursors isFirst (x # q) (cursors_from (cursor_of ls i) (drop i ls)) s =
      store_cursors False q (cursors_from (cursor_of ls (Suc i)) (drop (Suc i) ls)) ?s"
    unfolding cf x using nz c(1) nr by (auto simp: Let_def)
  have "queue_ok (entries ?s) n0 ls (Suc i) q"
    using queue_ok_entries [OF q same_entries_cursor] by simp
  from Cons.IH [OF this, of False] c Cons.prems obtain es' c' where
    ih: "store_cursors False q (cursors_from (cursor_of ls (Suc i)) (drop (Suc i) ls)) ?s =
      (Inr (), ?s\<lparr>entries := es', blockIndex := c'\<rparr>)" "index_rep n0 (ls @ ms) (length ls) c'"
      "same_entries ?es es'" "mFolderPath_Index c' = mFolderPath_Index (blockIndex s)"
      "mBlockNr_Index c' = mBlockNr_Index (blockIndex s)" by auto
  then show ?case unfolding step
    using same_entries_trans [OF same_entries_cursor ih(3)] by (intro exI [of _ es'] exI [of _ c']) simp
qed

lemma fold_insert_queue: "omap_ok q \<Longrightarrow> fold (\<lambda>(nr, p). omap_insert nr p) q [] = q"
proof (induction q rule: rev_induct)
  case (snoc x q)
  then have "omap_ok q" and new: "\<forall>k \<in> fst ` set q. k < fst x" by (auto simp: omap_ok_def sorted_wrt_append)
  moreover from new have "map_of q (fst x) = None" by (auto simp: map_of_eq_None_iff)
  ultimately show ?case using snoc.IH by (simp add: omap_insert_def omap_put_last case_prod_beta)
qed simp

lemma fold_erase_queue: "fold (\<lambda>(nr, p). omap_erase nr) q m = filter (\<lambda>x. fst x \<notin> fst ` set q) m"
proof (induction q arbitrary: m)
  case Nil
  then show ?case by simp
next
  case (Cons x q)
  have "fold (\<lambda>(nr, p). omap_erase nr) (x # q) m = fold (\<lambda>(nr, p). omap_erase nr) q (omap_erase (fst x) m)"
    by (simp add: case_prod_beta)
  also have "\<dots> = filter (\<lambda>y. fst y \<notin> fst ` set q) (omap_erase (fst x) m)" by (rule Cons)
  also have "\<dots> = filter (\<lambda>y. fst y \<notin> fst ` set (x # q)) m" by (simp add: omap_erase_def conj_commute)
  finally show ?case .
qed

lemma fold_erase_self: "fold (\<lambda>(nr, p). omap_erase nr) q q = []"
  by (auto simp: fold_erase_queue filter_empty_conv)

section \<open>The relation\<close>

text \<open>The surroundings: the file opens, no other thread is at the index, a fresh entry of the cache is there.\<close>

definition env_ok :: "block_env \<Rightarrow> 'x block_cache \<Rightarrow> bool" where
  "env_ok E X =
     (io_open (bv_io E) \<and> (\<forall>x. length (bv_ghash E x) = 32) \<and> bv_wait E = (\<lambda>_ c. c) \<and> expire_laws X \<and>
      (\<forall>x k v. ec_vals X x k = {} \<longrightarrow> fst (ec_get X k (ec_add X k v x)) = Some v))"

definition lines_ok :: "block_env \<Rightarrow> nat \<Rightarrow> bytes list \<Rightarrow> bool" where
  "lines_ok E n0 ls =
     (0 < n0 \<and> n0 + length ls < 2 ^ 31 \<and> length (enc_lines ls) + 32 < 2 ^ 31 \<and>
      (\<forall>l \<in> set ls. 27 \<le> length l \<and> length l < 2 ^ 16) \<and>
      (\<forall>i < length ls. \<exists>e. bv_entry E (ls ! i) = Inr e \<and> ne_transactionNr e = nr_at n0 i))"

definition file_rep :: "block_env \<Rightarrow> bytes list \<Rightarrow> string \<Rightarrow> bf_state \<Rightarrow> bool" where
  "file_rep E ls ipath f =
     (bf_rep ls (chain (bv_ghash E) ls) f \<and> bf_free f \<and> \<not> held ipath (fs_locks (snd f)) \<and> mBlockPath (fst f) \<noteq> ipath)"

definition cache_rep :: "'x block_cache \<Rightarrow> nat \<Rightarrow> bytes list \<Rightarrow> NodeTransactionEntry list \<Rightarrow> 'x \<Rightarrow> bool" where
  "cache_rep X n0 ls es x =
     (\<forall>nr p. p \<in> ec_vals X x nr \<longrightarrow> p < length es \<and> entry_nr (es ! p) = nr \<and> n0 \<le> unat nr \<and>
        unat nr < n0 + length ls \<and> nt_serialized (es ! p) = ls ! (unat nr - n0))"

definition task_rep :: "nat \<Rightarrow> bytes list \<Rightarrow> nat \<Rightarrow> NodeTransactionEntry list \<Rightarrow> WriteTransactionsToBlockTask list \<Rightarrow> nat \<Rightarrow> bool" where
  "task_rep n0 ls w es ts t = (w < length ls \<and> t < length ts \<and> queue_ok es n0 ls w (mTransactions_Write (ts ! t)))"

definition queue_rep :: "nat \<Rightarrow> block_log \<Rightarrow> 'x block_sys \<Rightarrow> bool" where
  "queue_rep n0 a s =
     (if log_pending a then
        mTransactionWriteTask (cacheBlock s) = None \<and>
        (\<exists>t. task_rep n0 (log_lines a) (log_written a) (entries s) (writeTasks s) t \<and>
           observer s = \<lparr>mBlockWriteTasks = [(t, t)],
                         mTransactionsFromPendingTasks = mTransactions_Write (writeTasks s ! t)\<rparr>)
      else observer s = \<lparr>mBlockWriteTasks = [], mTransactionsFromPendingTasks = []\<rparr> \<and>
        (case mTransactionWriteTask (cacheBlock s) of
           None \<Rightarrow> log_written a = length (log_lines a)
         | Some t \<Rightarrow> task_rep n0 (log_lines a) (log_written a) (entries s) (writeTasks s) t \<and>
             \<not> write_scheduled (writeTasks s ! t) \<and> \<not> write_finished (writeTasks s ! t) \<and>
             mCreationDate (writeTasks s ! t) = 0))"

definition block_rep :: "block_env \<Rightarrow> 'x block_cache \<Rightarrow> nat \<Rightarrow> block_log \<Rightarrow> 'x block_sys \<Rightarrow> bool" where
  "block_rep E X n0 a s =
     (env_ok E X \<and> lines_ok E n0 (log_lines a) \<and> log_written a \<le> length (log_lines a) \<and>
      file_rep E (take (log_written a) (log_lines a)) (index_path (blockIndex s)) (blockFile s) \<and>
      index_rep n0 (log_lines a) (log_written a) (blockIndex s) \<and>
      cache_rep X n0 (log_lines a) (entries s) (mSerializedTransactions (cacheBlock s)) \<and>
      \<not> mExitCalled_Cache (cacheBlock s) \<and> queue_rep n0 a s)"

lemma cache_rep_entries: "cache_rep X n0 ls es x \<Longrightarrow> same_entries es es' \<Longrightarrow> cache_rep X n0 ls es' x"
  unfolding cache_rep_def same_entries_def by (intro allI impI) (fastforce intro: less_le_trans)

lemma cache_rep_snoc: "cache_rep X n0 ls es x \<Longrightarrow> cache_rep X n0 (ls @ [l]) es x"
  by (fastforce simp: cache_rep_def nth_append)

lemma cache_rep_add:
  assumes "cache_rep X n0 ls es x" and "expire_laws X" and "p < length es" and "entry_nr (es ! p) = nr"
    and "n0 \<le> unat nr" and "unat nr < n0 + length ls" and "nt_serialized (es ! p) = ls ! (unat nr - n0)"
  shows "cache_rep X n0 ls es (ec_add X nr p x)"
  using assms expire_lawsD(6) [OF assms(2)] unfolding cache_rep_def by metis

lemma cache_rep_get:
  assumes "cache_rep X n0 ls es x" and "expire_laws X" and "ec_get X nr x = (r, x')"
  shows "cache_rep X n0 ls es x'"
  using assms expire_lawsD(3) [OF assms(2,3)] unfolding cache_rep_def by blast

section \<open>The operations keep the relation\<close>

subsection \<open>Pushing a transaction\<close>

lemma with_write_task_rep:
  assumes "queue_rep n0 a s" and "\<not> log_pending a"
  shows "\<exists>t s'. with_write_task s = (t, s') \<and> t < length (writeTasks s') \<and>
    queue_ok (entries s) n0 (log_lines a) (log_written a) (mTransactions_Write (writeTasks s' ! t)) \<and>
    \<not> write_scheduled (writeTasks s' ! t) \<and> \<not> write_finished (writeTasks s' ! t) \<and> mCreationDate (writeTasks s' ! t) = 0 \<and>
    s' = s\<lparr>writeTasks := writeTasks s', cacheBlock := (cacheBlock s)\<lparr>mTransactionWriteTask := Some t\<rparr>\<rparr>"
proof (cases "mTransactionWriteTask (cacheBlock s)")
  case None
  then have "log_written a = length (log_lines a)" using assms by (simp add: queue_rep_def)
  with None show ?thesis by (simp add: with_write_task_def WriteTransactionsToBlockTask_new_def)
next
  case (Some t)
  then have "(cacheBlock s)\<lparr>mTransactionWriteTask := Some t\<rparr> = cacheBlock s" by simp
  with Some assms show ?thesis by (auto simp: with_write_task_def queue_rep_def task_rep_def)
qed

lemma lines_ok_snoc:
  assumes "lines_ok E n0 ls" and "push_ok E n0 e a" and "log_lines a = ls"
  shows "lines_ok E n0 (ls @ [nt_serialized e])"
proof -
  have "\<exists>x. bv_entry E ((ls @ [nt_serialized e]) ! i) = Inr x \<and> ne_transactionNr x = nr_at n0 i" if "i < Suc (length ls)" for i
    using that assms by (cases "i = length ls") (auto simp: lines_ok_def push_ok_def nth_append)
  then show ?thesis using assms by (simp add: lines_ok_def push_ok_def)
qed

lemma push_rep:
  assumes rep: "block_rep E X n0 a s" and ok: "\<not> log_pending a" "push_ok E n0 e a"
  shows "\<exists>s'. CacheBlock_pushTransaction E X (length (entries s)) (s\<lparr>entries := entries s @ [e]\<rparr>) = (Inr True, s') \<and>
    block_rep E X n0 (a\<lparr>log_lines := log_lines a @ [nt_serialized e]\<rparr>) s'"
proof -
  let ?ls = "log_lines a" let ?w = "log_written a" let ?p = "length (entries s)"
  let ?es = "entries s @ [e]" let ?ls' = "?ls @ [nt_serialized e]"
  define s0 where "s0 = s\<lparr>entries := ?es\<rparr>"
  have nr: "entry_nr e = nr_at n0 (length ?ls)" and small: "n0 + length ?ls < 2 ^ 31 - 1" and n0: "0 < n0"
    and le: "?w \<le> length ?ls" using ok(2) rep by (simp_all add: push_ok_def block_rep_def lines_ok_def)
  have "queue_rep n0 a s0"
    using rep ok(1) queue_ok_entries [OF _ same_entries_append]
    by (auto simp: block_rep_def queue_rep_def s0_def task_rep_def split: option.splits)
  from with_write_task_rep [OF this ok(1)] obtain t s1 where
    w: "with_write_task s0 = (t, s1)" "t < length (writeTasks s1)"
      "queue_ok ?es n0 ?ls ?w (mTransactions_Write (writeTasks s1 ! t))"
      "\<not> write_scheduled (writeTasks s1 ! t)" "\<not> write_finished (writeTasks s1 ! t)" "mCreationDate (writeTasks s1 ! t) = 0"
    and s1: "s1 = s0\<lparr>writeTasks := writeTasks s1, cacheBlock := (cacheBlock s0)\<lparr>mTransactionWriteTask := Some t\<rparr>\<rparr>"
    by (auto simp: s0_def)
  have sel: "entries s1 = ?es" "blockIndex s1 = blockIndex s" "blockFile s1 = blockFile s" "observer s1 = observer s"
      "cacheBlock s1 = (cacheBlock s)\<lparr>mTransactionWriteTask := Some t\<rparr>"
    by (subst s1, simp add: s0_def)+
  let ?q = "mTransactions_Write (writeTasks s1 ! t)"
  have q: "queue_ok (entries s) n0 ?ls ?w ?q"
    using rep ok(1) w(1) w(3) by (auto simp: block_rep_def queue_rep_def s0_def with_write_task_def task_rep_def
        WriteTransactionsToBlockTask_new_def split: option.splits)
  have last: "\<forall>k \<in> fst ` set ?q. k < entry_nr e"
    using queue_ok_nrs [OF q] small unfolding nr by (auto simp: word_less_nat_alt unat_nr_at)
  have none: "map_of ?q (entry_nr e) = None" using last by (auto simp: map_of_eq_None_iff)
  have ins: "omap_insert (entry_nr e) ?p ?q = ?q @ [(entry_nr e, ?p)]"
    using omap_put_last [OF last] none by (simp add: omap_insert_def)
  from addEntry_rep [of n0 ?ls ?w "blockIndex s" "nt_index e" "bv_coin E" "nt_serialized e"] rep ok(2) le n0
  obtain c where c: "BlockIndexCache_addEntry (bv_coin E) (nt_index e) (blockIndex s) = (Inr True, c)"
    "index_rep n0 ?ls' ?w c" "mFolderPath_Index c = mFolderPath_Index (blockIndex s)" "mBlockNr_Index c = mBlockNr_Index (blockIndex s)"
    by (auto simp: block_rep_def push_ok_def entry_nr_def)
  define ts where "ts = (writeTasks s1)[t := (writeTasks s1 ! t)\<lparr>mTransactions_Write := ?q @ [(entry_nr e, ?p)]\<rparr>]"
  define x where "x = ec_add X (entry_nr e) ?p (mSerializedTransactions (cacheBlock s))"
  define s' where "s' = s1\<lparr>writeTasks := ts, blockIndex := c,
    cacheBlock := (cacheBlock s1)\<lparr>mSerializedTransactions := x\<rparr>\<rparr>"
  have push: "CacheBlock_pushTransaction E X ?p s0 = (Inr True, s')"
    using rep w(1,4,5) sel ins c(1)
    by (simp add: CacheBlock_pushTransaction_def WriteTransactionsToBlockTask_addSerializedTransaction_def Let_def
        update_task_def block_rep_def s'_def ts_def x_def) (simp add: s0_def)
  have xl: "expire_laws X" using rep by (simp add: block_rep_def env_ok_def)
  have "cache_rep X n0 ?ls' ?es (mSerializedTransactions (cacheBlock s))"
    using rep by (intro cache_rep_snoc cache_rep_entries [OF _ same_entries_append]) (simp add: block_rep_def)
  then have cache: "cache_rep X n0 ?ls' ?es x" unfolding x_def
    by (rule cache_rep_add) (use xl nr small in \<open>simp_all add: unat_nr_at\<close>)
  have task: "task_rep n0 ?ls' ?w ?es ts t"
    using queue_ok_snoc [OF q nr] w(2) le by (simp add: task_rep_def ts_def)
  have "queue_rep n0 (a\<lparr>log_lines := ?ls'\<rparr>) s'"
    using task w(2,4,5,6) ok(1) rep sel by (simp add: queue_rep_def s'_def ts_def block_rep_def)
  moreover have "index_path c = index_path (blockIndex s)" using c by (simp add: index_path_def)
  ultimately have "block_rep E X n0 (a\<lparr>log_lines := ?ls'\<rparr>) s'"
    using rep cache c(2) sel lines_ok_snoc [OF _ ok(2) refl] le by (simp add: block_rep_def s'_def)
  with push show ?thesis by (auto simp: s0_def)
qed

subsection \<open>The timer\<close>

lemma timer_rep:
  assumes rep: "block_rep E X n0 a s"
  shows "block_rep E X n0 (snd (log_step n0 (OpTimer locked now timeout) a)) (snd (CacheBlock_callFromTimer locked now timeout s))"
proof (cases "\<not> locked \<and> \<not> log_pending a \<and> log_written a < length (log_lines a) \<and> now > timeout")
  case False
  have "snd (CacheBlock_callFromTimer locked now timeout s) = s"
  proof (cases "mTransactionWriteTask (cacheBlock s)")
    case None
    then show ?thesis by (simp add: CacheBlock_callFromTimer_def)
  next
    case (Some t)
    then have "\<not> log_pending a" "log_written a < length (log_lines a)" "mCreationDate (writeTasks s ! t) = 0"
      using rep by (auto simp: block_rep_def queue_rep_def task_rep_def split: if_splits)
    with False Some show ?thesis by (auto simp: CacheBlock_callFromTimer_def)
  qed
  moreover have "snd (log_step n0 (OpTimer locked now timeout) a) = a" using False by (simp add: log_step_def)
  ultimately show ?thesis using rep by simp
next
  case True
  then obtain t where t: "mTransactionWriteTask (cacheBlock s) = Some t" "mCreationDate (writeTasks s ! t) = 0"
      "task_rep n0 (log_lines a) (log_written a) (entries s) (writeTasks s) t"
      "observer s = \<lparr>mBlockWriteTasks = [], mTransactionsFromPendingTasks = []\<rparr>"
    using rep by (auto simp: block_rep_def queue_rep_def split: option.splits)
  have n31: "n0 + length (log_lines a) < 2 ^ 31" using rep by (simp add: block_rep_def lines_ok_def)
  have "omap_ok (mTransactions_Write (writeTasks s ! t))"
    using queue_ok_omap [OF _ n31] t(3) by (auto simp: task_rep_def)
  note fold = fold_insert_queue [OF this]
  have ex: "\<not> mExitCalled_Cache (cacheBlock s)" using rep by (simp add: block_rep_def)
  have step: "snd (CacheBlock_callFromTimer locked now timeout s) =
      s\<lparr>observer := \<lparr>mBlockWriteTasks = [(t, t)], mTransactionsFromPendingTasks = mTransactions_Write (writeTasks s ! t)\<rparr>,
        cacheBlock := (cacheBlock s)\<lparr>mTransactionWriteTask := None\<rparr>,
        writeTasks := (writeTasks s)[t := (writeTasks s ! t)\<lparr>write_scheduled := True\<rparr>]\<rparr>"
    using True t ex fold by (simp add: CacheBlock_callFromTimer_def TaskObserver_addBlockWriteTask_def update_task_def omap_insert_def)
  have alog: "snd (log_step n0 (OpTimer locked now timeout) a) = a\<lparr>log_pending := True\<rparr>" using True by (simp add: log_step_def)
  show ?thesis unfolding step alog using rep t
    by (simp add: block_rep_def queue_rep_def task_rep_def)
qed

subsection \<open>The worker\<close>

lemma file_rep_append:
  assumes "file_rep E ls ipath f" and "env_ok E X" and "\<forall>l \<in> set new. length l < 2 ^ 16"
    and "length (enc_lines (ls @ new)) + 32 < 2 ^ 31"
  shows "\<exists>f'. BlockFile_appendLines (bv_io E) (bv_ghash E) new f = (Inr (cursors_from (length (enc_lines ls)) new), f') \<and>
    file_rep E (ls @ new) ipath f' \<and> mBlockPath (fst f') = mBlockPath (fst f)"
proof -
  from appendLines_rep [where ghash = "bv_ghash E" and io = "bv_io E" and ls = ls and s = f and new = new] assms
  obtain f' where f': "BlockFile_appendLines (bv_io E) (bv_ghash E) new f = (Inr (cursors_from (length (enc_lines ls)) new), f')"
    "bf_rep (ls @ new) (chain (bv_ghash E) (ls @ new)) f'" "bf_free f'" "mBlockPath (fst f') = mBlockPath (fst f)"
    "\<forall>n. n \<noteq> mBlockPath (fst f) \<longrightarrow> fs_locks (snd f') n = fs_locks (snd f) n"
    by (auto simp: file_rep_def env_ok_def)
  moreover have "fs_locks (snd f') ipath = fs_locks (snd f) ipath" using f'(5) assms(1) by (auto simp: file_rep_def)
  then have "\<not> held ipath (fs_locks (snd f'))" using assms(1) by (simp add: file_rep_def held_def)
  ultimately show ?thesis using assms(1) by (auto simp: file_rep_def)
qed

lemma file_rep_index:
  assumes "file_rep E ls ipath f"
  shows "file_rep E ls ipath (fst f, \<lparr>fs_locks = (fs_locks (snd f))(ipath \<mapsto> False),
    fs_files = (fs_files (snd f))(ipath \<mapsto> content)\<rparr>)"
  using assms by (auto simp: file_rep_def bf_rep_def bf_free_def bf_content_def bf_stream_def held_def)

text \<open>A run up to the index file, where the index may have more entries than the task writes.\<close>

lemma run_lines:
  fixes s :: "'z block_data_scheme"
  assumes env: "env_ok E X" and lok: "lines_ok E n0 ls" and task: "task_rep n0 ls w (entries s) (writeTasks s) t"
    and frep: "file_rep E (take w ls) (index_path (blockIndex s)) (blockFile s)"
    and irep: "index_rep n0 (ls @ ms) w (blockIndex s)"
    and sz: "length (enc_lines (ls @ ms)) < 2 ^ 31" and nrs: "n0 + length (ls @ ms) < 2 ^ 31"
  shows "\<exists>es c f. WriteTransactionsToBlockTask_run E t s =
      (case BlockIndexCache_writeIntoFile (bv_lock E) (bv_ghash E) (bv_junk_index E) c (snd f) of
         (r, fs) \<Rightarrow> (map_sum id (\<lambda>_. ()) r, s\<lparr>entries := es, blockIndex := c, blockFile := (fst f, fs)\<rparr>)) \<and>
      same_entries (entries s) es \<and> index_rep n0 (ls @ ms) (length ls) c \<and>
      file_rep E ls (index_path c) f \<and> mBlockPath (fst f) = mBlockPath (fst (blockFile s)) \<and>
      index_path c = index_path (blockIndex s)"
proof -
  let ?q = "mTransactions_Write (writeTasks s ! t)" let ?ipath = "index_path (blockIndex s)"
  have n0: "0 < n0" and n31: "n0 + length ls < 2 ^ 31" and l32: "length (enc_lines ls) + 32 < 2 ^ 31"
    and l16: "\<forall>l \<in> set ls. length l < 2 ^ 16" and w: "w < length ls" and q: "queue_ok (entries s) n0 ls w ?q"
    using lok task by (auto simp: lines_ok_def task_rep_def)
  have col: "collect_lines (entries s) ?q 0 = Inr (drop w ls)" by (rule collect_lines_queue [OF q n31 n0]) simp
  have new16: "\<forall>l \<in> set (drop w ls). length l < 2 ^ 16" using l16 by (auto dest: in_set_dropD)
  have app: "take w ls @ drop w ls = ls" by simp
  from file_rep_append [OF frep env new16, unfolded app] l32 obtain f where
    f: "BlockFile_appendLines (bv_io E) (bv_ghash E) (drop w ls) (blockFile s) =
        (Inr (cursors_from (cursor_of ls w) (drop w ls)), f)" "file_rep E ls ?ipath f"
      "mBlockPath (fst f) = mBlockPath (fst (blockFile s))"
    by (auto simp: cursor_of_def)
  let ?s1 = "s\<lparr>blockFile := f\<rparr>"
  have "queue_ok (entries ?s1) n0 ls w ?q" "index_rep n0 (ls @ ms) w (blockIndex ?s1)" using q irep by simp_all
  from store_cursors_rep [OF this n0 sz nrs, of True] obtain es c where
    st: "store_cursors True ?q (cursors_from (cursor_of ls w) (drop w ls)) ?s1 = (Inr (), ?s1\<lparr>entries := es, blockIndex := c\<rparr>)"
    "index_rep n0 (ls @ ms) (length ls) c" "same_entries (entries s) es" "index_path c = ?ipath"
    by (auto simp: index_path_def)
  have len: "length (cursors_from (cursor_of ls w) (drop w ls)) = length (drop w ls)" by (simp add: cursors_from_def)
  have "WriteTransactionsToBlockTask_run E t s =
      (case BlockIndexCache_writeIntoFile (bv_lock E) (bv_ghash E) (bv_junk_index E) c (snd f) of
         (r, fs) \<Rightarrow> (map_sum id (\<lambda>_. ()) r, s\<lparr>entries := es, blockIndex := c, blockFile := (fst f, fs)\<rparr>))"
    using col f(1) st(1) len by (simp add: WriteTransactionsToBlockTask_run_def Let_def case_prod_beta)
  then show ?thesis using f(2,3) st(2,3,4) by (intro exI [of _ es] exI [of _ c] exI [of _ f]) simp
qed

lemma run_task:
  fixes s :: "'z block_data_scheme"
  assumes env: "env_ok E X" and lok: "lines_ok E n0 ls" and task: "task_rep n0 ls w (entries s) (writeTasks s) t"
    and frep: "file_rep E (take w ls) (index_path (blockIndex s)) (blockFile s)"
    and irep: "index_rep n0 (ls @ []) w (blockIndex s)"
    and sz: "length (enc_lines (ls @ [])) < 2 ^ 31" and nrs: "n0 + length (ls @ []) < 2 ^ 31"
  shows "\<exists>es c f. WriteTransactionsToBlockTask_run E t s =
      (Inr (), s\<lparr>entries := es, blockIndex := c, blockFile := f\<rparr>) \<and> same_entries (entries s) es \<and>
      index_rep n0 ls (length ls) c \<and> file_rep E ls (index_path c) f \<and>
      mBlockPath (fst f) = mBlockPath (fst (blockFile s)) \<and> index_path c = index_path (blockIndex s)"
proof -
  from run_lines [OF env lok task frep irep sz nrs] obtain es c f where
    r: "WriteTransactionsToBlockTask_run E t s =
      (case BlockIndexCache_writeIntoFile (bv_lock E) (bv_ghash E) (bv_junk_index E) c (snd f) of
         (r, fs) \<Rightarrow> (map_sum id (\<lambda>_. ()) r, s\<lparr>entries := es, blockIndex := c, blockFile := (fst f, fs)\<rparr>))"
      "same_entries (entries s) es" "index_rep n0 ls (length ls) c" "file_rep E ls (index_path c) f"
      "mBlockPath (fst f) = mBlockPath (fst (blockFile s))" "index_path c = index_path (blockIndex s)" by auto
  have ne: "ls \<noteq> []" using task by (auto simp: task_rep_def)
  have "length (enc_lines ls) < 2 ^ 31" "n0 + length ls < 2 ^ 31" "\<not> held (index_path c) (fs_locks (snd f))"
    using sz nrs r(4) by (auto simp: file_rep_def)
  from writeIntoFile_rep [where env = "bv_lock E" and ghash = "bv_ghash E" and junk = "bv_junk_index E", OF r(3) ne this] env
  obtain content where
    wr: "BlockIndexCache_writeIntoFile (bv_lock E) (bv_ghash E) (bv_junk_index E) c (snd f) =
      (Inr True, \<lparr>fs_locks = (fs_locks (snd f))(index_path c \<mapsto> False), fs_files = (fs_files (snd f))(index_path c \<mapsto> content)\<rparr>)"
    by (auto simp: env_ok_def)
  show ?thesis using r(1,2,3,5,6) wr file_rep_index [OF r(4)] by (auto intro!: exI)
qed

lemma run_rep:
  assumes rep: "block_rep E X n0 a s" and task: "task_rep n0 (log_lines a) (log_written a) (entries s) (writeTasks s) t"
  shows "\<exists>es c f. WriteTransactionsToBlockTask_run E t s =
      (Inr (), s\<lparr>entries := es, blockIndex := c, blockFile := f\<rparr>) \<and> same_entries (entries s) es \<and>
      index_rep n0 (log_lines a) (length (log_lines a)) c \<and> file_rep E (log_lines a) (index_path c) f \<and>
      mBlockPath (fst f) = mBlockPath (fst (blockFile s)) \<and> index_path c = index_path (blockIndex s)"
  using rep by (intro run_task [OF _ _ task]) (auto simp: block_rep_def lines_ok_def)

lemma work_rep:
  assumes rep: "block_rep E X n0 a s"
  shows "fst (block_step E X OpWork s) = Done \<and> block_rep E X n0 (snd (log_step n0 OpWork a)) (snd (block_step E X OpWork s))"
proof (cases "log_pending a")
  case False
  with rep show ?thesis by (simp add: block_step_def log_step_def block_rep_def queue_rep_def)
next
  case True
  then obtain t where t: "task_rep n0 (log_lines a) (log_written a) (entries s) (writeTasks s) t"
      "observer s = \<lparr>mBlockWriteTasks = [(t, t)], mTransactionsFromPendingTasks = mTransactions_Write (writeTasks s ! t)\<rparr>"
      "mTransactionWriteTask (cacheBlock s) = None"
    using rep by (auto simp: block_rep_def queue_rep_def)
  from run_rep [OF rep t(1)] obtain es c f where
    r: "WriteTransactionsToBlockTask_run E t s = (Inr (), s\<lparr>entries := es, blockIndex := c, blockFile := f\<rparr>)"
      "same_entries (entries s) es" "index_rep n0 (log_lines a) (length (log_lines a)) c" "file_rep E (log_lines a) (index_path c) f"
    by blast
  let ?ts = "(writeTasks s)[t := (writeTasks s ! t)\<lparr>write_finished := True\<rparr>]"
  have tl: "t < length (writeTasks s)" using t(1) by (simp add: task_rep_def)
  have step: "block_step E X OpWork s = (Done, s\<lparr>entries := es, blockIndex := c, blockFile := f, writeTasks := ?ts,
      observer := \<lparr>mBlockWriteTasks = [], mTransactionsFromPendingTasks = []\<rparr>\<rparr>)"
    using r(1) t(2) tl by (simp add: block_step_def run_scheduled_def TaskObserverFinishCommand_taskFinished_def
        TaskObserver_removeTask_def TaskObserver_removeBlockWriteTask_def update_task_def fold_erase_self)
      (simp add: omap_erase_def)
  have "cache_rep X n0 (log_lines a) es (mSerializedTransactions (cacheBlock s))"
    using rep cache_rep_entries [OF _ r(2)] by (auto simp: block_rep_def)
  then show ?thesis unfolding step using True rep r t(3)
    by (simp add: log_step_def block_rep_def queue_rep_def)
qed

text \<open>The end of a block: what waits is written by the thread that ends it.\<close>

lemma CacheBlock_exit_rep:
  assumes rep: "block_rep E X n0 a s" and idle: "\<not> log_pending a"
  shows "\<exists>s'. CacheBlock_exit E s = (Inr (), s') \<and> file_rep E (log_lines a) (index_path (blockIndex s')) (blockFile s') \<and>
    index_rep n0 (log_lines a) (length (log_lines a)) (blockIndex s') \<and>
    mBlockPath (fst (blockFile s')) = mBlockPath (fst (blockFile s)) \<and> index_path (blockIndex s') = index_path (blockIndex s)"
proof (cases "mTransactionWriteTask (cacheBlock s)")
  case None
  then have "log_written a = length (log_lines a)" using rep idle by (simp add: block_rep_def queue_rep_def)
  then show ?thesis using rep None by (simp add: CacheBlock_exit_def block_rep_def)
next
  case (Some t)
  let ?s = "s\<lparr>cacheBlock := (cacheBlock s)\<lparr>mExitCalled_Cache := True\<rparr>\<rparr>"
  have env: "env_ok E X" and lok: "lines_ok E n0 (log_lines a)"
    and frep: "file_rep E (take (log_written a) (log_lines a)) (index_path (blockIndex ?s)) (blockFile ?s)"
    and irep: "index_rep n0 (log_lines a @ []) (log_written a) (blockIndex ?s)"
    and task: "task_rep n0 (log_lines a) (log_written a) (entries ?s) (writeTasks ?s) t"
    and sz: "length (enc_lines (log_lines a @ [])) < 2 ^ 31" "n0 + length (log_lines a @ []) < 2 ^ 31"
    using rep idle Some by (auto simp: block_rep_def lines_ok_def queue_rep_def)
  from run_task [OF env lok task frep irep sz] obtain es c f where
    "WriteTransactionsToBlockTask_run E t ?s = (Inr (), ?s\<lparr>entries := es, blockIndex := c, blockFile := f\<rparr>)"
    "index_rep n0 (log_lines a) (length (log_lines a)) c" "file_rep E (log_lines a) (index_path c) f"
    "mBlockPath (fst f) = mBlockPath (fst (blockFile ?s))" "index_path c = index_path (blockIndex ?s)" by auto
  then show ?thesis using Some by (simp add: CacheBlock_exit_def)
qed

subsection \<open>Reading a transaction\<close>

lemma wait_cursor_id: "wait_cursor (\<lambda>_ c. c) nr n c = (Inr (map_of (mTransactionNrsFileCursors c) nr), c)"
  by (induction n) (auto simp: Let_def split: option.split)

lemma getFileCursor_id:
  "BlockIndexCache_getFileCursorForTransactionNr (\<lambda>_ c. c) nr c = (Inr (map_of (mTransactionNrsFileCursors c) nr), c)"
  by (auto simp: BlockIndexCache_getFileCursorForTransactionNr_def wait_cursor_id split: option.split)

lemma getTransaction_cursor_id:
  "bv_wait E = (\<lambda>_ c. c) \<Longrightarrow> getTransaction_cursor E nr s =
     (case map_of (mTransactionNrsFileCursors (blockIndex s)) nr of
        None \<Rightarrow> Inl (Gradido TransactionNotFound) | Some cursor \<Rightarrow> Inr cursor, s)"
  by (auto simp: getTransaction_cursor_def getFileCursor_id split: option.split)

text \<open>A transaction that is only in the file.\<close>

lemma file_rep_read:
  assumes "file_rep E ls ipath f" and "env_ok E X" and "i < length ls" and "27 \<le> length (ls ! i)"
  shows "\<exists>f'. BlockFile_readLine (bv_io E) (bv_junk E) (word_of_nat (cursor_of ls i)) f = (Inr (ls ! i), f') \<and>
    file_rep E ls ipath f'"
proof -
  from readLine_rep [where io = "bv_io E" and junk = "bv_junk E" and ls = ls and h = "chain (bv_ghash E) ls" and s = f and i = i] assms
  obtain b fs c where
    r: "BlockFile_readLine (bv_io E) (bv_junk E) (word_of_nat (cursor_of ls i)) f =
        (Inr (ls ! i), bf_view b fs c (cursor_of ls (Suc i)))" "rep_view ls (chain (bv_ghash E) ls) b c"
      "\<not> held (mBlockPath b) (fs_locks fs)" "mBlockPath b = mBlockPath (fst f)"
      "\<forall>n. n \<noteq> mBlockPath b \<longrightarrow> fs_locks fs n = fs_locks (snd f) n"
    by (auto simp: file_rep_def env_ok_def)
  have "fs_locks fs ipath = fs_locks (snd f) ipath" using r(4,5) assms(1) by (auto simp: file_rep_def)
  then have "\<not> held ipath (fs_locks fs)" using assms(1) by (simp add: file_rep_def held_def)
  then show ?thesis using r assms(1) view_rep [OF r(2)] by (auto simp: file_rep_def)
qed

lemma getTransaction_file_rep:
  fixes s :: "'x block_sys"
  assumes rep: "block_rep E X n0 a s" and i: "i < log_written a" and miss: "ec_vals X (mSerializedTransactions (cacheBlock s)) (nr_at n0 i) = {}"
  shows "\<exists>p s'. getTransaction_file E X (nr_at n0 i) (word_of_nat (cursor_of (log_lines a) i)) s = (Inr p, s') \<and>
    nt_serialized (entries s' ! p) = log_lines a ! i \<and> block_rep E X n0 a s'"
proof -
  let ?ls = "log_lines a" let ?w = "log_written a" let ?nr = "nr_at n0 i" let ?x = "mSerializedTransactions (cacheBlock s)"
  let ?ipath = "index_path (blockIndex s)"
  have env: "env_ok E X" and lok: "lines_ok E n0 ?ls" and w: "?w \<le> length ?ls"
    and frep: "file_rep E (take ?w ?ls) ?ipath (blockFile s)" using rep by (auto simp: block_rep_def)
  have il: "i < length ?ls" using i w by simp
  have l27: "27 \<le> length (?ls ! i)" using lok il by (simp add: lines_ok_def)
  have cur: "cursor_of (take ?w ?ls) i = cursor_of ?ls i" using i by (simp add: cursor_of_def)
  from file_rep_read [OF frep env, of i] i il l27 obtain f where
    f: "BlockFile_readLine (bv_io E) (bv_junk E) (word_of_nat (cursor_of ?ls i)) (blockFile s) = (Inr (?ls ! i), f)"
      "file_rep E (take ?w ?ls) ?ipath f" by (auto simp: cur)
  obtain e where e: "bv_entry E (?ls ! i) = Inr e" "ne_transactionNr e = ?nr" using lok il by (auto simp: lines_ok_def)
  define ent where "ent = \<lparr>nt_index = e\<lparr>ne_fileCursor := word_of_nat (cursor_of ?ls i)\<rparr>, nt_serialized = ?ls ! i\<rparr>"
  let ?p = "length (entries s)"
  have ent: "entry_nr ent = ?nr" "nt_serialized ent = ?ls ! i" using e by (simp_all add: ent_def entry_nr_def)
  have unr: "unat ?nr = n0 + i" using lok il by (simp add: lines_ok_def unat_nr_at)
  have law: "expire_laws X" "fst (ec_get X ?nr (ec_add X ?nr ?p ?x)) = Some ?p" using env miss by (simp_all add: env_ok_def)
  obtain x where x: "ec_get X ?nr (ec_add X ?nr ?p ?x) = (Some ?p, x)" using law(2) by (metis prod.collapse)
  define s' where "s' = s\<lparr>blockFile := f, entries := entries s @ [ent],
    cacheBlock := (cacheBlock s)\<lparr>mSerializedTransactions := x\<rparr>\<rparr>"
  have get: "getTransaction_file E X ?nr (word_of_nat (cursor_of ?ls i)) s = (Inr ?p, s')"
    using rep f(1) e(1) ent(1) x
    by (simp add: getTransaction_file_def CacheBlock_addTransaction_def ent_def [symmetric] block_rep_def Let_def s'_def)
  have "cache_rep X n0 ?ls (entries s @ [ent]) ?x"
    using rep by (intro cache_rep_entries [OF _ same_entries_append]) (simp add: block_rep_def)
  then have "cache_rep X n0 ?ls (entries s @ [ent]) (ec_add X ?nr ?p ?x)"
    by (rule cache_rep_add) (use law ent unr il in simp_all)
  then have cr: "cache_rep X n0 ?ls (entries s @ [ent]) x" by (rule cache_rep_get [OF _ law(1) x])
  have "queue_rep n0 a s'"
    using rep queue_ok_entries [OF _ same_entries_append]
    by (auto simp: block_rep_def queue_rep_def s'_def task_rep_def split: option.splits if_splits)
  then have "block_rep E X n0 a s'" using rep cr f(2) by (simp add: block_rep_def s'_def)
  moreover have "nt_serialized (entries s' ! ?p) = ?ls ! i" using ent(2) by (simp add: s'_def)
  ultimately show ?thesis using get by blast
qed

text \<open>What the queues of the tasks know.\<close>

definition in_tasks :: "u64 \<Rightarrow> 'x block_sys \<Rightarrow> nat option" where
  "in_tasks nr s =
     (case (case mTransactionWriteTask (cacheBlock s) of
              None \<Rightarrow> None
            | Some t \<Rightarrow> WriteTransactionsToBlockTask_getTransaction nr (writeTasks s ! t)) of
        Some p \<Rightarrow> Some p
      | None \<Rightarrow> if TaskObserver_isTransactionPending nr (observer s) then TaskObserver_getTransaction nr s else None)"

lemma in_tasks_rep:
  assumes rep: "block_rep E X n0 a s"
  shows "case in_tasks nr s of
      None \<Rightarrow> \<not> (n0 + log_written a \<le> unat nr \<and> unat nr < n0 + length (log_lines a))
    | Some p \<Rightarrow> n0 \<le> unat nr \<and> unat nr < n0 + length (log_lines a) \<and>
        nt_serialized (entries s ! p) = log_lines a ! (unat nr - n0)"
proof -
  have n31: "n0 + length (log_lines a) < 2 ^ 31" using rep by (simp add: block_rep_def lines_ok_def)
  have get: "case map_of (mTransactions_Write (writeTasks s ! t)) nr of
      None \<Rightarrow> \<not> (n0 + log_written a \<le> unat nr \<and> unat nr < n0 + length (log_lines a))
    | Some p \<Rightarrow> n0 \<le> unat nr \<and> unat nr < n0 + length (log_lines a) \<and>
        nt_serialized (entries s ! p) = log_lines a ! (unat nr - n0)"
    if "task_rep n0 (log_lines a) (log_written a) (entries s) (writeTasks s) t" for t
    using queue_ok_get [OF _ n31, of "entries s" "log_written a" "mTransactions_Write (writeTasks s ! t)" nr] that
    by (auto simp: task_rep_def split: option.splits)
  consider (pending) t where "log_pending a" "mTransactionWriteTask (cacheBlock s) = None"
      "task_rep n0 (log_lines a) (log_written a) (entries s) (writeTasks s) t"
      "observer s = \<lparr>mBlockWriteTasks = [(t, t)], mTransactionsFromPendingTasks = mTransactions_Write (writeTasks s ! t)\<rparr>"
    | (idle) "mTransactionWriteTask (cacheBlock s) = None" "log_written a = length (log_lines a)"
      "observer s = \<lparr>mBlockWriteTasks = [], mTransactionsFromPendingTasks = []\<rparr>"
    | (task) t where "mTransactionWriteTask (cacheBlock s) = Some t"
      "task_rep n0 (log_lines a) (log_written a) (entries s) (writeTasks s) t"
      "observer s = \<lparr>mBlockWriteTasks = [], mTransactionsFromPendingTasks = []\<rparr>"
    using rep by (auto simp: block_rep_def queue_rep_def split: if_splits option.splits)
  then show ?thesis
  proof cases
    case pending
    show ?thesis using get [OF pending(3)] pending(2,4)
      by (auto simp: in_tasks_def TaskObserver_isTransactionPending_def TaskObserver_getTransaction_def
          WriteTransactionsToBlockTask_getTransaction_def split: option.splits)
  next
    case idle
    then show ?thesis by (simp add: in_tasks_def TaskObserver_isTransactionPending_def)
  next
    case task
    show ?thesis using get [OF task(2)] task(1,3)
      by (auto simp: in_tasks_def TaskObserver_isTransactionPending_def
          WriteTransactionsToBlockTask_getTransaction_def split: option.splits)
  qed
qed

lemma getTransaction_cases:
  assumes "nr \<noteq> 0" and "ec_get X nr (mSerializedTransactions (cacheBlock s0)) = (r, x)"
    and "s = s0\<lparr>cacheBlock := (cacheBlock s0)\<lparr>mSerializedTransactions := x\<rparr>\<rparr>"
  shows "CacheBlock_getTransaction E X nr s0 =
    (case r of Some p \<Rightarrow> (Inr p, s)
     | None \<Rightarrow>
         (case in_tasks nr s of Some p \<Rightarrow> (Inr p, s)
          | None \<Rightarrow> (case getTransaction_cursor E nr s of
                      (Inl e, s1) \<Rightarrow> (Inl e, s1)
                    | (Inr cursor, s1) \<Rightarrow> getTransaction_file E X nr cursor s1)))"
  using assms by (auto simp: CacheBlock_getTransaction_def in_tasks_def Let_def split: option.splits)

lemma queue_rep_cache:
  "queue_rep n0 a (s\<lparr>cacheBlock := (cacheBlock s)\<lparr>mSerializedTransactions := x\<rparr>\<rparr>) = queue_rep n0 a s"
  by (auto simp: queue_rep_def split: option.split)

lemma get_rep:
  assumes rep0: "block_rep E X n0 a s0" and nr: "nr \<noteq> 0"
  shows "fst (block_step E X (OpGet nr) s0) = fst (log_step n0 (OpGet nr) a) \<and>
    block_rep E X n0 a (snd (block_step E X (OpGet nr) s0))"
proof -
  let ?ls = "log_lines a"
  obtain r x where get: "ec_get X nr (mSerializedTransactions (cacheBlock s0)) = (r, x)" by fastforce
  define s where "s = s0\<lparr>cacheBlock := (cacheBlock s0)\<lparr>mSerializedTransactions := x\<rparr>\<rparr>"
  have env: "expire_laws X" "bv_wait E = (\<lambda>_ c. c)" using rep0 by (simp_all add: block_rep_def env_ok_def)
  have c0: "cache_rep X n0 ?ls (entries s0) (mSerializedTransactions (cacheBlock s0))" using rep0 by (simp add: block_rep_def)
  have rep: "block_rep E X n0 a s"
    using rep0 cache_rep_get [OF c0 env(1) get] by (simp add: block_rep_def s_def queue_rep_cache)
  note cases = getTransaction_cases [OF nr get s_def, of E]
  show ?thesis
  proof (cases r)
    case (Some p)
    then have "p \<in> ec_vals X (mSerializedTransactions (cacheBlock s0)) nr"
      using expire_lawsD(4) [OF env(1)] get by metis
    then have "n0 \<le> unat nr" "unat nr < n0 + length ?ls" "nt_serialized (entries s0 ! p) = ?ls ! (unat nr - n0)"
      using c0 by (auto simp: cache_rep_def)
    then show ?thesis using cases Some rep by (simp add: block_step_def log_step_def s_def)
  next
    case None
    show ?thesis
    proof (cases "in_tasks nr s")
      case (Some p)
      then show ?thesis using in_tasks_rep [OF rep, of nr] cases None rep by (simp add: block_step_def log_step_def)
    next
      case none: None
      then have out: "\<not> (n0 + log_written a \<le> unat nr \<and> unat nr < n0 + length ?ls)"
        using in_tasks_rep [OF rep, of nr] by simp
      have cs: "map_of (mTransactionNrsFileCursors (blockIndex s)) nr =
         (if n0 \<le> unat nr \<and> unat nr < n0 + log_written a then Some (word_of_nat (cursor_of ?ls (unat nr - n0))) else None)"
        using rep by (simp add: block_rep_def index_rep_def)
      show ?thesis
      proof (cases "n0 \<le> unat nr \<and> unat nr < n0 + log_written a")
        case False
        have "\<not> (n0 \<le> unat nr \<and> unat nr < n0 + length ?ls)" using False out by auto
        then have lg: "log_step n0 (OpGet nr) a = (Failed (Gradido TransactionNotFound), a)" by (simp add: log_step_def)
        have "getTransaction_cursor E nr s = (Inl (Gradido TransactionNotFound), s)"
          using cs unfolding if_not_P [OF False] by (simp add: getTransaction_cursor_id [OF env(2)])
        then show ?thesis unfolding lg using cases None none rep by (simp add: block_step_def)
      next
        case True
        let ?i = "unat nr - n0"
        have i: "?i < log_written a" and at: "nr_at n0 ?i = nr" using True by (auto simp: nr_at_def)
        have "unat nr < n0 + length ?ls" using True rep by (simp add: block_rep_def)
        have "ec_vals X (mSerializedTransactions (cacheBlock s)) (nr_at n0 ?i) = {}"
          using expire_lawsD(5) [OF env(1)] get None at by (simp add: s_def)
        from getTransaction_file_rep [OF rep i this] obtain p s' where
          g: "getTransaction_file E X nr (word_of_nat (cursor_of ?ls ?i)) s = (Inr p, s')"
          "nt_serialized (entries s' ! p) = ?ls ! ?i" "block_rep E X n0 a s'" unfolding at by blast
        have "CacheBlock_getTransaction E X nr s0 = (Inr p, s')"
          using cases None none getTransaction_cursor_id [OF env(2), of nr s] cs True g(1) by simp
        then show ?thesis using g(2,3) True \<open>unat nr < n0 + length ?ls\<close> by (simp add: block_step_def log_step_def)
      qed
    qed
  qed
qed

section \<open>The refinement\<close>

lemma block_step_rep:
  assumes "block_rep E X n0 a s" and "log_ok E n0 op a"
  shows "fst (block_step E X op s) = fst (log_step n0 op a) \<and> block_rep E X n0 (snd (log_step n0 op a)) (snd (block_step E X op s))"
proof (cases op)
  case (OpPush e)
  then show ?thesis using push_rep [OF assms(1), of e] assms(2) by (auto simp: log_ok_def block_step_def log_step_def)
next
  case (OpTimer locked now timeout)
  then show ?thesis using timer_rep [OF assms(1), of locked now timeout] by (simp add: block_step_def) (simp add: log_step_def)
next
  case OpWork
  then show ?thesis using work_rep [OF assms(1)] by (simp add: log_step_def)
next
  case (OpGet nr)
  then show ?thesis using get_rep [OF assms(1), of nr] assms(2) by (simp add: log_ok_def) (simp add: log_step_def)
qed

interpretation block_log: simulation "block_step E X" "log_step n0" "log_ok E n0" "block_rep E X n0"
  by unfold_locales (rule block_step_rep)

text \<open>A new block without a file.\<close>

lemma block_paths_differ: "BlockFile_fileName folder n \<noteq> BlockIndexFile_fileName folder n"
  by (auto simp: BlockFile_fileName_def BlockIndexFile_fileName_def dest: arg_cong [where f = last])

definition empty_log :: block_log where
  "empty_log = \<lparr>log_lines = [], log_written = 0, log_pending = False\<rparr>"

lemma CacheBlock_new_rep:
  assumes env: "env_ok E X" and n0: "0 < n0" "n0 < 2 ^ 31"
    and new: "CacheBlock_new E X folder blockNr fs = (r, s)"
    and fs: "fs_files fs (BlockFile_fileName folder blockNr) = None" "\<not> held (BlockFile_fileName folder blockNr) (fs_locks fs)"
      "\<not> held (BlockIndexFile_fileName folder blockNr) (fs_locks fs)"
  shows "r = Inr ()" and "block_rep E X n0 empty_log s"
proof -
  let ?path = "BlockFile_fileName folder blockNr"
  define b where "b = \<lparr>mBlockPath = ?path, mBlockNr_File = blockNr, mLastWrittenTransactionNr = 0, mLastUsed = 0,
    mBlockFile = None, mCurrentFileSize = 0\<rparr>"
  define f where "f = (b\<lparr>mBlockFile := Some \<lparr>st_pos = 0, st_failed = False\<rparr>, mLastUsed := io_now (bv_io E)\<rparr>,
    fs\<lparr>fs_files := (fs_files fs)(?path \<mapsto> [])\<rparr>)"
  have bf: "BlockFile_new (bv_io E) folder blockNr fs = (Inr (), f)"
    using env fs(1) by (simp add: BlockFile_new_def BlockFile_getOpenFile_def env_ok_def bf_content_def f_def b_def Let_def)
  then show "r = Inr ()" using new by (simp add: CacheBlock_new_def)
  have s: "blockFile s = f" "blockIndex s = BlockIndexCache_new folder blockNr" "entries s = []"
    "observer s = \<lparr>mBlockWriteTasks = [], mTransactionsFromPendingTasks = []\<rparr>"
    "cacheBlock s = \<lparr>mBlockNr_Cache = blockNr, mSerializedTransactions = ec_new X, mTransactionWriteTask = None, mExitCalled_Cache = False\<rparr>"
    using new bf by (auto simp: CacheBlock_new_def)
  have "index_path (blockIndex s) = BlockIndexFile_fileName folder blockNr"
    by (simp add: s index_path_def BlockIndexCache_new_def)
  then have "file_rep E [] (index_path (blockIndex s)) f"
    using fs block_paths_differ by (simp add: file_rep_def bf_rep_def rep_view_def bf_free_def f_def b_def bf_content_def bf_stream_def)
  moreover have "cache_rep X n0 [] [] (ec_new X)"
    using env expire_lawsD(1) [of X] by (auto simp: cache_rep_def env_ok_def)
  ultimately show "block_rep E X n0 empty_log s"
    using env n0 s index_rep_new by (simp add: block_rep_def empty_log_def lines_ok_def queue_rep_def)
qed

section \<open>A transaction that comes while a task waits\<close>

lemma month_blocks_result:
  "month_blocks cs es bf = Inl x \<Longrightarrow> x = Gradido InvalidData"
  "month_blocks cs es bf = Inr bf' \<Longrightarrow> \<forall>e \<in> set es. map_of cs (be_transactionNr e) \<noteq> None"
  by (induction cs es bf arbitrary: bf' rule: month_blocks.induct) (auto split: option.splits)

lemma year_blocks_result:
  "year_blocks cs ms bf = Inl x \<Longrightarrow> x = Gradido InvalidData"
  "year_blocks cs ms bf = Inr bf' \<Longrightarrow> \<forall>(mo, es) \<in> set ms. \<forall>e \<in> set es. map_of cs (be_transactionNr e) \<noteq> None"
  by (induction cs ms bf arbitrary: bf' rule: year_blocks.induct)
    (auto split: sum.splits dest: month_blocks_result)

lemma all_blocks_result:
  "all_blocks cs M bf = Inl x \<Longrightarrow> x = Gradido InvalidData"
  "all_blocks cs M bf = Inr bf' \<Longrightarrow>
     \<forall>(y, ms) \<in> set M. \<forall>(mo, es) \<in> set ms. \<forall>e \<in> set es. map_of cs (be_transactionNr e) \<noteq> None"
  by (induction cs M bf arbitrary: bf' rule: all_blocks.induct)
    (fastforce split: sum.splits dest: year_blocks_result)+

lemma month_of_in:
  assumes "e \<in> set (month_of y mo M)"
  shows "\<exists>ms es. (y, ms) \<in> set M \<and> (mo, es) \<in> set ms \<and> e \<in> set es"
proof -
  from assms obtain ms es where "map_of M y = Some ms" "map_of ms mo = Some es" "e \<in> set es"
    by (cases "map_of M y"; cases "map_of (the (map_of M y)) mo") (auto simp: month_of_def months_of_def)
  then show ?thesis by (blast dest: map_of_SomeD)
qed

lemma writeIntoFile_misses:
  assumes "index_rep n0 ls w c" and "w < length ls" and "n0 + length ls < 2 ^ 31" and "0 < w"
  shows "fst (BlockIndexCache_writeIntoFile env ghash junk c fs) = Inl (Gradido InvalidData)"
proof -
  let ?M = "mYearMonthAddressIndexEntries c" let ?cs = "mTransactionNrsFileCursors c"
  obtain y mo e where e: "e \<in> set (month_of y mo ?M)" "be_transactionNr e = nr_at n0 w"
    using assms(1,2) by (auto simp: index_rep_def)
  have "unat (nr_at n0 w) = n0 + w" "unat (nr_at n0 0) = n0" using assms(2,3) by (simp_all add: unat_nr_at)
  then have none: "map_of ?cs (be_transactionNr e) = None" and "map_of ?cs (nr_at n0 0) \<noteq> None"
    using assms(1,4) e by (simp_all add: index_rep_def)
  then have cne: "?cs \<noteq> []" by auto
  have mne: "?M \<noteq> []" using assms(1,2) by (intro index_rep_entries) auto
  obtain bf fs1 where nw: "BlockIndexFile_new (mFolderPath_Index c) (mBlockNr_Index c) fs = (bf, fs1)"
    by (cases "BlockIndexFile_new (mFolderPath_Index c) (mBlockNr_Index c) fs")
  have "\<not> (\<exists>bf'. all_blocks ?cs ?M bf = Inr bf')"
    using month_of_in [OF e(1)] none by (fastforce dest: all_blocks_result(2))
  then have "all_blocks ?cs ?M bf = Inl (Gradido InvalidData)"
    using all_blocks_result(1) by (cases "all_blocks ?cs ?M bf") auto
  then show ?thesis using nw cne mne by (simp add: BlockIndexCache_writeIntoFile_def BlockIndexCache_serialize_def)
qed

text \<open>The push itself succeeds: there is a new write task, the waiting one is as before.\<close>

lemma push_pending:
  assumes rep: "block_rep E X n0 a s" and pending: "log_pending a" and ok: "push_ok E n0 e a"
  shows "\<exists>s' t. CacheBlock_pushTransaction E X (length (entries s)) (s\<lparr>entries := entries s @ [e]\<rparr>) = (Inr True, s') \<and>
    task_rep n0 (log_lines a) (log_written a) (entries s') (writeTasks s') t \<and> mBlockWriteTasks (observer s') = [(t, t)] \<and>
    blockFile s' = blockFile s \<and> index_path (blockIndex s') = index_path (blockIndex s) \<and>
    index_rep n0 (log_lines a @ [nt_serialized e]) (log_written a) (blockIndex s')"
proof -
  let ?ls = "log_lines a" let ?w = "log_written a" let ?p = "length (entries s)"
  obtain t where t: "task_rep n0 ?ls ?w (entries s) (writeTasks s) t" "mTransactionWriteTask (cacheBlock s) = None"
      "mBlockWriteTasks (observer s) = [(t, t)]"
    using rep pending by (auto simp: block_rep_def queue_rep_def)
  from addEntry_rep [of n0 ?ls ?w "blockIndex s" "nt_index e" "bv_coin E" "nt_serialized e"] rep ok
  obtain c where c: "BlockIndexCache_addEntry (bv_coin E) (nt_index e) (blockIndex s) = (Inr True, c)"
    "index_rep n0 (?ls @ [nt_serialized e]) ?w c" "mFolderPath_Index c = mFolderPath_Index (blockIndex s)"
    "mBlockNr_Index c = mBlockNr_Index (blockIndex s)"
    by (auto simp: block_rep_def push_ok_def entry_nr_def lines_ok_def)
  define s0 where "s0 = s\<lparr>entries := entries s @ [e]\<rparr>"
  define s' where "s' = s\<lparr>entries := entries s @ [e],
    writeTasks := writeTasks s @ [WriteTransactionsToBlockTask_new\<lparr>mTransactions_Write := [(entry_nr e, ?p)]\<rparr>],
    blockIndex := c, cacheBlock := (cacheBlock s)\<lparr>mTransactionWriteTask := Some (length (writeTasks s)),
      mSerializedTransactions := ec_add X (entry_nr e) ?p (mSerializedTransactions (cacheBlock s))\<rparr>\<rparr>"
  have "CacheBlock_pushTransaction E X ?p s0 = (Inr True, s')"
    using rep t(2) c(1)
    by (simp add: CacheBlock_pushTransaction_def with_write_task_def s0_def Let_def update_task_def block_rep_def s'_def
        WriteTransactionsToBlockTask_addSerializedTransaction_def WriteTransactionsToBlockTask_new_def omap_insert_def)
  moreover have "task_rep n0 ?ls ?w (entries s') (writeTasks s') t"
    using t(1) queue_ok_entries [OF _ same_entries_append] by (auto simp: task_rep_def s'_def nth_append)
  ultimately show ?thesis using t(3) c
    by (intro exI [of _ s'] exI [of _ t]) (simp add: s'_def s0_def index_path_def)
qed

lemma run_steps_append:
  "run_steps step (es @ fs) s =
     (case run_steps step es s of (rs, s') \<Rightarrow> case run_steps step fs s' of (rs', s'') \<Rightarrow> (rs @ rs', s''))"
  by (induction es arbitrary: s) (simp_all add: case_prod_beta)

lemma work_after_push:
  assumes rep: "block_rep E X n0 a s" and pending: "log_pending a" and ok: "push_ok E n0 e a"
  shows "fst (run_steps (block_step E X) [OpPush e, OpWork] s) = [Done, Failed (Gradido InvalidData)]"
proof -
  let ?ls = "log_lines a" let ?w = "log_written a"
  from push_pending [OF rep pending ok] obtain s' t where
    p: "CacheBlock_pushTransaction E X (length (entries s)) (s\<lparr>entries := entries s @ [e]\<rparr>) = (Inr True, s')"
    and t: "task_rep n0 ?ls ?w (entries s') (writeTasks s') t" "mBlockWriteTasks (observer s') = [(t, t)]"
    and same: "blockFile s' = blockFile s" "index_path (blockIndex s') = index_path (blockIndex s)"
    and i: "index_rep n0 (?ls @ [nt_serialized e]) ?w (blockIndex s')" by blast
  have env: "env_ok E X" "lines_ok E n0 ?ls" and f: "file_rep E (take ?w ?ls) (index_path (blockIndex s')) (blockFile s')"
    using rep same by (simp_all add: block_rep_def)
  have sz: "length (enc_lines (?ls @ [nt_serialized e])) < 2 ^ 31" "n0 + length (?ls @ [nt_serialized e]) < 2 ^ 31"
    using ok by (auto simp: push_ok_def)
  from run_lines [OF env t(1) f i sz] obtain es c g where
    r: "WriteTransactionsToBlockTask_run E t s' =
      (case BlockIndexCache_writeIntoFile (bv_lock E) (bv_ghash E) (bv_junk_index E) c (snd g) of
         (r, fs) \<Rightarrow> (map_sum id (\<lambda>_. ()) r, s'\<lparr>entries := es, blockIndex := c, blockFile := (fst g, fs)\<rparr>))"
      "index_rep n0 (?ls @ [nt_serialized e]) (length ?ls) c" by blast
  have "0 < length ?ls" using t(1) by (auto simp: task_rep_def)
  then have "fst (BlockIndexCache_writeIntoFile (bv_lock E) (bv_ghash E) (bv_junk_index E) c (snd g)) = Inl (Gradido InvalidData)"
    using sz(2) by (intro writeIntoFile_misses [OF r(2)]) simp_all
  then have "fst (WriteTransactionsToBlockTask_run E t s') = Inl (Gradido InvalidData)"
    using r(1) by (simp add: case_prod_beta)
  then show ?thesis using p t(2) by (simp add: block_step_def run_scheduled_def case_prod_beta)
qed

section \<open>Properties\<close>

text \<open>C2: A block is the list of its transactions: whatever transactions are added one after the other, whenever
  the timer hands them to the worker and whenever the worker writes them (as long as none is added in
  between), every request for a number is answered like from the plain list, with the bytes that were added
  for it or with the exception that there is no such transaction, whether the answer comes from the cache,
  from a write task, from the observer of the tasks or from the block file, and nothing fails.\<close>

theorem CacheBlock_refines_log:
  assumes "env_ok E X" and "0 < n0" and "n0 < 2 ^ 31"
    and "CacheBlock_new E X folder blockNr fs = (r, s)"
    and "fs_files fs (BlockFile_fileName folder blockNr) = None"
    and "\<not> held (BlockFile_fileName folder blockNr) (fs_locks fs)"
    and "\<not> held (BlockIndexFile_fileName folder blockNr) (fs_locks fs)"
    and "run_allowed (log_ok E n0) (log_step n0) ops empty_log"
  shows "fst (run_steps (block_step E X) ops s) = fst (run_steps (log_step n0) ops empty_log)"
  using block_log.run_sim [OF CacheBlock_new_rep(2) [OF assms(1-7)] assms(8)] by simp

text \<open>An example: a cache of one entry, and lines whose first byte is their number.\<close>

definition one_cache :: "(('k \<times> 'v) option, 'k, 'v) expire_cache" where
  "one_cache = \<lparr>ec_new = None,
     ec_get = (\<lambda>k x. (case x of None \<Rightarrow> None | Some (k', v) \<Rightarrow> if k' = k then Some v else None, x)),
     ec_add = (\<lambda>k v x. Some (k, v)), ec_clear = (\<lambda>_. None),
     ec_vals = (\<lambda>x k. case x of None \<Rightarrow> {} | Some (k', v) \<Rightarrow> if k' = k then {v} else {})\<rparr>"

lemma expire_laws_one [simp]: "expire_laws one_cache"
  by (auto simp: expire_laws_def one_cache_def split: option.splits if_splits)

definition example_index :: "u64 \<Rightarrow> u32 \<Rightarrow> node_entry" where
  "example_index nr cursor = \<lparr>ne_transactionNr = nr, ne_fileCursor = cursor, ne_coinCommunityId = [],
     ne_transactionType = 1, ne_year = 2024, ne_month = 5, ne_addressIndices = [4]\<rparr>"

definition example_entry :: "nat \<Rightarrow> NodeTransactionEntry" where
  "example_entry n = \<lparr>nt_index = example_index (word_of_nat n) (- 10), nt_serialized = word_of_nat n # replicate 30 7\<rparr>"

definition example_env :: block_env where
  "example_env = \<lparr>bv_io = \<lparr>io_env = (\<lambda>_ l. l), io_open = True, io_now = 0\<rparr>, bv_ghash = (\<lambda>_. replicate 32 0),
     bv_junk = [], bv_junk_index = (\<lambda>_. 0), bv_lock = (\<lambda>_ l. l), bv_wait = (\<lambda>_ c. c), bv_coin = (\<lambda>_. Inr 1),
     bv_entry = (\<lambda>bs. Inr (example_index (ucast (hd bs)) 0))\<rparr>"

definition no_files :: node_fs where
  "no_files = \<lparr>fs_locks = Map.empty, fs_files = Map.empty\<rparr>"

lemma example_env_ok [simp]: "env_ok example_env one_cache"
  by (simp add: env_ok_def example_env_def) (simp add: one_cache_def)

lemmas example_defs = push_ok_def example_env_def example_entry_def example_index_def entry_nr_def nr_at_def

definition example_ops :: "block_op list" where
  "example_ops = [OpPush (example_entry 1), OpPush (example_entry 2), OpGet 1, OpTimer False 10 5, OpGet 1, OpWork,
     OpGet 2, OpPush (example_entry 3), OpGet 1, OpGet 4, OpTimer False 20 5]"

lemma example_allowed: "run_allowed (log_ok example_env 1) (log_step 1) example_ops empty_log"
  by (simp add: example_ops_def log_ok_def log_step_def empty_log_def example_defs)

lemma example_new: "CacheBlock_new example_env one_cache ''g'' 0 no_files =
    (fst (CacheBlock_new example_env one_cache ''g'' 0 no_files), snd (CacheBlock_new example_env one_cache ''g'' 0 no_files))"
  by simp

lemma no_files_simps [simp]: "fs_files no_files f = None" "\<not> held f (fs_locks no_files)"
  by (simp_all add: no_files_def held_def)

lemma CacheBlock_refines_log_witness:
  "fst (run_steps (block_step example_env one_cache) example_ops (snd (CacheBlock_new example_env one_cache ''g'' 0 no_files))) =
     [Done, Done, Line (1 # replicate 30 7), Done, Line (1 # replicate 30 7), Done, Line (2 # replicate 30 7), Done,
      Line (1 # replicate 30 7), Failed (Gradido TransactionNotFound), Done]"
proof -
  have "fst (run_steps (log_step 1) example_ops empty_log) =
     [Done, Done, Line (1 # replicate 30 7), Done, Line (1 # replicate 30 7), Done, Line (2 # replicate 30 7), Done,
      Line (1 # replicate 30 7), Failed (Gradido TransactionNotFound), Done]"
    by (simp add: example_ops_def log_step_def empty_log_def example_entry_def)
  then show ?thesis
    using CacheBlock_refines_log [OF example_env_ok _ _ example_new _ _ _ example_allowed] by simp
qed

text \<open>C36: The condition on the order is needed: when a transaction is added while a write task waits for its
  worker, it is in the index without a position, and the run of the task, after it has appended its lines to
  the block file, stops at it with an exception when it writes the index file. The exception of a task ends
  the node.\<close>

theorem CacheBlock_push_while_writing:
  assumes "env_ok E X" and "0 < n0" and "n0 < 2 ^ 31"
    and "CacheBlock_new E X folder blockNr fs = (r, s)"
    and "fs_files fs (BlockFile_fileName folder blockNr) = None"
    and "\<not> held (BlockFile_fileName folder blockNr) (fs_locks fs)"
    and "\<not> held (BlockIndexFile_fileName folder blockNr) (fs_locks fs)"
    and "run_allowed (log_ok E n0) (log_step n0) ops empty_log"
    and "log_pending (snd (run_steps (log_step n0) ops empty_log))"
    and "push_ok E n0 e (snd (run_steps (log_step n0) ops empty_log))"
  shows "fst (run_steps (block_step E X) (ops @ [OpPush e, OpWork]) s) =
    fst (run_steps (log_step n0) ops empty_log) @ [Done, Failed (Gradido InvalidData)]"
proof -
  note run = block_log.run_sim [OF CacheBlock_new_rep(2) [OF assms(1-7)] assms(8)]
  show ?thesis using work_after_push [OF conjunct2 [OF run] assms(9,10)] run
    by (simp add: run_steps_append case_prod_beta del: run_steps.simps)
qed

lemma CacheBlock_push_while_writing_witness:
  "fst (run_steps (block_step example_env one_cache) (example_ops @ [OpPush (example_entry 4), OpWork])
     (snd (CacheBlock_new example_env one_cache ''g'' 0 no_files))) =
   fst (run_steps (log_step 1) example_ops empty_log) @ [Done, Failed (Gradido InvalidData)]"
proof -
  have "log_pending (snd (run_steps (log_step 1) example_ops empty_log))"
    and "push_ok example_env 1 (example_entry 4) (snd (run_steps (log_step 1) example_ops empty_log))"
    by (simp_all add: example_ops_def log_step_def empty_log_def example_defs)
  then show ?thesis
    by (intro CacheBlock_push_while_writing [OF example_env_ok _ _ example_new _ _ _ example_allowed]) simp_all
qed

lemma CacheBlock_exit_idle:
  "mTransactionWriteTask (cacheBlock s) = None \<Longrightarrow>
   CacheBlock_exit E s = (Inr (), s\<lparr>cacheBlock := (cacheBlock s)\<lparr>mExitCalled_Cache := True\<rparr>\<rparr>)"
  by (simp add: CacheBlock_exit_def)

text \<open>The destructor of a block looks for its timer under another name than the constructor gave it: whatever
  the timer does in between, an entry of the block that is there when the block without a write task is
  destroyed is still there afterwards, and at its time the thread of the timer calls the block that no
  longer exists.\<close>

theorem CacheBlock_timer_survives:
  assumes "CacheBlock_addTimer now self timeoutCheck s0 ft0 = (True, ft1)"
    and "mTransactionWriteTask (cacheBlock s) = None" and "blockFile s = blockFile s0"
  shows "\<exists>e. callback e = Some self \<and> (now + timeoutCheck, e) \<in> set (mRegisteredAtTimer ft1) \<and>
    (\<forall>ft. (k, e) \<in> set (mRegisteredAtTimer ft) \<longrightarrow>
       (\<exists>r ft' s'. CacheBlock_destroy E X False ft s = (r, ft', s') \<and> r = Inr () \<and> (k, e) \<in> set (mRegisteredAtTimer ft')))"
proof -
  let ?name = "''cache::'' @ mBlockPath (fst (blockFile s0))"
  let ?e = "TimerEntry_new (Some self) timeoutCheck (- 1) ?name"
  have ft1: "mRegisteredAtTimer ft1 = mm_insert (now + timeoutCheck) ?e (mRegisteredAtTimer ft0)"
    using assms(1) by (auto simp: CacheBlock_addTimer_def FuzzyTimer_addTimer_def split: if_splits)
  have name: "timer_name ?e \<noteq> ''controller::'' @ mBlockPath (fst (blockFile s0))"
    by (simp add: TimerEntry_new_def)
  show ?thesis
  proof (intro exI [of _ ?e] conjI allI impI)
    show "callback ?e = Some self" by (simp add: TimerEntry_new_def)
    show "(now + timeoutCheck, ?e) \<in> set (mRegisteredAtTimer ft1)" by (simp add: ft1 set_mm_insert)
  next
    fix ft :: FuzzyTimer
    assume "(k, ?e) \<in> set (mRegisteredAtTimer ft)"
    then show "\<exists>r ft' s'. CacheBlock_destroy E X False ft s = (r, ft', s') \<and> r = Inr () \<and> (k, ?e) \<in> set (mRegisteredAtTimer ft')"
      using name assms(2,3)
      by (simp add: CacheBlock_destroy_def CacheBlock_exit_idle FuzzyTimer_removeTimer_def)
  qed
qed

lemma CacheBlock_timer_survives_witness:
  "\<exists>e. callback e = Some 7 \<and> (13, e) \<in> set (mRegisteredAtTimer (snd
       (CacheBlock_addTimer 3 7 10 (snd (CacheBlock_new example_env one_cache ''g'' 0 no_files)) FuzzyTimer_new))) \<and>
    (\<forall>ft. (13, e) \<in> set (mRegisteredAtTimer ft) \<longrightarrow>
       (\<exists>r ft' s'. CacheBlock_destroy example_env one_cache False ft
            (snd (CacheBlock_new example_env one_cache ''g'' 0 no_files)) = (r, ft', s') \<and> r = Inr () \<and>
          (13, e) \<in> set (mRegisteredAtTimer ft')))"
proof -
  let ?s = "snd (CacheBlock_new example_env one_cache ''g'' 0 no_files)"
  have "CacheBlock_addTimer 3 7 10 ?s FuzzyTimer_new = (True, snd (CacheBlock_addTimer 3 7 10 ?s FuzzyTimer_new))"
    by (simp add: CacheBlock_addTimer_def FuzzyTimer_addTimer_def FuzzyTimer_new_def)
  moreover have "mTransactionWriteTask (cacheBlock ?s) = None" by (simp add: CacheBlock_new_def case_prod_beta)
  ultimately show ?thesis
    using CacheBlock_timer_survives [of 3 7 10 ?s FuzzyTimer_new _ ?s 13 example_env one_cache] by simp
qed

end
