(* ===== verification/Chain.thy ===== *)
theory Chain
  imports BlockLog Trigger
begin

text \<open>
  \<open>blockchain::FileBased\<close> (\<open>src/blockchain/FileBased.cpp\<close>): the blockchain of a community, its blocks with
  their files, the dictionary of public keys, the state values and the caches. A block is shared by the
  cache of blocks and its users: blocks live in a store. The recursive mutex makes the operations
  sequential.
\<close>

section \<open>State\<close>

record 'x chain_block =
  cb_file :: BlockFile
  cb_index :: BlockIndexCache
  cb_cache :: "'x CacheBlock"

record ('db, 'x, 'b, 'm, 'h, 't, 'e) FileBased =
  mExitCalled_FB :: bool
  mCommunityId_FB :: string
  mHieroTopicId_FB :: string
  mFolderPath_FB :: string
  fb_fs :: node_fs
  fb_blocks :: "'x chain_block list"
  fb_entries :: "NodeTransactionEntry list"
  fb_tasks :: "WriteTransactionsToBlockTask list"
  mTaskObserver :: TaskObserver
  mPublicKeysIndex :: "('db, bytes) Dictionary"
  mBlockchainState :: "'db State"
  mMessageIdsCache :: "('db, 'm) IdCache"
  mTransactionTriggerEventsCache :: "('db, 't, 'e) TriggerCache"
  mCachedBlocks :: 'b
  mTransactionHashCache :: "'h TransactionHash"
  mCommunityServer :: "nat option"
  mHieroMessageListener :: "'t option"
  notified :: "(nat \<times> u64) list"

datatype transaction_kind = DEFERRED_TRANSFER | REDEEM_DEFERRED_TRANSFER u64 | OTHER_TYPE

text \<open>
  What a confirmed transaction tells: its number and signatures, the message it came in, the addresses in
  it, its serialisation, what the index stores of it, its kind. \<open>ct_timeoutAt a b\<close> is the time of
  confirmation of \<open>a\<close> plus the timeout of \<open>b\<close>.
\<close>

record ('ct, 't) ct_ops =
  ct_confirmed :: "'ct \<Rightarrow> confirmed"
  ct_messageId :: "'ct \<Rightarrow> bytes"
  ct_addresses :: "'ct \<Rightarrow> string list"
  ct_serialized :: "'ct \<Rightarrow> bytes"
  ct_index :: "'ct \<Rightarrow> node_entry"
  ct_kind :: "'ct \<Rightarrow> transaction_kind"
  ct_timeoutAt :: "'ct \<Rightarrow> 'ct \<Rightarrow> 't"
  ct_of_bytes :: "bytes \<Rightarrow> 'ct result"

text \<open>The pagination of a filter; its size and how a size is set belong to the library.\<close>

record 'pg page_ops =
  pg_size :: "'pg \<Rightarrow> int"
  pg_setSize :: "int \<Rightarrow> 'pg \<Rightarrow> 'pg"
  pg_skipEntriesCount :: "'pg \<Rightarrow> u32"
  pg_hasCapacityLeft :: "'pg \<Rightarrow> nat \<Rightarrow> bool"

text \<open>
  What the blockchain uses: the caches (\<open>ce_held\<close> lists the blocks a cache of blocks holds), the files, the
  library for filters, confirmations and events.
\<close>

record ('db, 'x, 'b, 'm, 'h, 't, 'e, 'p, 'tx, 'ct, 'pg, 'iv) chain_env =
  ce_L :: "'db leveldb"
  ce_octet :: "string \<Rightarrow> bytes"
  ce_block :: block_env
  ce_X :: "'x block_cache"
  ce_B :: "('b, u32, nat) expire_cache"
  ce_M :: "('m, string, u64) expire_cache"
  ce_base64 :: "bytes \<Rightarrow> string"
  ce_deserId :: "bytes \<Rightarrow> string option result"
  ce_H :: "('h, bytes, u64) expire_cache"
  ce_sigOctet :: "bytes \<Rightarrow> bytes"
  ce_trigger :: "('e, 't, 'p) trigger_ops"
  ce_event :: "u64 \<Rightarrow> 't \<Rightarrow> 'e"
  ce_ct :: "('ct, 't) ct_ops"
  ce_enum :: "u8 \<Rightarrow> bool"
  ce_deser :: "bytes \<Rightarrow> 'ct option result"
  ce_mkEntry :: "'ct \<Rightarrow> u32 \<Rightarrow> node_entry result"
  ce_itM :: "(int \<times> nat, u64 list \<times> nat) iterate"
  ce_itE :: "(BlockIndexEntry, u64 list \<times> nat) iterate"
  ce_itCM :: "(int \<times> nat, nat) iterate"
  ce_itCE :: "(BlockIndexEntry, nat) iterate"
  ce_IV :: "'iv interval_ops"
  ce_none :: u8
  ce_page :: "'pg page_ops"
  ce_held :: "'b \<Rightarrow> nat list"
  ce_names :: "string \<Rightarrow> node_fs \<Rightarrow> string list"
  ce_confirm :: "'tx \<Rightarrow> bytes \<Rightarrow> 't \<Rightarrow> ('db, 'x, 'b, 'm, 'h, 't, 'e) FileBased
    \<Rightarrow> 'ct option result \<times> ('db, 'x, 'b, 'm, 'h, 't, 'e) FileBased"
  ce_runPast :: "'ct \<Rightarrow> ('db, 'x, 'b, 'm, 'h, 't, 'e) FileBased \<Rightarrow> unit result \<times> ('db, 'x, 'b, 'm, 'h, 't, 'e) FileBased"
  ce_validate :: "'ct \<Rightarrow> 'ct option \<Rightarrow> ('db, 'x, 'b, 'm, 'h, 't, 'e) FileBased \<Rightarrow> unit result"

text \<open>Sequencing where a loop may run out of fuel (\<open>None\<close>).\<close>

definition bindF :: "('s \<Rightarrow> ('a result \<times> 's) option) \<Rightarrow> ('a \<Rightarrow> 's \<Rightarrow> ('b result \<times> 's) option) \<Rightarrow> 's \<Rightarrow> ('b result \<times> 's) option" where
  "bindF m f s =
     (case m s of
        None \<Rightarrow> None
      | Some (Inl e, s') \<Rightarrow> Some (Inl e, s')
      | Some (Inr a, s') \<Rightarrow> f a s')"

definition liftF :: "('s \<Rightarrow> 'a result \<times> 's) \<Rightarrow> 's \<Rightarrow> ('a result \<times> 's) option" where
  "liftF m s = Some (m s)"

definition returnF :: "'a \<Rightarrow> 's \<Rightarrow> ('a result \<times> 's) option" where
  "returnF a s = Some (Inr a, s)"

definition throwF :: "error \<Rightarrow> 's \<Rightarrow> ('a result \<times> 's) option" where
  "throwF e s = Some (Inl e, s)"

section \<open>State values and entries\<close>

definition chain_readInt32 where
  "chain_readInt32 E key dflt c = (State_readInt32State (ce_L E) (enum_name key) dflt (mBlockchainState c), c)"

definition chain_updateUint32 where
  "chain_updateUint32 E key value c =
     (case State_updateState_uint32 (ce_L E) (enum_name key) value (mBlockchainState c) of
        (r, st) \<Rightarrow> (r, c\<lparr>mBlockchainState := st\<rparr>))"

definition chain_updateUint64 where
  "chain_updateUint64 E key value c =
     (case State_updateState_uint64 (ce_L E) (enum_name key) value (mBlockchainState c) of
        (r, st) \<Rightarrow> (r, c\<lparr>mBlockchainState := st\<rparr>))"

definition FileBased_getOrAddIndexForPublicKey where
  "FileBased_getOrAddIndexForPublicKey E publicKey c =
     (case Dictionary_getOrAddIndexForString (ce_L E) (ce_octet E) publicKey (mPublicKeysIndex c) of
        (r, d) \<Rightarrow> (r, c\<lparr>mPublicKeysIndex := d\<rparr>))"

text \<open>The loop of the constructors of \<open>NodeTransactionEntry\<close> over the involved addresses.\<close>

fun address_indices where
  "address_indices E [] is c = (Inr is, c)"
| "address_indices E (publicKey # publicKeys) is c =
     (case FileBased_getOrAddIndexForPublicKey E publicKey c of
        (Inl e, c') \<Rightarrow> (Inl e, c')
      | (Inr i, c') \<Rightarrow> address_indices E publicKeys (is @ [i]) c')"

definition NodeTransactionEntry_new where
  "NodeTransactionEntry_new E transaction fileCursor c =
     (case address_indices E (ct_addresses (ce_ct E) transaction) [] c of
        (Inl e, c') \<Rightarrow> (Inl e, c')
      | (Inr is, c') \<Rightarrow>
          (Inr \<lparr>nt_index = (ct_index (ce_ct E) transaction)\<lparr>ne_fileCursor := fileCursor, ne_addressIndices := is\<rparr>,
                nt_serialized = ct_serialized (ce_ct E) transaction\<rparr>, c'))"

text \<open>From stored details, for instance from an index file.\<close>

definition NodeTransactionEntry_ofDetails ::
    "u64 \<Rightarrow> nat \<Rightarrow> int \<Rightarrow> u8 \<Rightarrow> string \<Rightarrow> u32 list \<Rightarrow> u8 \<Rightarrow> u32 \<Rightarrow> node_entry result" where
  "NodeTransactionEntry_ofDetails transactionNr month year transactionType coinGroupId addressIndices addressIndiceCount fileCursor =
     (if length addressIndices < unat addressIndiceCount then Inl UndefinedBehaviour
      else Inr \<lparr>ne_transactionNr = transactionNr, ne_fileCursor = fileCursor, ne_coinCommunityId = coinGroupId,
                ne_transactionType = transactionType, ne_year = year, ne_month = month,
                ne_addressIndices = take (unat addressIndiceCount) addressIndices\<rparr>)"

section \<open>Blocks\<close>

text \<open>A block of the store as the state its operations act on, and back.\<close>

definition block_view :: "('db, 'x, 'b, 'm, 'h, 't, 'e) FileBased \<Rightarrow> nat \<Rightarrow> 'x block_sys" where
  "block_view c p =
     \<lparr>blockFile = (cb_file (fb_blocks c ! p), fb_fs c), blockIndex = cb_index (fb_blocks c ! p),
      entries = fb_entries c, writeTasks = fb_tasks c, observer = mTaskObserver c,
      cacheBlock = cb_cache (fb_blocks c ! p)\<rparr>"

definition block_of :: "'x block_sys \<Rightarrow> 'x chain_block" where
  "block_of s = \<lparr>cb_file = fst (blockFile s), cb_index = blockIndex s, cb_cache = cacheBlock s\<rparr>"

definition put_shared :: "'x block_sys \<Rightarrow> ('db, 'x, 'b, 'm, 'h, 't, 'e) FileBased \<Rightarrow> ('db, 'x, 'b, 'm, 'h, 't, 'e) FileBased" where
  "put_shared s c = c\<lparr>fb_fs := snd (blockFile s), fb_entries := entries s, fb_tasks := writeTasks s,
     mTaskObserver := observer s\<rparr>"

definition put_block :: "nat \<Rightarrow> 'x block_sys \<Rightarrow> ('db, 'x, 'b, 'm, 'h, 't, 'e) FileBased \<Rightarrow> ('db, 'x, 'b, 'm, 'h, 't, 'e) FileBased" where
  "put_block p s c = put_shared s (c\<lparr>fb_blocks := (fb_blocks c)[p := block_of s]\<rparr>)"

text \<open>
  A block that is not in the cache is created and initialised. Where its files do not exist yet and its
  number is beyond the last one, it becomes the last one.
\<close>

definition FileBased_getBlock where
  "FileBased_getBlock E fuel blockNr c0 =
     (if blockNr = 0 then Some (Inl AssertFailed, c0)
      else case ec_get (ce_B E) blockNr (mCachedBlocks c0) of
        (Some p, b) \<Rightarrow> Some (Inr p, c0\<lparr>mCachedBlocks := b\<rparr>)
      | (None, b) \<Rightarrow>
          let c = c0\<lparr>mCachedBlocks := b\<rparr> in
          (case CacheBlock_new (ce_block E) (ce_X E) (mFolderPath_FB c) blockNr (fb_fs c) of
             (Inl e, s) \<Rightarrow> Some (Inl e, c\<lparr>fb_fs := snd (blockFile s)\<rparr>)
           | (Inr _, s) \<Rightarrow>
               (case CacheBlock_init (ce_block E) fuel (ce_enum E) (ce_deser E) (ce_mkEntry E)
                       (s\<lparr>entries := fb_entries c, writeTasks := fb_tasks c, observer := mTaskObserver c\<rparr>) of
                  None \<Rightarrow> None
                | Some (Inl e, s1) \<Rightarrow> Some (Inl e, put_shared s1 c)
                | Some (Inr found, s1) \<Rightarrow>
                    let p = length (fb_blocks c);
                        c1 = put_shared s1 (c\<lparr>fb_blocks := fb_blocks c @ [block_of s1]\<rparr>);
                        add = (\<lambda>c2. c2\<lparr>mCachedBlocks := ec_add (ce_B E) blockNr p (mCachedBlocks c2)\<rparr>)
                    in if found then Some (Inr p, add c1)
                       else (case chain_readInt32 E LAST_BLOCK_NR 1 c1 of
                               (Inl e, c2) \<Rightarrow> Some (Inl e, c2)
                             | (Inr lastBlockNr, c2) \<Rightarrow>
                                 if blockNr > lastBlockNr then
                                   (case chain_updateUint32 E LAST_BLOCK_NR blockNr c2 of
                                      (Inl e, c3) \<Rightarrow> Some (Inl e, c3)
                                    | (Inr _, c3) \<Rightarrow> Some (Inr p, add c3))
                                 else Some (Inr p, add c2)))))"

text \<open>
  \<open>iterateBlocks\<close>: the callback works on the chain and on what it collects; a block without transactions
  ends the loop.
\<close>

function iterate_blocks where
  "iterate_blocks E fuel desc lastBlockNr func blockNr (acc, c) =
     (case FileBased_getBlock E fuel (word_of_int blockNr) c of
        None \<Rightarrow> None
      | Some (Inl e, c1) \<Rightarrow> Some (Inl e, acc, c1)
      | Some (Inr p, c1) \<Rightarrow>
          if BlockIndexCache_getTransactionsCount (cb_index (fb_blocks c1 ! p)) = 0 then Some (Inr (), acc, c1)
          else (case func p (acc, c1) of
                  None \<Rightarrow> None
                | Some (Inl e, acc2, c2) \<Rightarrow> Some (Inl e, acc2, c2)
                | Some (Inr goOn, acc2, c2) \<Rightarrow>
                    let next = (if desc then blockNr - 1 else blockNr + 1) in
                    if goOn \<and> next \<ge> 1 \<and> next \<le> lastBlockNr
                    then iterate_blocks E fuel desc lastBlockNr func next (acc2, c2)
                    else Some (Inr (), acc2, c2)))"
  by pat_completeness auto
termination
  by (relation "measure (\<lambda>(E, fuel, desc, lastBlockNr, func, blockNr, s).
        if desc then nat blockNr else nat (lastBlockNr + 1 - blockNr))")
    (auto simp: Let_def)

declare iterate_blocks.simps [simp del]

definition FileBased_iterateBlocks where
  "FileBased_iterateBlocks E fuel searchDir func acc c =
     (case chain_readInt32 E LAST_BLOCK_NR 1 c of
        (Inl e, c1) \<Rightarrow> Some (Inl e, acc, c1)
      | (Inr lastBlockNr, c1) \<Rightarrow>
          let desc = (searchDir = DESC) in
          iterate_blocks E fuel desc (sint lastBlockNr) func (if desc then sint lastBlockNr else 1) (acc, c1))"

section \<open>Searching\<close>

text \<open>A filter: what the index sees of it, and its pagination.\<close>

record ('pg, 'iv) chain_filter =
  flt_index :: "'iv Filter"
  flt_page :: 'pg

definition index_filter where
  "index_filter E flt = (flt_index flt)\<lparr>f_skipEntriesCount := pg_skipEntriesCount (ce_page E) (flt_page flt),
     f_hasCapacityLeft := pg_hasCapacityLeft (ce_page E) (flt_page flt)\<rparr>"

definition chain_findTransactions where
  "chain_findTransactions E flt p c =
     BlockIndexCache_findTransactions (ce_itM E) (ce_itE E) (ce_IV E) (ce_none E) (bv_coin (ce_block E)) (ce_L E) (ce_octet E)
       (index_filter E flt) (mPublicKeysIndex c) (cb_index (fb_blocks c ! p))"

text \<open>The rest of the pages after \<open>n\<close> results; \<open>None\<close> is that the page is full.\<close>

definition next_page where
  "next_page E flt copy n =
     (if pg_size (ce_page E) (flt_page flt) \<noteq> 0 then
        let copy' = copy\<lparr>flt_page := pg_setSize (ce_page E) (pg_size (ce_page E) (flt_page flt) - int n) (flt_page copy)\<rparr>
        in (copy', pg_size (ce_page E) (flt_page copy') \<le> 0)
      else (copy, False))"

text \<open>
  The inner loop of \<open>findAll\<close>: entries of the store are collected; \<open>func\<close> is the filter function, it answers
  whether to use the entry and whether to stop, and may work on the chain.
\<close>

datatype loop_end = ALL_DONE | PAGE_FULL | STOPPED

fun find_nrs where
  "find_nrs E hasCapacityLeft func p [] found c = Some (Inr ALL_DONE, found, c)"
| "find_nrs E hasCapacityLeft func p (nr # nrs) found c =
     (if \<not> hasCapacityLeft (length found) then Some (Inr PAGE_FULL, found, c)
      else case CacheBlock_getTransaction (ce_block E) (ce_X E) nr (block_view c p) of
        (Inl e, s) \<Rightarrow> Some (Inl e, found, put_block p s c)
      | (Inr i, s) \<Rightarrow>
          (case func i (put_block p s c) of
             None \<Rightarrow> None
           | Some (Inl e, c1) \<Rightarrow> Some (Inl e, found, c1)
           | Some (Inr (use, stop), c1) \<Rightarrow>
               let found' = (if use then found @ [i] else found) in
               if stop then Some (Inr STOPPED, found', c1)
               else find_nrs E hasCapacityLeft func p nrs found' c1))"

definition find_block where
  "find_block E flt func p s =
     (case s of ((found, copy), c) \<Rightarrow>
      case chain_findTransactions E copy p c of
        Inl e \<Rightarrow> Some (Inl e, (found, copy), c)
      | Inr nrs \<Rightarrow>
          (case find_nrs E (pg_hasCapacityLeft (ce_page E) (flt_page flt)) func p nrs found c of
             None \<Rightarrow> None
           | Some (Inl e, found', c1) \<Rightarrow> Some (Inl e, (found', copy), c1)
           | Some (Inr PAGE_FULL, found', c1) \<Rightarrow> Some (Inr False, (found', copy), c1)
           | Some (Inr ended, found', c1) \<Rightarrow>
               (case next_page E flt copy (length found') of (copy', full) \<Rightarrow>
                  Some (Inr (\<not> full \<and> ended \<noteq> STOPPED), (found', copy'), c1))))"

definition FileBased_findAll where
  "FileBased_findAll E fuel flt func c =
     (case FileBased_iterateBlocks E fuel (f_searchDirection (flt_index flt)) (find_block E flt func) ([], flt) c of
        None \<Rightarrow> None
      | Some (Inl e, _, c1) \<Rightarrow> Some (Inl e, c1)
      | Some (Inr _, (found, _), c1) \<Rightarrow> Some (Inr found, c1))"

definition find_fast where
  "find_fast E flt p s =
     (case s of ((found, copy), c) \<Rightarrow>
      case chain_findTransactions E copy p c of
        Inl e \<Rightarrow> Some (Inl e, (found, copy), c)
      | Inr nrs \<Rightarrow>
          (case next_page E flt copy (length (found @ nrs)) of (copy', full) \<Rightarrow>
             Some (Inr (\<not> full), (found @ nrs, copy'), c)))"

definition FileBased_findAllFast where
  "FileBased_findAllFast E fuel flt c =
     (case FileBased_iterateBlocks E fuel (f_searchDirection (flt_index flt)) (find_fast E flt) ([], flt) c of
        None \<Rightarrow> None
      | Some (Inl e, _, c1) \<Rightarrow> Some (Inl e, c1)
      | Some (Inr _, (found, _), c1) \<Rightarrow> Some (Inr found, c1))"

definition count_block where
  "count_block E flt p s =
     (case s of (count, c) \<Rightarrow>
      case BlockIndexCache_countTransactions (ce_itCM E) (ce_itCE E) (ce_IV E) (ce_none E) (bv_coin (ce_block E)) (ce_L E)
             (ce_octet E) (index_filter E flt) (mPublicKeysIndex c) (cb_index (fb_blocks c ! p)) of
        Inl e \<Rightarrow> Some (Inl e, count, c)
      | Inr n \<Rightarrow> Some (Inr True, count + n, c))"

definition FileBased_findAllResultCount where
  "FileBased_findAllResultCount E fuel flt c =
     (case FileBased_iterateBlocks E fuel (f_searchDirection (flt_index flt)) (count_block E flt) (0 :: nat) c of
        None \<Rightarrow> None
      | Some (Inl e, _, c1) \<Rightarrow> Some (Inl e, c1)
      | Some (Inr _, count, c1) \<Rightarrow> Some (Inr count, c1))"

text \<open>From the last block back to the first; \<open>None\<close> is the null pointer.\<close>

function search_blocks where
  "search_blocks E fuel transactionId blockNr c =
     (case FileBased_getBlock E fuel (word_of_int blockNr) c of
        None \<Rightarrow> None
      | Some (Inl e, c1) \<Rightarrow> Some (Inl e, c1)
      | Some (Inr p, c1) \<Rightarrow>
          if BlockIndexCache_hasTransactionNr transactionId (cb_index (fb_blocks c1 ! p)) then
            (case CacheBlock_getTransaction (ce_block E) (ce_X E) transactionId (block_view c1 p) of
               (r, s) \<Rightarrow> Some (map_sum id Some r, put_block p s c1))
          else if blockNr - 1 > 0 then search_blocks E fuel transactionId (blockNr - 1) c1
          else Some (Inr None, c1))"
  by pat_completeness auto
termination
  by (relation "measure (\<lambda>(E, fuel, transactionId, blockNr, c). nat blockNr)") auto

declare search_blocks.simps [simp del]

definition FileBased_getTransactionForId where
  "FileBased_getTransactionForId E fuel transactionId c =
     (case chain_readInt32 E LAST_BLOCK_NR 1 c of
        (Inl e, c1) \<Rightarrow> Some (Inl e, c1)
      | (Inr lastBlockNr, c1) \<Rightarrow> search_blocks E fuel transactionId (sint lastBlockNr) c1)"

text \<open>
  \<open>has\<close> answers with a truth value, which the code takes as the number of the transaction: 1 for true.
  \<open>searchAll\<close> is the search of the base class in the library.
\<close>

definition FileBased_findByMessageId where
  "FileBased_findByMessageId E fuel searchAll messageId c =
     (case HieroTransactionId_has (ce_L E) (ce_M E) (ce_base64 E) (ce_deserId E) messageId (mMessageIdsCache c) of
        (Inl e, m) \<Rightarrow> Some (Inl e, c\<lparr>mMessageIdsCache := m\<rparr>)
      | (Inr True, m) \<Rightarrow> FileBased_getTransactionForId E fuel 1 (c\<lparr>mMessageIdsCache := m\<rparr>)
      | (Inr False, m) \<Rightarrow> searchAll messageId (c\<lparr>mMessageIdsCache := m\<rparr>))"

definition FileBased_isTransactionExist where
  "FileBased_isTransactionExist E signaturesOf signatures c =
     (case TransactionHash_has (ce_H E) (ce_sigOctet E) signaturesOf signatures (mTransactionHashCache c) of
        (r, h) \<Rightarrow> (r, c\<lparr>mTransactionHashCache := h\<rparr>))"

section \<open>Adding a transaction\<close>

definition chain_updateTrigger where
  "chain_updateTrigger f c =
     (case f (mTransactionTriggerEventsCache c) of (r, tc) \<Rightarrow> (r, c\<lparr>mTransactionTriggerEventsCache := tc\<rparr>))"

definition FileBased_addTransactionTriggerEvent where
  "FileBased_addTransactionTriggerEvent E e = chain_updateTrigger (TransactionTriggerEvent_add (ce_L E) (ce_trigger E) e)"

definition FileBased_removeTransactionTriggerEvent where
  "FileBased_removeTransactionTriggerEvent E e = chain_updateTrigger (TransactionTriggerEvent_remove (ce_L E) (ce_trigger E) e)"

definition FileBased_findTransactionTriggerEventsInRange where
  "FileBased_findTransactionTriggerEventsInRange E interval c =
     TransactionTriggerEvent_findInRange (ce_trigger E) interval (mTransactionTriggerEventsCache c)"

definition FileBased_findNextTransactionTriggerEventInRange where
  "FileBased_findNextTransactionTriggerEventInRange E interval c =
     TransactionTriggerEvent_findNext (ce_trigger E) interval (mTransactionTriggerEventsCache c)"

definition FileBased_updateLastKnownSequenceNumber where
  "FileBased_updateLastKnownSequenceNumber E n = chain_updateUint64 E LAST_HIERO_TOPIC_SEQUENCE_NUMBER n"

definition chain_pushHash where
  "chain_pushHash E transaction c =
     (case TransactionHash_push (ce_H E) (ce_sigOctet E) (ct_confirmed (ce_ct E) transaction) (mTransactionHashCache c) of
        (r, h) \<Rightarrow> (r, c\<lparr>mTransactionHashCache := h\<rparr>))"

definition chain_addMessageId where
  "chain_addMessageId E messageId nr c =
     (case HieroTransactionId_add (ce_L E) (ce_M E) (ce_base64 E) (ce_deserId E) messageId nr (mMessageIdsCache c) of
        (r, m) \<Rightarrow> (r, c\<lparr>mMessageIdsCache := m\<rparr>))"

text \<open>The part behind the push into the block: state values, caches, the dictionary, the notification.\<close>

definition after_push where
  "after_push E transaction =
     (let cid = ct_id (ct_confirmed (ce_ct E) transaction) in
      bindS (ce_runPast E transaction) (\<lambda>_.
      bindS (chain_updateUint64 E LAST_TRANSACTION_ID cid) (\<lambda>_.
      bindS (\<lambda>c. chain_updateUint32 E LAST_ADDRESS_INDEX (mLastIndex (mPublicKeysIndex c)) c) (\<lambda>_.
      bindS (chain_pushHash E transaction) (\<lambda>_.
      bindS (chain_addMessageId E (ct_messageId (ce_ct E) transaction) cid) (\<lambda>_.
      bindS (address_indices E (ct_addresses (ce_ct E) transaction) []) (\<lambda>_ c.
        (Inr True, case mCommunityServer c of
           None \<Rightarrow> c
         | Some server \<Rightarrow> c\<lparr>notified := notified c @ [(server, cid)]\<rparr>))))))))"

definition push_entry where
  "push_entry E fuel transaction blockNr =
     bindF (FileBased_getBlock E fuel blockNr) (\<lambda>p.
     bindF (liftF (NodeTransactionEntry_new E transaction (- 10))) (\<lambda>e c.
       case CacheBlock_pushTransaction (ce_block E) (ce_X E) (length (fb_entries c))
              (block_view (c\<lparr>fb_entries := fb_entries c @ [e]\<rparr>) p) of
         (Inl x, s) \<Rightarrow> Some (Inl x, put_block p s c)
       | (Inr False, s) \<Rightarrow> Some (Inr False, put_block p s c)
       | (Inr True, s) \<Rightarrow> Some (after_push E transaction (put_block p s c))))"

definition FileBased_createAndAddConfirmedTransaction where
  "FileBased_createAndAddConfirmedTransaction E fuel gradidoTransaction messageId confirmedAt c =
     (case gradidoTransaction of
        None \<Rightarrow> Some (Inl (Gradido NullPointer), c)
      | Some tx \<Rightarrow>
          (case messageId of
             None \<Rightarrow> Some (Inl (Gradido NullPointer), c)
           | Some mid \<Rightarrow>
               if mExitCalled_FB c then Some (Inr False, c)
               else (case ce_confirm E tx mid confirmedAt c of
                       (Inl e, c1) \<Rightarrow> Some (Inl e, c1)
                     | (Inr None, c1) \<Rightarrow> Some (Inr False, c1)
                     | (Inr (Some transaction), c1) \<Rightarrow>
                         bindF (liftF (chain_readInt32 E LAST_BLOCK_NR 1)) (push_entry E fuel transaction) c1)))"

section \<open>Starting and stopping\<close>

definition FileBased_new where
  "FileBased_new E communityId topicId folder clients d fs =
     (if clients = (0 :: nat) then Inl AssertFailed
      else Inr \<lparr>mExitCalled_FB = False, mCommunityId_FB = communityId, mHieroTopicId_FB = topicId, mFolderPath_FB = folder,
        fb_fs = fs, fb_blocks = [], fb_entries = [], fb_tasks = [],
        mTaskObserver = \<lparr>mBlockWriteTasks = [], mTransactionsFromPendingTasks = []\<rparr>,
        mPublicKeysIndex = Dictionary_new (folder @ ''/pubkeysCache'') (d (folder @ ''/pubkeysCache'')),
        mBlockchainState = State_new (folder @ ''/.state'') (d (folder @ ''/.state'')),
        mMessageIdsCache = HieroTransactionId_new (ce_M E) (folder @ ''/messageIdCache'') (d (folder @ ''/messageIdCache'')),
        mTransactionTriggerEventsCache =
          TransactionTriggerEvent_new (folder @ ''/transactionTriggerEventCache'') (d (folder @ ''/transactionTriggerEventCache'')),
        mCachedBlocks = ec_new (ce_B E), mTransactionHashCache = TransactionHash_new (ce_H E) communityId,
        mCommunityServer = None, mHieroMessageListener = None, notified = []\<rparr>)"

definition FileBased_setListeningCommunityServer where
  "FileBased_setListeningCommunityServer client c = c\<lparr>mCommunityServer := client\<rparr>"

definition FileBased_loadStateFromBlockCache where
  "FileBased_loadStateFromBlockCache E fuel =
     bindF (liftF (\<lambda>c. chain_updateUint32 E LAST_ADDRESS_INDEX (mLastIndex (mPublicKeysIndex c)) c)) (\<lambda>_.
     bindF (\<lambda>c. Some (BlockFile_findLastBlockFileInFolder (ce_names E (mFolderPath_FB c) (fb_fs c)) 0, c)) (\<lambda>lastBlockNr.
     bindF (liftF (chain_updateUint32 E LAST_BLOCK_NR lastBlockNr)) (\<lambda>_.
     bindF (FileBased_getBlock E fuel lastBlockNr) (\<lambda>p c.
       Some (chain_updateUint64 E LAST_TRANSACTION_ID (mMaxTransactionNr (cb_index (fb_blocks c ! p))) c)))))"

text \<open>
  The filter function of \<open>rescanForTransactionTriggerEvents\<close>: a deferred transfer adds its event, a
  redemption removes the event of the transfer it redeems.
\<close>

definition rescan_entry where
  "rescan_entry E fuel i c =
     (case ct_of_bytes (ce_ct E) (nt_serialized (fb_entries c ! i)) of
        Inl e \<Rightarrow> Some (Inl e, c)
      | Inr transaction \<Rightarrow>
          let cid = ct_id (ct_confirmed (ce_ct E) transaction) in
          (case ct_kind (ce_ct E) transaction of
             DEFERRED_TRANSFER \<Rightarrow>
               bindF (liftF (FileBased_addTransactionTriggerEvent E (ce_event E cid (ct_timeoutAt (ce_ct E) transaction transaction))))
                 (\<lambda>_. returnF (False, False)) c
           | REDEEM_DEFERRED_TRANSFER deferredTransferId \<Rightarrow>
               (case FileBased_getTransactionForId E fuel deferredTransferId c of
                  None \<Rightarrow> None
                | Some (Inl e, c1) \<Rightarrow> Some (Inl e, c1)
                | Some (Inr None, c1) \<Rightarrow> Some (Inl UndefinedBehaviour, c1)
                | Some (Inr (Some j), c1) \<Rightarrow>
                    (case ct_of_bytes (ce_ct E) (nt_serialized (fb_entries c1 ! j)) of
                       Inl e \<Rightarrow> Some (Inl e, c1)
                     | Inr deferredTransfer \<Rightarrow>
                         if ct_kind (ce_ct E) deferredTransfer \<noteq> DEFERRED_TRANSFER then Some (Inl AssertFailed, c1)
                         else bindF (liftF (FileBased_removeTransactionTriggerEvent E
                                (ce_event E deferredTransferId (ct_timeoutAt (ce_ct E) transaction deferredTransfer))))
                                (\<lambda>_. returnF (False, False)) c1))
           | OTHER_TYPE \<Rightarrow> Some (Inr (False, False), c)))"

definition FileBased_rescanForTransactionTriggerEvents where
  "FileBased_rescanForTransactionTriggerEvents E fuel allTransactions c =
     bindF (FileBased_findAll E fuel (allTransactions\<lparr>flt_index := (flt_index allTransactions)\<lparr>f_searchDirection := ASC\<rparr>\<rparr>)
              (rescan_entry E fuel)) (\<lambda>_. returnF ())
       (c\<lparr>mTransactionTriggerEventsCache := TransactionTriggerEvent_reset (ce_L E) (mTransactionTriggerEventsCache c)\<rparr>)"

text \<open>
  The parts of \<open>init\<close>, in their order. The filters of the last 20 and of the last 1500 transactions, backwards,
  are \<open>last20\<close> and \<open>last1500\<close>.
\<close>

definition mega_bytes :: u64 where
  "mega_bytes = 1024 * 1024"

definition init_publicKeys where
  "init_publicKeys E resetBlockIndices c =
     (case Dictionary_init (ce_L E) (ce_octet E) mega_bytes (mPublicKeysIndex c) of
        (Inl e, d) \<Rightarrow> (Inl e, c\<lparr>mPublicKeysIndex := d\<rparr>)
      | (Inr ok, d) \<Rightarrow>
          (let c1 = c\<lparr>mPublicKeysIndex := (if ok then d else Dictionary_reset (ce_L E) d)\<rparr>;
               removeIndices = resetBlockIndices \<or> \<not> ok
           in (Inr removeIndices, if removeIndices
                 then c1\<lparr>fb_fs := BlockIndexFile_removeAllBlockIndexFiles (mFolderPath_FB c1) (fb_fs c1)\<rparr> else c1)))"

definition init_state where
  "init_state E fuel resetBlockIndices c =
     (case State_init (ce_L E) 192 (mBlockchainState c) of
        (Inl e, st) \<Rightarrow> Some (Inl e, c\<lparr>mBlockchainState := st\<rparr>)
      | (Inr ok, st) \<Rightarrow>
          if \<not> ok \<or> resetBlockIndices then
            FileBased_loadStateFromBlockCache E fuel (c\<lparr>mBlockchainState := State_reset (ce_L E) st\<rparr>)
          else Some (Inr (), c\<lparr>mBlockchainState := st\<rparr>))"

definition init_readStates where
  "init_readStates E =
     bindS (chain_readInt32 E LAST_ADDRESS_INDEX 0) (\<lambda>_.
     bindS (chain_readInt32 E LAST_BLOCK_NR 0) (\<lambda>_.
     bindS (chain_readInt32 E LAST_TRANSACTION_ID 0) (\<lambda>_.
     bindS (\<lambda>c. (State_readInt64State (ce_L E) (enum_name LAST_HIERO_TOPIC_SEQUENCE_NUMBER) 0 (mBlockchainState c), c)) (\<lambda>_ c.
       (map_sum id (\<lambda>_. ()) (State_readState (ce_L E) (enum_name LAST_HIERO_TOPIC_ID) (mHieroTopicId_FB c) (mBlockchainState c)), c)))))"

fun add_messageIds where
  "add_messageIds E [] c = (Inr (), c)"
| "add_messageIds E (i # is) c =
     (case ct_of_bytes (ce_ct E) (nt_serialized (fb_entries c ! i)) of
        Inl e \<Rightarrow> (Inl e, c)
      | Inr transaction \<Rightarrow>
          (case chain_addMessageId E (ct_messageId (ce_ct E) transaction) (entry_nr (fb_entries c ! i)) c of
             (Inl e, c1) \<Rightarrow> (Inl e, c1)
           | (Inr _, c1) \<Rightarrow> add_messageIds E is c1))"

definition init_messageIds where
  "init_messageIds E fuel last20 c =
     (case HieroTransactionId_init (ce_L E) (10 * mega_bytes) (mMessageIdsCache c) of
        (Inl e, m) \<Rightarrow> Some (Inl e, c\<lparr>mMessageIdsCache := m\<rparr>)
      | (Inr True, m) \<Rightarrow> Some (Inr (), c\<lparr>mMessageIdsCache := m\<rparr>)
      | (Inr False, m) \<Rightarrow>
          (case HieroTransactionId_init (ce_L E) (10 * mega_bytes) (HieroTransactionId_reset (ce_L E) (ce_M E) m) of
             (Inl e, m1) \<Rightarrow> Some (Inl e, c\<lparr>mMessageIdsCache := m1\<rparr>)
           | (Inr False, m1) \<Rightarrow> Some (Inl (Gradido ClassNotInitalized), c\<lparr>mMessageIdsCache := m1\<rparr>)
           | (Inr True, m1) \<Rightarrow>
               bindF (FileBased_findAll E fuel last20 (\<lambda>_. returnF (True, False)))
                 (\<lambda>found. liftF (add_messageIds E found)) (c\<lparr>mMessageIdsCache := m1\<rparr>)))"

definition init_triggerEvents where
  "init_triggerEvents E fuel allTransactions c =
     (case TransactionTriggerEvent_init (ce_L E) (ce_trigger E) mega_bytes (mTransactionTriggerEventsCache c) of
        (Inl e, tc) \<Rightarrow> Some (Inl e, c\<lparr>mTransactionTriggerEventsCache := tc\<rparr>)
      | (Inr ok, tc) \<Rightarrow>
          let c1 = c\<lparr>mTransactionTriggerEventsCache := tc\<rparr> in
          if ok then Some (Inr (), c1) else FileBased_rescanForTransactionTriggerEvents E fuel allTransactions c1)"

text \<open>The filter function of the last search: every transaction is validated against the one before it.\<close>

definition init_entry where
  "init_entry E fuel i c =
     (case ct_of_bytes (ce_ct E) (nt_serialized (fb_entries c ! i)) of
        Inl e \<Rightarrow> Some (Inl e, c)
      | Inr transaction \<Rightarrow>
          let previousTransactionNr = entry_nr (fb_entries c ! i) - 1;
              validated = (\<lambda>previous c1.
                (case ce_validate E transaction previous c1 of
                   Inl e \<Rightarrow> Some (Inl e, c1)
                 | Inr _ \<Rightarrow> bindF (liftF (chain_pushHash E transaction)) (\<lambda>_. returnF (False, False)) c1))
          in if previousTransactionNr \<ge> 1 then
               (case FileBased_getTransactionForId E fuel previousTransactionNr c of
                  None \<Rightarrow> None
                | Some (Inl e, c1) \<Rightarrow> Some (Inl e, c1)
                | Some (Inr None, c1) \<Rightarrow> validated None c1
                | Some (Inr (Some j), c1) \<Rightarrow>
                    (case ct_of_bytes (ce_ct E) (nt_serialized (fb_entries c1 ! j)) of
                       Inl e \<Rightarrow> Some (Inl e, c1)
                     | Inr previous \<Rightarrow> validated (Some previous) c1))
             else validated None c)"

definition FileBased_init where
  "FileBased_init E fuel last20 last1500 allTransactions resetBlockIndices c =
     (if mExitCalled_FB c then Some (Inl AssertFailed, c)
      else bindF (liftF (init_publicKeys E resetBlockIndices)) (\<lambda>removeIndices.
           bindF (init_state E fuel removeIndices) (\<lambda>_.
           bindF (liftF (init_readStates E)) (\<lambda>_.
           bindF (init_messageIds E fuel last20) (\<lambda>_.
           bindF (init_triggerEvents E fuel allTransactions) (\<lambda>_.
           bindF (FileBased_findAll E fuel last1500 (init_entry E fuel)) (\<lambda>_.
             returnF True)))))) c)"

text \<open>The task of \<open>initOnline\<close> starts with the number and the topic of the state values.\<close>

definition FileBased_initOnline where
  "FileBased_initOnline E c =
     bindR (State_readInt64State (ce_L E) (enum_name LAST_HIERO_TOPIC_SEQUENCE_NUMBER) 0 (mBlockchainState c)) (\<lambda>n.
     bindR (State_readState (ce_L E) (enum_name LAST_HIERO_TOPIC_ID) (mHieroTopicId_FB c) (mBlockchainState c)) (\<lambda>topic.
       Inr (n, topic)))"

text \<open>\<open>oneLater\<close> is the timestamp one nanosecond later.\<close>

definition FileBased_startListening where
  "FileBased_startListening E oneLater lastTransactionConfirmedAt c =
     (case State_updateState (ce_L E) (enum_name LAST_HIERO_TOPIC_ID) (mHieroTopicId_FB c) (mBlockchainState c) of
        (r, st) \<Rightarrow> (r, c\<lparr>mHieroMessageListener := Some (oneLater lastTransactionConfirmedAt), mBlockchainState := st\<rparr>))"

text \<open>
  \<open>exit\<close>, after the pending tasks are finished or the wait for them is over. The cache of blocks drops its
  blocks, whose destructors write what waits; an exception there ends the program.
\<close>

fun exit_blocks where
  "exit_blocks E [] c = (Inr (), c)"
| "exit_blocks E (p # ps) c =
     (case CacheBlock_exit (ce_block E) (block_view c p) of
        (Inl e, s) \<Rightarrow> (Inl e, put_block p s c)
      | (Inr _, s) \<Rightarrow> exit_blocks E ps (put_block p s c))"

definition FileBased_exit where
  "FileBased_exit E c =
     (case exit_blocks E (ce_held E (mCachedBlocks c)) (c\<lparr>mExitCalled_FB := True\<rparr>) of
        (Inl e, c1) \<Rightarrow> (Inl e, c1)
      | (Inr _, c1) \<Rightarrow>
          (Inr (), c1\<lparr>mCachedBlocks := ec_clear (ce_B E) (mCachedBlocks c1),
             mBlockchainState := State_exit (mBlockchainState c1), mPublicKeysIndex := Dictionary_exit (mPublicKeysIndex c1),
             mMessageIdsCache := HieroTransactionId_exit (mMessageIdsCache c1),
             mTransactionTriggerEventsCache := (mTransactionTriggerEventsCache c1)
               \<lparr>trig_State := State_exit (trig_State (mTransactionTriggerEventsCache c1))\<rparr>\<rparr>))"

section \<open>What the caches and the dictionary leave alone\<close>

lemma block_view_frame [simp]:
  "block_view (c\<lparr>mPublicKeysIndex := d\<rparr>) p = block_view c p" "block_view (c\<lparr>mBlockchainState := st\<rparr>) p = block_view c p"
  "block_view (c\<lparr>mMessageIdsCache := m\<rparr>) p = block_view c p" "block_view (c\<lparr>mCachedBlocks := b\<rparr>) p = block_view c p"
  "block_view (c\<lparr>mTransactionHashCache := h\<rparr>) p = block_view c p" "block_view (c\<lparr>notified := ns\<rparr>) p = block_view c p"
  "block_view (c\<lparr>mTransactionTriggerEventsCache := tc\<rparr>) p = block_view c p"
  by (simp_all add: block_view_def)

lemma block_view_put [simp]: "p < length (fb_blocks c) \<Longrightarrow> block_view (put_block p s c) p = s"
  by (simp add: block_view_def put_block_def put_shared_def block_of_def)

lemma fb_put [simp]:
  "length (fb_blocks (put_block p s c)) = length (fb_blocks c)" "fb_entries (put_block p s c) = entries s"
  "mCachedBlocks (put_block p s c) = mCachedBlocks c" "mBlockchainState (put_block p s c) = mBlockchainState c"
  by (simp_all add: put_block_def put_shared_def)

lemma entries_view [simp]: "entries (block_view c p) = fb_entries c" "blockIndex (block_view c p) = cb_index (fb_blocks c ! p)"
  by (simp_all add: block_view_def)

lemma bindF_simps [simp]:
  "m s = Some (Inr a, s') \<Longrightarrow> bindF m f s = f a s'" "m s = Some (Inl e, s') \<Longrightarrow> bindF m f s = Some (Inl e, s')"
  "m s = None \<Longrightarrow> bindF m f s = None"
  "liftF g s = Some (g s)" "returnF a s = Some (Inr a, s)" "throwF e s = Some (Inl e, s)"
  by (simp_all add: bindF_def liftF_def returnF_def throwF_def)

section \<open>A blockchain of one block\<close>

text \<open>The block with number 1 is the last one and in the cache of blocks, and stands for a list of transactions.\<close>

definition chain_rep where
  "chain_rep E n0 a p c =
     (p < length (fb_blocks c) \<and> fst (ec_get (ce_B E) 1 (mCachedBlocks c)) = Some p \<and>
      State_readInt32State (ce_L E) (enum_name LAST_BLOCK_NR) 1 (mBlockchainState c) = Inr 1 \<and>
      block_rep (ce_block E) (ce_X E) n0 a (block_view c p))"

text \<open>A look into the cache of blocks does not lose the block.\<close>

definition keeps_block where
  "keeps_block E = (\<forall>b p. fst (ec_get (ce_B E) 1 b) = Some p \<longrightarrow> fst (ec_get (ce_B E) 1 (snd (ec_get (ce_B E) 1 b))) = Some p)"

lemma getBlock_cached:
  assumes "chain_rep E n0 a p c" and "keeps_block E"
  shows "\<exists>b. FileBased_getBlock E fuel 1 c = Some (Inr p, c\<lparr>mCachedBlocks := b\<rparr>) \<and> chain_rep E n0 a p (c\<lparr>mCachedBlocks := b\<rparr>)"
proof -
  obtain r b where g: "ec_get (ce_B E) 1 (mCachedBlocks c) = (r, b)" by fastforce
  with assms have "r = Some p" by (simp add: chain_rep_def)
  moreover have "fst (ec_get (ce_B E) 1 b) = Some p"
    using assms g calculation unfolding keeps_block_def by (metis fst_conv snd_conv)
  ultimately show ?thesis using assms(1) g by (intro exI [of _ b]) (simp add: FileBased_getBlock_def chain_rep_def)
qed

lemma hasTransactionNr_rep:
  assumes "index_rep n0 ls w c" and "0 < n0" and "n0 + length ls < 2 ^ 31" and "nr \<noteq> 0"
  shows "BlockIndexCache_hasTransactionNr nr c \<longleftrightarrow> n0 \<le> unat nr \<and> unat nr < n0 + length ls"
proof (cases "ls = []")
  case True
  then show ?thesis using assms by (auto simp: index_rep_def BlockIndexCache_hasTransactionNr_def)
next
  case False
  then obtain k where k: "length ls = Suc k" by (cases ls) auto
  then have "unat (nr_at n0 0) = n0" "unat (nr_at n0 k) = n0 + k"
    using assms(3) by (simp_all add: unat_nr_at)
  then show ?thesis using assms(1) False k
    by (auto simp: index_rep_def BlockIndexCache_hasTransactionNr_def word_le_nat_alt)
qed

lemma getTransaction_rep:
  assumes "block_rep E X n0 a s" and "nr \<noteq> 0" and "n0 \<le> unat nr" and "unat nr < n0 + length (log_lines a)"
  shows "\<exists>i s'. CacheBlock_getTransaction E X nr s = (Inr i, s') \<and>
    nt_serialized (entries s' ! i) = log_lines a ! (unat nr - n0) \<and> block_rep E X n0 a s'"
proof -
  obtain r s' where g: "CacheBlock_getTransaction E X nr s = (r, s')" by fastforce
  with get_rep [OF assms(1,2)] assms(3,4) show ?thesis by (cases r) (auto simp: block_step_def log_step_def)
qed

lemma getTransactionForId_rep:
  assumes rep: "chain_rep E n0 a p c" and keep: "keeps_block E" and nr: "nr \<noteq> 0"
  shows "\<exists>r c'. FileBased_getTransactionForId E fuel nr c = Some (Inr r, c') \<and> chain_rep E n0 a p c' \<and>
    (if n0 \<le> unat nr \<and> unat nr < n0 + length (log_lines a)
     then \<exists>i. r = Some i \<and> nt_serialized (fb_entries c' ! i) = log_lines a ! (unat nr - n0) else r = None)"
proof -
  from getBlock_cached [OF rep keep, of fuel] obtain b where
    b: "FileBased_getBlock E fuel 1 c = Some (Inr p, c\<lparr>mCachedBlocks := b\<rparr>)" "chain_rep E n0 a p (c\<lparr>mCachedBlocks := b\<rparr>)" by blast
  let ?c = "c\<lparr>mCachedBlocks := b\<rparr>"
  have blk: "block_rep (ce_block E) (ce_X E) n0 a (block_view c p)" and p: "p < length (fb_blocks c)"
    and last: "State_readInt32State (ce_L E) (enum_name LAST_BLOCK_NR) 1 (mBlockchainState c) = Inr 1"
    using rep by (simp_all add: chain_rep_def)
  then have "index_rep n0 (log_lines a) (log_written a) (cb_index (fb_blocks c ! p))" "0 < n0" "n0 + length (log_lines a) < 2 ^ 31"
    by (simp_all add: block_rep_def lines_ok_def)
  note has = hasTransactionNr_rep [OF this nr]
  have start: "FileBased_getTransactionForId E fuel nr c = search_blocks E fuel nr 1 c"
    using last by (simp add: FileBased_getTransactionForId_def chain_readInt32_def)
  show ?thesis
  proof (cases "n0 \<le> unat nr \<and> unat nr < n0 + length (log_lines a)")
    case True
    from getTransaction_rep [OF blk nr] True obtain i s' where
      g: "CacheBlock_getTransaction (ce_block E) (ce_X E) nr (block_view c p) = (Inr i, s')"
        "nt_serialized (entries s' ! i) = log_lines a ! (unat nr - n0)" "block_rep (ce_block E) (ce_X E) n0 a s'" by blast
    have "search_blocks E fuel nr 1 c = Some (Inr (Some i), put_block p s' ?c)"
      using b(1) has True g(1) by (subst search_blocks.simps) simp
    moreover have "chain_rep E n0 a p (put_block p s' ?c)" using b(2) g(3) p by (simp add: chain_rep_def)
    ultimately show ?thesis using start g(2) True by (intro exI [of _ "Some i"] exI [of _ "put_block p s' ?c"]) simp
  next
    case False
    have "search_blocks E fuel nr 1 c = Some (Inr None, ?c)"
      using b(1) has False by (subst search_blocks.simps) auto
    then show ?thesis using start b(2) False by (intro exI [of _ None] exI [of _ ?c]) auto
  qed
qed

text \<open>The parts behind the push leave the block and the caches of blocks and of states it needs.\<close>

definition same_blocks where
  "same_blocks E p c c' = (block_view c' p = block_view c p \<and> length (fb_blocks c') = length (fb_blocks c) \<and>
     mCachedBlocks c' = mCachedBlocks c \<and>
     State_readInt32State (ce_L E) (enum_name LAST_BLOCK_NR) 1 (mBlockchainState c') =
       State_readInt32State (ce_L E) (enum_name LAST_BLOCK_NR) 1 (mBlockchainState c))"

lemma same_blocks_refl [simp]: "same_blocks E p c c"
  by (simp add: same_blocks_def)

lemma same_blocks_trans: "same_blocks E p c c' \<Longrightarrow> same_blocks E p c' c'' \<Longrightarrow> same_blocks E p c c''"
  by (simp add: same_blocks_def)

lemma read_other_key:
  assumes "leveldb_laws L" and "k \<noteq> k'"
  shows "State_readInt32State L (enum_name k) d (snd (State_updateState_uint32 L (enum_name k') v st)) = State_readInt32State L (enum_name k) d st"
    and "State_readInt32State L (enum_name k) d (snd (State_updateState_uint64 L (enum_name k') w st)) = State_readInt32State L (enum_name k) d st"
  using assms leveldb_lawsD(2) [OF assms(1)]
  by (auto simp: State_readInt32State_def State_updateState_uint32_def State_updateState_uint64_def LevelDBWrapper_setKeyValue_def
      LevelDBWrapper_getValueForKey_def enum_name_inject split: option.splits)

lemma same_blocks_steps:
  assumes "leveldb_laws (ce_L E)" and "k \<noteq> LAST_BLOCK_NR"
  shows
  "same_blocks E p c (snd (chain_updateUint32 E k v32 c))" "same_blocks E p c (snd (chain_updateUint64 E k v64 c))"
  using read_other_key [OF assms(1) assms(2) [symmetric]]
  by (simp_all add: chain_updateUint32_def chain_updateUint64_def same_blocks_def case_prod_beta)

lemma same_blocks_hash: "same_blocks E p c (snd (chain_pushHash E transaction c))"
  by (simp add: chain_pushHash_def same_blocks_def case_prod_beta)

lemma same_blocks_ids: "same_blocks E p c (snd (chain_addMessageId E m nr c))"
  by (simp add: chain_addMessageId_def same_blocks_def case_prod_beta)

lemma same_blocks_key: "same_blocks E p c (snd (FileBased_getOrAddIndexForPublicKey E key c))"
  by (simp add: FileBased_getOrAddIndexForPublicKey_def same_blocks_def case_prod_beta)

lemma same_blocks_addresses: "same_blocks E p c (snd (address_indices E keys xs c))"
proof (induction keys arbitrary: xs c)
  case (Cons key keys)
  obtain r c' where g: "FileBased_getOrAddIndexForPublicKey E key c = (r, c')" by fastforce
  then have "same_blocks E p c c'" using same_blocks_key [where E = E and p = p and c = c and key = key] by simp
  with Cons g show ?case by (auto split: sum.split intro: same_blocks_trans)
qed simp

lemma bindS_same:
  "(\<And>c. same_blocks E p c (snd (m c))) \<Longrightarrow> (\<And>a c. same_blocks E p c (snd (f a c))) \<Longrightarrow> same_blocks E p c (snd (bindS m f c))"
  by (auto simp: bindS_def split: prod.split sum.split) (metis same_blocks_trans snd_conv)+

lemma bindS_answer:
  "(\<And>a c. fst (f a c) \<in> {Inr True} \<union> range Inl) \<Longrightarrow> fst (bindS m f c) \<in> {Inr True} \<union> range Inl"
  by (auto simp: bindS_def split: prod.split sum.split)

lemma after_push_same:
  assumes "\<And>c. same_blocks E p c (snd (ce_runPast E transaction c))" and "leveldb_laws (ce_L E)"
  shows "same_blocks E p c (snd (after_push E transaction c))"
  unfolding after_push_def Let_def
  by (intro bindS_same assms same_blocks_steps same_blocks_hash same_blocks_ids same_blocks_addresses) (simp_all add: same_blocks_def split: option.split)

lemma after_push_answer: "fst (after_push E transaction c) \<in> {Inr True} \<union> range Inl"
  unfolding after_push_def Let_def by (intro bindS_answer) simp

lemma NodeTransactionEntry_new_same:
  assumes "NodeTransactionEntry_new E transaction cur c = (Inr e, c')"
  shows "same_blocks E p c c'" and "nt_serialized e = ct_serialized (ce_ct E) transaction"
    and "\<exists>as. nt_index e = (ct_index (ce_ct E) transaction)\<lparr>ne_fileCursor := cur, ne_addressIndices := as\<rparr>"
proof -
  from assms obtain as where as: "address_indices E (ct_addresses (ce_ct E) transaction) [] c = (Inr as, c')"
    "e = \<lparr>nt_index = (ct_index (ce_ct E) transaction)\<lparr>ne_fileCursor := cur, ne_addressIndices := as\<rparr>,
        nt_serialized = ct_serialized (ce_ct E) transaction\<rparr>"
    by (auto simp: NodeTransactionEntry_new_def split: prod.splits sum.splits)
  then show "same_blocks E p c c'" using same_blocks_addresses [where E = E and p = p and c = c and keys = "ct_addresses (ce_ct E) transaction" and xs = "[]"] by simp
  show "nt_serialized e = ct_serialized (ce_ct E) transaction"
    "\<exists>as. nt_index e = (ct_index (ce_ct E) transaction)\<lparr>ne_fileCursor := cur, ne_addressIndices := as\<rparr>"
    using as(2) by auto
qed

lemma same_blocks_rep: "same_blocks E p c c' \<Longrightarrow> chain_rep E n0 a p c \<Longrightarrow> chain_rep E n0 a p c'"
  by (simp add: same_blocks_def chain_rep_def)

lemma address_indices_length: "address_indices E keys as c = (Inr bs, c') \<Longrightarrow> length bs = length as + length keys"
  by (induction keys arbitrary: as c) (auto split: prod.splits sum.splits)

lemma push_entry_rep:
  assumes rep: "chain_rep E n0 a p c" and keep: "keeps_block E" and idle: "\<not> log_pending a" and L: "leveldb_laws (ce_L E)"
    and ok: "push_ok (ce_block E) n0 \<lparr>nt_index = (ct_index (ce_ct E) transaction)\<lparr>ne_fileCursor := - 10, ne_addressIndices := []\<rparr>,
        nt_serialized = ct_serialized (ce_ct E) transaction\<rparr> a"
    and few: "length (ct_addresses (ce_ct E) transaction) < 256"
    and past: "\<And>c. same_blocks E p c (snd (ce_runPast E transaction c))"
    and res: "push_entry E fuel transaction 1 c = Some (Inr r, c')"
  shows "r = True \<and> chain_rep E n0 (a\<lparr>log_lines := log_lines a @ [ct_serialized (ce_ct E) transaction]\<rparr>) p c'"
proof -
  from getBlock_cached [OF rep keep, of fuel] obtain b where
    b: "FileBased_getBlock E fuel 1 c = Some (Inr p, c\<lparr>mCachedBlocks := b\<rparr>)" "chain_rep E n0 a p (c\<lparr>mCachedBlocks := b\<rparr>)" by blast
  let ?c = "c\<lparr>mCachedBlocks := b\<rparr>"
  obtain e c2 where e: "NodeTransactionEntry_new E transaction (- 10) ?c = (Inr e, c2)"
    using res b(1) by (cases "NodeTransactionEntry_new E transaction (- 10) ?c")
      (auto simp: push_entry_def bindF_def liftF_def split: sum.splits)
  have rep2: "chain_rep E n0 a p c2" by (rule same_blocks_rep [OF NodeTransactionEntry_new_same(1) [OF e] b(2)])
  then have blk: "block_rep (ce_block E) (ce_X E) n0 a (block_view c2 p)" and p: "p < length (fb_blocks c2)"
    by (simp_all add: chain_rep_def)
  obtain as where as: "address_indices E (ct_addresses (ce_ct E) transaction) [] ?c = (Inr as, c2)"
    "e = \<lparr>nt_index = (ct_index (ce_ct E) transaction)\<lparr>ne_fileCursor := - 10, ne_addressIndices := as\<rparr>,
        nt_serialized = ct_serialized (ce_ct E) transaction\<rparr>"
    using e by (auto simp: NodeTransactionEntry_new_def split: prod.splits sum.splits)
  then have ok': "push_ok (ce_block E) n0 e a"
    using ok few address_indices_length [OF as(1)] by (auto simp: push_ok_def entry_nr_def)
  let ?a = "a\<lparr>log_lines := log_lines a @ [ct_serialized (ce_ct E) transaction]\<rparr>"
  from push_rep [OF blk idle ok'] as(2) obtain s' where
    s': "CacheBlock_pushTransaction (ce_block E) (ce_X E) (length (fb_entries c2))
        ((block_view c2 p)\<lparr>entries := fb_entries c2 @ [e]\<rparr>) = (Inr True, s')" "block_rep (ce_block E) (ce_X E) n0 ?a s'"
    by auto
  have view: "block_view (c2\<lparr>fb_entries := fb_entries c2 @ [e]\<rparr>) p = (block_view c2 p)\<lparr>entries := fb_entries c2 @ [e]\<rparr>"
    by (simp add: block_view_def)
  have res': "after_push E transaction (put_block p s' c2) = (Inr r, c')"
    using res b(1) e s'(1) by (simp add: push_entry_def view)
  have "chain_rep E n0 ?a p (put_block p s' c2)" using rep2 s'(2) p by (simp add: chain_rep_def)
  moreover have "same_blocks E p (put_block p s' c2) c'"
    using after_push_same [where E = E and p = p and c = "put_block p s' c2", OF past L] res' by simp
  moreover have "r = True" using after_push_answer [of E transaction "put_block p s' c2"] res' by auto
  ultimately show ?thesis by (blast intro: same_blocks_rep)
qed

lemma confirmed_rep:
  assumes "chain_rep E n0 a p c" and "keeps_block E" and "leveldb_laws (ce_L E)" and "\<not> log_pending a"
    and "ce_confirm E tx messageId confirmedAt c = (Inr (Some transaction), c1)" and "same_blocks E p c c1"
    and "\<And>c. same_blocks E p c (snd (ce_runPast E transaction c))"
    and "push_ok (ce_block E) n0 \<lparr>nt_index = (ct_index (ce_ct E) transaction)\<lparr>ne_fileCursor := - 10, ne_addressIndices := []\<rparr>,
        nt_serialized = ct_serialized (ce_ct E) transaction\<rparr> a"
    and "length (ct_addresses (ce_ct E) transaction) < 256"
    and "FileBased_createAndAddConfirmedTransaction E fuel (Some tx) (Some messageId) confirmedAt c = Some (Inr True, c')"
  shows "chain_rep E n0 (a\<lparr>log_lines := log_lines a @ [ct_serialized (ce_ct E) transaction]\<rparr>) p c'"
proof -
  have rep1: "chain_rep E n0 a p c1" using assms(1,6) same_blocks_rep by blast
  then have "chain_readInt32 E LAST_BLOCK_NR 1 c1 = (Inr 1, c1)" by (simp add: chain_readInt32_def chain_rep_def)
  then have "push_entry E fuel transaction 1 c1 = Some (Inr True, c')"
    using assms(5,10) by (auto simp: FileBased_createAndAddConfirmedTransaction_def split: if_splits)
  then show ?thesis using push_entry_rep [OF rep1 assms(2,4,3,8,9,7)] by blast
qed

section \<open>Starting with a damaged database\<close>

lemma init_twice_fails:
  assumes "leveldb_laws L" and "fst (HieroTransactionId_init L n m) = Inr False"
  shows "fst (HieroTransactionId_init L n (HieroTransactionId_reset L E (snd (HieroTransactionId_init L n m)))) = Inr False"
proof -
  let ?w = "mLevelDBFile m"
  have m: "\<not> mInitalized_Id m" "\<not> fst (LevelDBWrapper_init L n ?w)"
    using assms(2) by (auto simp: HieroTransactionId_init_def split: if_splits prod.splits bool.splits)
  then have m1: "snd (HieroTransactionId_init L n m) = m\<lparr>mLevelDBFile := snd (LevelDBWrapper_init L n ?w)\<rparr>"
    by (cases "LevelDBWrapper_init L n ?w") (simp add: HieroTransactionId_init_def)
  let ?w1 = "snd (LevelDBWrapper_init L n ?w)" let ?w2 = "LevelDBWrapper_reset L ?w1"
  have w1: "\<not> mLevelDB ?w1" "folderLocked ?w1 = folderLocked ?w"
    using m(2) by (auto simp: LevelDBWrapper_init_def Let_def)
  have "\<not> fst (LevelDBWrapper_init L n ?w2)"
  proof (cases "folderLocked ?w2")
    case True
    then show ?thesis using init_locked [OF assms(1)] by simp
  next
    case False
    then have "fst (LevelDBWrapper_init L n ?w2) = fst (LevelDBWrapper_init L 0 (?w1\<lparr>disk := db_empty L\<rparr>))"
      and "\<not> fst (LevelDBWrapper_init L 0 (?w1\<lparr>disk := db_empty L\<rparr>))"
      using w1(1) by (auto simp: LevelDBWrapper_reset_def LevelDBWrapper_exit_def LevelDBWrapper_init_def Let_def)
    then show ?thesis by simp
  qed
  then show ?thesis unfolding m1 using m(1)
    by (cases "LevelDBWrapper_init L n ?w2") (simp add: HieroTransactionId_init_def HieroTransactionId_reset_def)
qed

lemma getBlock_keeps_ids: "FileBased_getBlock E fuel n c = Some (r, c') \<Longrightarrow> mMessageIdsCache c' = mMessageIdsCache c"
  by (auto simp: FileBased_getBlock_def Let_def put_shared_def chain_readInt32_def chain_updateUint32_def
      split: if_splits prod.splits option.splits sum.splits)

lemma init_state_keeps_ids: "init_state E fuel b c = Some (r, c') \<Longrightarrow> mMessageIdsCache c' = mMessageIdsCache c"
  by (auto simp: init_state_def FileBased_loadStateFromBlockCache_def bindF_def liftF_def chain_updateUint32_def
      chain_updateUint64_def split: if_splits prod.splits option.splits sum.splits bool.splits dest!: getBlock_keeps_ids)

lemma init_publicKeys_keeps:
  "init_publicKeys E b c = (r, c') \<Longrightarrow> mMessageIdsCache c' = mMessageIdsCache c \<and> mBlockchainState c' = mBlockchainState c"
  by (auto simp: init_publicKeys_def Let_def split: prod.splits sum.splits)

lemma init_readStates_keeps: "init_readStates E c = (r, c') \<Longrightarrow> c' = c"
  by (auto simp: init_readStates_def bindS_def chain_readInt32_def split: prod.splits sum.splits)

lemma init_state_damaged:
  assumes "fst (State_init (ce_L E) 192 (mBlockchainState c)) = Inr False"
  shows "\<exists>c'. init_state E fuel b c = Some (Inl (Gradido ClassNotInitalized), c')"
proof -
  obtain st where st: "State_init (ce_L E) 192 (mBlockchainState c) = (Inr False, st)"
    using assms by (cases "State_init (ce_L E) 192 (mBlockchainState c)") simp
  then have "\<not> mInitalized_State st"
    by (auto simp: State_init_def split: if_splits prod.splits bool.splits)
  then show ?thesis using st
    by (simp add: init_state_def FileBased_loadStateFromBlockCache_def bindF_def liftF_def chain_updateUint32_def
        State_updateState_uint32_def State_reset_def)
qed

lemma init_messageIds_damaged:
  assumes "leveldb_laws (ce_L E)" and "fst (HieroTransactionId_init (ce_L E) (10 * mega_bytes) (mMessageIdsCache c)) = Inr False"
  shows "\<exists>c'. init_messageIds E fuel last20 c = Some (Inl (Gradido ClassNotInitalized), c')"
proof -
  obtain m where m: "HieroTransactionId_init (ce_L E) (10 * mega_bytes) (mMessageIdsCache c) = (Inr False, m)"
    using assms(2) by (cases "HieroTransactionId_init (ce_L E) (10 * mega_bytes) (mMessageIdsCache c)") simp
  then have "fst (HieroTransactionId_init (ce_L E) (10 * mega_bytes) (HieroTransactionId_reset (ce_L E) (ce_M E) m)) = Inr False"
    using init_twice_fails [OF assms, of "ce_M E"] by simp
  then show ?thesis using m
    by (cases "HieroTransactionId_init (ce_L E) (10 * mega_bytes) (HieroTransactionId_reset (ce_L E) (ce_M E) m)")
      (simp add: init_messageIds_def)
qed

section \<open>Properties\<close>



text \<open>C0: A blockchain does not recover from a database that does not open: when the state values or the message
  ids cannot be opened at the start, the code that should reset and rebuild them ends in an exception, so
  \<open>init\<close> never answers and the community is not started. The reset opens a fresh database without marking the
  state as initialised, and the second \<open>init\<close> of the message ids finds the folder locked by the reset.\<close>

theorem FileBased_init_no_recovery:
  assumes "leveldb_laws (ce_L E)"
    and "fst (State_init (ce_L E) 192 (mBlockchainState c)) = Inr False \<or>
      fst (HieroTransactionId_init (ce_L E) (10 * mega_bytes) (mMessageIdsCache c)) = Inr False"
  shows "FileBased_init E fuel last20 last1500 allTransactions resetBlockIndices c \<noteq> Some (Inr b, c')"
proof
  assume init: "FileBased_init E fuel last20 last1500 allTransactions resetBlockIndices c = Some (Inr b, c')"
  then obtain rm c1 where 1: "init_publicKeys E resetBlockIndices c = (Inr rm, c1)"
    by (cases "init_publicKeys E resetBlockIndices c")
      (auto simp: FileBased_init_def bindF_def liftF_def split: if_splits sum.splits)
  obtain c2 where 2: "init_state E fuel rm c1 = Some (Inr (), c2)"
    using init 1 by (auto simp: FileBased_init_def bindF_def liftF_def split: if_splits sum.splits option.splits prod.splits)
  obtain c3 where 3: "init_readStates E c2 = (Inr (), c3)"
    using init 1 2 by (auto simp: FileBased_init_def bindF_def liftF_def split: if_splits sum.splits option.splits prod.splits)
  obtain c4 where 4: "init_messageIds E fuel last20 c3 = Some (Inr (), c4)"
    using init 1 2 3 by (auto simp: FileBased_init_def bindF_def liftF_def split: if_splits sum.splits option.splits prod.splits)
  have "mMessageIdsCache c3 = mMessageIdsCache c" "mBlockchainState c1 = mBlockchainState c"
    using init_publicKeys_keeps [OF 1] init_state_keeps_ids [OF 2] init_readStates_keeps [OF 3] by simp_all
  with assms(2) show False
    using init_state_damaged [where E = E and c = c1 and fuel = fuel and b = rm] 2
      init_messageIds_damaged [OF assms(1), where c = c3 and fuel = fuel and ?last20.0 = last20] 4 by auto
qed

text \<open>\<open>findByMessageId\<close> answers with the first transaction of the blockchain for every message id it knows: the
  truth value of \<open>has\<close> is taken as the number of the transaction. Whatever number \<open>nr\<close> was stored with the
  message id, the answer has the bytes of number 1.\<close>

theorem FileBased_findByMessageId_first:
  assumes "chain_rep E 1 a p c" and "keeps_block E" and "log_lines a \<noteq> []"
    and "chain_addMessageId E messageId nr c = (Inr (), c1)"
    and "\<And>i x. fst (ec_get (ce_M E) i (ec_add (ce_M E) i nr x)) = Some nr"
  shows "\<exists>i c'. FileBased_findByMessageId E fuel searchAll messageId c1 = Some (Inr (Some i), c') \<and>
    nt_serialized (fb_entries c' ! i) = log_lines a ! 0"
proof -
  have rep1: "chain_rep E 1 a p c1"
    using same_blocks_rep [OF _ assms(1)] same_blocks_ids [where E = E and p = p and c = c and m = messageId and nr = nr]
      assms(4) by simp
  have "\<exists>m. HieroTransactionId_has (ce_L E) (ce_M E) (ce_base64 E) (ce_deserId E) messageId (mMessageIdsCache c1) = (Inr True, m)"
  proof -
    from assms(4) obtain i x where i: "HieroTransactionId_fromProtobuf (ce_deserId E) messageId = Inr i"
      "mTransactionNrs (mMessageIdsCache c1) = ec_add (ce_M E) i nr x"
      by (auto simp: chain_addMessageId_def HieroTransactionId_add_def Let_def split: prod.splits sum.splits option.splits if_splits)
    then have "fst (ec_get (ce_M E) i (mTransactionNrs (mMessageIdsCache c1))) = Some nr" using assms(5) by simp
    then show ?thesis using i(1)
      by (cases "ec_get (ce_M E) i (mTransactionNrs (mMessageIdsCache c1))") (simp add: HieroTransactionId_has_def)
  qed
  then obtain m where m: "HieroTransactionId_has (ce_L E) (ce_M E) (ce_base64 E) (ce_deserId E) messageId (mMessageIdsCache c1) = (Inr True, m)" by blast
  have "chain_rep E 1 a p (c1\<lparr>mMessageIdsCache := m\<rparr>)" using rep1 by (simp add: chain_rep_def)
  from getTransactionForId_rep [OF this assms(2), of 1 fuel] assms(3) obtain r c' where
    "FileBased_getTransactionForId E fuel 1 (c1\<lparr>mMessageIdsCache := m\<rparr>) = Some (Inr r, c')"
    "\<exists>i. r = Some i \<and> nt_serialized (fb_entries c' ! i) = log_lines a ! 0" by auto
  then show ?thesis using m by (auto simp: FileBased_findByMessageId_def)
qed

text \<open>The scan for trigger events does not remove the event of a redeemed transfer: it computes the date of the
  event from the confirmation of the redemption, not of the transfer. Unless the two dates are the same by
  chance, the event of the transfer stays and will later reverse a transfer that was redeemed.\<close>

theorem FileBased_rescan_keeps_redeemed:
  assumes "ct_of_bytes (ce_ct E) (nt_serialized (fb_entries c ! i)) = Inr redeem"
    and "ct_kind (ce_ct E) redeem = REDEEM_DEFERRED_TRANSFER transferNr"
    and "FileBased_getTransactionForId E fuel transferNr c = Some (Inr (Some j), c1)"
    and "ct_of_bytes (ce_ct E) (nt_serialized (fb_entries c1 ! j)) = Inr transfer"
    and "ct_kind (ce_ct E) transfer = DEFERRED_TRANSFER"
    and "\<And>nr t. te_target (ce_trigger E) (ce_event E nr t) = t"
    and "ct_timeoutAt (ce_ct E) redeem transfer \<noteq> ct_timeoutAt (ce_ct E) transfer transfer"
    and "(ct_timeoutAt (ce_ct E) transfer transfer, e) \<in> set (mTransactionTriggerEvents (mTransactionTriggerEventsCache c1))"
  shows "\<exists>r c2. rescan_entry E fuel i c = Some (r, c2) \<and>
    (ct_timeoutAt (ce_ct E) transfer transfer, e) \<in> set (mTransactionTriggerEvents (mTransactionTriggerEventsCache c2))"
proof -
  let ?e = "ce_event E transferNr (ct_timeoutAt (ce_ct E) redeem transfer)"
  obtain r tc where rm: "TransactionTriggerEvent_remove (ce_L E) (ce_trigger E) ?e (mTransactionTriggerEventsCache c1) = (r, tc)" by fastforce
  have erase: "(k, v) \<in> set m \<Longrightarrow> \<not> P k v \<Longrightarrow> (k, v) \<in> set (mm_erase_first P m)" for k v P m
    by (induction P m rule: mm_erase_first.induct) auto
  have "(ct_timeoutAt (ce_ct E) transfer transfer, e) \<in> set (mTransactionTriggerEvents tc)"
    using rm assms(6-8)
    by (auto simp: TransactionTriggerEvent_remove_def TransactionTriggerEvent_updateState_def Let_def
        split: if_splits prod.splits intro!: erase)
  then show ?thesis using assms(1-5) rm
    by (cases r) (auto simp: rescan_entry_def Let_def FileBased_removeTransactionTriggerEvent_def chain_updateTrigger_def
        bindF_def liftF_def returnF_def)
qed

end
