(* ===== verification/ChainEx.thy ===== *)
theory ChainEx
  imports Chain
begin

text \<open>A blockchain with lists of bytes as transactions, for the examples of the properties of \<open>Chain\<close>.\<close>

definition demo_ct :: "(bytes, int) ct_ops" where
  "demo_ct = \<lparr>ct_confirmed = (\<lambda>l. \<lparr>ct_id = ucast (hd l), ct_signatures = [l]\<rparr>), ct_messageId = (\<lambda>l. l),
     ct_addresses = (\<lambda>l. [''key'']), ct_serialized = (\<lambda>l. l), ct_index = (\<lambda>l. example_index (ucast (hd l)) 0),
     ct_kind = (\<lambda>l. if l ! 1 = 1 then DEFERRED_TRANSFER else if l ! 1 = 2 then REDEEM_DEFERRED_TRANSFER (ucast (l ! 2)) else OTHER_TYPE),
     ct_timeoutAt = (\<lambda>l m. uint (l ! 3) + uint (m ! 4)), ct_of_bytes = Inr\<rparr>"

definition demo_chain :: "((string \<times> string) list, (u64 \<times> nat) option, (u32 \<times> nat) list, (string \<times> u64) list, (bytes \<times> u64) list,
    int, u64 \<times> int, int, bytes, bytes, nat, (int \<times> nat) list) chain_env" where
  "demo_chain = \<lparr>ce_L = alist_leveldb, ce_octet = (\<lambda>s. map of_char s), ce_block = example_env, ce_X = one_cache,
     ce_B = keep_cache, ce_M = keep_cache, ce_base64 = hex_text, ce_deserId = (\<lambda>b. Inr (Some (hex_text b))),
     ce_H = keep_cache, ce_sigOctet = (\<lambda>s. s),
     ce_trigger = \<lparr>te_target = snd, te_seconds = (\<lambda>t. t), te_same = (=), te_enc = (\<lambda>_. []), te_dec = (\<lambda>_. Inr None),
       te_ofp = (\<lambda>t. t), te_tp = (\<lambda>t. t)\<rparr>,
     ce_event = Pair, ce_ct = demo_ct, ce_enum = (\<lambda>_. True), ce_deser = (\<lambda>b. Inr (Some b)), ce_mkEntry = (\<lambda>l cur. Inr (example_index (ucast (hd l)) cur)),
     ce_itM = plain_iterate, ce_itE = plain_iterate, ce_itCM = plain_iterate, ce_itCE = plain_iterate, ce_IV = plain_interval,
     ce_none = 0, ce_page = \<lparr>pg_size = int, pg_setSize = (\<lambda>n _. nat n), pg_skipEntriesCount = (\<lambda>_. 0),
       pg_hasCapacityLeft = (\<lambda>n k. n = 0 \<or> k < n)\<rparr>,
     ce_held = map snd, ce_names = (\<lambda>_ _. []), ce_confirm = (\<lambda>tx _ _ c. (Inr (Some tx), c)), ce_runPast = (\<lambda>_ c. (Inr (), c)),
     ce_validate = (\<lambda>_ _ _. Inr ())\<rparr>"

definition demo_block :: "(u64 \<times> nat) option block_sys" where
  "demo_block = snd (CacheBlock_new example_env one_cache ''g'' 1 no_files)"

definition demo_start :: "((string \<times> string) list, (u64 \<times> nat) option, (u32 \<times> nat) list, (string \<times> u64) list, (bytes \<times> u64) list,
    int, u64 \<times> int) FileBased" where
  "demo_start = \<lparr>mExitCalled_FB = False, mCommunityId_FB = ''c'', mHieroTopicId_FB = ''0.0.1'', mFolderPath_FB = ''g'',
     fb_fs = snd (blockFile demo_block), fb_blocks = [block_of demo_block], fb_entries = [], fb_tasks = [],
     mTaskObserver = \<lparr>mBlockWriteTasks = [], mTransactionsFromPendingTasks = []\<rparr>,
     mPublicKeysIndex = snd (Dictionary_init alist_leveldb (\<lambda>s. map of_char s) 0 (Dictionary_new ''k'' [])),
     mBlockchainState = snd (State_init alist_leveldb 0 (State_new ''s'' [])),
     mMessageIdsCache = HieroTransactionId_new keep_cache ''m'' [],
     mTransactionTriggerEventsCache = TransactionTriggerEvent_new ''t'' [],
     mCachedBlocks = [(1, 0)], mTransactionHashCache = TransactionHash_new keep_cache ''c'',
     mCommunityServer = Some 5, mHieroMessageListener = None, notified = []\<rparr>"

lemma demo_view: "block_view demo_start 0 = demo_block"
  by (simp add: block_view_def demo_start_def block_of_def) (simp add: demo_block_def CacheBlock_new_def case_prod_beta)

lemma demo_state: "State_readInt32State alist_leveldb ''LAST_BLOCK_NR'' 1 (mBlockchainState demo_start) = Inr 1"
  by (simp add: demo_start_def State_readInt32State_def State_init_def State_new_def LevelDBWrapper_init_def LevelDBWrapper_new_def
      alist_leveldb_def init_loop_not_ioerror LevelDBWrapper_getValueForKey_def)

lemma demo_rep: "chain_rep demo_chain 1 empty_log 0 demo_start"
proof -
  obtain r where "CacheBlock_new example_env one_cache ''g'' 1 no_files = (r, demo_block)"
    by (cases "CacheBlock_new example_env one_cache ''g'' 1 no_files") (simp add: demo_block_def)
  from CacheBlock_new_rep(2) [OF example_env_ok _ _ this] have "block_rep example_env one_cache 1 empty_log demo_block" by simp
  then show ?thesis using demo_view demo_state
    by (simp add: chain_rep_def demo_chain_def) (simp add: demo_start_def keep_cache_def)
qed

lemma demo_keeps: "keeps_block demo_chain"
  by (simp add: keeps_block_def demo_chain_def keep_cache_def)

definition demo_line :: bytes where
  "demo_line = 1 # replicate 30 7"

lemma demo_push: "push_ok (ce_block demo_chain) 1 \<lparr>nt_index = (ct_index (ce_ct demo_chain) demo_line)\<lparr>ne_fileCursor := - 10, ne_addressIndices := []\<rparr>,
        nt_serialized = ct_serialized (ce_ct demo_chain) demo_line\<rparr> empty_log"
  by (simp add: push_ok_def demo_chain_def demo_ct_def demo_line_def empty_log_def example_env_def example_index_def entry_nr_def nr_at_def)

definition demo_transfer :: bytes where
  "demo_transfer = [1, 1, 0, 5, 9] @ replicate 26 7"

definition demo_redeem :: bytes where
  "demo_redeem = [2, 2, 1, 6, 0] @ replicate 26 7"

lemma demo_transfer_push: "push_ok (ce_block demo_chain) 1 \<lparr>nt_index = (ct_index (ce_ct demo_chain) demo_transfer)\<lparr>ne_fileCursor := - 10, ne_addressIndices := []\<rparr>,
        nt_serialized = ct_serialized (ce_ct demo_chain) demo_transfer\<rparr> empty_log"
  by (simp add: push_ok_def demo_chain_def demo_ct_def demo_transfer_def empty_log_def example_env_def example_index_def entry_nr_def nr_at_def)

lemmas demo_laws = demo_rep demo_keeps

lemma demo_fields: "leveldb_laws (ce_L demo_chain)" "\<not> log_pending empty_log"
  "ce_confirm demo_chain tx m t c = (Inr (Some tx), c)" "snd (ce_runPast demo_chain tx c) = c"
  "length (ct_addresses (ce_ct demo_chain) tx) < 256" "ct_serialized (ce_ct demo_chain) tx = tx"
  by (simp_all add: demo_chain_def demo_ct_def empty_log_def alist_leveldb_laws)

text \<open>The blockchain after one confirmed transaction.\<close>

definition demo_confirmed where
  "demo_confirmed line = snd (the (FileBased_createAndAddConfirmedTransaction demo_chain 1 (Some line) (Some [9]) 0 demo_start))"

lemma demo_run:
  "FileBased_createAndAddConfirmedTransaction demo_chain 1 (Some demo_line) (Some [9]) 0 demo_start = Some (Inr True, demo_confirmed demo_line)"
  "FileBased_createAndAddConfirmedTransaction demo_chain 1 (Some demo_transfer) (Some [9]) 0 demo_start = Some (Inr True, demo_confirmed demo_transfer)"
proof -
  have ok: "map_option fst (FileBased_createAndAddConfirmedTransaction demo_chain 1 (Some demo_line) (Some [9]) 0 demo_start) = Some (Inr True)"
    "map_option fst (FileBased_createAndAddConfirmedTransaction demo_chain 1 (Some demo_transfer) (Some [9]) 0 demo_start) = Some (Inr True)"
    by code_simp+
  show "FileBased_createAndAddConfirmedTransaction demo_chain 1 (Some demo_line) (Some [9]) 0 demo_start = Some (Inr True, demo_confirmed demo_line)"
    using ok(1) by (auto simp: demo_confirmed_def)
  show "FileBased_createAndAddConfirmedTransaction demo_chain 1 (Some demo_transfer) (Some [9]) 0 demo_start = Some (Inr True, demo_confirmed demo_transfer)"
    using ok(2) by (auto simp: demo_confirmed_def)
qed

lemma demo_confirmed_rep: "chain_rep demo_chain 1 (empty_log\<lparr>log_lines := [demo_line]\<rparr>) 0 (demo_confirmed demo_line)"
  using confirmed_rep [OF demo_laws demo_fields(1,2,3) _ _ _ _ demo_run(1)] demo_push demo_fields
  by (simp add: empty_log_def)



lemma FileBased_init_no_recovery_witness:
  "\<forall>b c'. FileBased_init demo_chain 1 \<lparr>flt_index = plain_filter (\<lambda>_. True), flt_page = 20\<rparr>
     \<lparr>flt_index = plain_filter (\<lambda>_. True), flt_page = 1500\<rparr> \<lparr>flt_index = plain_filter (\<lambda>_. True), flt_page = 0\<rparr> False
     (demo_start\<lparr>mBlockchainState := State_reset alist_leveldb (State_new ''s'' [])\<rparr>) \<noteq> Some (Inr b, c')"
proof (intro allI FileBased_init_no_recovery)
  show "leveldb_laws (ce_L demo_chain)" by (rule demo_fields)
  have "fst (State_init alist_leveldb 192 (State_reset alist_leveldb (State_new ''s'' []))) = Inr False" by code_simp
  then show "fst (State_init (ce_L demo_chain) 192 (mBlockchainState (demo_start\<lparr>mBlockchainState := State_reset alist_leveldb (State_new ''s'' [])\<rparr>))) = Inr False \<or>
    fst (HieroTransactionId_init (ce_L demo_chain) (10 * mega_bytes) (mMessageIdsCache (demo_start\<lparr>mBlockchainState := State_reset alist_leveldb (State_new ''s'' [])\<rparr>))) = Inr False"
    by (simp add: demo_chain_def)
qed

lemma FileBased_findByMessageId_first_witness:
  "\<exists>c1 i c'. chain_addMessageId demo_chain [3] 5 (demo_confirmed demo_line) = (Inr (), c1) \<and>
    FileBased_findByMessageId demo_chain 1 (\<lambda>_ _. None) [3] c1 = Some (Inr (Some i), c') \<and>
    nt_serialized (fb_entries c' ! i) = demo_line"
proof -
  have "fst (chain_addMessageId demo_chain [3] 5 (demo_confirmed demo_line)) = Inr ()" by code_simp
  then obtain c1 where c1: "chain_addMessageId demo_chain [3] 5 (demo_confirmed demo_line) = (Inr (), c1)"
    by (cases "chain_addMessageId demo_chain [3] 5 (demo_confirmed demo_line)") simp
  have "fst (ec_get (ce_M demo_chain) i (ec_add (ce_M demo_chain) i 5 x)) = Some 5" for i x
    by (simp add: demo_chain_def keep_cache_def)
  from FileBased_findByMessageId_first [OF demo_confirmed_rep demo_keeps _ c1 this] obtain i c' where
    "FileBased_findByMessageId demo_chain 1 (\<lambda>_ _. None) [3] c1 = Some (Inr (Some i), c')"
    "nt_serialized (fb_entries c' ! i) = demo_line" by fastforce
  with c1 show ?thesis by blast
qed

text \<open>A redemption of the deferred transfer of the blockchain, with the event of the transfer.\<close>

definition demo_redeemed where
  "demo_redeemed = (demo_confirmed demo_transfer)
     \<lparr>fb_entries := fb_entries (demo_confirmed demo_transfer) @ [\<lparr>nt_index = example_index 2 0, nt_serialized = demo_redeem\<rparr>],
      mTransactionTriggerEventsCache := (TransactionTriggerEvent_new ''t'' [])\<lparr>mTransactionTriggerEvents := [(14, (1, 14))]\<rparr>\<rparr>"

lemma FileBased_rescan_keeps_redeemed_witness:
  "\<exists>r c2. rescan_entry demo_chain 1 1 demo_redeemed = Some (r, c2) \<and>
    (14, (1, 14)) \<in> set (mTransactionTriggerEvents (mTransactionTriggerEventsCache c2))"
proof -
  have "map_option (\<lambda>(r, c). (r, nt_serialized (fb_entries c ! 0), mTransactionTriggerEvents (mTransactionTriggerEventsCache c)))
      (FileBased_getTransactionForId demo_chain 1 1 demo_redeemed) = Some (Inr (Some 0), demo_transfer, [(14, (1, 14))])"
    by code_simp
  then obtain c1 where c1: "FileBased_getTransactionForId demo_chain 1 1 demo_redeemed = Some (Inr (Some 0), c1)"
    "nt_serialized (fb_entries c1 ! 0) = demo_transfer" "mTransactionTriggerEvents (mTransactionTriggerEventsCache c1) = [(14, (1, 14))]"
    by auto
  have line: "nt_serialized (fb_entries demo_redeemed ! 1) = demo_redeem" by code_simp
  have ct: "ct_of_bytes (ce_ct demo_chain) x = Inr x" "ct_kind (ce_ct demo_chain) demo_redeem = REDEEM_DEFERRED_TRANSFER 1"
    "ct_kind (ce_ct demo_chain) demo_transfer = DEFERRED_TRANSFER" "ct_timeoutAt (ce_ct demo_chain) demo_redeem demo_transfer = 15"
    "ct_timeoutAt (ce_ct demo_chain) demo_transfer demo_transfer = 14" "te_target (ce_trigger demo_chain) (ce_event demo_chain nr t) = t" for x nr t
    by (simp_all add: demo_chain_def demo_ct_def demo_redeem_def demo_transfer_def)
  show ?thesis
    using FileBased_rescan_keeps_redeemed [where E = demo_chain and fuel = 1 and i = 1 and c = demo_redeemed
      and redeem = demo_redeem and transferNr = 1 and transfer = demo_transfer and e = "(1, 14)", OF _ _ c1(1)] line ct c1
    by auto
qed

end
