(* ===== verification/Apollo.thy ===== *)
theory Apollo
  imports Json IndexCache
begin

text \<open>
  \<open>model::Apollo\<close> (\<open>src/model/Apollo/\<close>): the list of transactions of an account as the wallet shows it. The
  roles of \<open>createTransaction\<close> make a row of a confirmed transaction, \<open>TransactionList\<close> chains the rows with
  the balance before each of them and the decay since.
\<close>

section \<open>Data\<close>

text \<open>
  What the library tells of a confirmed transaction: its memos (plain or encrypted), the balances it leaves,
  the keys that signed it and its body. Amounts \<open>'g\<close> and times \<open>'t\<close> are types of the library.
\<close>

datatype 'g wallet_body =
    Creation bytes 'g
  | Transfer bytes 'g bytes
  | DeferredTransfer bytes 'g bytes
  | RedeemDeferredTransfer u64 bytes 'g bytes
  | TimeoutDeferredTransfer u64
  | CommunityRoot
  | RegisterAddress
  | OtherBody

record ('g, 't) wallet_tx =
  wt_id :: u64
  wt_confirmedAt :: 't
  wt_memos :: "(bool \<times> string) list"
  wt_accountBalance :: "bytes \<Rightarrow> 'g"
  wt_balances :: "(bytes \<times> 'g) list"
  wt_signers :: "bytes list"
  wt_body :: "'g wallet_body"

text \<open>
  A filter as the node sets it. The filter function says of an entry whether to use it and whether to stop,
  and may count.
\<close>

datatype type_filter = ANY_TYPE | ONLY_CREATION | ONLY_REGISTER_ADDRESS

record 'e api_filter =
  af_minTransactionNr :: u64
  af_maxTransactionNr :: u64
  af_size :: int
  af_page :: int
  af_searchDirection :: SearchDirection
  af_involvedPublicKey :: "bytes option"
  af_transactionType :: type_filter
  af_filterFunction :: "('e \<Rightarrow> nat \<Rightarrow> (bool \<times> bool) result \<times> nat) option"

datatype WalletType =
    WT_NONE | WT_CREATE | WT_SEND | WT_RECEIVE | WT_DECAY | WT_LINK_SEND | WT_LINK_RECEIVE | WT_LINK_CHARGE
  | WT_LINK_DELETE | WT_LINK_CHANGE | WT_LINK_TIMEOUT

fun WalletType_name :: "WalletType \<Rightarrow> string" where
  "WalletType_name WT_NONE = ''NONE''"
| "WalletType_name WT_CREATE = ''CREATE''"
| "WalletType_name WT_SEND = ''SEND''"
| "WalletType_name WT_RECEIVE = ''RECEIVE''"
| "WalletType_name WT_DECAY = ''DECAY''"
| "WalletType_name WT_LINK_SEND = ''LINK_SEND''"
| "WalletType_name WT_LINK_RECEIVE = ''LINK_RECEIVE''"
| "WalletType_name WT_LINK_CHARGE = ''LINK_CHARGE''"
| "WalletType_name WT_LINK_DELETE = ''LINK_DELETE''"
| "WalletType_name WT_LINK_CHANGE = ''LINK_CHANGE''"
| "WalletType_name WT_LINK_TIMEOUT = ''LINK_TIMEOUT''"

record ('g, 't) Decay =
  mDecayStart :: 't
  mDecayEnd :: 't
  mDecayAmount :: 'g

record ('g, 't) WalletTransaction =
  mType_Wallet :: WalletType
  mAmount :: 'g
  mBalance :: 'g
  mPreviousBalance :: 'g
  mPubkey :: string
  mFirstName :: string
  mLastName :: string
  mMemo :: string
  mId :: u64
  mDate :: 't
  mDecay :: "('g, 't) Decay option"
  mHasChange :: bool
  mChangeAmount :: 'g
  mChangePubkey :: string

text \<open>
  What the list uses: the blockchain \<open>'b\<close> in the state \<open>'n\<close> of the node, with entries \<open>'e\<close>; the arithmetic of
  the library for amounts, its decay and its texts; memory that is not initialised (\<open>wo_junk\<close>); the
  allocation of the vector of rows (\<open>wo_reserve\<close>).
\<close>

record ('n, 'b, 'e, 'g, 't) wallet_ops =
  wo_findAll :: "'b \<Rightarrow> 'e api_filter \<Rightarrow> 'n \<Rightarrow> ('e list \<times> nat) result \<times> 'n"
  wo_getTransactionForId :: "'b \<Rightarrow> u64 \<Rightarrow> 'n \<Rightarrow> 'e option result \<times> 'n"
  wo_getAddressType :: "'b \<Rightarrow> bytes option \<Rightarrow> 'n \<Rightarrow> string result \<times> 'n"
  wo_getStartDate :: "'b \<Rightarrow> 't"
  wo_confirmed :: "'e \<Rightarrow> ('g, 't) wallet_tx result"
  wo_clock :: "'n \<Rightarrow> 't"
  wo_skipEntriesCount :: "int \<Rightarrow> int \<Rightarrow> int"
  wo_reserve :: "int \<Rightarrow> unit result"
  wo_zero :: 'g
  wo_add :: "'g \<Rightarrow> 'g \<Rightarrow> 'g"
  wo_sub :: "'g \<Rightarrow> 'g \<Rightarrow> 'g"
  wo_negated :: "'g \<Rightarrow> 'g"
  wo_positive :: "'g \<Rightarrow> bool"
  wo_calculateDecay :: "'g \<Rightarrow> 't \<Rightarrow> 't \<Rightarrow> 'g"
  wo_amountText :: "'g \<Rightarrow> string"
  wo_epoch :: 't
  wo_seconds :: "'t \<Rightarrow> 't \<Rightarrow> int"
  wo_dateText :: "'t \<Rightarrow> string"
  wo_convertToHex :: "bytes \<Rightarrow> string"
  wo_junk :: bool

section \<open>Decay and Transaction\<close>

definition Decay_new :: "('n, 'b, 'e, 'g, 't, 'z) wallet_ops_scheme \<Rightarrow> 't \<Rightarrow> 't \<Rightarrow> 'g \<Rightarrow> ('g, 't) Decay" where
  "Decay_new W decayStart decayEnd startBalance =
     \<lparr>mDecayStart = decayStart, mDecayEnd = decayEnd,
      mDecayAmount = wo_sub W (wo_calculateDecay W startBalance decayStart decayEnd) startBalance\<rparr>"

definition Decay_toJson :: "('n, 'b, 'e, 'g, 't, 'z) wallet_ops_scheme \<Rightarrow> ('g, 't) Decay \<Rightarrow> json" where
  "Decay_toJson W d =
     JObj [(''decay'', JStr (wo_amountText W (mDecayAmount d))), (''start'', JStr (wo_dateText W (mDecayStart d))),
       (''end'', JStr (wo_dateText W (mDecayEnd d))), (''duration'', JInt (wo_seconds W (mDecayStart d) (mDecayEnd d))),
       (''__typename'', JStr ''Decay'')]"

definition blank_transaction :: "('n, 'b, 'e, 'g, 't, 'z) wallet_ops_scheme \<Rightarrow> WalletType \<Rightarrow> u64 \<Rightarrow> ('g, 't) WalletTransaction" where
  "blank_transaction W ty i =
     \<lparr>mType_Wallet = ty, mAmount = wo_zero W, mBalance = wo_zero W, mPreviousBalance = wo_zero W, mPubkey = [],
      mFirstName = [], mLastName = [], mMemo = [], mId = i, mDate = wo_epoch W, mDecay = None, mHasChange = False,
      mChangeAmount = wo_zero W, mChangePubkey = []\<rparr>"

text \<open>A plain memo ends the constructor: the members behind it keep their initial values.\<close>

definition WalletTransaction_new ::
    "('n, 'b, 'e, 'g, 't, 'z) wallet_ops_scheme \<Rightarrow> ('g, 't) wallet_tx \<Rightarrow> bytes \<Rightarrow> ('g, 't) WalletTransaction" where
  "WalletTransaction_new W tx pubkey =
     (case find fst (wt_memos tx) of
        Some (_, memo) \<Rightarrow> (blank_transaction W WT_NONE 0)\<lparr>mMemo := memo\<rparr>
      | None \<Rightarrow> (blank_transaction W WT_NONE 0)
          \<lparr>mMemo := (if wt_memos tx \<noteq> [] then ''memo is encrypted'' else []), mId := wt_id tx,
           mDate := wt_confirmedAt tx, mBalance := wt_accountBalance tx pubkey\<rparr>)"

definition WalletTransaction_calculateDecay ::
    "('n, 'b, 'e, 'g, 't, 'z) wallet_ops_scheme \<Rightarrow> 't \<Rightarrow> 't \<Rightarrow> 'g \<Rightarrow> ('g, 't) WalletTransaction \<Rightarrow> ('g, 't) WalletTransaction" where
  "WalletTransaction_calculateDecay W decayStart decayEnd startBalance t =
     t\<lparr>mDecay := Some (Decay_new W decayStart decayEnd startBalance)\<rparr>"

text \<open>The row of the decay up to now; \<open>mHasChange\<close> is not initialised here.\<close>

definition WalletTransaction_decay ::
    "('n, 'b, 'e, 'g, 't, 'z) wallet_ops_scheme \<Rightarrow> 't \<Rightarrow> 't \<Rightarrow> 'g \<Rightarrow> ('g, 't) WalletTransaction" where
  "WalletTransaction_decay W decayStart decayEnd startBalance =
     (let d = Decay_new W decayStart decayEnd startBalance
      in (blank_transaction W WT_DECAY (- 1))
           \<lparr>mDate := decayEnd, mDecay := Some d, mAmount := mDecayAmount d, mHasChange := wo_junk W,
            mBalance := wo_add W startBalance (mDecayAmount d), mPreviousBalance := startBalance\<rparr>)"

definition WalletTransaction_setChange ::
    "('n, 'b, 'e, 'g, 't, 'z) wallet_ops_scheme \<Rightarrow> 'g \<Rightarrow> bytes \<Rightarrow> ('g, 't) WalletTransaction \<Rightarrow> ('g, 't) WalletTransaction" where
  "WalletTransaction_setChange W changeAmount changePubkey t =
     t\<lparr>mHasChange := True, mChangeAmount := changeAmount, mChangePubkey := wo_convertToHex W changePubkey\<rparr>"

definition WalletTransaction_setPubkey ::
    "('n, 'b, 'e, 'g, 't, 'z) wallet_ops_scheme \<Rightarrow> bytes \<Rightarrow> ('g, 't) WalletTransaction \<Rightarrow> ('g, 't) WalletTransaction" where
  "WalletTransaction_setPubkey W publicKey t = t\<lparr>mPubkey := wo_convertToHex W publicKey\<rparr>"

text \<open>\<open>setLastName\<close> sets the first name.\<close>

definition WalletTransaction_setLastName :: "string \<Rightarrow> ('g, 't) WalletTransaction \<Rightarrow> ('g, 't) WalletTransaction" where
  "WalletTransaction_setLastName lastName t = t\<lparr>mFirstName := lastName\<rparr>"

definition WalletTransaction_toJson ::
    "('n, 'b, 'e, 'g, 't, 'z) wallet_ops_scheme \<Rightarrow> ('g, 't) WalletTransaction \<Rightarrow> json" where
  "WalletTransaction_toJson W t =
     JObj ([(''id'', JInt (sint (mId t))), (''typeId'', JStr (WalletType_name (mType_Wallet t))),
        (''amount'', JStr (wo_amountText W (mAmount t))), (''balance'', JStr (wo_amountText W (mBalance t))),
        (''previousBalance'', JStr (wo_amountText W (mPreviousBalance t))), (''memo'', JStr (mMemo t)),
        (''linkedUser'',
           if mPubkey t \<noteq> [] \<or> mFirstName t \<noteq> [] \<or> mLastName t \<noteq> [] then
             JObj [(''pubkey'', JStr (mPubkey t)), (''firstName'', JStr (mFirstName t)), (''lastName'', JStr (mLastName t)),
               (''__typename'', JStr ''User'')]
           else JNull),
        (''change'',
           if mHasChange t then
             JObj [(''amount'', JStr (wo_amountText W (mChangeAmount t))), (''pubkey'', JStr (mChangePubkey t)),
               (''__typename'', JStr ''Change'')]
           else JNull),
        (''balanceDate'', JStr (wo_dateText W (mDate t)))] @
       (case mDecay t of None \<Rightarrow> [] | Some d \<Rightarrow> [(''decay'', Decay_toJson W d)]) @
       [(''__typename'', JStr ''Transaction'')])"

section \<open>The roles\<close>

text \<open>A null pointer for the deferred transfer is dereferenced.\<close>

definition calculateDecayedDeferredTransferAmount ::
    "('n, 'b, 'e, 'g, 't, 'z) wallet_ops_scheme \<Rightarrow> 'b \<Rightarrow> u64 \<Rightarrow> 't \<Rightarrow> 'n \<Rightarrow> (bytes \<times> 'g) result \<times> 'n" where
  "calculateDecayedDeferredTransferAmount W b transactionNr targetDate =
     (if transactionNr = 0 then throwS (Gradido NullPointer)
      else bindS (wo_getTransactionForId W b transactionNr) (\<lambda>entry.
        case entry of
          None \<Rightarrow> throwS UndefinedBehaviour
        | Some e \<Rightarrow>
            (case wo_confirmed W e of
               Inl x \<Rightarrow> throwS x
             | Inr tx \<Rightarrow>
                 (case wt_body tx of
                    DeferredTransfer sender amount _ \<Rightarrow>
                      returnS (sender, wo_calculateDecay W amount (wt_confirmedAt tx) targetDate)
                  | _ \<Rightarrow> throwS AssertFailed))))"

definition calculateChange ::
    "('n, 'b, 'e, 'g, 't, 'z) wallet_ops_scheme \<Rightarrow> 'b \<Rightarrow> u64 \<Rightarrow> 't \<Rightarrow> 'g \<Rightarrow> 'n \<Rightarrow> (bytes \<times> 'g) result \<times> 'n" where
  "calculateChange W b deferredTransferTransactionNr targetDate amount =
     bindS (calculateDecayedDeferredTransferAmount W b deferredTransferTransactionNr targetDate)
       (\<lambda>(key, balance). returnS (key, wo_sub W balance amount))"

definition CreationTransactionRole_createTransaction ::
    "('n, 'b, 'e, 'g, 't, 'z) wallet_ops_scheme \<Rightarrow> ('g, 't) wallet_tx \<Rightarrow> bytes \<Rightarrow> ('g, 't) WalletTransaction result" where
  "CreationTransactionRole_createTransaction W tx pubkey =
     (case wt_body tx of
        Creation _ amount \<Rightarrow>
          (case wt_signers tx of
             [] \<Rightarrow> Inl UndefinedBehaviour
           | signer # _ \<Rightarrow>
               Inr (WalletTransaction_setPubkey W signer
                 (WalletTransaction_setLastName ''Akademie''
                   ((WalletTransaction_new W tx pubkey)\<lparr>mType_Wallet := WT_CREATE, mAmount := amount, mFirstName := ''Gradido''\<rparr>))))
      | _ \<Rightarrow> Inl AssertFailed)"

definition TransferTransactionRole_createTransaction ::
    "('n, 'b, 'e, 'g, 't, 'z) wallet_ops_scheme \<Rightarrow> ('g, 't) wallet_tx \<Rightarrow> bytes \<Rightarrow> ('g, 't) WalletTransaction result" where
  "TransferTransactionRole_createTransaction W tx pubkey =
     (case wt_body tx of
        Transfer sender amount recipient \<Rightarrow>
          let result = WalletTransaction_new W tx pubkey in
          if recipient = pubkey then
            Inr (WalletTransaction_setPubkey W sender (result\<lparr>mType_Wallet := WT_RECEIVE, mAmount := amount\<rparr>))
          else if sender = pubkey then
            Inr (WalletTransaction_setPubkey W recipient (result\<lparr>mType_Wallet := WT_SEND, mAmount := wo_negated W amount\<rparr>))
          else Inl (Gradido InvalidData)
      | _ \<Rightarrow> Inl AssertFailed)"

definition DeferredTransferTransactionRole_createTransaction ::
    "('n, 'b, 'e, 'g, 't, 'z) wallet_ops_scheme \<Rightarrow> ('g, 't) wallet_tx \<Rightarrow> bytes \<Rightarrow> ('g, 't) WalletTransaction result" where
  "DeferredTransferTransactionRole_createTransaction W tx pubkey =
     (case wt_body tx of
        DeferredTransfer sender amount recipient \<Rightarrow>
          let result = WalletTransaction_new W tx pubkey in
          if recipient = pubkey then
            Inr (WalletTransaction_setPubkey W sender (result\<lparr>mType_Wallet := WT_LINK_CHARGE, mAmount := amount\<rparr>))
          else if sender = pubkey then
            Inr (WalletTransaction_setPubkey W recipient (result\<lparr>mType_Wallet := WT_LINK_SEND, mAmount := wo_negated W amount\<rparr>))
          else Inl (Gradido InvalidData)
      | _ \<Rightarrow> Inl AssertFailed)"

text \<open>The name of the address type of a deferred transfer, as the library prints it.\<close>

definition deferred_address :: string where
  "deferred_address = ''DEFERRED_TRANSFER''"

definition RedeemDeferredTransferTransactionRole_createTransaction ::
    "('n, 'b, 'e, 'g, 't, 'z) wallet_ops_scheme \<Rightarrow> 'b \<Rightarrow> string \<Rightarrow> ('g, 't) wallet_tx \<Rightarrow> bytes \<Rightarrow> 'n
       \<Rightarrow> ('g, 't) WalletTransaction result \<times> 'n" where
  "RedeemDeferredTransferTransactionRole_createTransaction W b addressType tx pubkey =
     (case wt_body tx of
        RedeemDeferredTransfer nr sender amount recipient \<Rightarrow>
          let result = WalletTransaction_new W tx pubkey in
          bindS (if recipient = pubkey then
                   returnS (amount, WalletTransaction_setPubkey W sender (result\<lparr>mType_Wallet := WT_LINK_RECEIVE\<rparr>))
                 else if sender = pubkey then
                   returnS (wo_negated W amount, WalletTransaction_setPubkey W recipient (result\<lparr>mType_Wallet := WT_SEND\<rparr>))
                 else bindS (calculateChange W b nr (wt_confirmedAt tx) amount) (\<lambda>(_, change).
                   returnS (change, WalletTransaction_setPubkey W sender (result\<lparr>mType_Wallet := WT_LINK_CHANGE\<rparr>))))
            (\<lambda>(shown, result1).
              bindS (if addressType = deferred_address then
                       bindS (calculateChange W b nr (wt_confirmedAt tx) amount) (\<lambda>(key, change).
                         returnS (WalletTransaction_setChange W (wo_negated W change) key result1))
                     else returnS result1)
                (\<lambda>result2. returnS (result2\<lparr>mAmount := shown\<rparr>)))
      | _ \<Rightarrow> throwS AssertFailed)"

definition TimeoutDeferredTransferTransactionRole_createTransaction ::
    "('n, 'b, 'e, 'g, 't, 'z) wallet_ops_scheme \<Rightarrow> 'b \<Rightarrow> ('g, 't) wallet_tx \<Rightarrow> bytes \<Rightarrow> 'n
       \<Rightarrow> ('g, 't) WalletTransaction result \<times> 'n" where
  "TimeoutDeferredTransferTransactionRole_createTransaction W b tx pubkey =
     (case wt_body tx of
        TimeoutDeferredTransfer nr \<Rightarrow>
          bindS (calculateDecayedDeferredTransferAmount W b nr (wt_confirmedAt tx)) (\<lambda>(key, balance).
            returnS (WalletTransaction_setPubkey W key
              ((WalletTransaction_new W tx pubkey)\<lparr>mType_Wallet := WT_LINK_TIMEOUT, mAmount := balance\<rparr>)))
      | _ \<Rightarrow> throwS AssertFailed)"

text \<open>\<open>Context::run\<close>: at most one row for a transaction.\<close>

definition createTransaction_run ::
    "('n, 'b, 'e, 'g, 't, 'z) wallet_ops_scheme \<Rightarrow> 'b \<Rightarrow> string \<Rightarrow> ('g, 't) wallet_tx \<Rightarrow> bytes \<Rightarrow> 'n
       \<Rightarrow> ('g, 't) WalletTransaction list result \<times> 'n" where
  "createTransaction_run W b addressType tx pubkey n =
     (case wt_body tx of
        Creation _ _ \<Rightarrow> (map_sum id (\<lambda>t. [t]) (CreationTransactionRole_createTransaction W tx pubkey), n)
      | Transfer _ _ _ \<Rightarrow> (map_sum id (\<lambda>t. [t]) (TransferTransactionRole_createTransaction W tx pubkey), n)
      | DeferredTransfer _ _ _ \<Rightarrow> (map_sum id (\<lambda>t. [t]) (DeferredTransferTransactionRole_createTransaction W tx pubkey), n)
      | RedeemDeferredTransfer _ _ _ _ \<Rightarrow>
          apfst (map_sum id (\<lambda>t. [t])) (RedeemDeferredTransferTransactionRole_createTransaction W b addressType tx pubkey n)
      | TimeoutDeferredTransfer _ \<Rightarrow>
          apfst (map_sum id (\<lambda>t. [t])) (TimeoutDeferredTransferTransactionRole_createTransaction W b tx pubkey n)
      | CommunityRoot \<Rightarrow> (Inr [], n)
      | RegisterAddress \<Rightarrow> (Inr [], n)
      | OtherBody \<Rightarrow> (Inl (Gradido UnhandledEnum), n))"

section \<open>TransactionList\<close>

text \<open>The filter function for the wallet, and the one that counts its answers.\<close>

definition filterOutNotForWallet ::
    "('n, 'b, 'e, 'g, 't, 'z) wallet_ops_scheme \<Rightarrow> 'e api_filter \<Rightarrow> 'e \<Rightarrow> nat \<Rightarrow> (bool \<times> bool) result \<times> nat" where
  "filterOutNotForWallet W flt e n =
     (case wo_confirmed W e of
        Inl x \<Rightarrow> (Inl x, n)
      | Inr tx \<Rightarrow>
          (case wt_body tx of
             Creation recipient _ \<Rightarrow> (Inr (af_involvedPublicKey flt = Some recipient, False), n)
           | RegisterAddress \<Rightarrow> (Inr (False, False), n)
           | _ \<Rightarrow> (Inr (True, False), n)))"

definition countForWallet ::
    "('n, 'b, 'e, 'g, 't, 'z) wallet_ops_scheme \<Rightarrow> 'e api_filter \<Rightarrow> 'e \<Rightarrow> nat \<Rightarrow> (bool \<times> bool) result \<times> nat" where
  "countForWallet W flt e n =
     (case filterOutNotForWallet W flt e n of
        (Inr (True, _), n') \<Rightarrow> (Inr (False, False), Suc n')
      | r \<Rightarrow> r)"

definition sum_balances :: "('n, 'b, 'e, 'g, 't, 'z) wallet_ops_scheme \<Rightarrow> bytes \<Rightarrow> (bytes \<times> 'g) list \<Rightarrow> 'g" where
  "sum_balances W pubkey balances =
     fold (\<lambda>(key, balance) g. if key = pubkey then wo_add W g balance else g) balances (wo_zero W)"

text \<open>The inner loop over the rows of a transaction; the balance and the date of the transaction before are carried along.\<close>

fun list_rows ::
    "('n, 'b, 'e, 'g, 't, 'z) wallet_ops_scheme \<Rightarrow> bytes \<Rightarrow> ('g, 't) wallet_tx \<Rightarrow> ('g, 't) WalletTransaction list \<Rightarrow> 'g \<Rightarrow> 't
       \<Rightarrow> ('g, 't) WalletTransaction list \<Rightarrow> ('g, 't) WalletTransaction list \<times> 'g \<times> 't" where
  "list_rows W pubkey tx [] previousBalance previousDate rows = (rows, previousBalance, previousDate)"
| "list_rows W pubkey tx (t # ts) previousBalance previousDate rows =
     (let t1 = t\<lparr>mPreviousBalance := previousBalance\<rparr>;
          t2 = (if wo_positive W previousBalance
                then WalletTransaction_calculateDecay W previousDate (wt_confirmedAt tx) previousBalance t1 else t1)
      in list_rows W pubkey tx ts (sum_balances W pubkey (wt_balances tx)) (wt_confirmedAt tx) (rows @ [t2]))"

fun list_entries ::
    "('n, 'b, 'e, 'g, 't, 'z) wallet_ops_scheme \<Rightarrow> 'b \<Rightarrow> string \<Rightarrow> bytes \<Rightarrow> 'e list \<Rightarrow> 'g \<Rightarrow> 't
       \<Rightarrow> ('g, 't) WalletTransaction list \<Rightarrow> 'n \<Rightarrow> ('g, 't) WalletTransaction list result \<times> 'n" where
  "list_entries W b addressType pubkey [] previousBalance previousDate rows n = (Inr rows, n)"
| "list_entries W b addressType pubkey (e # es) previousBalance previousDate rows n =
     (case wo_confirmed W e of
        Inl x \<Rightarrow> (Inl x, n)
      | Inr tx \<Rightarrow>
          (case createTransaction_run W b addressType tx pubkey n of
             (Inl x, n') \<Rightarrow> (Inl x, n')
           | (Inr ts, n') \<Rightarrow>
               (case list_rows W pubkey tx ts previousBalance previousDate rows of
                  (rows', previousBalance', previousDate') \<Rightarrow>
                    list_entries W b addressType pubkey es previousBalance' previousDate' rows' n')))"

text \<open>Whether the list ends with the decay up to now.\<close>

definition has_last_decay :: "('n, 'b, 'e, 'g, 't, 'z) wallet_ops_scheme \<Rightarrow> 'e api_filter \<Rightarrow> nat \<Rightarrow> bool" where
  "has_last_decay W flt count =
     (int count \<le> af_size flt \<or>
      (af_searchDirection flt = ASC \<and> wo_skipEntriesCount W (af_size flt) (af_page flt) + af_size flt \<ge> int count) \<or>
      (af_searchDirection flt = DESC \<and> af_page flt \<le> 1))"

definition list_transactions ::
    "('n, 'b, 'e, 'g, 't, 'z) wallet_ops_scheme \<Rightarrow> 'e api_filter \<Rightarrow> nat \<Rightarrow> ('g, 't) WalletTransaction list \<Rightarrow> 'n
       \<Rightarrow> ('g, 't) WalletTransaction list" where
  "list_transactions W flt count rows n =
     (if rows = [] then []
      else let rows1 = (if has_last_decay W flt count
                        then rows @ [WalletTransaction_decay W (mDate (List.last rows)) (wo_clock W n) (mBalance (List.last rows))]
                        else rows)
           in if af_searchDirection flt = DESC then rev rows1 else rows1)"

definition TransactionList_generateList ::
    "('n, 'b, 'e, 'g, 't, 'z) wallet_ops_scheme \<Rightarrow> 'b \<Rightarrow> bytes \<Rightarrow> 'e api_filter \<Rightarrow> 'n \<Rightarrow> (string \<times> json) list result \<times> 'n" where
  "TransactionList_generateList W b pubkey flt =
     bindS (\<lambda>n. (if af_size flt < 0 then Inl (Std LengthError) else wo_reserve W (af_size flt), n)) (\<lambda>_.
     bindS (wo_findAll W b (flt\<lparr>af_size := 0, af_page := 0, af_filterFunction := Some (countForWallet W flt)\<rparr>)) (\<lambda>(_, count).
     bindS (wo_getAddressType W b (af_involvedPublicKey flt)) (\<lambda>addressType.
     bindS (wo_findAll W b (flt\<lparr>af_filterFunction := Some (filterOutNotForWallet W flt)\<rparr>)) (\<lambda>(es, _).
     bindS (list_entries W b addressType pubkey (if af_searchDirection flt = DESC then rev es else es)
              (wo_zero W) (wo_getStartDate W b) []) (\<lambda>rows n.
       (Inr [(''balanceGDT'', JStr ''0''), (''linkCount'', JInt 0), (''addressType'', JStr addressType),
             (''count'', JInt (int count)),
             (''transactions'', JArr (map (WalletTransaction_toJson W) (list_transactions W flt count rows n)))], n))))))"

section \<open>The rows of the list\<close>

text \<open>The transactions that have a row: all but the root of the community and the registrations.\<close>

fun has_row :: "'g wallet_body \<Rightarrow> bool" where
  "has_row CommunityRoot = False"
| "has_row RegisterAddress = False"
| "has_row _ = True"

definition shown_txs :: "('n, 'b, 'e, 'g, 't, 'z) wallet_ops_scheme \<Rightarrow> 'e list \<Rightarrow> ('g, 't) wallet_tx list" where
  "shown_txs W es = filter (\<lambda>tx. has_row (wt_body tx)) (map (\<lambda>e. projr (wo_confirmed W e)) es)"

text \<open>The balance and the date before a row: those of the transaction above it, or the start.\<close>

fun before :: "'a \<Rightarrow> ('x \<Rightarrow> 'a) \<Rightarrow> 'x list \<Rightarrow> nat \<Rightarrow> 'a" where
  "before a f xs 0 = a"
| "before a f xs (Suc i) = f (xs ! i)"

lemma before_Cons: "before a f (x # xs) (Suc i) = before (f x) f xs i"
  by (cases i) simp_all

lemma map_sum_cases:
  "map_sum id f r = Inr y \<longleftrightarrow> (\<exists>x. r = Inr x \<and> y = f x)" "Inr y = map_sum id f r \<longleftrightarrow> (\<exists>x. r = Inr x \<and> y = f x)"
  by (cases r; auto)+

lemma createTransaction_run_rows:
  assumes "createTransaction_run W b addressType tx pubkey n = (Inr ts, n')"
  shows "if has_row (wt_body tx) then \<exists>t. ts = [t] else ts = []"
  using assms
  by (cases "wt_body tx")
    (auto simp: createTransaction_run_def apfst_def map_prod_def map_sum_cases split: prod.splits)

lemma list_rows_single:
  "list_rows W pubkey tx [t] prev date rows =
     (rows @ [if wo_positive W prev
              then WalletTransaction_calculateDecay W date (wt_confirmedAt tx) prev (t\<lparr>mPreviousBalance := prev\<rparr>)
              else t\<lparr>mPreviousBalance := prev\<rparr>],
      sum_balances W pubkey (wt_balances tx), wt_confirmedAt tx)"
  by (simp add: Let_def)

lemma list_entries_rows:
  assumes "list_entries W b addressType pubkey es prev date rows n = (Inr rows', n')"
  shows "\<exists>new. rows' = rows @ new \<and> length new = length (shown_txs W es) \<and>
    (\<forall>i < length new. \<exists>t. let p = before prev (\<lambda>tx. sum_balances W pubkey (wt_balances tx)) (shown_txs W es) i;
       t' = t\<lparr>mPreviousBalance := p\<rparr> in
       new ! i = (if wo_positive W p
         then WalletTransaction_calculateDecay W (before date wt_confirmedAt (shown_txs W es) i)
                (wt_confirmedAt (shown_txs W es ! i)) p t' else t'))"
  using assms
proof (induction es arbitrary: prev date rows n)
  case Nil
  then show ?case by (simp add: shown_txs_def)
next
  case (Cons e es)
  from Cons.prems obtain tx ts n1 where tx: "wo_confirmed W e = Inr tx"
    and ts: "createTransaction_run W b addressType tx pubkey n = (Inr ts, n1)"
    by (auto split: sum.splits prod.splits)
  show ?case
  proof (cases "has_row (wt_body tx)")
    case False
    then have "ts = []" using createTransaction_run_rows [OF ts] by simp
    then have "list_entries W b addressType pubkey es prev date rows n1 = (Inr rows', n')"
      using Cons.prems tx ts by simp
    moreover have shown: "shown_txs W (e # es) = shown_txs W es" using tx False by (simp add: shown_txs_def)
    ultimately show ?thesis unfolding shown by (intro Cons.IH)
  next
    case True
    then obtain t where t: "ts = [t]" using createTransaction_run_rows [OF ts] by auto
    let ?t = "t\<lparr>mPreviousBalance := prev\<rparr>"
    let ?r = "if wo_positive W prev then WalletTransaction_calculateDecay W date (wt_confirmedAt tx) prev ?t else ?t"
    have shown: "shown_txs W (e # es) = tx # shown_txs W es" using tx True by (simp add: shown_txs_def)
    from Cons.IH [of "sum_balances W pubkey (wt_balances tx)" "wt_confirmedAt tx" "rows @ [?r]" n1] Cons.prems tx ts t
    obtain new where new: "rows' = (rows @ [?r]) @ new" "length new = length (shown_txs W es)"
      "\<forall>i < length new. \<exists>t. let p = before (sum_balances W pubkey (wt_balances tx))
           (\<lambda>tx. sum_balances W pubkey (wt_balances tx)) (shown_txs W es) i; t' = t\<lparr>mPreviousBalance := p\<rparr> in
         new ! i = (if wo_positive W p
           then WalletTransaction_calculateDecay W (before (wt_confirmedAt tx) wt_confirmedAt (shown_txs W es) i)
                  (wt_confirmedAt (shown_txs W es ! i)) p t' else t')"
      by (auto simp: list_rows_single simp del: list_rows.simps)
    show ?thesis
    proof (intro exI [of _ "?r # new"] conjI allI impI)
      fix i assume i: "i < length (?r # new)"
      show "\<exists>t. let p = before prev (\<lambda>tx. sum_balances W pubkey (wt_balances tx)) (shown_txs W (e # es)) i;
         t' = t\<lparr>mPreviousBalance := p\<rparr> in
         (?r # new) ! i = (if wo_positive W p
           then WalletTransaction_calculateDecay W (before date wt_confirmedAt (shown_txs W (e # es)) i)
                  (wt_confirmedAt (shown_txs W (e # es) ! i)) p t' else t')"
      proof (cases i)
        case 0
        then show ?thesis by (intro exI [of _ t]) (simp add: shown Let_def)
      next
        case (Suc j)
        then have "j < length new" using i by simp
        from new(3) [rule_format, OF this] show ?thesis
          unfolding Suc shown before_Cons nth_Cons_Suc .
      qed
    qed (use new(1,2) shown in simp_all)
  qed
qed

section \<open>Properties\<close>

text \<open>C11: The rows of the wallet are chained: the list has a row for every transaction of the account but the
  root of the community and the registrations, in their order; the balance before a row is the sum of the
  balances that the transaction of the row above left to the account, and zero for the first row; and
  where it is positive the row has the decay of that balance from the date of the transaction above (or
  the start of the blockchain) to its own.\<close>

theorem TransactionList_rows_chained:
  assumes "list_entries W b addressType pubkey es (wo_zero W) (wo_getStartDate W b) [] n = (Inr rows, n')"
  shows "length rows = length (shown_txs W es) \<and>
    (\<forall>i < length rows. let p = before (wo_zero W) (\<lambda>tx. sum_balances W pubkey (wt_balances tx)) (shown_txs W es) i in
       mPreviousBalance (rows ! i) = p \<and>
       (wo_positive W p \<longrightarrow> mDecay (rows ! i) = Some (Decay_new W
          (before (wo_getStartDate W b) wt_confirmedAt (shown_txs W es) i) (wt_confirmedAt (shown_txs W es ! i)) p)))"
proof -
  from list_entries_rows [OF assms] show ?thesis
    by (fastforce simp: Let_def WalletTransaction_calculateDecay_def)
qed

text \<open>An example: amounts and times are integers, a balance loses one unit per step of time.\<close>

definition int_wallet :: "(unit, unit, (int, int) wallet_tx, int, int) wallet_ops" where
  "int_wallet = \<lparr>wo_findAll = (\<lambda>_ _ n. (Inr ([], 0), n)), wo_getTransactionForId = (\<lambda>_ _ n. (Inr None, n)),
     wo_getAddressType = (\<lambda>_ _ n. (Inr ''COMMUNITY_HUMAN'', n)), wo_getStartDate = (\<lambda>_. 0), wo_confirmed = Inr,
     wo_clock = (\<lambda>_. 100), wo_skipEntriesCount = (\<lambda>s p. s * (p - 1)), wo_reserve = (\<lambda>_. Inr ()), wo_zero = 0,
     wo_add = (+), wo_sub = (-), wo_negated = uminus, wo_positive = (\<lambda>g. 0 < g),
     wo_calculateDecay = (\<lambda>g a b. max 0 (g - (b - a))), wo_amountText = (\<lambda>_. []), wo_epoch = 0,
     wo_seconds = (\<lambda>a b. b - a), wo_dateText = (\<lambda>_. []), wo_convertToHex = (\<lambda>_. ''00''), wo_junk = False\<rparr>"

definition int_transfer :: "u64 \<Rightarrow> int \<Rightarrow> (bool \<times> string) list \<Rightarrow> int \<Rightarrow> (int, int) wallet_tx" where
  "int_transfer nr date memos balance =
     \<lparr>wt_id = nr, wt_confirmedAt = date, wt_memos = memos, wt_accountBalance = (\<lambda>_. balance),
      wt_balances = [([1], 5), ([2], balance)], wt_signers = [[1]], wt_body = Transfer [1] 30 [2]\<rparr>"

lemma TransactionList_rows_chained_witness:
  "\<exists>rows. list_entries int_wallet () ''COMMUNITY_HUMAN'' [2] [int_transfer 1 10 [] 30, int_transfer 2 20 [] 50] 0 0 [] () = (Inr rows, ()) \<and>
     length rows = 2 \<and> mPreviousBalance (rows ! 0) = 0 \<and> mPreviousBalance (rows ! 1) = 30 \<and>
     mDecay (rows ! 1) = Some (Decay_new int_wallet 10 20 30)"
proof -
  let ?es = "[int_transfer 1 10 [] 30, int_transfer 2 20 [] 50]"
  have w: "wo_zero int_wallet = 0" "wo_getStartDate int_wallet () = 0" by (simp_all add: int_wallet_def)
  have "\<exists>rows. list_entries int_wallet () ''COMMUNITY_HUMAN'' [2] ?es 0 0 [] () = (Inr rows, ())"
    by (simp add: int_wallet_def int_transfer_def createTransaction_run_def TransferTransactionRole_createTransaction_def Let_def)
  then obtain rows where rows: "list_entries int_wallet () ''COMMUNITY_HUMAN'' [2] ?es 0 0 [] () = (Inr rows, ())" by blast
  have shown: "shown_txs int_wallet ?es = ?es" by (simp add: shown_txs_def) (simp add: int_wallet_def int_transfer_def)
  from TransactionList_rows_chained [where W = int_wallet and b = "()", unfolded w, OF rows] shown
  have "length rows = 2" and r: "\<forall>i < length rows.
      let p = before 0 (\<lambda>tx. sum_balances int_wallet [2] (wt_balances tx)) ?es i in
       mPreviousBalance (rows ! i) = p \<and>
       (wo_positive int_wallet p \<longrightarrow> mDecay (rows ! i) = Some (Decay_new int_wallet (before 0 wt_confirmedAt ?es i) (wt_confirmedAt (?es ! i)) p))"
    by simp_all
  then have "mPreviousBalance (rows ! 0) = 0" "mPreviousBalance (rows ! 1) = 30"
    "mDecay (rows ! 1) = Some (Decay_new int_wallet 10 20 30)"
    using r [rule_format, of 0] r [rule_format, of 1]
    by (simp_all add: Let_def sum_balances_def int_transfer_def) (simp_all add: int_wallet_def)
  with rows \<open>length rows = 2\<close> show ?thesis by blast
qed

text \<open>A transaction with a plain memo has a blank row: the constructor of a row returns as soon as it has found
  the memo, so the row has the id 0, the earliest possible date and the balance zero instead of those of
  the transaction, whatever its type.\<close>

theorem WalletTransaction_plain_memo_blank:
  assumes "createTransaction_run W b addressType tx pubkey n = (Inr ts, n')" and "t \<in> set ts"
    and "(True, memo) \<in> set (wt_memos tx)"
  shows "mId t = 0 \<and> mDate t = wo_epoch W \<and> mBalance t = wo_zero W"
proof -
  have "find fst (wt_memos tx) \<noteq> None" using assms(3) by (auto simp: find_None_iff)
  then have "mId (WalletTransaction_new W tx pubkey) = 0 \<and> mDate (WalletTransaction_new W tx pubkey) = wo_epoch W \<and>
      mBalance (WalletTransaction_new W tx pubkey) = wo_zero W"
    by (auto simp: WalletTransaction_new_def blank_transaction_def)
  then show ?thesis using assms(1,2)
    by (cases "wt_body tx")
      (auto simp: createTransaction_run_def map_sum_cases apfst_def map_prod_def bindS_def returnS_def throwS_def Let_def
        CreationTransactionRole_createTransaction_def TransferTransactionRole_createTransaction_def
        DeferredTransferTransactionRole_createTransaction_def RedeemDeferredTransferTransactionRole_createTransaction_def
        TimeoutDeferredTransferTransactionRole_createTransaction_def WalletTransaction_setPubkey_def
        WalletTransaction_setLastName_def WalletTransaction_setChange_def
        split: prod.splits sum.splits if_splits list.splits)
qed

lemma WalletTransaction_plain_memo_blank_witness:
  "\<exists>t. createTransaction_run int_wallet () ''COMMUNITY_HUMAN'' (int_transfer 7 10 [(True, ''thanks'')] 30) [2] () = (Inr [t], ()) \<and>
     mId t = 0 \<and> mDate t = 0 \<and> mBalance t = 0"
proof -
  obtain t where t: "createTransaction_run int_wallet () ''COMMUNITY_HUMAN'' (int_transfer 7 10 [(True, ''thanks'')] 30) [2] () = (Inr [t], ())"
    by (simp add: createTransaction_run_def TransferTransactionRole_createTransaction_def int_transfer_def Let_def)
  have "mId t = 0 \<and> mDate t = wo_epoch int_wallet \<and> mBalance t = wo_zero int_wallet"
    using WalletTransaction_plain_memo_blank [OF t, of t "''thanks''"] by (simp add: int_transfer_def)
  with t show ?thesis by (simp add: int_wallet_def)
qed

end
