(* ===== verification/Rpc.thy ===== *)
theory Rpc
  imports Apollo
begin

text \<open>
  The JSON-RPC server of the node: \<open>server::json_rpc::RequestHandler\<close> reads a request, calls the method and
  builds the answer, \<open>server::json_rpc::ApiHandler\<close> has the methods
  (\<open>src/server/json-rpc/RequestHandler.cpp\<close>, \<open>ApiHandler.cpp\<close>).
\<close>

section \<open>RequestHandler\<close>

text \<open>The errors of the answers; their numbers are defined in the library: the argument \<open>num\<close>.\<close>

datatype rpc_error =
    PARSE_ERROR
  | INVALID_REQUEST
  | METHODE_NOT_FOUND
  | INVALID_PARAMS
  | GRADIDO_NODE_ERROR
  | UNKNOWN_GROUP
  | TRANSACTION_NOT_FOUND
  | ADDRESS_NOT_FOUND

text \<open>The answer under construction (its members) and the state of the node.\<close>

type_synonym 'n rpc_state = "(string \<times> json) list \<times> 'n"

definition js_is_array :: "json \<Rightarrow> bool" where
  "js_is_array j = (case j of JArr _ \<Rightarrow> True | _ \<Rightarrow> False)"

text \<open>\<open>FindMember\<close> on a value that is no object is a failed assertion.\<close>

definition js_find :: "string \<Rightarrow> json \<Rightarrow> json option result" where
  "js_find fieldName j = (if js_is_object j then Inr (map_of (js_members j) fieldName) else Inl AssertFailed)"

definition RequestHandler_error ::
    "(rpc_error \<Rightarrow> int) \<Rightarrow> rpc_error \<Rightarrow> string \<Rightarrow> json option \<Rightarrow> 'n rpc_state \<Rightarrow> 'n rpc_state" where
  "RequestHandler_error num code message data s =
     (fst s @ [(''error'', JObj ([(''code'', JInt (num code)), (''message'', JStr message)] @
        (case data of None \<Rightarrow> [] | Some d \<Rightarrow> if d = JNull then [] else [(''data'', d)])))], snd s)"

text \<open>The end of a getter that fails: the answer gets the error unless the parameter is optional.\<close>

definition param_fails :: "(rpc_error \<Rightarrow> int) \<Rightarrow> string \<Rightarrow> bool \<Rightarrow> 'n rpc_state \<Rightarrow> 'a option result \<times> 'n rpc_state" where
  "param_fails num message optional s =
     (Inr None, if optional then s else RequestHandler_error num INVALID_PARAMS message None s)"

text \<open>
  The getters answer with the value where the code returns true and sets its output parameter, and with
  \<open>None\<close> where it returns false.
\<close>

definition RequestHandler_getIntParameter ::
    "(rpc_error \<Rightarrow> int) \<Rightarrow> json \<Rightarrow> string \<Rightarrow> bool \<Rightarrow> 'n rpc_state \<Rightarrow> int option result \<times> 'n rpc_state" where
  "RequestHandler_getIntParameter num params fieldName optional s =
     (case js_find fieldName params of
        Inl e \<Rightarrow> (Inl e, s)
      | Inr None \<Rightarrow> param_fails num (fieldName @ '' not found'') optional s
      | Inr (Some v) \<Rightarrow>
          (case js_int v of
             Inl _ \<Rightarrow> param_fails num (''invalid '' @ fieldName) optional s
           | Inr i \<Rightarrow> (Inr (Some i), s)))"

definition RequestHandler_getBoolParameter ::
    "(rpc_error \<Rightarrow> int) \<Rightarrow> json \<Rightarrow> string \<Rightarrow> bool \<Rightarrow> 'n rpc_state \<Rightarrow> bool option result \<times> 'n rpc_state" where
  "RequestHandler_getBoolParameter num params fieldName optional s =
     (case js_find fieldName params of
        Inl e \<Rightarrow> (Inl e, s)
      | Inr None \<Rightarrow> param_fails num (fieldName @ '' not found'') optional s
      | Inr (Some (JBool b)) \<Rightarrow> (Inr (Some b), s)
      | Inr (Some _) \<Rightarrow> param_fails num (''invalid '' @ fieldName) optional s)"

definition RequestHandler_getUIntParameter ::
    "(rpc_error \<Rightarrow> int) \<Rightarrow> json \<Rightarrow> string \<Rightarrow> bool \<Rightarrow> 'n rpc_state \<Rightarrow> u32 option result \<times> 'n rpc_state" where
  "RequestHandler_getUIntParameter num params fieldName optional s =
     (case js_find fieldName params of
        Inl e \<Rightarrow> (Inl e, s)
      | Inr None \<Rightarrow> param_fails num (fieldName @ '' not found'') optional s
      | Inr (Some (JInt i)) \<Rightarrow>
          if js_is_uint (JInt i) then (Inr (Some (word_of_int i)), s)
          else param_fails num (''invalid '' @ fieldName) optional s
      | Inr (Some _) \<Rightarrow> param_fails num (''invalid '' @ fieldName) optional s)"

definition RequestHandler_getUInt64Parameter ::
    "(rpc_error \<Rightarrow> int) \<Rightarrow> json \<Rightarrow> string \<Rightarrow> bool \<Rightarrow> 'n rpc_state \<Rightarrow> u64 option result \<times> 'n rpc_state" where
  "RequestHandler_getUInt64Parameter num params fieldName optional s =
     (case js_find fieldName params of
        Inl e \<Rightarrow> (Inl e, s)
      | Inr None \<Rightarrow> param_fails num (fieldName @ '' not found'') optional s
      | Inr (Some (JInt i)) \<Rightarrow>
          if js_is_uint64 (JInt i) then (Inr (Some (word_of_int i)), s)
          else param_fails num (''invalid '' @ fieldName) optional s
      | Inr (Some _) \<Rightarrow> param_fails num (''invalid '' @ fieldName) optional s)"

definition RequestHandler_getStringParameter ::
    "(rpc_error \<Rightarrow> int) \<Rightarrow> json \<Rightarrow> string \<Rightarrow> bool \<Rightarrow> 'n rpc_state \<Rightarrow> string option result \<times> 'n rpc_state" where
  "RequestHandler_getStringParameter num params fieldName optional s =
     (case js_find fieldName params of
        Inl e \<Rightarrow> (Inl e, s)
      | Inr None \<Rightarrow> param_fails num (fieldName @ '' not found'') optional s
      | Inr (Some (JStr str)) \<Rightarrow> (Inr (Some str), s)
      | Inr (Some _) \<Rightarrow> param_fails num (''invalid '' @ fieldName) optional s)"

text \<open>
  The parsed bytes are assigned to the parameter, a pointer passed by value: the caller's pointer stays as
  it was. The answer is the truth value only.
\<close>

definition RequestHandler_getBinaryFromHexStringParameter ::
    "(rpc_error \<Rightarrow> int) \<Rightarrow> (string \<Rightarrow> bytes result) \<Rightarrow> json \<Rightarrow> string \<Rightarrow> bool \<Rightarrow> 'n rpc_state \<Rightarrow> bool result \<times> 'n rpc_state" where
  "RequestHandler_getBinaryFromHexStringParameter num fromHex params fieldName optional s =
     (let fails = (\<lambda>message. apfst (map_sum id (\<lambda>_. False)) (param_fails num message optional s :: unit option result \<times> 'n rpc_state)) in
      case js_find fieldName params of
        Inl e \<Rightarrow> (Inl e, s)
      | Inr None \<Rightarrow> fails (fieldName @ '' not found'')
      | Inr (Some (JStr str)) \<Rightarrow>
          (case fromHex str of
             Inl e \<Rightarrow> (Inl e, s)
           | Inr _ \<Rightarrow> (Inr True, s))
      | Inr (Some _) \<Rightarrow> fails (''invalid '' @ fieldName))"

definition RequestHandler_getStringIntParameter ::
    "(rpc_error \<Rightarrow> int) \<Rightarrow> json \<Rightarrow> string \<Rightarrow> bool \<Rightarrow> 'n rpc_state \<Rightarrow> (string + int) option result \<times> 'n rpc_state" where
  "RequestHandler_getStringIntParameter num params fieldName optional s =
     (let wrong = fieldName @ '' isn'' @ CHR 0x27 # ''t neither int or string'' in
      case js_find fieldName params of
        Inl e \<Rightarrow> (Inl e, s)
      | Inr None \<Rightarrow> param_fails num (fieldName @ '' not found'') optional s
      | Inr (Some (JStr str)) \<Rightarrow> (Inr (Some (Inl str)), s)
      | Inr (Some v) \<Rightarrow>
          (case js_int v of
             Inl _ \<Rightarrow> param_fails num wrong optional s
           | Inr i \<Rightarrow> (Inr (Some (Inr i)), s)))"

text \<open>The checks of the kind of a member share their steps.\<close>

definition check_kind ::
    "(json \<Rightarrow> bool) \<Rightarrow> string \<Rightarrow> (rpc_error \<Rightarrow> int) \<Rightarrow> json \<Rightarrow> string \<Rightarrow> bool \<Rightarrow> 'n rpc_state \<Rightarrow> bool result \<times> 'n rpc_state" where
  "check_kind is_kind wrong num params fieldName optional s =
     (let fails = (\<lambda>message. apfst (map_sum id (\<lambda>_. False)) (param_fails num message optional s :: unit option result \<times> 'n rpc_state)) in
      case js_find fieldName params of
        Inl e \<Rightarrow> (Inl e, s)
      | Inr None \<Rightarrow> fails (fieldName @ '' not found'')
      | Inr (Some v) \<Rightarrow> if is_kind v then (Inr True, s) else fails (fieldName @ wrong))"

definition RequestHandler_checkArrayParameter ::
    "(rpc_error \<Rightarrow> int) \<Rightarrow> json \<Rightarrow> string \<Rightarrow> bool \<Rightarrow> 'n rpc_state \<Rightarrow> bool result \<times> 'n rpc_state" where
  "RequestHandler_checkArrayParameter = check_kind js_is_array '' is not a array''"

definition RequestHandler_checkObjectParameter ::
    "(rpc_error \<Rightarrow> int) \<Rightarrow> json \<Rightarrow> string \<Rightarrow> bool \<Rightarrow> 'n rpc_state \<Rightarrow> bool result \<times> 'n rpc_state" where
  "RequestHandler_checkObjectParameter = check_kind js_is_object '' is not a object''"

definition RequestHandler_checkObjectOrArrayParameter ::
    "(rpc_error \<Rightarrow> int) \<Rightarrow> json \<Rightarrow> string \<Rightarrow> bool \<Rightarrow> 'n rpc_state \<Rightarrow> bool result \<times> 'n rpc_state" where
  "RequestHandler_checkObjectOrArrayParameter =
     check_kind (\<lambda>v. js_is_object v \<or> js_is_array v) '' is not a object or array''"

text \<open>An exception of the method becomes an error of the answer; a failed assertion or undefined behaviour ends the node.\<close>

definition call_method ::
    "(rpc_error \<Rightarrow> int) \<Rightarrow> (string \<Rightarrow> json \<Rightarrow> 'n rpc_state \<Rightarrow> unit result \<times> 'n rpc_state) \<Rightarrow> string \<Rightarrow> json \<Rightarrow> 'n rpc_state
       \<Rightarrow> unit result \<times> 'n rpc_state" where
  "call_method num handle method params s =
     (case handle method params s of
        (Inl (Gradido _), s1) \<Rightarrow> (Inr (), RequestHandler_error num GRADIDO_NODE_ERROR ''gradido node intern exception'' None s1)
      | (Inl (Std _), s1) \<Rightarrow> (Inr (), RequestHandler_error num GRADIDO_NODE_ERROR ''gradido node intern exception'' None s1)
      | r \<Rightarrow> r)"

definition RequestHandler_handleOneRpcCall ::
    "(rpc_error \<Rightarrow> int) \<Rightarrow> (string \<Rightarrow> json \<Rightarrow> 'n rpc_state \<Rightarrow> unit result \<times> 'n rpc_state) \<Rightarrow> json \<Rightarrow> 'n \<Rightarrow> json result \<times> 'n" where
  "RequestHandler_handleOneRpcCall num handle jsonRpcRequest n =
     (case bindS (RequestHandler_checkObjectOrArrayParameter num jsonRpcRequest ''params'' False) (\<lambda>ok.
             if \<not> ok then returnS ()
             else bindS (RequestHandler_getStringParameter num jsonRpcRequest ''method'' False) (\<lambda>method.
               case method of
                 None \<Rightarrow> returnS ()
               | Some m \<Rightarrow>
                   (case js_get ''params'' jsonRpcRequest of
                      Inl e \<Rightarrow> throwS e
                    | Inr params \<Rightarrow> call_method num handle m params))) ([], n) of
        (Inl e, _, n') \<Rightarrow> (Inl e, n')
      | (Inr _, ms, n') \<Rightarrow>
          (Inr (JObj (ms @ [(''jsonrpc'', JStr ''2.0''),
                            (''id'', case map_of (js_members jsonRpcRequest) ''id'' of None \<Rightarrow> JNull | Some i \<Rightarrow> i)])), n'))"

text \<open>A batch of calls, one after the other.\<close>

fun handle_batch ::
    "(rpc_error \<Rightarrow> int) \<Rightarrow> (string \<Rightarrow> json \<Rightarrow> 'n rpc_state \<Rightarrow> unit result \<times> 'n rpc_state) \<Rightarrow> json list \<Rightarrow> 'n \<Rightarrow> json list result \<times> 'n" where
  "handle_batch num handle [] n = (Inr [], n)"
| "handle_batch num handle (v # vs) n =
     bindS (RequestHandler_handleOneRpcCall num handle v) (\<lambda>r.
     bindS (handle_batch num handle vs) (\<lambda>rs. returnS (r # rs))) n"

text \<open>\<open>strToInt\<close> says whether a text is a number.\<close>

definition RequestHandler_parseQueryParametersToRapidjson :: "(string \<Rightarrow> int option) \<Rightarrow> (string \<times> string) list \<Rightarrow> json" where
  "RequestHandler_parseQueryParametersToRapidjson strToInt params =
     JObj (map (\<lambda>(name, text). (name, case strToInt text of Some i \<Rightarrow> JInt i | None \<Rightarrow> JStr text)) params)"

datatype MethodType = GET | POST | PUT | OPTIONS | OTHER_METHOD

record http_response =
  hr_headers :: "(string \<times> string) list"
  hr_content :: "(string \<times> string) option"

text \<open>The library parses the body (\<open>parse\<close>: a value, or the text and position of the error) and writes the answer (\<open>write\<close>).\<close>

definition RequestHandler_answer ::
    "(rpc_error \<Rightarrow> int) \<Rightarrow> (string \<Rightarrow> json \<Rightarrow> 'n rpc_state \<Rightarrow> unit result \<times> 'n rpc_state) \<Rightarrow> (string \<Rightarrow> (string \<times> nat) + json)
       \<Rightarrow> MethodType \<Rightarrow> string \<Rightarrow> 'n \<Rightarrow> json result \<times> 'n" where
  "RequestHandler_answer num handle parse method body n =
     (let start = [(''jsonrpc'', JStr ''2.0''), (''id'', JNull)];
          failed = (\<lambda>code message data. (Inr (JObj (fst (RequestHandler_error num code message data (start, n)))), n))
      in case method of
        OTHER_METHOD \<Rightarrow> failed INVALID_REQUEST ''HTTP method unknown'' None
      | GET \<Rightarrow> (Inr (JObj start), n)
      | OPTIONS \<Rightarrow> (Inr (JObj start), n)
      | _ \<Rightarrow>
          (case parse body of
             Inl (text, offset) \<Rightarrow>
               failed PARSE_ERROR ''error parsing request to json''
                 (Some (JObj [(''parseError'', JStr text), (''errorOffset'', JInt (int offset))]))
           | Inr (JObj ms) \<Rightarrow> RequestHandler_handleOneRpcCall num handle (JObj ms) n
           | Inr (JArr vs) \<Rightarrow> bindS (handle_batch num handle vs) (\<lambda>rs. returnS (JArr rs)) n
           | Inr _ \<Rightarrow> failed INVALID_REQUEST ''empty body'' None))"

definition cors_headers :: "(string \<times> string) list" where
  "cors_headers = [(''Access-Control-Allow-Origin'', ''*''),
     (''Access-Control-Allow-Headers'', ''Authorization, Access-Control-Allow-Headers, Origin,Accept, X-Requested-With, Content-Type, Access-Control-Request-Method, Access-Control-Request-Headers'')]"

definition RequestHandler_handleRequest ::
    "(rpc_error \<Rightarrow> int) \<Rightarrow> (string \<Rightarrow> json \<Rightarrow> 'n rpc_state \<Rightarrow> unit result \<times> 'n rpc_state) \<Rightarrow> (string \<Rightarrow> (string \<times> nat) + json)
       \<Rightarrow> (json \<Rightarrow> string) \<Rightarrow> bool \<Rightarrow> MethodType \<Rightarrow> string \<Rightarrow> http_response \<times> 'n \<Rightarrow> unit result \<times> http_response \<times> 'n" where
  "RequestHandler_handleRequest num handle parse write corsAll method body s =
     (let response = (if corsAll then (fst s)\<lparr>hr_headers := hr_headers (fst s) @ cors_headers\<rparr> else fst s) in
      if method = OPTIONS then (Inr (), response, snd s)
      else case RequestHandler_answer num handle parse method body (snd s) of
        (Inl e, n) \<Rightarrow> (Inl e, response, n)
      | (Inr answer, n) \<Rightarrow> (Inr (), response\<lparr>hr_content := Some (write answer, ''application/json'')\<rparr>, n))"

end
