(* ===== verification/Api.thy ===== *)
theory Api
  imports Rpc
begin

text \<open>
  \<open>server::json_rpc::ApiHandler\<close> (\<open>src/server/json-rpc/ApiHandler.cpp\<close>): the methods of the node's API. They add
  their members to a result object; the answer gets it at the end unless it has an error.
\<close>

section \<open>What the methods use\<close>

text \<open>
  Beside the operations of the wallet: the communities of the node, the other searches of a blockchain, what
  the library tells of an entry, its conversions, dates and balances; the filter and the page of their default constructors.
\<close>

datatype one_filter = FIRST_TRANSACTION | LAST_TRANSACTION

record ('n, 'b, 'e, 'g, 't) api_ops = "('n, 'b, 'e, 'g, 't) wallet_ops" +
  ao_number :: "rpc_error \<Rightarrow> int"
  ao_listCommunityIds :: "'n \<Rightarrow> string list"
  ao_findBlockchain :: "string \<Rightarrow> 'n \<Rightarrow> 'b option result \<times> 'n"
  ao_findOne :: "'b \<Rightarrow> one_filter \<Rightarrow> 'n \<Rightarrow> 'e option result \<times> 'n"
  ao_findAllFast :: "'b \<Rightarrow> 'e api_filter \<Rightarrow> 'n \<Rightarrow> u64 list result \<times> 'n"
  ao_findByMessageId :: "'b \<Rightarrow> bytes option \<Rightarrow> 'n \<Rightarrow> 'e option result \<times> 'n"
  ao_serialized :: "'e \<Rightarrow> bytes"
  ao_toJson :: "'e \<Rightarrow> json result"
  ao_rootKeys :: "'e \<Rightarrow> (bytes \<times> bytes) option result"
  ao_nameHash :: "'e \<Rightarrow> bytes option result"
  ao_accountKey :: "'e \<Rightarrow> bytes option result"
  ao_fromHex :: "string \<Rightarrow> bytes result"
  ao_toBase64 :: "bytes \<Rightarrow> string"
  ao_hieroId :: "string \<Rightarrow> (bool \<times> bytes) result"
  ao_timeUsed :: "'n \<Rightarrow> string"
  ao_dateOfString :: "string \<Rightarrow> 't result"
  ao_firstOfMonth :: "int \<Rightarrow> int \<Rightarrow> 't"
  ao_balance :: "'b \<Rightarrow> bytes option \<Rightarrow> 't \<Rightarrow> string \<Rightarrow> 'n \<Rightarrow> string result \<times> 'n"
  ao_creationSum :: "'b \<Rightarrow> 't \<Rightarrow> 't \<Rightarrow> bytes option \<Rightarrow> 'n \<Rightarrow> string result \<times> 'n"
  ao_filter :: "'e api_filter"
  ao_defaultSize :: int
  ao_defaultPage :: int

text \<open>
  The members of the result, or \<open>None\<close> where the method returns early; and the state, with the answer.
\<close>

type_synonym 'n api_step = "'n rpc_state \<Rightarrow> (string \<times> json) list option result \<times> 'n rpc_state"

definition api_error :: "('n, 'b, 'e, 'g, 't) api_ops \<Rightarrow> rpc_error \<Rightarrow> string \<Rightarrow> 'n api_step" where
  "api_error A code message s = (Inr None, RequestHandler_error (ao_number A) code message None s)"

text \<open>An operation of the node leaves the answer as it is.\<close>

definition liftN :: "('n \<Rightarrow> 'a result \<times> 'n) \<Rightarrow> 'n rpc_state \<Rightarrow> 'a result \<times> 'n rpc_state" where
  "liftN m s = (case m (snd s) of (r, n) \<Rightarrow> (r, fst s, n))"

definition liftR :: "'a result \<Rightarrow> 'n rpc_state \<Rightarrow> 'a result \<times> 'n rpc_state" where
  "liftR r s = (r, s)"

definition get_clock :: "('n, 'b, 'e, 'g, 't) api_ops \<Rightarrow> 'n rpc_state \<Rightarrow> 't result \<times> 'n rpc_state" where
  "get_clock A s = (Inr (wo_clock A (snd s)), s)"

definition timeUsed_member :: "('n, 'b, 'e, 'g, 't) api_ops \<Rightarrow> 'n rpc_state \<Rightarrow> string \<times> json" where
  "timeUsed_member A s = (''timeUsed'', JStr (ao_timeUsed A (snd s)))"

section \<open>The methods\<close>

definition ApiHandler_listCommunities :: "('n, 'b, 'e, 'g, 't) api_ops \<Rightarrow> 'n rpc_state \<Rightarrow> (string \<times> json) list" where
  "ApiHandler_listCommunities A s =
     [(''communities'', JArr (map JStr (ao_listCommunityIds A (snd s)))), timeUsed_member A s]"

text \<open>Entries as JSON or as base64 text; an entry without bytes is left out.\<close>

definition entry_json :: "('n, 'b, 'e, 'g, 't) api_ops \<Rightarrow> string \<Rightarrow> 'e \<Rightarrow> json list result" where
  "entry_json A format e =
     (if ao_serialized A e = [] then Inr []
      else if format = ''json'' then map_sum id (\<lambda>j. [j]) (ao_toJson A e)
      else Inr [JStr (ao_toBase64 A (ao_serialized A e))])"

definition type_member :: "string \<Rightarrow> string \<times> json" where
  "type_member format = (''type'', JStr (if format = ''json'' then ''json'' else ''base64''))"

text \<open>The filter function that counts every entry and uses none.\<close>

definition count_all :: "'e \<Rightarrow> nat \<Rightarrow> (bool \<times> bool) result \<times> nat" where
  "count_all e n = (Inr (False, False), Suc n)"

definition root_balances ::
    "('n, 'b, 'e, 'g, 't) api_ops \<Rightarrow> 'b \<Rightarrow> 't \<Rightarrow> 'n rpc_state \<Rightarrow> (string \<times> json) list result \<times> 'n rpc_state" where
  "root_balances A b now =
     bindS (liftN (ao_findOne A b FIRST_TRANSACTION)) (\<lambda>communityRootEntry.
       case communityRootEntry of
         None \<Rightarrow> returnS [(''gmwBalance'', JStr ''0''), (''aufBalance'', JStr ''0'')]
       | Some e \<Rightarrow>
           bindS (liftR (ao_rootKeys A e)) (\<lambda>keys.
             case keys of
               None \<Rightarrow> throwS AssertFailed
             | Some (gmw, auf) \<Rightarrow>
                 bindS (liftN (ao_balance A b (Some gmw) now [])) (\<lambda>gmwBalance.
                 bindS (liftN (ao_balance A b (Some auf) now [])) (\<lambda>aufBalance.
                   returnS [(''gmwBalance'', JStr gmwBalance), (''aufBalance'', JStr aufBalance)]))))"

definition ApiHandler_findAllTransactions ::
    "('n, 'b, 'e, 'g, 't) api_ops \<Rightarrow> 'e api_filter \<Rightarrow> 'b \<Rightarrow> string \<Rightarrow> 'n api_step" where
  "ApiHandler_findAllTransactions A flt b format =
     bindS (liftN (wo_findAll A b (flt\<lparr>af_size := ao_defaultSize A, af_page := ao_defaultPage A, af_minTransactionNr := 0,
              af_maxTransactionNr := 0, af_filterFunction := Some count_all\<rparr>))) (\<lambda>(_, totalCount).
     bindS (liftN (wo_findAll A b flt)) (\<lambda>(es, _).
     bindS (liftR (mapR (entry_json A format) es)) (\<lambda>js.
     bindS (get_clock A) (\<lambda>now.
     bindS (root_balances A b now) (\<lambda>balances s.
       (Inr (Some ([(''totalCount'', JInt (int totalCount)), type_member format] @ balances @
          [(''transactions'', JArr (concat js)), timeUsed_member A s])), s))))))"

definition ApiHandler_getTransaction ::
    "('n, 'b, 'e, 'g, 't) api_ops \<Rightarrow> 'b \<Rightarrow> string \<Rightarrow> u64 \<Rightarrow> bytes option \<Rightarrow> 'n api_step" where
  "ApiHandler_getTransaction A b format transactionId iotaMessageId =
     bindS (liftN (if transactionId \<noteq> 0 then wo_getTransactionForId A b transactionId
                   else ao_findByMessageId A b iotaMessageId)) (\<lambda>transactionEntry.
       case transactionEntry of
         None \<Rightarrow> api_error A TRANSACTION_NOT_FOUND ''transaction not found''
       | Some e \<Rightarrow>
           bindS (liftR (entry_json A format e)) (\<lambda>js s.
             (Inr (Some (map (Pair ''transaction'') js @ [type_member format, timeUsed_member A s])), s)))"

definition ApiHandler_getCreationSumForMonth ::
    "('n, 'b, 'e, 'g, 't) api_ops \<Rightarrow> bytes option \<Rightarrow> 't \<Rightarrow> 't \<Rightarrow> 'b \<Rightarrow> 'n api_step" where
  "ApiHandler_getCreationSumForMonth A pubkey targetDate transactionCreationDate b =
     bindS (liftN (ao_creationSum A b transactionCreationDate targetDate pubkey)) (\<lambda>total s.
       (Inr (Some [(''sum'', JStr total), timeUsed_member A s]), s))"

definition ApiHandler_getAddressBalance ::
    "('n, 'b, 'e, 'g, 't) api_ops \<Rightarrow> bytes option \<Rightarrow> 't \<Rightarrow> 'b \<Rightarrow> string \<Rightarrow> 'n api_step" where
  "ApiHandler_getAddressBalance A pubkey date b coinCommunityId =
     bindS (liftN (ao_balance A b pubkey date coinCommunityId)) (\<lambda>balance.
       returnS (Some [(''balance'', JStr balance)]))"

definition ApiHandler_getAddressType :: "('n, 'b, 'e, 'g, 't) api_ops \<Rightarrow> bytes option \<Rightarrow> 'b \<Rightarrow> 'n api_step" where
  "ApiHandler_getAddressType A pubkey b =
     bindS (liftN (wo_getAddressType A b pubkey)) (\<lambda>addressType.
       returnS (Some [(''addressType'', JStr addressType)]))"

definition ApiHandler_getAddressTxids :: "('n, 'b, 'e, 'g, 't) api_ops \<Rightarrow> bytes option \<Rightarrow> 'b \<Rightarrow> 'n api_step" where
  "ApiHandler_getAddressTxids A pubkey b =
     (if pubkey = None then throwS AssertFailed
      else bindS (liftN (ao_findAllFast A b ((ao_filter A)\<lparr>af_involvedPublicKey := pubkey\<rparr>))) (\<lambda>transactionNrs.
        returnS (Some [(''transactionNrs'', JArr (map (\<lambda>nr. JInt (uint nr)) transactionNrs))])))"

definition ApiHandler_listTransactions :: "('n, 'b, 'e, 'g, 't) api_ops \<Rightarrow> 'b \<Rightarrow> 'e api_filter \<Rightarrow> 'n api_step" where
  "ApiHandler_listTransactions A b flt =
     (case af_involvedPublicKey flt of
        None \<Rightarrow> throwS UndefinedBehaviour
      | Some pubkey \<Rightarrow>
          bindS (get_clock A) (\<lambda>now.
          bindS (liftN (TransactionList_generateList A b pubkey flt)) (\<lambda>transactionList.
          bindS (liftN (ao_balance A b (Some pubkey) now [])) (\<lambda>balance s.
            (Inr (Some [(''transactionList'', JObj (transactionList @ [(''balance'', JStr balance)])), timeUsed_member A s]), s)))))"

definition ApiHandler_getTransactionsForAddress ::
    "('n, 'b, 'e, 'g, 't) api_ops \<Rightarrow> bytes option \<Rightarrow> u64 \<Rightarrow> u32 \<Rightarrow> 'b \<Rightarrow> 'n api_step" where
  "ApiHandler_getTransactionsForAddress A pubkey firstTransactionNr maxResultCount b =
     bindS (liftN (wo_findAll A b ((ao_filter A)\<lparr>af_involvedPublicKey := pubkey, af_minTransactionNr := firstTransactionNr,
              af_size := uint maxResultCount\<rparr>))) (\<lambda>(es, _) s.
       (Inr (Some [(''transactions'', JArr (map (\<lambda>e. JStr (ao_toBase64 A (ao_serialized A e))) es)), timeUsed_member A s]), s))"

definition name_filter :: "('n, 'b, 'e, 'g, 't) api_ops \<Rightarrow> bytes \<Rightarrow> 'e \<Rightarrow> nat \<Rightarrow> (bool \<times> bool) result \<times> nat" where
  "name_filter A nameHash e n =
     (case ao_nameHash A e of
        Inl x \<Rightarrow> (Inl x, n)
      | Inr None \<Rightarrow> (Inl AssertFailed, n)
      | Inr (Some h) \<Rightarrow> (Inr (h = nameHash, h = nameHash), n))"

definition ApiHandler_findUserByNameHash :: "('n, 'b, 'e, 'g, 't) api_ops \<Rightarrow> bytes \<Rightarrow> 'b \<Rightarrow> 'n api_step" where
  "ApiHandler_findUserByNameHash A nameHash b =
     bindS (liftN (wo_findAll A b ((ao_filter A)\<lparr>af_transactionType := ONLY_REGISTER_ADDRESS,
              af_filterFunction := Some (name_filter A nameHash)\<rparr>))) (\<lambda>(es, _) s.
       case es of
         [] \<Rightarrow> api_error A ADDRESS_NOT_FOUND ''user not found'' s
       | e # _ \<Rightarrow>
           (case ao_accountKey A e of
              Inl x \<Rightarrow> (Inl x, s)
            | Inr None \<Rightarrow> (Inl AssertFailed, s)
            | Inr (Some key) \<Rightarrow> (Inr (Some [timeUsed_member A s, (''pubkey'', JStr (wo_convertToHex A key))]), s)))"

section \<open>handle\<close>

text \<open>The parameters of the methods.\<close>

definition api_getLastTransaction :: "('n, 'b, 'e, 'g, 't) api_ops \<Rightarrow> json \<Rightarrow> 'b \<Rightarrow> 'n api_step" where
  "api_getLastTransaction A params b =
     bindS (RequestHandler_getStringParameter (ao_number A) params ''format'' False) (\<lambda>format.
     bindS (liftN (ao_findOne A b LAST_TRANSACTION)) (\<lambda>lastTransaction s.
       case lastTransaction of
         None \<Rightarrow> api_error A GRADIDO_NODE_ERROR ''no transaction'' s
       | Some e \<Rightarrow>
           (case format of
              Some f \<Rightarrow>
                if f = ''base64'' then
                  (Inr (Some [(''transaction'', JStr (ao_toBase64 A (ao_serialized A e))), timeUsed_member A s]), s)
                else if f = ''json'' then
                  (case ao_toJson A e of
                     Inl x \<Rightarrow> (Inl x, s)
                   | Inr j \<Rightarrow> (Inr (Some [(''transaction'', j), timeUsed_member A s]), s))
                else (Inr (Some [timeUsed_member A s]),
                      RequestHandler_error (ao_number A) INVALID_PARAMS ''unsupported format'' None s)
            | None \<Rightarrow> (Inr (Some [(''transaction'', JStr (ao_toBase64 A (ao_serialized A e))), timeUsed_member A s]), s))))"

definition api_getTransactions :: "('n, 'b, 'e, 'g, 't) api_ops \<Rightarrow> json \<Rightarrow> 'b \<Rightarrow> 'n api_step" where
  "api_getTransactions A params b =
     bindS (RequestHandler_getUInt64Parameter (ao_number A) params ''fromTransactionId'' False) (\<lambda>fromId.
       case fromId of
         None \<Rightarrow> returnS None
       | Some transactionId \<Rightarrow>
           bindS (RequestHandler_getStringParameter (ao_number A) params ''format'' False) (\<lambda>format.
             case format of
               None \<Rightarrow> returnS None
             | Some f \<Rightarrow>
                 bindS (RequestHandler_getUIntParameter (ao_number A) params ''maxResultCount'' True) (\<lambda>count.
                   ApiHandler_findAllTransactions A
                     ((ao_filter A)\<lparr>af_minTransactionNr := transactionId, af_size := (case count of None \<Rightarrow> 100 | Some c \<Rightarrow> uint c),
                        af_searchDirection := ASC\<rparr>) b f)))"

definition api_getAddressBalance :: "('n, 'b, 'e, 'g, 't) api_ops \<Rightarrow> json \<Rightarrow> bytes option \<Rightarrow> 'b \<Rightarrow> 'n api_step" where
  "api_getAddressBalance A params pubkey b =
     bindS (RequestHandler_getStringParameter (ao_number A) params ''date'' False) (\<lambda>date_string.
       case date_string of
         None \<Rightarrow> returnS None
       | Some d \<Rightarrow>
           bindS (liftR (ao_dateOfString A d)) (\<lambda>date.
             ApiHandler_getAddressBalance A pubkey date b
               (case map_of (js_members params) ''coinCommunityId'' of Some (JStr c) \<Rightarrow> c | _ \<Rightarrow> [])))"

text \<open>The pointer for the message id stays null whatever \<open>getBinaryFromHexStringParameter\<close> read.\<close>

definition api_getTransaction :: "('n, 'b, 'e, 'g, 't) api_ops \<Rightarrow> json \<Rightarrow> 'b \<Rightarrow> 'n api_step" where
  "api_getTransaction A params b =
     bindS (RequestHandler_getStringParameter (ao_number A) params ''format'' False) (\<lambda>format.
       case format of
         None \<Rightarrow> returnS None
       | Some f \<Rightarrow>
           bindS (RequestHandler_getUInt64Parameter (ao_number A) params ''transactionId'' True) (\<lambda>transactionId.
           bindS (RequestHandler_getStringParameter (ao_number A) params ''hieroTransactionId'' True) (\<lambda>hieroTransactionId.
           bindS (RequestHandler_getBinaryFromHexStringParameter (ao_number A) (ao_fromHex A) params ''iotaMessageId'' True) (\<lambda>_.
           bindS (liftR (case hieroTransactionId of
                    None \<Rightarrow> Inr None
                  | Some h \<Rightarrow> if h = [] then Inr None else map_sum id Some (ao_hieroId A h))) (\<lambda>hiero.
             let nr = (case transactionId of None \<Rightarrow> 0 | Some i \<Rightarrow> i);
                 iotaMessageId = map_option snd hiero;
                 hieroEmpty = (case hiero of None \<Rightarrow> True | Some (isEmpty, _) \<Rightarrow> isEmpty)
             in if nr = 0 \<and> iotaMessageId = None \<and> hieroEmpty then
                  api_error A INVALID_PARAMS ''transactionId, hieroTransactionId or iotaMessageId needed''
                else ApiHandler_getTransaction A b f nr iotaMessageId)))))"

definition api_getCreationSumForMonth :: "('n, 'b, 'e, 'g, 't) api_ops \<Rightarrow> json \<Rightarrow> bytes option \<Rightarrow> 'b \<Rightarrow> 'n api_step" where
  "api_getCreationSumForMonth A params pubkey b =
     bindS (RequestHandler_getIntParameter (ao_number A) params ''month'' False) (\<lambda>month.
       case month of
         None \<Rightarrow> returnS None
       | Some m \<Rightarrow>
           bindS (RequestHandler_getIntParameter (ao_number A) params ''year'' False) (\<lambda>year.
             case year of
               None \<Rightarrow> returnS None
             | Some y \<Rightarrow>
                 bindS (RequestHandler_getStringParameter (ao_number A) params ''startSearchDate'' False) (\<lambda>date_string.
                   case date_string of
                     None \<Rightarrow> returnS None
                   | Some d \<Rightarrow>
                       bindS (liftR (ao_dateOfString A d)) (\<lambda>date.
                         ApiHandler_getCreationSumForMonth A pubkey (ao_firstOfMonth A y m) date b))))"

text \<open>A member of the parameters where it has the asked kind.\<close>

definition int_member :: "json \<Rightarrow> string \<Rightarrow> int \<Rightarrow> int" where
  "int_member params k dflt = (case map_of (js_members params) k of Some v \<Rightarrow> (case js_int v of Inr i \<Rightarrow> i | Inl _ \<Rightarrow> dflt) | None \<Rightarrow> dflt)"

definition api_listTransactions :: "('n, 'b, 'e, 'g, 't) api_ops \<Rightarrow> json \<Rightarrow> bytes option \<Rightarrow> 'b \<Rightarrow> 'n api_step" where
  "api_listTransactions A params pubkey b =
     ApiHandler_listTransactions A b
       ((ao_filter A)\<lparr>af_involvedPublicKey := pubkey, af_page := int_member params ''currentPage'' 1,
          af_size := int_member params ''pageSize'' 25,
          af_searchDirection := (if map_of (js_members params) ''orderDESC'' = Some (JBool False) then ASC else DESC),
          af_transactionType := (if map_of (js_members params) ''onlyCreations'' = Some (JBool True) then ONLY_CREATION else ANY_TYPE)\<rparr>)"

definition api_getTransactionsForAddress :: "('n, 'b, 'e, 'g, 't) api_ops \<Rightarrow> json \<Rightarrow> bytes option \<Rightarrow> 'b \<Rightarrow> 'n api_step" where
  "api_getTransactionsForAddress A params pubkey b =
     ApiHandler_getTransactionsForAddress A pubkey
       (case map_of (js_members params) ''firstTransactionNr'' of
          Some (JInt i) \<Rightarrow> if js_is_uint64 (JInt i) then word_of_int i else 1 | _ \<Rightarrow> 1)
       (case map_of (js_members params) ''maxResultCount'' of
          Some (JInt i) \<Rightarrow> if js_is_uint (JInt i) then word_of_int i else 0 | _ \<Rightarrow> 0) b"

definition api_findUserByNameHash :: "('n, 'b, 'e, 'g, 't) api_ops \<Rightarrow> json \<Rightarrow> 'b \<Rightarrow> 'n api_step" where
  "api_findUserByNameHash A params b =
     bindS (RequestHandler_getStringParameter (ao_number A) params ''nameHash'' False) (\<lambda>nameHashHex.
       case nameHashHex of
         None \<Rightarrow> returnS None
       | Some h \<Rightarrow> bindS (liftR (ao_fromHex A h)) (\<lambda>nameHash. ApiHandler_findUserByNameHash A nameHash b))"

text \<open>The methods by their names.\<close>

definition api_method :: "('n, 'b, 'e, 'g, 't) api_ops \<Rightarrow> string \<Rightarrow> json \<Rightarrow> bytes option \<Rightarrow> 'b \<Rightarrow> 'n api_step" where
  "api_method A method params pubkey b =
     (if method = ''getLastTransaction'' then api_getLastTransaction A params b
      else if method = ''getTransactions'' then api_getTransactions A params b
      else if method = ''getAddressBalance'' then api_getAddressBalance A params pubkey b
      else if method = ''getAddressType'' then ApiHandler_getAddressType A pubkey b
      else if method = ''getAddressTxids'' then ApiHandler_getAddressTxids A pubkey b
      else if method = ''getTransaction'' then api_getTransaction A params b
      else if method = ''getCreationSumForMonth'' then api_getCreationSumForMonth A params pubkey b
      else if method = ''listTransactions'' then api_listTransactions A params pubkey b
      else if method = ''getTransactionsForAddress'' then api_getTransactionsForAddress A params pubkey b
      else if method = ''findUserByNameHash'' then api_findUserByNameHash A params b
      else (\<lambda>s. (Inr (Some []), RequestHandler_error (ao_number A) METHODE_NOT_FOUND ''method not known'' None s)))"

text \<open>The name of the community: the first of the three members that is a text; the last try leaves it empty.\<close>

fun api_groupAlias ::
    "(rpc_error \<Rightarrow> int) \<Rightarrow> json \<Rightarrow> string list \<Rightarrow> 'n rpc_state \<Rightarrow> string result \<times> 'n rpc_state" where
  "api_groupAlias num params [] s = (Inr [], s)"
| "api_groupAlias num params (key # keys) s =
     (case RequestHandler_getStringParameter num params key True s of
        (Inl e, s') \<Rightarrow> (Inl e, s')
      | (Inr (Some alias), s') \<Rightarrow> (Inr alias, s')
      | (Inr None, s') \<Rightarrow> api_groupAlias num params keys s')"

definition noNeedForPubkey :: "string list" where
  "noNeedForPubkey = [''getLastTransaction'', ''getTransactions'', ''getTransaction'', ''findUserByNameHash'']"

text \<open>The public key, \<open>None\<close> for the null pointer; the outer \<open>None\<close> is the early return.\<close>

definition api_pubkey ::
    "('n, 'b, 'e, 'g, 't) api_ops \<Rightarrow> string \<Rightarrow> json \<Rightarrow> 'n rpc_state \<Rightarrow> bytes option option result \<times> 'n rpc_state" where
  "api_pubkey A method params =
     (if method \<in> set noNeedForPubkey then returnS (Some None)
      else bindS (RequestHandler_getStringParameter (ao_number A) params ''pubkey'' False) (\<lambda>pubkeyHex.
        case pubkeyHex of
          None \<Rightarrow> returnS None
        | Some h \<Rightarrow> bindS (liftR (ao_fromHex A h)) (\<lambda>key. returnS (Some (Some key)))))"

definition api_steps :: "('n, 'b, 'e, 'g, 't) api_ops \<Rightarrow> string \<Rightarrow> json \<Rightarrow> 'n api_step" where
  "api_steps A method params =
     bindS (api_groupAlias (ao_number A) params [''groupAlias'', ''communityId'', ''topic'']) (\<lambda>groupAlias.
       if groupAlias = [] then api_error A UNKNOWN_GROUP ''neither topic, groupAlias nor communityId were specified''
       else bindS (liftN (ao_findBlockchain A groupAlias)) (\<lambda>blockchain.
         case blockchain of
           None \<Rightarrow> api_error A UNKNOWN_GROUP ''community not known''
         | Some b \<Rightarrow>
             bindS (api_pubkey A method params) (\<lambda>pubkey.
               case pubkey of
                 None \<Rightarrow> returnS None
               | Some key \<Rightarrow> api_method A method params key b)))"

definition ApiHandler_handle ::
    "('n, 'b, 'e, 'g, 't) api_ops \<Rightarrow> string \<Rightarrow> json \<Rightarrow> 'n rpc_state \<Rightarrow> unit result \<times> 'n rpc_state" where
  "ApiHandler_handle A method params s =
     (if method = ''listCommunities'' then
        (Inr (), fst s @ [(''result'', JObj (ApiHandler_listCommunities A s))], snd s)
      else case api_steps A method params s of
        (Inl e, s') \<Rightarrow> (Inl e, s')
      | (Inr None, s') \<Rightarrow> (Inr (), s')
      | (Inr (Some resultJson), s') \<Rightarrow>
          (Inr (), if map_of (fst s') ''error'' = None then fst s' @ [(''result'', JObj resultJson)] else fst s', snd s'))"

section \<open>The members of an answer\<close>

text \<open>
  A step adds errors to the answer only, and at least one where its value asks for it (\<open>P\<close>): a getter that
  is not optional and fails, a method that returns early.
\<close>

definition adds :: "('a \<Rightarrow> bool) \<Rightarrow> ('n rpc_state \<Rightarrow> 'a result \<times> 'n rpc_state) \<Rightarrow> bool" where
  "adds P m = (\<forall>s r s'. m s = (r, s') \<longrightarrow>
     (\<exists>errs. fst s' = fst s @ map (Pair ''error'') errs \<and> (\<forall>a. r = Inr a \<longrightarrow> P a \<longrightarrow> errs \<noteq> [])))"

named_theorems adds_intros \<open>what the steps of a method add\<close>

lemma adds_none: "(\<And>s. fst (snd (m s)) = fst s) \<Longrightarrow> adds (\<lambda>_. False) m"
  unfolding adds_def by (intro allI impI exI [of _ "[]"]) (metis append_Nil2 list.map(1) snd_conv)

lemma adds_weaken: "adds P m \<Longrightarrow> (\<And>a. Q a \<Longrightarrow> P a) \<Longrightarrow> adds Q m"
  unfolding adds_def by blast

lemma adds_lift [adds_intros]:
  "adds (\<lambda>_. False) (liftN f)" "adds (\<lambda>_. False) (liftR r)" "adds P (throwS e)"
  by (auto intro!: adds_none simp: liftN_def liftR_def split: prod.splits) (auto simp: adds_def throwS_def)

lemma adds_return: "\<not> P a \<Longrightarrow> adds P (returnS a)"
  by (auto simp: adds_def returnS_def)

lemma error_appends: "\<exists>x. fst (RequestHandler_error num code message data s) = fst s @ map (Pair ''error'') [x]"
  by (simp add: RequestHandler_error_def)

lemma adds_error: "adds P (\<lambda>s. (r s, RequestHandler_error num code message data s))"
  unfolding adds_def
proof (intro allI impI)
  fix s r' s' assume run: "(r s, RequestHandler_error num code message data s) = (r', s')"
  obtain x where "fst (RequestHandler_error num code message data s) = fst s @ map (Pair ''error'') [x]"
    using error_appends by blast
  then show "\<exists>errs. fst s' = fst s @ map (Pair ''error'') errs \<and> (\<forall>a. r' = Inr a \<longrightarrow> P a \<longrightarrow> errs \<noteq> [])"
    using run by (intro exI [of _ "[x]"]) auto
qed

lemma adds_api_error [adds_intros]: "adds P (api_error A code message)"
  unfolding api_error_def by (rule adds_error)

lemma adds_bind:
  assumes "adds P m" and "\<And>a. \<not> P a \<Longrightarrow> adds Q (f a)" and "\<And>a. P a \<Longrightarrow> adds (\<lambda>_. False) (f a)"
  shows "adds Q (bindS m f)"
  unfolding adds_def
proof (intro allI impI)
  fix s r s' assume run: "bindS m f s = (r, s')"
  obtain r1 s1 where m: "m s = (r1, s1)" by (cases "m s") blast
  with assms(1) obtain errs where e: "fst s1 = fst s @ map (Pair ''error'') errs" "\<forall>a. r1 = Inr a \<longrightarrow> P a \<longrightarrow> errs \<noteq> []"
    unfolding adds_def by blast
  show "\<exists>errs. fst s' = fst s @ map (Pair ''error'') errs \<and> (\<forall>a. r = Inr a \<longrightarrow> Q a \<longrightarrow> errs \<noteq> [])"
  proof (cases r1)
    case (Inl x)
    then show ?thesis using run m e by auto
  next
    case (Inr a)
    then have "f a s1 = (r, s')" using run m by simp
    moreover have "adds (\<lambda>x. Q x \<and> \<not> P a) (f a)" using assms(2,3) [of a] by (cases "P a") (auto intro: adds_weaken)
    ultimately obtain errs' where "fst s' = fst s1 @ map (Pair ''error'') errs'" "\<forall>x. r = Inr x \<longrightarrow> Q x \<and> \<not> P a \<longrightarrow> errs' \<noteq> []"
      unfolding adds_def by blast
    with e Inr show ?thesis by (intro exI [of _ "errs @ errs'"]) auto
  qed
qed

lemma adds_bind0: "adds (\<lambda>_. False) m \<Longrightarrow> (\<And>a. adds Q (f a)) \<Longrightarrow> adds Q (bindS m f)"
  by (rule adds_bind [where P = "\<lambda>_. False"]) auto

lemma param_fails_adds: "adds (\<lambda>a. a = None \<and> \<not> optional) (param_fails num message optional)"
proof (cases optional)
  case True
  then show ?thesis by (auto simp: adds_def param_fails_def)
next
  case False
  then show ?thesis using adds_error [of "\<lambda>a. a = None" "\<lambda>_. Inr None"] by (simp add: param_fails_def [abs_def])
qed

lemma adds_getter:
  assumes "\<And>s. g s = (Inl AssertFailed, s) \<or> (\<exists>a. g s = (Inr (Some a), s)) \<or> (\<exists>message. g s = param_fails num message optional s)"
  shows "adds (\<lambda>a. a = None \<and> \<not> optional) g"
  unfolding adds_def
proof (intro allI impI)
  fix s r s' assume g: "g s = (r, s')"
  consider "g s = (Inl AssertFailed, s)" | a where "g s = (Inr (Some a), s)" | message where "g s = param_fails num message optional s"
    using assms by blast
  then show "\<exists>errs. fst s' = fst s @ map (Pair ''error'') errs \<and> (\<forall>a. r = Inr a \<longrightarrow> a = None \<and> \<not> optional \<longrightarrow> errs \<noteq> [])"
  proof cases
    case 3
    then show ?thesis using g param_fails_adds [of optional num message] unfolding adds_def by metis
  qed (use g in auto)
qed

lemma adds_getters [adds_intros]:
  "adds (\<lambda>a. a = None \<and> \<not> optional) (RequestHandler_getIntParameter num params k optional)"
  "adds (\<lambda>a. a = None \<and> \<not> optional) (RequestHandler_getUIntParameter num params k optional)"
  "adds (\<lambda>a. a = None \<and> \<not> optional) (RequestHandler_getUInt64Parameter num params k optional)"
  "adds (\<lambda>a. a = None \<and> \<not> optional) (RequestHandler_getStringParameter num params k optional)"
  by (rule adds_getter [where num = num];
      auto simp: RequestHandler_getIntParameter_def RequestHandler_getUIntParameter_def RequestHandler_getUInt64Parameter_def
        RequestHandler_getStringParameter_def js_find_def split: option.split sum.split json.split)+

lemma adds_bool:
  assumes "\<And>s. g s = (Inl AssertFailed, s) \<or> (\<exists>e. g s = (Inl e, s)) \<or> g s = (Inr True, s) \<or>
    (\<exists>message. g s = apfst (map_sum id (\<lambda>_. False)) (param_fails num message optional s :: unit option result \<times> 'n rpc_state))"
  shows "adds (\<lambda>a. a = False \<and> \<not> optional) g"
  unfolding adds_def
proof (intro allI impI)
  fix s r s' assume g: "g s = (r, s')"
  consider e where "g s = (Inl e, s)" | "g s = (Inr True, s)"
    | message where "g s = apfst (map_sum id (\<lambda>_. False)) (param_fails num message optional s :: unit option result \<times> 'n rpc_state)"
    using assms by blast
  then show "\<exists>errs. fst s' = fst s @ map (Pair ''error'') errs \<and> (\<forall>a. r = Inr a \<longrightarrow> a = False \<and> \<not> optional \<longrightarrow> errs \<noteq> [])"
  proof cases
    case 3
    then show ?thesis using g error_appends [of num INVALID_PARAMS message None s]
      by (auto simp: param_fails_def split: if_splits intro: exI [of _ "[_]"])
  qed (use g in auto)
qed

lemma adds_checks [adds_intros]:
  "adds (\<lambda>a. a = False \<and> \<not> optional) (check_kind K wrong num params k optional)"
  "adds (\<lambda>a. a = False \<and> \<not> optional) (RequestHandler_getBinaryFromHexStringParameter num fromHex params k optional)"
  by (rule adds_bool [where num = num];
      auto simp: check_kind_def RequestHandler_getBinaryFromHexStringParameter_def js_find_def Let_def
        split: option.split sum.split json.split)+

lemma adds_optional:
  "adds (\<lambda>_. False) (RequestHandler_getIntParameter num params k optional)"
  "adds (\<lambda>_. False) (RequestHandler_getUIntParameter num params k optional)"
  "adds (\<lambda>_. False) (RequestHandler_getUInt64Parameter num params k optional)"
  "adds (\<lambda>_. False) (RequestHandler_getStringParameter num params k optional)"
  "adds (\<lambda>_. False) (RequestHandler_getBinaryFromHexStringParameter num fromHex params k optional)"
  by (rule adds_weaken, rule adds_intros, simp)+

text \<open>A getter that is needed: the method goes on with the value or returns early.\<close>

lemma adds_need:
  assumes "adds (\<lambda>a. a = None \<and> \<not> False) g" and "\<And>x. adds (\<lambda>r. r = None) (f x)"
  shows "adds (\<lambda>r. r = None) (bindS g (\<lambda>a. case a of None \<Rightarrow> returnS None | Some x \<Rightarrow> f x))"
proof (rule adds_bind [OF assms(1)])
  show "adds (\<lambda>r. r = None) (case a of None \<Rightarrow> returnS None | Some x \<Rightarrow> f x)" if "\<not> (a = None \<and> \<not> False)" for a
    using that assms(2) by (cases a) auto
  show "adds (\<lambda>_. False) (case a of None \<Rightarrow> returnS None | Some x \<Rightarrow> f x)" if "a = None \<and> \<not> False" for a
    using that by (simp add: adds_return)
qed

lemmas adds_needs = adds_getters [where optional = False, THEN adds_need]

lemma adds_some: "adds (\<lambda>r. r = None) (\<lambda>s. (Inr (Some (ms s)), s))" "adds (\<lambda>r. r = None) (returnS (Some ms'))"
  by (auto simp: adds_def returnS_def)

lemma adds_get_clock: "adds (\<lambda>_. False) (get_clock A)"
  by (auto simp: adds_def get_clock_def)

lemmas adds_method = adds_bind0 [OF adds_get_clock] adds_bind0 [OF adds_lift(1)] adds_bind0 [OF adds_lift(2)] adds_some adds_api_error adds_lift(3)

lemma adds_root_balances: "adds (\<lambda>_. False) (root_balances A b now)"
  unfolding root_balances_def
  by (intro adds_bind0 [OF adds_lift(1)], simp split: option.split)
    (auto intro!: adds_bind0 adds_lift adds_return split: option.split)

lemma adds_ApiHandler_methods [adds_intros]:
  "adds (\<lambda>r. r = None) (ApiHandler_getTransaction A b f nr i)"
  "adds (\<lambda>r. r = None) (ApiHandler_getCreationSumForMonth A pubkey t1 t2 b)"
  "adds (\<lambda>r. r = None) (ApiHandler_getAddressBalance A pubkey t1 b coin)"
  "adds (\<lambda>r. r = None) (ApiHandler_getAddressType A pubkey b)"
  "adds (\<lambda>r. r = None) (ApiHandler_getAddressTxids A pubkey b)"
  "adds (\<lambda>r. r = None) (ApiHandler_getTransactionsForAddress A pubkey first n b)"
  by (auto simp: ApiHandler_getTransaction_def ApiHandler_getCreationSumForMonth_def ApiHandler_getAddressBalance_def
      ApiHandler_getAddressType_def ApiHandler_getAddressTxids_def ApiHandler_getTransactionsForAddress_def
      intro!: adds_method split: option.split prod.split)

lemma adds_prod: "(\<And>x y. adds P (f x y)) \<Longrightarrow> adds P (case p of (x, y) \<Rightarrow> f x y)"
  by (cases p) simp

lemma adds_findAllTransactions [adds_intros]: "adds (\<lambda>r. r = None) (ApiHandler_findAllTransactions A flt b format)"
  unfolding ApiHandler_findAllTransactions_def by (intro adds_method adds_prod adds_bind0 [OF adds_root_balances])

lemma adds_listTransactions [adds_intros]: "adds (\<lambda>r. r = None) (ApiHandler_listTransactions A b flt)"
  unfolding ApiHandler_listTransactions_def by (auto intro!: adds_method split: option.split)

lemma adds_findUser [adds_intros]: "adds (\<lambda>r. r = None) (ApiHandler_findUserByNameHash A nameHash b)"
proof -
  have "adds (\<lambda>r. r = None) (\<lambda>s. case es of
         [] \<Rightarrow> api_error A ADDRESS_NOT_FOUND ''user not found'' s
       | e # _ \<Rightarrow>
           (case ao_accountKey A e of
              Inl x \<Rightarrow> (Inl x, s)
            | Inr None \<Rightarrow> (Inl AssertFailed, s)
            | Inr (Some key) \<Rightarrow> (Inr (Some [timeUsed_member A s, (''pubkey'', JStr (wo_convertToHex A key))]), s)))" for es
    using adds_api_error [of "\<lambda>r. r = None" A ADDRESS_NOT_FOUND "''user not found''"]
    by (cases es) (auto simp: adds_def split: sum.split option.split)
  then show ?thesis unfolding ApiHandler_findUserByNameHash_def by (intro adds_method adds_prod)
qed

lemma adds_getLastTransaction [adds_intros]: "adds (\<lambda>r. r = None) (api_getLastTransaction A params b)"
proof -
  have "adds (\<lambda>r. r = None) (\<lambda>s. (Inr (Some [timeUsed_member A s]), RequestHandler_error (ao_number A) INVALID_PARAMS ''unsupported format'' None s))"
    by (rule adds_error)
  moreover have "adds (\<lambda>r. r = None) (\<lambda>s. api_error A GRADIDO_NODE_ERROR ''no transaction'' s)" by (intro adds_method)
  ultimately have "adds (\<lambda>r. r = None) (\<lambda>s. case lastTransaction of
         None \<Rightarrow> api_error A GRADIDO_NODE_ERROR ''no transaction'' s
       | Some e \<Rightarrow>
           (case format of
              Some f \<Rightarrow>
                if f = ''base64'' then
                  (Inr (Some [(''transaction'', JStr (ao_toBase64 A (ao_serialized A e))), timeUsed_member A s]), s)
                else if f = ''json'' then
                  (case ao_toJson A e of
                     Inl x \<Rightarrow> (Inl x, s)
                   | Inr j \<Rightarrow> (Inr (Some [(''transaction'', j), timeUsed_member A s]), s))
                else (Inr (Some [timeUsed_member A s]),
                      RequestHandler_error (ao_number A) INVALID_PARAMS ''unsupported format'' None s)
            | None \<Rightarrow> (Inr (Some [(''transaction'', JStr (ao_toBase64 A (ao_serialized A e))), timeUsed_member A s]), s)))" for format lastTransaction
    unfolding adds_def by (cases lastTransaction; cases format) (auto split: sum.split)
  then show ?thesis unfolding api_getLastTransaction_def by (intro adds_bind0 [OF adds_optional(4)] adds_method)
qed

lemma adds_method_calls [adds_intros]:
  "adds (\<lambda>r. r = None) (api_getTransactions A params b)"
  "adds (\<lambda>r. r = None) (api_getAddressBalance A params pubkey b)"
  "adds (\<lambda>r. r = None) (api_getCreationSumForMonth A params pubkey b)"
  "adds (\<lambda>r. r = None) (api_findUserByNameHash A params b)"
  "adds (\<lambda>r. r = None) (api_listTransactions A params pubkey b)"
  "adds (\<lambda>r. r = None) (api_getTransactionsForAddress A params pubkey b)"
  unfolding api_getTransactions_def api_getAddressBalance_def api_getCreationSumForMonth_def api_findUserByNameHash_def
    api_listTransactions_def api_getTransactionsForAddress_def
  by (intro adds_needs adds_bind0 [OF adds_optional(2)] adds_bind0 [OF adds_lift(2)] adds_findAllTransactions
      adds_ApiHandler_methods adds_findUser adds_listTransactions)+

lemma adds_if: "adds P f \<Longrightarrow> adds P g \<Longrightarrow> adds P (if c then f else g)"
  by simp

lemma adds_getTransaction [adds_intros]: "adds (\<lambda>r. r = None) (api_getTransaction A params b)"
  unfolding api_getTransaction_def Let_def
  by (intro adds_needs adds_bind0 [OF adds_optional(3)] adds_bind0 [OF adds_optional(4)] adds_bind0 [OF adds_optional(5)]
      adds_bind0 [OF adds_lift(2)] adds_if adds_api_error adds_ApiHandler_methods(1))

lemma adds_api_method [adds_intros]: "adds (\<lambda>r. r = None) (api_method A method params pubkey b)"
  unfolding api_method_def
  by (intro adds_if adds_error adds_getLastTransaction adds_method_calls adds_getTransaction adds_ApiHandler_methods)

lemma adds_groupAlias: "adds (\<lambda>_. False) (api_groupAlias num params keys)"
proof (induction keys)
  case Nil
  show ?case by (auto simp: adds_def)
next
  case (Cons key keys)
  have eq: "api_groupAlias num params (key # keys) = bindS (RequestHandler_getStringParameter num params key True)
      (\<lambda>a. case a of Some alias \<Rightarrow> returnS alias | None \<Rightarrow> api_groupAlias num params keys)"
    by (auto simp: bindS_def returnS_def fun_eq_iff split: prod.split sum.split option.split)
  show ?case unfolding eq using Cons
    by (auto intro!: adds_bind0 [OF adds_optional(4)] adds_return split: option.split)
qed

lemma adds_pubkey: "adds (\<lambda>r. r = None) (api_pubkey A method params)"
  unfolding api_pubkey_def
  by (auto intro!: adds_needs adds_bind0 [OF adds_lift(2)] adds_return)

lemma adds_api_steps: "adds (\<lambda>r. r = None) (api_steps A method params)"
proof -
  have "adds (\<lambda>r. r = None) (bindS (api_pubkey A method params) (\<lambda>pubkey. case pubkey of
                 None \<Rightarrow> returnS None | Some key \<Rightarrow> api_method A method params key b))" for b
    by (intro adds_need) (use adds_pubkey adds_api_method in simp_all)
  then show ?thesis unfolding api_steps_def
    by (intro adds_bind0 [OF adds_groupAlias]) (auto intro!: adds_bind0 [OF adds_lift(1)] adds_api_error split: option.split)
qed

section \<open>The form of the answers\<close>

text \<open>
  What JSON-RPC asks of an answer: an object with the version, the id of the request and either a result or
  an error.
\<close>

definition answer_ok :: "json \<Rightarrow> json \<Rightarrow> bool" where
  "answer_ok request answer =
     (\<exists>ms. answer = JObj ms \<and> map_of ms ''jsonrpc'' = Some (JStr ''2.0'') \<and>
        map_of ms ''id'' = Some (case map_of (js_members request) ''id'' of None \<Rightarrow> JNull | Some i \<Rightarrow> i) \<and>
        (map_of ms ''result'' \<noteq> None) \<noteq> (map_of ms ''error'' \<noteq> None))"

text \<open>The members behind the method: errors only, or one result.\<close>

definition body_ok :: "(string \<times> json) list \<Rightarrow> bool" where
  "body_ok ms = ((\<exists>errs. errs \<noteq> [] \<and> ms = map (Pair ''error'') errs) \<or> (\<exists>r. ms = [(''result'', r)]))"

lemma map_of_errors: "map_of (map (Pair k) errs @ ms) k' = (if k' = k \<and> errs \<noteq> [] then Some (hd errs) else map_of ms k')"
  "map_of (map (Pair k) errs) k' = (if k' = k \<and> errs \<noteq> [] then Some (hd errs) else None)"
  by (induction errs) auto

lemma body_ok_answer:
  assumes "body_ok ms"
  shows "answer_ok request (JObj (ms @ [(''jsonrpc'', JStr ''2.0''),
    (''id'', case map_of (js_members request) ''id'' of None \<Rightarrow> JNull | Some i \<Rightarrow> i)]))"
  using assms by (auto simp: body_ok_def answer_ok_def map_of_errors simp del: map_of_append)

lemma handle_body_ok:
  assumes "ApiHandler_handle A meth params ([], n) = (Inr (), s')"
  shows "body_ok (fst s')"
proof (cases "meth = ''listCommunities''")
  case True
  then show ?thesis using assms by (auto simp: ApiHandler_handle_def body_ok_def)
next
  case False
  obtain r s1 where st: "api_steps A meth params ([], n) = (r, s1)" by (cases "api_steps A meth params ([], n)") blast
  with adds_api_steps [of A meth params] obtain errs where
    "fst s1 = map (Pair ''error'') errs" "r = Inr None \<longrightarrow> errs \<noteq> []"
    unfolding adds_def by fastforce
  then show ?thesis using assms st False map_of_errors [of "''error''" errs "[]"]
    by (auto simp: ApiHandler_handle_def body_ok_def split: sum.splits option.splits if_splits)
qed

lemma handle_errors:
  assumes "ApiHandler_handle A meth params ([], n) = (Inl e, s')"
  shows "\<exists>errs. fst s' = map (Pair ''error'') errs"
proof -
  have "api_steps A meth params ([], n) = (Inl e, s')"
    using assms by (auto simp: ApiHandler_handle_def split: if_splits prod.splits sum.splits option.splits)
  then show ?thesis using adds_api_steps [of A meth params] unfolding adds_def by fastforce
qed

lemma call_method_body_ok:
  assumes "call_method num (ApiHandler_handle A) meth params ([], n) = (Inr (), s')"
  shows "body_ok (fst s')"
proof -
  obtain r s1 where h: "ApiHandler_handle A meth params ([], n) = (r, s1)"
    by (cases "ApiHandler_handle A meth params ([], n)") blast
  show ?thesis
  proof (cases r)
    case (Inr u)
    then show ?thesis using assms h handle_body_ok [of A meth params n s1] by (simp add: call_method_def)
  next
    case (Inl e)
    with h have "ApiHandler_handle A meth params ([], n) = (Inl e, s1)" by simp
    then obtain errs where e: "fst s1 = map (Pair ''error'') errs" using handle_errors [of A meth params n e s1] by blast
    have "s' = RequestHandler_error num GRADIDO_NODE_ERROR ''gradido node intern exception'' None s1"
      using assms h Inl by (auto simp: call_method_def split: error.splits)
    with error_appends [of num GRADIDO_NODE_ERROR "''gradido node intern exception''" None s1] e obtain x where
      "fst s' = map (Pair ''error'') (errs @ [x])" by auto
    then show ?thesis unfolding body_ok_def by blast
  qed
qed

lemma handleOneRpcCall_ok:
  assumes "RequestHandler_handleOneRpcCall num (ApiHandler_handle A) request n = (Inr answer, n')"
  shows "answer_ok request answer"
proof -
  let ?m = "bindS (RequestHandler_checkObjectOrArrayParameter num request ''params'' False) (\<lambda>ok.
      if \<not> ok then returnS ()
      else bindS (RequestHandler_getStringParameter num request ''method'' False) (\<lambda>meth.
        case meth of
          None \<Rightarrow> returnS ()
        | Some m \<Rightarrow> (case js_get ''params'' request of Inl e \<Rightarrow> throwS e | Inr params \<Rightarrow> call_method num (ApiHandler_handle A) m params)))"
  from assms obtain ms where m: "?m ([], n) = (Inr (), ms, n')"
    and a: "answer = JObj (ms @ [(''jsonrpc'', JStr ''2.0''),
      (''id'', case map_of (js_members request) ''id'' of None \<Rightarrow> JNull | Some i \<Rightarrow> i)])"
    by (auto simp: RequestHandler_handleOneRpcCall_def split: prod.splits sum.splits)
  obtain r1 s1 where c: "RequestHandler_checkObjectOrArrayParameter num request ''params'' False ([], n) = (r1, s1)"
    by (cases "RequestHandler_checkObjectOrArrayParameter num request ''params'' False ([] :: (string \<times> json) list, n)") blast
  then have c1: "r1 = Inr True \<Longrightarrow> s1 = ([], n)"
    by (auto simp: RequestHandler_checkObjectOrArrayParameter_def check_kind_def param_fails_def Let_def
        split: sum.splits option.splits if_splits)
  have c2: "r1 = Inr False \<Longrightarrow> \<exists>errs. fst s1 = map (Pair ''error'') errs \<and> errs \<noteq> []"
    using c adds_checks(1) [of False] unfolding RequestHandler_checkObjectOrArrayParameter_def adds_def by fastforce
  have "body_ok ms"
  proof (cases "r1 = Inr True")
    case False
    then have "r1 = Inr False" "s1 = (ms, n')" using m c by (cases r1; auto)+
    then show ?thesis using c2 by (auto simp: body_ok_def)
  next
    case True
    obtain r2 s2 where g: "RequestHandler_getStringParameter num request ''method'' False ([], n) = (r2, s2)"
      by (cases "RequestHandler_getStringParameter num request ''method'' False ([] :: (string \<times> json) list, n)") blast
    then have g1: "r2 = Inr (Some x) \<Longrightarrow> s2 = ([], n)" for x
      by (auto simp: RequestHandler_getStringParameter_def param_fails_def split: sum.splits option.splits json.splits)
    have g2: "r2 = Inr None \<Longrightarrow> \<exists>errs. fst s2 = map (Pair ''error'') errs \<and> errs \<noteq> []"
      using g adds_getters(4) [of False] unfolding adds_def by fastforce
    from m c c1 True g have m2: "(case r2 of Inl e \<Rightarrow> (Inl e, s2) | Inr meth \<Rightarrow>
        (case meth of None \<Rightarrow> returnS () | Some m \<Rightarrow> (case js_get ''params'' request of Inl e \<Rightarrow> throwS e
          | Inr params \<Rightarrow> call_method num (ApiHandler_handle A) m params)) s2) = (Inr (), ms, n')"
      by (auto simp: bindS_def split: sum.splits)
    show ?thesis
    proof (cases "r2 = Inr None")
      case True
      then show ?thesis using m2 g2 by (auto simp: body_ok_def returnS_def)
    next
      case False
      then obtain x where "r2 = Inr (Some x)" using m2 by (cases r2) auto
      then show ?thesis using m2 g1 call_method_body_ok [of num A x _ n "(ms, n')"]
        by (auto simp: throwS_def split: sum.splits)
    qed
  qed
  then show ?thesis unfolding a by (rule body_ok_answer)
qed

lemma handle_batch_ok:
  "handle_batch num (ApiHandler_handle A) requests n = (Inr answers, n') \<Longrightarrow> list_all2 answer_ok requests answers"
proof (induction requests arbitrary: n answers)
  case (Cons v vs)
  then obtain r n1 rs where "RequestHandler_handleOneRpcCall num (ApiHandler_handle A) v n = (Inr r, n1)"
    "handle_batch num (ApiHandler_handle A) vs n1 = (Inr rs, n')" "answers = r # rs"
    by (auto simp: bindS_def returnS_def split: prod.splits sum.splits)
  then show ?case using Cons.IH handleOneRpcCall_ok by auto
qed simp

section \<open>Properties\<close>

text \<open>C12: Every answer of the API has the form that JSON-RPC asks for: the answer to a call, whatever its meth
  and parameters, is an object with the version 2.0, the id of the call (null where it has none) and either
  a result or an error, never both and never neither; the answer to a batch is the list of such answers, one
  for each call, in their order.\<close>

theorem ApiHandler_answers_well_formed:
  assumes "parse body = Inr request" and "js_is_object request \<or> js_is_array request" and "http = POST \<or> http = PUT"
    and "RequestHandler_answer num (ApiHandler_handle A) parse http body n = (Inr answer, n')"
  shows "case request of
      JArr calls \<Rightarrow> \<exists>answers. answer = JArr answers \<and> list_all2 answer_ok calls answers
    | _ \<Rightarrow> answer_ok request answer"
proof (cases request)
  case (JArr calls)
  then obtain answers where "handle_batch num (ApiHandler_handle A) calls n = (Inr answers, n')" "answer = JArr answers"
    using assms(1,3,4) by (auto simp: RequestHandler_answer_def Let_def bindS_def returnS_def split: prod.splits sum.splits)
  then show ?thesis using JArr handle_batch_ok by auto
next
  case (JObj ms)
  then have "RequestHandler_handleOneRpcCall num (ApiHandler_handle A) request n = (Inr answer, n')"
    using assms(1,3,4) by (auto simp: RequestHandler_answer_def Let_def)
  then show ?thesis using JObj handleOneRpcCall_ok by auto
qed (use assms(2) in \<open>simp_all add: js_is_object_def js_is_array_def\<close>)


text \<open>A transaction cannot be asked for by its message id: \<open>getBinaryFromHexStringParameter\<close> assigns the bytes to
  its copy of the pointer, so \<open>getTransaction\<close> with a valid \<open>iotaMessageId\<close> and no other id answers that an id
  is needed, whatever the blockchain holds.\<close>

theorem ApiHandler_message_id_ignored:
  assumes "map_of ps ''communityId'' = Some (JStr c)" and "c \<noteq> []" and "map_of ps ''groupAlias'' = None"
    and "map_of ps ''format'' = Some (JStr f)" and "map_of ps ''iotaMessageId'' = Some (JStr h)"
    and "ao_fromHex A h = Inr messageId" and "map_of ps ''transactionId'' = None"
    and "map_of ps ''hieroTransactionId'' = None" and "ao_findBlockchain A c n = (Inr (Some b), n')"
  shows "ApiHandler_handle A ''getTransaction'' (JObj ps) ([], n) =
    (Inr (), RequestHandler_error (ao_number A) INVALID_PARAMS ''transactionId, hieroTransactionId or iotaMessageId needed'' None ([], n'))"
proof -
  note defs = RequestHandler_getStringParameter_def js_find_def param_fails_def bindS_def returnS_def
  have "api_groupAlias (ao_number A) (JObj ps) [''groupAlias'', ''communityId'', ''topic''] ([], n) = (Inr c, [], n)"
    using assms(1,3) by (simp add: defs)
  moreover have "api_pubkey A ''getTransaction'' (JObj ps) s = (Inr (Some None), s)" for s :: "'a rpc_state"
    by (simp add: api_pubkey_def noNeedForPubkey_def defs)
  moreover have "api_getTransaction A (JObj ps) b s =
      api_error A INVALID_PARAMS ''transactionId, hieroTransactionId or iotaMessageId needed'' s" for s
    using assms(4-8) by (simp add: api_getTransaction_def RequestHandler_getUInt64Parameter_def
        RequestHandler_getBinaryFromHexStringParameter_def liftR_def defs Let_def)
  ultimately show ?thesis using assms(2,9)
    by (simp add: ApiHandler_handle_def api_steps_def liftN_def api_method_def api_error_def defs)
qed

text \<open>An example: one community, whose blockchain is empty; a body is its length.\<close>

definition no_entries :: "(int, int) wallet_tx api_filter" where
  "no_entries = \<lparr>af_minTransactionNr = 0, af_maxTransactionNr = 0, af_size = 0, af_page = 1, af_searchDirection = ASC,
     af_involvedPublicKey = None, af_transactionType = ANY_TYPE, af_filterFunction = None\<rparr>"

definition example_api :: "(unit, unit, (int, int) wallet_tx, int, int) api_ops" where
  "example_api = wallet_ops.extend int_wallet (api_ops.fields
     (\<lambda>code. case code of INVALID_PARAMS \<Rightarrow> - 32602 | _ \<Rightarrow> - 32000) (\<lambda>_. [''town'']) (\<lambda>c n. (Inr (if c = ''town'' then Some () else None), n))
     (\<lambda>_ _ n. (Inr None, n)) (\<lambda>_ _ n. (Inr [], n)) (\<lambda>_ _ n. (Inr None, n)) (\<lambda>_. [1]) (\<lambda>_. Inr JNull)
     (\<lambda>_. Inr None) (\<lambda>_. Inr None) (\<lambda>_. Inr None) (\<lambda>_. Inr [7]) (\<lambda>_. ''AQ'') (\<lambda>_. Inr (False, [8])) (\<lambda>_. ''1 ms'')
     (\<lambda>_. Inr 0) (\<lambda>_ _. 0) (\<lambda>_ _ _ _ n. (Inr ''0'', n)) (\<lambda>_ _ _ _ n. (Inr ''0'', n)) no_entries 0 0)"

definition example_call :: "string \<Rightarrow> json \<Rightarrow> json" where
  "example_call method params = JObj [(''jsonrpc'', JStr ''2.0''), (''method'', JStr method), (''params'', params), (''id'', JInt 1)]"

definition example_params :: "(string \<times> json) list" where
  "example_params = [(''communityId'', JStr ''town''), (''format'', JStr ''json''), (''iotaMessageId'', JStr ''07'')]"

definition example_batch :: "json list" where
  "example_batch = [example_call ''listCommunities'' (JObj []), example_call ''getTransaction'' (JObj example_params), JObj []]"

lemma ApiHandler_answers_well_formed_witness:
  "\<exists>answers. RequestHandler_answer (ao_number example_api) (ApiHandler_handle example_api) (\<lambda>_. Inr (JArr example_batch)) POST [] () =
     (Inr (JArr answers), ()) \<and> list_all2 answer_ok example_batch answers"
proof -
  have "is_ok (fst (RequestHandler_answer (ao_number example_api) (ApiHandler_handle example_api) (\<lambda>_. Inr (JArr example_batch)) POST [] ()))"
    by code_simp
  then obtain answer where a: "RequestHandler_answer (ao_number example_api) (ApiHandler_handle example_api) (\<lambda>_. Inr (JArr example_batch)) POST [] () =
      (Inr answer, ())"
    by (cases "RequestHandler_answer (ao_number example_api) (ApiHandler_handle example_api) (\<lambda>_. Inr (JArr example_batch)) POST [] ()")
      (auto simp: is_ok_def split: sum.splits)
  from ApiHandler_answers_well_formed [OF _ _ _ this] show ?thesis using a by (auto simp: js_is_array_def)
qed


lemma ApiHandler_message_id_ignored_witness:
  "ApiHandler_handle example_api ''getTransaction'' (JObj example_params) ([], ()) =
    (Inr (), RequestHandler_error (ao_number example_api) INVALID_PARAMS ''transactionId, hieroTransactionId or iotaMessageId needed'' None ([], ()))"
  by (rule ApiHandler_message_id_ignored [where c = "''town''" and f = "''json''" and h = "''07''" and messageId = "[7]" and b = "()"])
    (simp_all add: example_params_def example_api_def wallet_ops.defs api_ops.defs)

end
