(* ===== verification/Client.thy ===== *)
theory Client
  imports KeyValue Json "HOL-Library.List_Lexorder" "HOL-Library.Char_ord"
begin

text \<open>
  The clients that tell a community server about new transactions: \<open>client::Base\<close>, \<open>client::JsonRPC\<close>,
  \<open>client::GraphQL\<close> (\<open>src/client/Base.cpp\<close>, \<open>JsonRPC.cpp\<close>, \<open>GraphQL.cpp\<close>) and the task that runs them
  (\<open>src/task/NotifyClient.cpp\<close>). The request itself, \<open>JsonRequest::postRequest\<close>, and the serialisations
  belong to the library: parameters.
\<close>

section \<open>Clients\<close>

datatype NotificationFormat = PROTOBUF_BASE64 | JSON

definition format_value :: "NotificationFormat \<Rightarrow> u32" where
  "format_value f = (case f of PROTOBUF_BASE64 \<Rightarrow> 1 | JSON \<Rightarrow> 2)"

datatype client_class = JsonRPC | GraphQL

record Client =
  client_of :: client_class
  mUri :: string
  mFormat :: NotificationFormat
  mGroupAlias :: string

definition Base_new :: "client_class \<Rightarrow> string \<Rightarrow> NotificationFormat \<Rightarrow> Client" where
  "Base_new k uri format = \<lparr>client_of = k, mUri = uri, mFormat = format, mGroupAlias = []\<rparr>"

definition JsonRPC_new :: "string \<Rightarrow> bool \<Rightarrow> Client" where
  "JsonRPC_new uri base64 = Base_new JsonRPC uri (if base64 then PROTOBUF_BASE64 else JSON)"

definition GraphQL_new :: "string \<Rightarrow> Client" where
  "GraphQL_new uri = Base_new GraphQL uri PROTOBUF_BASE64"

definition Base_setGroupAlias :: "string \<Rightarrow> Client \<Rightarrow> Client" where
  "Base_setGroupAlias groupAlias c = c\<lparr>mGroupAlias := groupAlias\<rparr>"

section \<open>Requests\<close>

text \<open>
  \<open>post\<close> is the request to a URI with its parameters. A \<open>std::map\<close> of parameters is an ordered map; a
  value made from \<open>data()\<close> ends at the first NUL.
\<close>

type_synonym post = "string \<Rightarrow> json \<Rightarrow> json result"

definition js_text :: "string \<Rightarrow> json" where
  "js_text s = JStr (c_str s)"

definition JsonRPC_postRequest :: "post \<Rightarrow> Client \<Rightarrow> (string \<times> string) list \<Rightarrow> bool result" where
  "JsonRPC_postRequest post c parameterValuePairs =
     (case post (mUri c) (JObj (map (\<lambda>(k, v). (c_str k, js_text v)) parameterValuePairs)) of
        Inr _ \<Rightarrow> Inr True
      | Inl (Gradido _) \<Rightarrow> Inr True
      | Inl (Std _) \<Rightarrow> Inr True
      | Inl e \<Rightarrow> Inl e)"

definition newGradidoBlock_base64 :: string where
  "newGradidoBlock_base64 =
     ''mutation NewGradidoBlock($data: ConfirmedTransactionInput!) {   newGradidoBlock(data: $dat'' @
     ''a) {     error {       name       message       type     }     recipe { '' @
     [CHR 0x09] @
     ''  createdAt '' @
     [CHR 0x09] @
     ''  id '' @
     [CHR 0x09] @
     ''  topic '' @
     [CHR 0x09] @
     ''  type '' @
     [CHR 0x09] @
     ''}     succeed   } }''"

definition newGradidoBlock_json :: string where
  "newGradidoBlock_json =
     ''mutation($transactionJson: String!, $iotaTopic: String!){newGradidoBlock(transactionJson: '' @
     ''$transactionJson, iotaTopic: $iotaTopic)}''"

definition failedGradidoBlock_query :: string where
  "failedGradidoBlock_query =
     ''mutation FailedGradidoBlock($data: InvalidTransactionInput!) {   failedGradidoBlock(data: '' @
     ''$data) {     error {       name       message       type     }     succeed   } }''"

text \<open>\<open>rapidjson::Pointer\<close> with names: the first member of each name, no value on anything but an object.\<close>

fun js_pointer :: "string list \<Rightarrow> json \<Rightarrow> json option" where
  "js_pointer [] j = Some j"
| "js_pointer (k # ks) j = (case map_of (js_members j) k of None \<Rightarrow> None | Some v \<Rightarrow> js_pointer ks v)"

definition graphql_succeed :: "json \<Rightarrow> bool" where
  "graphql_succeed j =
     (js_pointer [''data'', ''newGradidoBlock'', ''succeed''] j = Some (JBool True) \<or>
      js_pointer [''data'', ''failedGradidoBlock'', ''succeed''] j = Some (JBool True))"

text \<open>
  The member and the query by the format; a format has one of its two values, so that the default of the
  \<open>switch\<close> is never taken.
\<close>

definition graphql_format :: "NotificationFormat \<Rightarrow> string \<times> string" where
  "graphql_format f = (case f of
      PROTOBUF_BASE64 \<Rightarrow> (''transactionBase64'', newGradidoBlock_base64)
    | JSON \<Rightarrow> (''transactionJson'', newGradidoBlock_json))"

text \<open>An error without a message id: \<open>find\<close> is the end of the map, which must not be dereferenced.\<close>

definition graphql_data :: "Client \<Rightarrow> string \<Rightarrow> string \<Rightarrow> (string \<times> string) list \<Rightarrow> (json \<times> bool) result" where
  "graphql_data c transactionMemberName transaction ps =
     (case map_of ps ''error'' of
        Some errorMessage \<Rightarrow>
          (case map_of ps ''messageId'' of
             None \<Rightarrow> Inl UndefinedBehaviour
           | Some messageId \<Rightarrow>
               Inr (JObj [(''errorMessage'', js_text errorMessage), (''iotaMessageId'', js_text messageId)], True))
      | None \<Rightarrow>
          Inr (JObj [(c_str transactionMemberName, js_text transaction), (''iotaTopic'', js_text (mGroupAlias c))], False))"

definition graphql_params :: "Client \<Rightarrow> (string \<times> string) list \<Rightarrow> json result" where
  "graphql_params c ps =
     (case graphql_format (mFormat c) of (transactionMemberName, graphQLQuery) \<Rightarrow>
        (case map_of ps transactionMemberName of
           None \<Rightarrow> Inl (Gradido MissingParameter)
         | Some transaction \<Rightarrow>
             bindR (graphql_data c transactionMemberName transaction ps) (\<lambda>(data, failed).
               Inr (JObj [(''operationName'', JNull), (''variables'', JObj [(''data'', data)]),
                 (''query'', js_text (if failed then failedGradidoBlock_query else graphQLQuery))]))))"

definition GraphQL_postRequest :: "post \<Rightarrow> Client \<Rightarrow> (string \<times> string) list \<Rightarrow> bool result" where
  "GraphQL_postRequest post c parameterValuePairs =
     bindR (graphql_params c parameterValuePairs) (\<lambda>params.
       case post (mUri c) params of
         Inr result \<Rightarrow> Inr (graphql_succeed result)
       | Inl (Gradido ParseError) \<Rightarrow> Inl (Gradido InvalidJsonResponse)
       | Inl e \<Rightarrow> Inl e)"

definition Client_postRequest :: "post \<Rightarrow> Client \<Rightarrow> (string \<times> string) list \<Rightarrow> bool result" where
  "Client_postRequest post c = (case client_of c of JsonRPC \<Rightarrow> JsonRPC_postRequest post c | GraphQL \<Rightarrow> GraphQL_postRequest post c)"

section \<open>Notifications\<close>

definition Base_notificate :: "post \<Rightarrow> Client \<Rightarrow> (string \<times> string) list \<Rightarrow> bool result" where
  "Base_notificate post c params =
     (case Client_postRequest post c params of Inl (Gradido _) \<Rightarrow> Inr False | r \<Rightarrow> r)"

text \<open>A transaction as base64 text of its serialisation and as JSON text; either may throw.\<close>

record 'tx tx_texts =
  tt_base64 :: "'tx \<Rightarrow> string result"
  tt_json :: "'tx \<Rightarrow> string result"

definition wants :: "NotificationFormat \<Rightarrow> Client \<Rightarrow> bool" where
  "wants flag c = (and (format_value (mFormat c)) (format_value flag) = format_value flag)"

definition single_quotes :: "string \<Rightarrow> string" where
  "single_quotes = map (\<lambda>x. if x = CHR 0x22 then CHR 0x27 else x)"

definition transaction_params :: "'tx tx_texts \<Rightarrow> Client \<Rightarrow> 'tx \<Rightarrow> (string \<times> string) list result" where
  "transaction_params T c transaction =
     bindR (if wants PROTOBUF_BASE64 c
            then bindR (tt_base64 T transaction) (\<lambda>text. Inr (omap_insert ''transactionBase64'' text [])) else Inr []) (\<lambda>params.
     if wants JSON c
     then bindR (tt_json T transaction) (\<lambda>text. Inr (omap_insert ''transactionJson'' (single_quotes text) params))
     else Inr params)"

definition Base_notificateNewTransaction :: "'tx tx_texts \<Rightarrow> post \<Rightarrow> Client \<Rightarrow> 'tx \<Rightarrow> bool result" where
  "Base_notificateNewTransaction T post c confirmedTransaction =
     bindR (transaction_params T c confirmedTransaction) (Base_notificate post c)"

definition Base_notificateFailedTransaction ::
    "'tx tx_texts \<Rightarrow> post \<Rightarrow> Client \<Rightarrow> 'tx \<Rightarrow> string \<Rightarrow> string \<Rightarrow> bool result" where
  "Base_notificateFailedTransaction T post c gradidoTransaction errorMessage messageId =
     bindR (transaction_params T c gradidoTransaction) (\<lambda>params.
       Base_notificate post c (omap_insert ''messageId'' messageId (omap_insert ''error'' errorMessage params)))"

text \<open>The task ignores whether the notification succeeded.\<close>

definition NotifyClient_run :: "'tx tx_texts \<Rightarrow> post \<Rightarrow> Client \<Rightarrow> 'tx \<Rightarrow> int result" where
  "NotifyClient_run T post c confirmedTransaction =
     bindR (Base_notificateNewTransaction T post c confirmedTransaction) (\<lambda>_. Inr 0)"

section \<open>What a notification answers\<close>

lemma wants_simps [simp]:
  "wants PROTOBUF_BASE64 c \<longleftrightarrow> mFormat c = PROTOBUF_BASE64" "wants JSON c \<longleftrightarrow> mFormat c = JSON"
  by (cases "mFormat c"; simp add: wants_def format_value_def)+

lemma Base_new_simps [simp]:
  "mFormat (Base_setGroupAlias a c) = mFormat c" "mUri (Base_setGroupAlias a c) = mUri c" "mGroupAlias (Base_setGroupAlias a c) = a"
  "client_of (Base_setGroupAlias a c) = client_of c" "mFormat (GraphQL_new uri) = PROTOBUF_BASE64" "mUri (GraphQL_new uri) = uri"
  "client_of (GraphQL_new uri) = GraphQL" "mUri (JsonRPC_new uri b) = uri" "client_of (JsonRPC_new uri b) = JsonRPC"
  "mFormat (JsonRPC_new uri b) = (if b then PROTOBUF_BASE64 else JSON)"
  by (simp_all add: Base_setGroupAlias_def GraphQL_new_def JsonRPC_new_def Base_new_def)

definition graphql_request :: "string \<Rightarrow> string \<Rightarrow> json" where
  "graphql_request groupAlias text =
     JObj [(''operationName'', JNull),
       (''variables'', JObj [(''data'', JObj [(''transactionBase64'', js_text text), (''iotaTopic'', js_text groupAlias)])]),
       (''query'', JStr newGradidoBlock_base64)]"

lemma graphql_params_new:
  "graphql_params (Base_setGroupAlias a (GraphQL_new uri)) (omap_insert ''transactionBase64'' text []) = Inr (graphql_request a text)"
  by (simp add: graphql_params_def graphql_format_def graphql_data_def graphql_request_def bindR_def omap_insert_def
      js_text_def c_str_def newGradidoBlock_base64_def)



end
