(* ===== verification/Subscription.thy ===== *)
theory Subscription
  imports Sync
begin

text \<open>
  The gRPC side of the node: the subscription of a topic, \<open>client::hiero::TopicMessageQuery\<close>
  (\<open>src/client/hiero/TopicMessageQuery.cpp\<close>) with \<open>MirrorClient::subscribeTopic\<close>, and a single request,
  \<open>client::hiero::RequestReactor\<close> (\<open>src/client/hiero/RequestReactor.h\<close>) with the task that waits for it
  (\<open>src/task/CPUTaskGRPCReactor.h\<close>). gRPC itself is what its completion queue answers.
\<close>

section \<open>Messages\<close>

text \<open>\<open>protopuf::serialize\<close> and \<open>deserialize\<close> (\<open>src/lib/protopuf.h\<close>): \<open>encode\<close> and \<open>decode\<close> are the coder of the library.\<close>

definition protopuf_serialize :: "('msg \<Rightarrow> bytes option) \<Rightarrow> ('a \<Rightarrow> 'msg result) \<Rightarrow> 'a \<Rightarrow> bytes result" where
  "protopuf_serialize encode getMessage obj =
     bindR (getMessage obj) (\<lambda>message.
       case encode message of
         None \<Rightarrow> Inl (Gradido InvalidData)
       | Some buffer \<Rightarrow> if buffer = [] then Inl (Gradido InvalidData) else Inr buffer)"

definition protopuf_deserialize :: "(bytes \<Rightarrow> 'msg option) \<Rightarrow> ('msg \<Rightarrow> 'a result) \<Rightarrow> 'a \<Rightarrow> bytes \<Rightarrow> 'a result" where
  "protopuf_deserialize decode ofMessage dflt raw =
     (case decode raw of None \<Rightarrow> Inr dflt | Some message \<Rightarrow> ofMessage message)"

section \<open>The completion queue\<close>

text \<open>
  A call has at most one operation in flight. An answer of \<open>AsyncNext\<close> is a timeout, the end of the operation
  in flight (with what it wrote: the bytes of a read, the status of \<open>Finish\<close>) or that the queue is shut down
  and empty.
\<close>

datatype StatusCode = GRPC_OK | GRPC_NOT_FOUND | RESOURCE_EXHAUSTED | UNAVAILABLE | INTERNAL | OTHER_STATUS

datatype operation = StartCall | WriteLast bytes | Read | Finish

datatype next_status = TIMEOUT | GOT_EVENT bool bytes StatusCode | SHUTDOWN | UNKNOWN_STATUS

datatype CallStatus = STATUS_CREATE | STATUS_WRITE | STATUS_PROCESSING | STATUS_FINISH

section \<open>TopicMessageQuery\<close>

record ('t, 'p, 's) TopicMessageQuery =
  mExitCalled_TMQ :: bool
  mCallStatus :: CallStatus
  mResponseReader :: bool
  q_op :: "operation option"
  q_shutdown :: bool
  cancelled :: bool
  query :: "('t, 'p) ConsensusTopicQuery"
  requestBuffer :: bytes
  grpcByteBuffer :: bytes
  grpcStatus :: StatusCode
  backoff :: int
  attempt :: u64
  complete_TMQ :: bool
  listener :: 's

text \<open>
  What the thread uses: the coder and the constructor of a response, the default response, the clock arithmetic
  of the library, and the virtual functions of the listener.
\<close>

record ('t, 'i, 's) listener_ops =
  lo_deserialize :: "bytes \<Rightarrow> ('t, 'i) ConsensusTopicResponse result"
  lo_timeEmpty :: "'t \<Rightarrow> bool"
  lo_oneLater :: "'t \<Rightarrow> 't"
  lo_chunkEmpty :: "'i ConsensusMessageChunkInfo \<Rightarrow> bool"
  lo_arrived :: "('t, 'i) ConsensusTopicResponse \<Rightarrow> 's \<Rightarrow> unit result \<times> 's"
  lo_closed :: "'s \<Rightarrow> 's"

text \<open>Durations are in nanoseconds.\<close>

definition DEFAULT_MIN_BACKOFF :: int where
  "DEFAULT_MIN_BACKOFF = 250 * 1000000"

definition DEFAULT_MAX_BACKOFF :: int where
  "DEFAULT_MAX_BACKOFF = 8 * 1000000000"

definition DEFAULT_MAX_ATTEMPTS :: u64 where
  "DEFAULT_MAX_ATTEMPTS = 10"

text \<open>
  The start of the thread. The query of the thread is default constructed (\<open>q0\<close>: its limit is not initialised);
  the start query is serialised for the request.
\<close>

definition TopicMessageQuery_new ::
    "('q \<Rightarrow> bytes result) \<Rightarrow> ('t, 'p) ConsensusTopicQuery \<Rightarrow> 'q \<Rightarrow> 's \<Rightarrow> ('t, 'p, 's) TopicMessageQuery result" where
  "TopicMessageQuery_new serialize q0 startQuery l =
     bindR (serialize startQuery) (\<lambda>memoryBuffer.
       Inr \<lparr>mExitCalled_TMQ = False, mCallStatus = STATUS_CREATE, mResponseReader = False, q_op = None, q_shutdown = False,
         cancelled = False, query = q0, requestBuffer = memoryBuffer, grpcByteBuffer = memoryBuffer, grpcStatus = GRPC_OK,
         backoff = DEFAULT_MIN_BACKOFF, attempt = 0, complete_TMQ = False, listener = l\<rparr>)"

definition TopicMessageQuery_setResponseReader :: "('t, 'p, 's) TopicMessageQuery \<Rightarrow> ('t, 'p, 's) TopicMessageQuery" where
  "TopicMessageQuery_setResponseReader q = q\<lparr>mResponseReader := True\<rparr>"

definition MirrorClient_subscribeTopic :: "('t, 'p, 's) TopicMessageQuery \<Rightarrow> ('t, 'p, 's) TopicMessageQuery" where
  "MirrorClient_subscribeTopic q = TopicMessageQuery_setResponseReader (q\<lparr>q_op := Some StartCall\<rparr>)"

definition TopicMessageQuery_shouldRetry :: "StatusCode \<Rightarrow> bool" where
  "TopicMessageQuery_shouldRetry status =
     (status = GRPC_NOT_FOUND \<or> status = RESOURCE_EXHAUSTED \<or> status = UNAVAILABLE \<or> status = INTERNAL)"

definition longer :: "int \<Rightarrow> int" where
  "longer b = (if b * 2 > DEFAULT_MAX_BACKOFF then DEFAULT_MAX_BACKOFF else b * 2)"

definition shorter :: "int \<Rightarrow> int" where
  "shorter b = (if b div 2 < DEFAULT_MIN_BACKOFF then DEFAULT_MIN_BACKOFF else b div 2)"

text \<open>An operation is started on the reader, which is a null pointer before it is set.\<close>

definition start_op :: "operation \<Rightarrow> ('t, 'p, 's) TopicMessageQuery \<Rightarrow> int option result \<times> ('t, 'p, 's) TopicMessageQuery" where
  "start_op w q = (if mResponseReader q then (Inr None, q\<lparr>q_op := Some w\<rparr>) else (Inl UndefinedBehaviour, q))"

text \<open>A response that was read: a message in several chunks is logged as fatal, which ends the program.\<close>

definition process_response ::
    "('t, 'i, 's) listener_ops \<Rightarrow> ('t, 'p, 's) TopicMessageQuery \<Rightarrow> int option result \<times> ('t, 'p, 's) TopicMessageQuery" where
  "process_response O1 q =
     (case lo_deserialize O1 (grpcByteBuffer q) of
        Inl e \<Rightarrow> (Inl e, q)
      | Inr response \<Rightarrow>
          let t = mConsensusTimestamp response;
              q1 = (if lo_timeEmpty O1 t then query q else (query q)\<lparr>mConsensusStartTime := lo_oneLater O1 t\<rparr>);
              q2 = (if mLimit q1 > 0 then q1\<lparr>mLimit := mLimit q1 - 1\<rparr> else q1);
              ci = mChunkInfo response
          in if lo_chunkEmpty O1 ci \<or> mTotal ci = 1 then
               (case lo_arrived O1 response (listener q) of
                  (Inl e, l) \<Rightarrow> (Inl e, q\<lparr>query := q2, listener := l\<rparr>)
                | (Inr _, l) \<Rightarrow> start_op Read (q\<lparr>query := q2, listener := l\<rparr>))
             else (Inl AssertFailed, q\<lparr>query := q2\<rparr>))"

definition on_finish :: "('t, 'p, 's) TopicMessageQuery \<Rightarrow> ('t, 'p, 's) TopicMessageQuery" where
  "on_finish q =
     (if grpcStatus q = GRPC_OK then q\<lparr>q_shutdown := True, complete_TMQ := True\<rparr>
      else q\<lparr>cancelled := True, q_shutdown := True,
             complete_TMQ := complete_TMQ q \<or> attempt q \<ge> DEFAULT_MAX_ATTEMPTS \<or> \<not> TopicMessageQuery_shouldRetry (grpcStatus q)\<rparr>)"

text \<open>The status decides what an event means; the tag of every operation is the address of the status.\<close>

definition on_event ::
    "('t, 'i, 's) listener_ops \<Rightarrow> bool \<Rightarrow> ('t, 'p, 's) TopicMessageQuery \<Rightarrow> int option result \<times> ('t, 'p, 's) TopicMessageQuery" where
  "on_event O1 ok q =
     (case mCallStatus q of
        STATUS_CREATE \<Rightarrow> if ok then start_op (WriteLast (grpcByteBuffer q)) (q\<lparr>mCallStatus := STATUS_WRITE\<rparr>) else (Inr None, q)
      | STATUS_WRITE \<Rightarrow> if ok then start_op Read (q\<lparr>mCallStatus := STATUS_PROCESSING\<rparr>) else (Inr None, q)
      | STATUS_PROCESSING \<Rightarrow>
          if ok then process_response O1 q else start_op Finish (q\<lparr>mCallStatus := STATUS_FINISH\<rparr>)
      | STATUS_FINISH \<Rightarrow> (Inr None, on_finish q))"

text \<open>What the operation in flight has written when it ends.\<close>

definition take_event :: "bool \<Rightarrow> bytes \<Rightarrow> StatusCode \<Rightarrow> ('t, 'p, 's) TopicMessageQuery \<Rightarrow> ('t, 'p, 's) TopicMessageQuery" where
  "take_event ok buffer status q =
     (case q_op q of
        Some Read \<Rightarrow> if ok then q\<lparr>q_op := None, grpcByteBuffer := buffer\<rparr> else q\<lparr>q_op := None\<rparr>
      | Some Finish \<Rightarrow> q\<lparr>q_op := None, grpcStatus := status\<rparr>
      | _ \<Rightarrow> q\<lparr>q_op := None\<rparr>)"

text \<open>One round of the loop; \<open>Some n\<close> is that the thread function returns \<open>n\<close>.\<close>

definition TopicMessageQuery_round ::
    "('t, 'i, 's) listener_ops \<Rightarrow> next_status \<Rightarrow> ('t, 'p, 's) TopicMessageQuery \<Rightarrow> int option result \<times> ('t, 'p, 's) TopicMessageQuery" where
  "TopicMessageQuery_round O1 nextStatus q =
     (case nextStatus of
        TIMEOUT \<Rightarrow> (Inr None, q\<lparr>backoff := longer (backoff q)\<rparr>)
      | GOT_EVENT ok buffer status \<Rightarrow>
          on_event O1 ok ((take_event ok buffer status q)\<lparr>backoff := shorter (backoff q)\<rparr>)
      | SHUTDOWN \<Rightarrow>
          if complete_TMQ q then (Inr (Some 0), q)
          else (Inr None, q\<lparr>backoff := longer (backoff q), attempt := attempt q + 1, listener := lo_closed O1 (listener q)\<rparr>)
      | UNKNOWN_STATUS \<Rightarrow> (Inr (Some (- 1)), q))"

text \<open>The loop over the answers of the queue; \<open>Exit\<close> is the destructor, which sets the flag and waits for the thread.\<close>

datatype thread_event = Exit | Answer next_status

fun TopicMessageQuery_ThreadFunction ::
    "('t, 'i, 's) listener_ops \<Rightarrow> thread_event list \<Rightarrow> ('t, 'p, 's) TopicMessageQuery \<Rightarrow> int option result \<times> ('t, 'p, 's) TopicMessageQuery" where
  "TopicMessageQuery_ThreadFunction O1 [] q = (Inr (if mExitCalled_TMQ q then Some 0 else None), q)"
| "TopicMessageQuery_ThreadFunction O1 (Exit # es) q = TopicMessageQuery_ThreadFunction O1 es (q\<lparr>mExitCalled_TMQ := True\<rparr>)"
| "TopicMessageQuery_ThreadFunction O1 (Answer a # es) q =
     (if mExitCalled_TMQ q then (Inr (Some 0), q)
      else case TopicMessageQuery_round O1 a q of
             (Inr None, q') \<Rightarrow> TopicMessageQuery_ThreadFunction O1 es q'
           | r \<Rightarrow> r)"

text \<open>The listener of a blockchain: messages go to its ordering manager, a closed connection sets a flag.\<close>

definition MessageListenerQuery_onConnectionClosed :: "'s \<times> bool \<Rightarrow> 's \<times> bool" where
  "MessageListenerQuery_onConnectionClosed = (\<lambda>(s, isClosed). (s, True))"

definition listener_of ::
    "('t, 'i, 'a, 'p, 'm) hiero_lib \<Rightarrow> (bytes \<Rightarrow> 'm ConsensusTopicResponseMessage option) \<Rightarrow> 't \<Rightarrow> ('t \<Rightarrow> bool) \<Rightarrow> ('t \<Rightarrow> 't)
       \<Rightarrow> ('t::linorder, 'tx, 'i, 'c) node_ops \<Rightarrow> ('x, 'o, 't) expire_cache \<Rightarrow> (bytes \<Rightarrow> 'o)
       \<Rightarrow> ('t, 'i, ('t, 'tx, 'i, 'x, 'c) ordering \<times> bool) listener_ops" where
  "listener_of L decode t0 timeEmpty oneLater N E octet =
     \<lparr>lo_deserialize = protopuf_deserialize decode (ConsensusTopicResponse_of_message L) (ConsensusTopicResponse_new L t0),
      lo_timeEmpty = timeEmpty, lo_oneLater = oneLater, lo_chunkEmpty = ConsensusMessageChunkInfo_empty L,
      lo_arrived = (\<lambda>r (s, isClosed). case MessageListenerQuery_onMessageArrived L N E octet r s of
        (res, s') \<Rightarrow> (map_sum id (\<lambda>_. ()) res, (s', isClosed))),
      lo_closed = MessageListenerQuery_onConnectionClosed\<rparr>"

section \<open>A single request\<close>

text \<open>The task that waits for the answer of a request.\<close>

record 'o CPUTaskGRPCReactor =
  mObject :: "'o option"
  mIsClosed :: bool
  mMessageArrived :: bool

definition CPUTaskGRPCReactor_new :: "'o CPUTaskGRPCReactor" where
  "CPUTaskGRPCReactor_new = \<lparr>mObject = None, mIsClosed = False, mMessageArrived = False\<rparr>"

definition CPUTaskGRPCReactor_isReady :: "'o CPUTaskGRPCReactor \<Rightarrow> bool" where
  "CPUTaskGRPCReactor_isReady t = mMessageArrived t"

definition CPUTaskGRPCReactor_onMessageArrived ::
    "('msg \<Rightarrow> 'o result) \<Rightarrow> 'msg \<Rightarrow> 'o CPUTaskGRPCReactor \<Rightarrow> unit result \<times> 'o CPUTaskGRPCReactor" where
  "CPUTaskGRPCReactor_onMessageArrived ofMessage message t =
     (case ofMessage message of
        Inl e \<Rightarrow> (Inl e, t)
      | Inr x \<Rightarrow> (Inr (), t\<lparr>mObject := Some x, mMessageArrived := True\<rparr>))"

definition CPUTaskGRPCReactor_onConnectionClosed :: "'o CPUTaskGRPCReactor \<Rightarrow> 'o CPUTaskGRPCReactor" where
  "CPUTaskGRPCReactor_onConnectionClosed t = t\<lparr>mIsClosed := True\<rparr>"

text \<open>
  \<open>OnDone\<close> is called once, with the status of the call and the answer; exceptions derived from
  \<open>std::exception\<close> are caught, and the reactor deletes itself.
\<close>

definition RequestReactor_OnDone ::
    "(bytes \<Rightarrow> 'msg option) \<Rightarrow> ('msg \<Rightarrow> 'o result) \<Rightarrow> StatusCode \<Rightarrow> bytes \<Rightarrow> 'o CPUTaskGRPCReactor
       \<Rightarrow> unit result \<times> 'o CPUTaskGRPCReactor" where
  "RequestReactor_OnDone decode ofMessage status buffer t =
     (case (if status \<noteq> GRPC_OK then (Inr (), t)
            else case decode buffer of
              None \<Rightarrow> (Inr (), t)
            | Some message \<Rightarrow> CPUTaskGRPCReactor_onMessageArrived ofMessage message t) of
        (Inl AssertFailed, t') \<Rightarrow> (Inl AssertFailed, t')
      | (Inl UndefinedBehaviour, t') \<Rightarrow> (Inl UndefinedBehaviour, t')
      | (_, t') \<Rightarrow> (Inr (), CPUTaskGRPCReactor_onConnectionClosed t'))"

section \<open>Runs of the subscription\<close>

text \<open>
  The contract of the completion queue: an event only for the operation in flight, \<open>SHUTDOWN\<close> exactly when it
  is shut down and nothing is in flight.
\<close>

definition queue_gives :: "next_status \<Rightarrow> ('t, 'p, 's) TopicMessageQuery \<Rightarrow> bool" where
  "queue_gives a q = (case a of
      TIMEOUT \<Rightarrow> \<not> (q_shutdown q \<and> q_op q = None)
    | GOT_EVENT _ _ _ \<Rightarrow> q_op q \<noteq> None
    | SHUTDOWN \<Rightarrow> q_shutdown q \<and> q_op q = None
    | UNKNOWN_STATUS \<Rightarrow> False)"

fun queue_run :: "('t, 'i, 's) listener_ops \<Rightarrow> thread_event list \<Rightarrow> ('t, 'p, 's) TopicMessageQuery \<Rightarrow> bool" where
  "queue_run O1 [] q = True"
| "queue_run O1 (Exit # es) q = queue_run O1 es (q\<lparr>mExitCalled_TMQ := True\<rparr>)"
| "queue_run O1 (Answer a # es) q = (queue_gives a q \<and> queue_run O1 es (snd (TopicMessageQuery_round O1 a q)))"

text \<open>The bytes of the reads that succeed, in their order.\<close>

fun reads :: "('t, 'i, 's) listener_ops \<Rightarrow> thread_event list \<Rightarrow> ('t, 'p, 's) TopicMessageQuery \<Rightarrow> bytes list" where
  "reads O1 [] q = []"
| "reads O1 (Exit # es) q = reads O1 es (q\<lparr>mExitCalled_TMQ := True\<rparr>)"
| "reads O1 (Answer a # es) q =
     (if mExitCalled_TMQ q then []
      else (case a of GOT_EVENT True b _ \<Rightarrow> if q_op q = Some Read then [b] else [] | _ \<Rightarrow> []) @
           (case TopicMessageQuery_round O1 a q of (Inr None, q') \<Rightarrow> reads O1 es q' | _ \<Rightarrow> []))"

definition status_of :: "operation \<Rightarrow> CallStatus" where
  "status_of w = (case w of StartCall \<Rightarrow> STATUS_CREATE | WriteLast _ \<Rightarrow> STATUS_WRITE | Read \<Rightarrow> STATUS_PROCESSING | Finish \<Rightarrow> STATUS_FINISH)"

text \<open>
  The status names the operation in flight, nothing is in flight once the queue is shut down, what is written is
  the request, and the time to wait has its bounds.
\<close>

definition subscription_ok :: "('t, 'p, 's) TopicMessageQuery \<Rightarrow> bool" where
  "subscription_ok q =
     (mResponseReader q \<and> DEFAULT_MIN_BACKOFF \<le> backoff q \<and> backoff q \<le> DEFAULT_MAX_BACKOFF \<and>
      (\<forall>w. q_op q = Some w \<longrightarrow> mCallStatus q = status_of w \<and> \<not> q_shutdown q) \<and>
      (\<forall>b. q_op q = Some (WriteLast b) \<longrightarrow> b = requestBuffer q) \<and>
      (mCallStatus q = STATUS_CREATE \<longrightarrow> grpcByteBuffer q = requestBuffer q))"

lemma longer_bounds [simp]: "longer b \<le> DEFAULT_MAX_BACKOFF"
  "DEFAULT_MIN_BACKOFF \<le> b \<Longrightarrow> DEFAULT_MIN_BACKOFF \<le> longer b"
  by (auto simp: longer_def DEFAULT_MIN_BACKOFF_def DEFAULT_MAX_BACKOFF_def)

lemma shorter_bounds [simp]: "DEFAULT_MIN_BACKOFF \<le> shorter b" "b \<le> DEFAULT_MAX_BACKOFF \<Longrightarrow> shorter b \<le> DEFAULT_MAX_BACKOFF"
  by (auto simp: shorter_def DEFAULT_MIN_BACKOFF_def DEFAULT_MAX_BACKOFF_def)

lemma take_event_simps [simp]:
  "q_op (take_event ok b st q) = None" "mCallStatus (take_event ok b st q) = mCallStatus q"
  "mResponseReader (take_event ok b st q) = mResponseReader q" "q_shutdown (take_event ok b st q) = q_shutdown q"
  "requestBuffer (take_event ok b st q) = requestBuffer q" "listener (take_event ok b st q) = listener q"
  "complete_TMQ (take_event ok b st q) = complete_TMQ q" "attempt (take_event ok b st q) = attempt q"
  "q_op q \<noteq> Some Read \<Longrightarrow> grpcByteBuffer (take_event ok b st q) = grpcByteBuffer q"
  "q_op q = Some Read \<Longrightarrow> grpcByteBuffer (take_event True b st q) = b"
  "q_op q = Some Finish \<Longrightarrow> grpcStatus (take_event ok b st q) = st"
  "mExitCalled_TMQ (take_event ok b st q) = mExitCalled_TMQ q"
  by (auto simp: take_event_def split: option.splits operation.splits)

lemma start_op_ok:
  assumes "mResponseReader q"
  shows "start_op w q = (Inr None, q\<lparr>q_op := Some w\<rparr>)"
  using assms by (simp add: start_op_def)

lemma process_response_ok:
  assumes q: "subscription_ok q" and none: "q_op q = None" and "mCallStatus q = STATUS_PROCESSING" "\<not> q_shutdown q"
    and r: "process_response O1 q = (r, q')"
  shows "subscription_ok q'"
  using assms by (auto simp: process_response_def Let_def start_op_def subscription_ok_def status_of_def
      split: sum.splits prod.splits if_splits)

lemma on_event_ok:
  assumes q: "subscription_ok q" and none: "q_op q = None" and open_queue: "\<not> q_shutdown q" and r: "on_event O1 ok q = (r, q')"
  shows "subscription_ok q'"
proof (cases "mCallStatus q")
  case STATUS_PROCESSING
  then show ?thesis using assms process_response_ok [OF q none]
    by (auto simp: on_event_def start_op_def subscription_ok_def status_of_def split: if_splits)
qed (use assms in \<open>auto simp: on_event_def on_finish_def start_op_def subscription_ok_def status_of_def split: if_splits\<close>)

lemma round_ok:
  assumes q: "subscription_ok q" and a: "queue_gives a q"
  shows "subscription_ok (snd (TopicMessageQuery_round O1 a q))"
proof (cases a)
  case (GOT_EVENT ok b st)
  with a obtain w where w: "q_op q = Some w" by (auto simp: queue_gives_def)
  let ?q = "(take_event ok b st q)\<lparr>backoff := shorter (backoff q)\<rparr>"
  have "grpcByteBuffer ?q = requestBuffer q" if "mCallStatus q = STATUS_CREATE"
    using q w that by (cases w) (auto simp: subscription_ok_def status_of_def)
  then have "subscription_ok ?q" "q_op ?q = None" "\<not> q_shutdown ?q"
    using q w by (auto simp: subscription_ok_def)
  then show ?thesis using GOT_EVENT on_event_ok [of ?q O1 ok]
    by (cases "on_event O1 ok ?q") (simp add: TopicMessageQuery_round_def)
qed (use q in \<open>auto simp: TopicMessageQuery_round_def subscription_ok_def status_of_def\<close>)

lemma subscription_ok_exit [simp]: "subscription_ok (q\<lparr>mExitCalled_TMQ := True\<rparr>) = subscription_ok q"
  by (simp add: subscription_ok_def)

lemma run_ok:
  assumes "subscription_ok q" and "queue_run O1 es q"
  shows "subscription_ok (snd (TopicMessageQuery_ThreadFunction O1 es q))"
  using assms
proof (induction O1 es q rule: TopicMessageQuery_ThreadFunction.induct)
  case (3 O1 a es q)
  have "subscription_ok (snd (TopicMessageQuery_round O1 a q))" using 3 by (intro round_ok) auto
  then show ?case using 3 by (cases "TopicMessageQuery_round O1 a q") (auto split: sum.splits option.splits)
qed auto

lemma subscribe_ok:
  assumes "TopicMessageQuery_new serialize q0 startQuery l = Inr q"
  shows "subscription_ok (MirrorClient_subscribeTopic q)"
  using assms by (auto simp: TopicMessageQuery_new_def bindR_def MirrorClient_subscribeTopic_def subscription_ok_def
      TopicMessageQuery_setResponseReader_def status_of_def DEFAULT_MIN_BACKOFF_def DEFAULT_MAX_BACKOFF_def split: sum.splits)


section \<open>What arrives\<close>

lemma round_event_read:
  assumes "subscription_ok q" and "q_op q = Some Read"
  shows "TopicMessageQuery_round O1 (GOT_EVENT True b st) q =
    process_response O1 ((take_event True b st q)\<lparr>backoff := shorter (backoff q)\<rparr>)"
  using assms by (simp add: TopicMessageQuery_round_def on_event_def subscription_ok_def status_of_def)

text \<open>An answer that ends no successful read leaves the messages of the listener alone.\<close>

lemma round_other:
  assumes q: "subscription_ok q" and a: "queue_gives a q" and closed: "\<And>l. view (lo_closed O1 l) = view l"
    and other: "\<not> (\<exists>b st. a = GOT_EVENT True b st \<and> q_op q = Some Read)"
  shows "view (listener (snd (TopicMessageQuery_round O1 a q))) = view (listener q)"
proof (cases a)
  case (GOT_EVENT ok b st)
  with a obtain w where w: "q_op q = Some w" by (auto simp: queue_gives_def)
  with q have s: "mCallStatus q = status_of w" by (simp add: subscription_ok_def)
  show ?thesis
    using GOT_EVENT other w s q by (cases w)
      (auto simp: TopicMessageQuery_round_def on_event_def status_of_def start_op_def subscription_ok_def on_finish_def)
qed (use closed in \<open>simp_all add: TopicMessageQuery_round_def\<close>)

lemma process_response_result:
  assumes r: "process_response O1 q = (Inr x, q')"
  shows "\<exists>response l. lo_deserialize O1 (grpcByteBuffer q) = Inr response \<and> lo_arrived O1 response (listener q) = (Inr (), l) \<and>
    listener q' = l \<and> x = None"
  using assms by (auto simp: process_response_def Let_def start_op_def split: sum.splits prod.splits if_splits)

lemma round_arrives:
  assumes q: "subscription_ok q" and a: "queue_gives a q" and closed: "\<And>l. view (lo_closed O1 l) = view l"
    and arrived: "\<And>m l l'. lo_arrived O1 m l = (Inr (), l') \<Longrightarrow> view l' = view l @ [m]"
    and r: "TopicMessageQuery_round O1 a q = (Inr x, q')"
  shows "\<exists>ms. map Inr ms = map (lo_deserialize O1)
      (case a of GOT_EVENT True b _ \<Rightarrow> if q_op q = Some Read then [b] else [] | _ \<Rightarrow> []) \<and>
    view (listener q') = view (listener q) @ ms"
proof (cases "\<exists>b st. a = GOT_EVENT True b st \<and> q_op q = Some Read")
  case True
  then obtain b st where a': "a = GOT_EVENT True b st" and w: "q_op q = Some Read" by blast
  let ?q = "(take_event True b st q)\<lparr>backoff := shorter (backoff q)\<rparr>"
  have "process_response O1 ?q = (Inr x, q')" using r round_event_read [OF q w] a' by metis
  from process_response_result [OF this] obtain m l where
    "lo_deserialize O1 b = Inr m" "lo_arrived O1 m (listener q) = (Inr (), l)" "listener q' = l" using w by auto
  then show ?thesis using a' w arrived by (intro exI [of _ "[m]"]) simp
next
  case False
  from round_other [where view = view, OF q a closed False] r have "view (listener q') = view (listener q)" by simp
  moreover have "(case a of GOT_EVENT True b _ \<Rightarrow> if q_op q = Some Read then [b] else [] | _ \<Rightarrow> []) = []"
    using False by (auto split: next_status.splits bool.splits)
  ultimately show ?thesis by (intro exI [of _ "[]"]) simp
qed

lemma run_arrives:
  assumes "subscription_ok q" and "queue_run O1 es q" and closed: "\<And>l. view (lo_closed O1 l) = view l"
    and arrived: "\<And>m l l'. lo_arrived O1 m l = (Inr (), l') \<Longrightarrow> view l' = view l @ [m]"
    and "TopicMessageQuery_ThreadFunction O1 es q = (Inr r, q')"
  shows "\<exists>ms. map Inr ms = map (lo_deserialize O1) (reads O1 es q) \<and> view (listener q') = view (listener q) @ ms"
  using assms(1,2,5)
proof (induction es arbitrary: q)
  case (Cons e es)
  show ?case
  proof (cases e)
    case Exit
    then show ?thesis using Cons.prems Cons.IH [of "q\<lparr>mExitCalled_TMQ := True\<rparr>"] by simp
  next
    case (Answer a)
    show ?thesis
    proof (cases "mExitCalled_TMQ q")
      case False
      with Answer Cons.prems obtain x q1 where go: "TopicMessageQuery_round O1 a q = (Inr x, q1)"
        by (cases "TopicMessageQuery_round O1 a q") (auto split: sum.splits)
      have a: "queue_gives a q" using Cons.prems Answer by simp
      from round_arrives [where view = view, OF Cons.prems(1) a closed arrived go] obtain ms where
        ms: "map Inr ms = map (lo_deserialize O1)
          (case a of GOT_EVENT True b _ \<Rightarrow> if q_op q = Some Read then [b] else [] | _ \<Rightarrow> [])"
        "view (listener q1) = view (listener q) @ ms" by blast
      show ?thesis
      proof (cases x)
        case None
        have "subscription_ok q1" using round_ok [OF Cons.prems(1) a, of O1] go by simp
        with Cons.IH [of q1] Cons.prems Answer go None False obtain ms' where
          "map Inr ms' = map (lo_deserialize O1) (reads O1 es q1)" "view (listener q') = view (listener q1) @ ms'" by auto
        then show ?thesis using ms Answer go None False by (intro exI [of _ "ms @ ms'"]) simp
      next
        case (Some n)
        then have "reads O1 (e # es) q = (case a of GOT_EVENT True b _ \<Rightarrow> if q_op q = Some Read then [b] else [] | _ \<Rightarrow> [])"
          using Answer go False by simp
        then show ?thesis using ms Answer go False Cons.prems Some by (intro exI [of _ ms]) (auto simp del: reads.simps)
      qed
    qed (use Answer Cons.prems in simp)
  qed
qed simp

text \<open>C0: The listener gets the message of every read that succeeds, in the order of the reads, each exactly
  once, and nothing else, whatever timeouts, closed connections and other events come between them; \<open>view\<close> is
  the list of the messages of a listener that keeps what it gets.\<close>

theorem TopicMessageQuery_delivers:
  assumes "TopicMessageQuery_new serialize q0 startQuery l = Inr q"
    and "queue_run O1 es (MirrorClient_subscribeTopic q)"
    and "TopicMessageQuery_ThreadFunction O1 es (MirrorClient_subscribeTopic q) = (Inr r, q')"
    and closed: "\<And>l. view (lo_closed O1 l) = view l"
    and arrived: "\<And>m l l'. lo_arrived O1 m l = (Inr (), l') \<Longrightarrow> view l' = view l @ [m]"
  shows "\<exists>ms. map Inr ms = map (lo_deserialize O1) (reads O1 es (MirrorClient_subscribeTopic q)) \<and>
    view (listener q') = view l @ ms"
proof -
  have "listener (MirrorClient_subscribeTopic q) = l"
    using assms(1) by (auto simp: TopicMessageQuery_new_def bindR_def MirrorClient_subscribeTopic_def
        TopicMessageQuery_setResponseReader_def split: sum.splits)
  then show ?thesis using run_arrives [where view = view, OF subscribe_ok [OF assms(1)] assms(2) closed arrived assms(3)] by simp
qed

section \<open>Failures\<close>

lemma shutdown_only:
  assumes "q_shutdown q" and "q_op q = None" and "\<not> complete_TMQ q" and "\<not> mExitCalled_TMQ q"
    and "queue_run O1 es q" and "Exit \<notin> set es"
  shows "\<exists>q'. TopicMessageQuery_ThreadFunction O1 es q = (Inr None, q') \<and> q_op q' = None \<and> q_shutdown q' \<and>
    attempt q' = attempt q + word_of_nat (length es) \<and> listener q' = (lo_closed O1 ^^ length es) (listener q)"
  using assms
proof (induction es arbitrary: q)
  case (Cons e es)
  then obtain a where e: "e = Answer a" by (cases e) auto
  with Cons.prems have a: "a = SHUTDOWN" by (cases a) (simp_all add: queue_gives_def)
  let ?q = "q\<lparr>backoff := longer (backoff q), attempt := attempt q + 1, listener := lo_closed O1 (listener q)\<rparr>"
  have r: "TopicMessageQuery_round O1 SHUTDOWN q = (Inr None, ?q)" using Cons.prems by (simp add: TopicMessageQuery_round_def)
  from Cons.IH [of ?q] obtain q' where
    "TopicMessageQuery_ThreadFunction O1 es ?q = (Inr None, q')" "q_op q' = None" "q_shutdown q'"
    "attempt q' = attempt q + 1 + word_of_nat (length es)" "listener q' = (lo_closed O1 ^^ length es) (lo_closed O1 (listener q))"
    using Cons.prems e a r by auto
  then show ?case using e a r Cons.prems by (simp add: funpow_swap1)
qed simp

text \<open>C0: After a call that ends with an error for which it wants to retry, the thread never starts another
  call: the queue that it has shut down answers \<open>SHUTDOWN\<close> for ever, and every round tells the listener again
  that the connection is closed and counts another attempt, beyond the limit of ten, until the destructor.\<close>

theorem TopicMessageQuery_no_reconnect:
  assumes "q_op q = Some Finish" and "mCallStatus q = STATUS_FINISH" and "\<not> complete_TMQ q" and "\<not> mExitCalled_TMQ q"
    and "attempt q < DEFAULT_MAX_ATTEMPTS" and "TopicMessageQuery_shouldRetry status"
    and "queue_run O1 (Answer (GOT_EVENT ok b status) # es) q" and "Exit \<notin> set es"
  shows "\<exists>q'. TopicMessageQuery_ThreadFunction O1 (Answer (GOT_EVENT ok b status) # es) q = (Inr None, q') \<and>
    q_op q' = None \<and> attempt q' = attempt q + word_of_nat (length es) \<and> listener q' = (lo_closed O1 ^^ length es) (listener q)"
proof -
  define q1 where "q1 = snd (TopicMessageQuery_round O1 (GOT_EVENT ok b status) q)"
  have r: "TopicMessageQuery_round O1 (GOT_EVENT ok b status) q = (Inr None, q1)"
    using assms by (simp add: q1_def TopicMessageQuery_round_def on_event_def)
  have "status \<noteq> GRPC_OK" using assms(6) by (auto simp: TopicMessageQuery_shouldRetry_def)
  then have q1: "q_shutdown q1" "q_op q1 = None" "\<not> complete_TMQ q1" "\<not> mExitCalled_TMQ q1" "attempt q1 = attempt q" "listener q1 = listener q"
    using assms by (simp_all add: q1_def TopicMessageQuery_round_def on_event_def on_finish_def not_le)
  have "queue_run O1 es q1" using assms(7) by (simp add: q1_def)
  from shutdown_only [OF q1(1-4) this assms(8)] show ?thesis using r q1 assms(4) by auto
qed

lemma timeouts_only:
  assumes "\<not> q_shutdown q" and "q_op q = None" and "\<not> mExitCalled_TMQ q"
    and "queue_run O1 es q" and "Exit \<notin> set es"
  shows "\<exists>q'. TopicMessageQuery_ThreadFunction O1 es q = (Inr None, q') \<and> q_op q' = None \<and> \<not> q_shutdown q' \<and> listener q' = listener q"
  using assms
proof (induction es arbitrary: q)
  case (Cons e es)
  then obtain a where e: "e = Answer a" by (cases e) auto
  with Cons.prems have a: "a = TIMEOUT" by (cases a) (simp_all add: queue_gives_def)
  have r: "TopicMessageQuery_round O1 TIMEOUT q = (Inr None, q\<lparr>backoff := longer (backoff q)\<rparr>)" by (simp add: TopicMessageQuery_round_def)
  from Cons.IH [of "q\<lparr>backoff := longer (backoff q)\<rparr>"] Cons.prems e a r show ?case by auto
qed simp

text \<open>A call that cannot be started, or whose request cannot be written, is not noticed: the thread starts
  nothing any more, is not asked to end and does not end, the listener gets no message and is never told that
  the connection is closed.\<close>

theorem TopicMessageQuery_start_fails_silently:
  assumes "mCallStatus q = STATUS_CREATE \<or> mCallStatus q = STATUS_WRITE" and "\<not> q_shutdown q" and "\<not> mExitCalled_TMQ q"
    and "queue_run O1 (Answer (GOT_EVENT False b status) # es) q" and "Exit \<notin> set es"
  shows "\<exists>q'. TopicMessageQuery_ThreadFunction O1 (Answer (GOT_EVENT False b status) # es) q = (Inr None, q') \<and>
    q_op q' = None \<and> \<not> q_shutdown q' \<and> listener q' = listener q"
proof -
  define q1 where "q1 = snd (TopicMessageQuery_round O1 (GOT_EVENT False b status) q)"
  have r: "TopicMessageQuery_round O1 (GOT_EVENT False b status) q = (Inr None, q1)" "\<not> q_shutdown q1" "q_op q1 = None"
    "\<not> mExitCalled_TMQ q1" "listener q1 = listener q"
    using assms(1-3) by (auto simp: q1_def TopicMessageQuery_round_def on_event_def)
  have "queue_run O1 es q1" using assms(4) by (simp add: q1_def)
  from timeouts_only [OF r(2-4) this assms(5)] show ?thesis using r assms(3) by auto
qed

text \<open>A task that waits for the answer of a request is never ready when the request fails, or its answer is
  no message or one that cannot be read: \<open>OnDone\<close> is the only call it gets, and it only marks the connection
  as closed, which \<open>isReady\<close> does not look at. So the catch-up of a community never starts if the request for
  its topic fails.\<close>

theorem RequestReactor_failure_never_ready:
  assumes "status \<noteq> GRPC_OK \<or> decode buffer = None \<or> (\<exists>m e. decode buffer = Some m \<and> ofMessage m = Inl e)"
    and "RequestReactor_OnDone decode ofMessage status buffer CPUTaskGRPCReactor_new = (r, t)"
  shows "\<not> CPUTaskGRPCReactor_isReady t \<and> (r = Inr () \<longrightarrow> mIsClosed t)"
  using assms
  by (auto simp: RequestReactor_OnDone_def CPUTaskGRPCReactor_onMessageArrived_def CPUTaskGRPCReactor_onConnectionClosed_def
      CPUTaskGRPCReactor_new_def CPUTaskGRPCReactor_isReady_def split: if_splits option.splits sum.splits error.splits)

section \<open>Examples\<close>

text \<open>A listener that keeps its messages: the bytes are numbers, the time of a message is its number.\<close>

definition keep_ops :: "(int, int, (int, int) ConsensusTopicResponse list \<times> nat) listener_ops" where
  "keep_ops = \<lparr>lo_deserialize = (\<lambda>b. Inr \<lparr>mConsensusTimestamp = int (length b), mMessage = Some b, mRunningHash = None,
       mSequenceNumber = word_of_nat (length b), mRunningHashVersion = 0,
       mChunkInfo = \<lparr>mInitialTransactionID = 0, mTotal = 1, mNumber = 1\<rparr>\<rparr>),
     lo_timeEmpty = (\<lambda>t. t = 0), lo_oneLater = (\<lambda>t. t + 1), lo_chunkEmpty = (\<lambda>_. False),
     lo_arrived = (\<lambda>r (rs, n). (Inr (), (rs @ [r], n))), lo_closed = (\<lambda>(rs, n). (rs, Suc n))\<rparr>"

definition keep_query :: "(int, int) ConsensusTopicQuery" where
  "keep_query = \<lparr>mTopicId_Query = 1, mConsensusStartTime = 0, mConsensusEndTime = 99, mLimit = 0\<rparr>"

definition keep_start :: "(int, int, (int, int) ConsensusTopicResponse list \<times> nat) TopicMessageQuery" where
  "keep_start = (case TopicMessageQuery_new (\<lambda>_. Inr [7]) keep_query () ([], 0) of Inr q \<Rightarrow> q | Inl _ \<Rightarrow> undefined)"

definition keep_events :: "thread_event list" where
  "keep_events = map Answer [GOT_EVENT True [] GRPC_OK, TIMEOUT, GOT_EVENT True [] GRPC_OK, GOT_EVENT True [1] GRPC_OK, TIMEOUT,
     GOT_EVENT True [1, 2] GRPC_OK, GOT_EVENT False [] GRPC_OK]"

lemma keep_new: "TopicMessageQuery_new (\<lambda>_. Inr [7]) keep_query () ([], 0) = Inr keep_start"
  by (simp add: keep_start_def TopicMessageQuery_new_def bindR_def)

lemma keep_allowed: "queue_run keep_ops keep_events (MirrorClient_subscribeTopic keep_start)"
  by code_simp

lemma keep_reads: "reads keep_ops keep_events (MirrorClient_subscribeTopic keep_start) = [[1], [1, 2]]"
  by code_simp

definition keep_end :: "(int, int, (int, int) ConsensusTopicResponse list \<times> nat) TopicMessageQuery" where
  "keep_end = snd (TopicMessageQuery_ThreadFunction keep_ops keep_events (MirrorClient_subscribeTopic keep_start))"

lemma keep_run: "TopicMessageQuery_ThreadFunction keep_ops keep_events (MirrorClient_subscribeTopic keep_start) = (Inr None, keep_end)"
proof -
  have "fst (TopicMessageQuery_ThreadFunction keep_ops keep_events (MirrorClient_subscribeTopic keep_start)) = Inr None" by code_simp
  then show ?thesis by (simp add: keep_end_def prod_eq_iff)
qed


lemma TopicMessageQuery_delivers_witness: "map mMessage (fst (listener keep_end)) = [Some [1], Some [1, 2]]"
proof -
  have closed: "fst (lo_closed keep_ops l) = fst l" for l by (simp add: keep_ops_def case_prod_beta)
  have arrived: "fst l' = fst l @ [m]" if "lo_arrived keep_ops m l = (Inr (), l')" for m l l'
    using that by (auto simp: keep_ops_def split: prod.splits)
  obtain ms where ms: "map Inr ms = map (lo_deserialize keep_ops) [[1], [1, 2]]" "fst (listener keep_end) = [] @ ms"
    using TopicMessageQuery_delivers [where view = fst, OF keep_new keep_allowed keep_run closed arrived]
    unfolding keep_reads fst_conv by blast
  then show ?thesis by (auto simp: keep_ops_def)
qed

lemma shutdown_allowed:
  "q_shutdown q \<Longrightarrow> q_op q = None \<Longrightarrow> \<not> complete_TMQ q \<Longrightarrow> queue_run O1 (replicate n (Answer SHUTDOWN)) q"
  by (induction n arbitrary: q) (simp_all add: queue_gives_def TopicMessageQuery_round_def)

lemma TopicMessageQuery_no_reconnect_witness:
  "\<exists>q'. TopicMessageQuery_ThreadFunction keep_ops (Answer (GOT_EVENT True [] UNAVAILABLE) # replicate 20 (Answer SHUTDOWN)) keep_end = (Inr None, q') \<and>
    q_op q' = None \<and> attempt q' = 20 \<and> snd (listener q') = 20"
proof -
  have e: "q_op keep_end = Some Finish" "mCallStatus keep_end = STATUS_FINISH" "\<not> complete_TMQ keep_end" "\<not> mExitCalled_TMQ keep_end"
    "attempt keep_end < DEFAULT_MAX_ATTEMPTS" "TopicMessageQuery_shouldRetry UNAVAILABLE" "attempt keep_end = 0" "snd (listener keep_end) = 0"
    by code_simp+
  have run: "queue_run keep_ops (Answer (GOT_EVENT True [] UNAVAILABLE) # replicate 20 (Answer SHUTDOWN)) keep_end"
    unfolding queue_run.simps using e(1-5)
    by (intro conjI shutdown_allowed)
      (simp_all add: queue_gives_def TopicMessageQuery_round_def on_event_def on_finish_def TopicMessageQuery_shouldRetry_def not_le)
  have n: "snd ((lo_closed keep_ops ^^ k) l) = snd l + k" for k l
    by (induction k) (simp_all add: keep_ops_def case_prod_beta)
  have "Exit \<notin> set (replicate 20 (Answer SHUTDOWN))" by simp
  from TopicMessageQuery_no_reconnect [OF e(1-6) run this] show ?thesis using e(7,8) n [of 20 "listener keep_end"]
    by (simp del: TopicMessageQuery_ThreadFunction.simps) (metis)
qed

lemma TopicMessageQuery_start_fails_silently_witness:
  "\<exists>q'. TopicMessageQuery_ThreadFunction keep_ops (Answer (GOT_EVENT False [] GRPC_OK) # replicate 5 (Answer TIMEOUT))
      (MirrorClient_subscribeTopic keep_start) = (Inr None, q') \<and> q_op q' = None \<and> \<not> q_shutdown q' \<and> listener q' = ([], 0)"
proof -
  have e: "mCallStatus (MirrorClient_subscribeTopic keep_start) = STATUS_CREATE \<or> mCallStatus (MirrorClient_subscribeTopic keep_start) = STATUS_WRITE"
    "\<not> q_shutdown (MirrorClient_subscribeTopic keep_start)" "\<not> mExitCalled_TMQ (MirrorClient_subscribeTopic keep_start)"
    "queue_run keep_ops (Answer (GOT_EVENT False [] GRPC_OK) # replicate 5 (Answer TIMEOUT)) (MirrorClient_subscribeTopic keep_start)"
    "listener (MirrorClient_subscribeTopic keep_start) = ([], 0)"
    by code_simp+
  show ?thesis using TopicMessageQuery_start_fails_silently [OF e(1-4)] e(5) by auto
qed

lemma RequestReactor_failure_never_ready_witness:
  "\<not> CPUTaskGRPCReactor_isReady (snd (RequestReactor_OnDone Some (\<lambda>b. Inr (length b)) UNAVAILABLE [1] CPUTaskGRPCReactor_new))"
  using RequestReactor_failure_never_ready [where status = UNAVAILABLE and buffer = "[1]" and decode = Some and ofMessage = "\<lambda>b. Inr (length b)"]
  by (metis StatusCode.distinct(5) prod.collapse)

end
