(* ===== verification/Provider.thy ===== *)
theory Provider
  imports Chain Client
begin

text \<open>
  The communities of the node: their configuration, \<open>model::files::JsonFile\<close> and \<open>cache::GroupIndex\<close>
  (\<open>src/model/files/JsonFile.cpp\<close>, \<open>src/cache/GroupIndex.cpp\<close>), and their blockchains,
  \<open>blockchain::FileBasedProvider\<close> (\<open>src/blockchain/FileBasedProvider.cpp\<close>).
\<close>

section \<open>The configuration\<close>

datatype json_file = NO_FILE | PARSE_ERROR | JSON_DOCUMENT json

definition JsonFile_load :: "json_file \<Rightarrow> json result" where
  "JsonFile_load f = (case f of
      NO_FILE \<Rightarrow> Inl (Gradido FileNotFound)
    | PARSE_ERROR \<Rightarrow> Inl (Gradido ParseError)
    | JSON_DOCUMENT j \<Rightarrow> Inr j)"

record CommunityIndexEntry =
  gi_alias :: string
  gi_communityId :: string
  gi_topicId :: string
  gi_folderName :: string
  gi_newBlockUri :: string
  gi_blockUriType :: string

text \<open>
  \<open>mCommunities\<close> is an \<open>unordered_map\<close>: \<open>insert\<close> leaves an entry that is there. The order of an iteration is not
  specified: a parameter.
\<close>

record GroupIndex =
  mConfig :: string
  mCommunities :: "(string \<times> CommunityIndexEntry) list"

definition GroupIndex_new :: "string \<Rightarrow> GroupIndex" where
  "GroupIndex_new jsonConfigFileName = \<lparr>mConfig = jsonConfigFileName, mCommunities = []\<rparr>"

text \<open>A member that is not needed: its getter is called without a look at its kind.\<close>

definition text_member :: "string \<Rightarrow> json \<Rightarrow> string result" where
  "text_member k j = (if js_has k j then bindR (js_get k j) js_string else Inr [])"

definition community_entry :: "member_check \<Rightarrow> json \<Rightarrow> CommunityIndexEntry result" where
  "community_entry chk j =
     bindR (chk j ''alias'' MT_STRING) (\<lambda>_.
     bindR (chk j ''communityId'' MT_STRING) (\<lambda>_.
     bindR (chk j ''folder'' MT_STRING) (\<lambda>_.
     bindR (chk j ''hieroTopicId'' MT_STRING) (\<lambda>_.
     bindR (bindR (js_get ''alias'' j) js_string) (\<lambda>alias.
     bindR (bindR (js_get ''communityId'' j) js_string) (\<lambda>communityId.
     bindR (bindR (js_get ''hieroTopicId'' j) js_string) (\<lambda>topicId.
     bindR (bindR (js_get ''folder'' j) js_string) (\<lambda>folder.
     bindR (text_member ''newBlockUri'' j) (\<lambda>newBlockUri.
     bindR (text_member ''blockUriType'' j) (\<lambda>blockUriType.
       Inr \<lparr>gi_alias = alias, gi_communityId = communityId, gi_topicId = topicId, gi_folderName = folder,
            gi_newBlockUri = newBlockUri, gi_blockUriType = blockUriType\<rparr>))))))))))"

fun add_communities ::
    "member_check \<Rightarrow> json list \<Rightarrow> (string \<times> CommunityIndexEntry) list \<Rightarrow> unit result \<times> (string \<times> CommunityIndexEntry) list" where
  "add_communities chk [] m = (Inr (), m)"
| "add_communities chk (j # js) m =
     (case community_entry chk j of
        Inl e \<Rightarrow> (Inl e, m)
      | Inr entry \<Rightarrow>
          add_communities chk js (case map_of m (gi_communityId entry) of
            None \<Rightarrow> (gi_communityId entry, entry) # m | Some _ \<Rightarrow> m))"

text \<open>Exceptions of the node are caught and end in what was read so far.\<close>

definition GroupIndex_update :: "member_check \<Rightarrow> (string \<Rightarrow> json_file) \<Rightarrow> GroupIndex \<Rightarrow> nat result \<times> GroupIndex" where
  "GroupIndex_update chk read g =
     (case (case JsonFile_load (read (mConfig g)) of
              Inl e \<Rightarrow> (Inl e, [])
            | Inr (JArr js) \<Rightarrow> add_communities chk js []
            | Inr _ \<Rightarrow> (Inl (Gradido InvalidMember), [])) of
        (Inr _, m) \<Rightarrow> (Inr (length m), g\<lparr>mCommunities := m\<rparr>)
      | (Inl (Gradido _), m) \<Rightarrow> (Inr (length m), g\<lparr>mCommunities := m\<rparr>)
      | (Inl e, m) \<Rightarrow> (Inl e, g\<lparr>mCommunities := m\<rparr>))"

text \<open>The folder is created where it does not exist, which the file system may refuse.\<close>

definition GroupIndex_getFolder :: "string \<Rightarrow> (string \<Rightarrow> bool) \<Rightarrow> string \<Rightarrow> GroupIndex \<Rightarrow> string result" where
  "GroupIndex_getFolder filesPath mkdir communityId g =
     (case map_of (mCommunities g) communityId of
        None \<Rightarrow> Inr []
      | Some entry \<Rightarrow>
          let folder = filesPath @ ''/'' @ gi_folderName entry
          in if mkdir folder then Inr folder else Inl (Std FilesystemError))"

definition GroupIndex_getCommunityDetails :: "string \<Rightarrow> GroupIndex \<Rightarrow> CommunityIndexEntry result" where
  "GroupIndex_getCommunityDetails communityId g =
     (case map_of (mCommunities g) communityId of None \<Rightarrow> Inl (Gradido GroupNotFound) | Some entry \<Rightarrow> Inr entry)"

text \<open>
  \<open>topic\<close> is the constructor of a topic id from a text, which may throw; two topic ids are equal when their
  texts are.
\<close>

fun find_topic :: "(string \<Rightarrow> string result) \<Rightarrow> string \<Rightarrow> (string \<times> CommunityIndexEntry) list \<Rightarrow> CommunityIndexEntry result" where
  "find_topic topic topicId [] = Inl (Gradido GroupNotFound)"
| "find_topic topic topicId ((k, entry) # m) =
     bindR (topic (gi_topicId entry)) (\<lambda>t. if topicId = t then Inr entry else find_topic topic topicId m)"

definition GroupIndex_getCommunityDetailsByTopic ::
    "(string \<Rightarrow> string result) \<Rightarrow> ((string \<times> CommunityIndexEntry) list \<Rightarrow> (string \<times> CommunityIndexEntry) list) \<Rightarrow> string
       \<Rightarrow> GroupIndex \<Rightarrow> CommunityIndexEntry result" where
  "GroupIndex_getCommunityDetailsByTopic topic order topicId g = find_topic topic topicId (order (mCommunities g))"

definition GroupIndex_isCommunityInConfig :: "string \<Rightarrow> GroupIndex \<Rightarrow> bool" where
  "GroupIndex_isCommunityInConfig communityId g = (map_of (mCommunities g) communityId \<noteq> None)"

definition GroupIndex_listCommunitiesIds ::
    "((string \<times> CommunityIndexEntry) list \<Rightarrow> (string \<times> CommunityIndexEntry) list) \<Rightarrow> GroupIndex \<Rightarrow> string list" where
  "GroupIndex_listCommunitiesIds order g = map fst (order (mCommunities g))"

section \<open>FileBasedProvider\<close>

text \<open>
  What the provider uses: the environment of the blockchains with the arguments of their \<open>init\<close>, the checks
  and texts of the library, the order of an iteration over the configuration, the folder of the node and
  whether a folder can be made, and the random choice among the clients.
\<close>

record ('env, 'flt) provider_env =
  pe_E :: 'env
  pe_fuel :: nat
  pe_last20 :: 'flt
  pe_last1500 :: 'flt
  pe_all :: 'flt
  pe_chk :: member_check
  pe_topic :: "string \<Rightarrow> string result"
  pe_order :: "(string \<times> CommunityIndexEntry) list \<Rightarrow> (string \<times> CommunityIndexEntry) list"
  pe_filesPath :: string
  pe_mkdir :: "string \<Rightarrow> bool"
  pe_shuffle :: "nat list \<Rightarrow> nat list"

text \<open>
  The blockchains are shared with others; one is named by its community. The files are those of all blockchains,
  \<open>fbp_disk\<close> is what a LevelDB folder holds. \<open>fbp_clients\<close> are the clients for the community servers, by number,
  \<open>fbp_tasks\<close> the catch-up tasks that were scheduled, each with the sequence number and the topic to start from.
\<close>

record ('db, 'chain) FileBasedProvider =
  mInitalized_FBP :: bool
  mGroupIndex :: "GroupIndex option"
  mCommunityIdIndex :: "('db, bytes) Dictionary"
  mHieroClients :: "nat list"
  mHieroClientsPerCommunity :: u8
  mBlockchainsPerGroup :: "(string \<times> 'chain) list"
  fbp_clients :: "Client list"
  fbp_fs :: node_fs
  fbp_disk :: "string \<Rightarrow> 'db"
  fbp_tasks :: "(string \<times> u64 \<times> string) list"

definition FileBasedProvider_new where
  "FileBasedProvider_new P fs d =
     \<lparr>mInitalized_FBP = False, mGroupIndex = None,
      mCommunityIdIndex = Dictionary_new (pe_filesPath P @ ''/communityIdsCache'') (d (pe_filesPath P @ ''/communityIdsCache'')),
      mHieroClients = [], mHieroClientsPerCommunity = 0, mBlockchainsPerGroup = [], fbp_clients = [], fbp_fs = fs,
      fbp_disk = d, fbp_tasks = []\<rparr>"

definition FileBasedProvider_findBlockchain where
  "FileBasedProvider_findBlockchain P communityId p =
     (if \<not> mInitalized_FBP p then Inl (Gradido ClassNotInitalized)
      else if map_of (mBlockchainsPerGroup p) communityId \<noteq> None then Inr (Some communityId)
      else case mGroupIndex p of
        None \<Rightarrow> Inl UndefinedBehaviour
      | Some g \<Rightarrow>
          (case bindR (pe_topic P communityId) (\<lambda>t. GroupIndex_getCommunityDetailsByTopic (pe_topic P) (pe_order P) t g) of
             Inl (Gradido _) \<Rightarrow> Inr None
           | Inl e \<Rightarrow> Inl e
           | Inr entry \<Rightarrow>
               if map_of (mBlockchainsPerGroup p) (gi_communityId entry) \<noteq> None then Inr (Some (gi_communityId entry)) else Inr None))"

text \<open>The new client of a community server is the next number; the blockchain \<open>c\<close> gets it.\<close>

definition FileBasedProvider_updateListenerCommunity where
  "FileBasedProvider_updateListenerCommunity communityId alias g clients c =
     (case GroupIndex_getCommunityDetails communityId g of
        Inl e \<Rightarrow> (Inl e, clients, c)
      | Inr config \<Rightarrow>
          let uri = gi_newBlockUri config;
              listen = (\<lambda>client. (Inr (), clients @ [Base_setGroupAlias alias client],
                          FileBased_setListeningCommunityServer (Some (length clients)) c))
          in if uri = [] then (Inr (), clients, c)
             else if gi_blockUriType config = ''json'' then listen (JsonRPC_new uri True)
             else if gi_blockUriType config = ''graphql'' then listen (GraphQL_new uri)
             else (Inr (), clients, c))"

text \<open>What the LevelDB folders of a blockchain hold when it is gone.\<close>

definition chain_disks where
  "chain_disks c d = d(mFolderPath_FB c @ ''/pubkeysCache'' := disk (mDictionaryFile (mPublicKeysIndex c)),
     mFolderPath_FB c @ ''/.state'' := disk (mStateFile (mBlockchainState c)),
     mFolderPath_FB c @ ''/messageIdCache'' := disk (mLevelDBFile (mMessageIdsCache c)),
     mFolderPath_FB c @ ''/transactionTriggerEventCache'' := disk (mStateFile (trig_State (mTransactionTriggerEventsCache c))))"

text \<open>A blockchain of the map after an operation on it, with the files.\<close>

definition put_chain where
  "put_chain communityId c p = p\<lparr>mBlockchainsPerGroup :=
       map (\<lambda>(k, c'). (k, if k = communityId then c else c')) (mBlockchainsPerGroup p), fbp_fs := fb_fs c\<rparr>"

text \<open>
  \<open>addCommunity\<close>, up to the catch. The result is whether there is a blockchain. A blockchain that is in the map
  already stays there, and \<open>init\<close> works on one of its own.
\<close>

definition add_community_steps where
  "add_community_steps P communityId topicId alias g p =
     (case GroupIndex_getFolder (pe_filesPath P) (pe_mkdir P) communityId g of
        Inl e \<Rightarrow> Some (Inl e, p)
      | Inr folder \<Rightarrow>
          let per = unat (mHieroClientsPerCommunity p);
              hieroClients = (if length (mHieroClients p) > per then take per (pe_shuffle P (mHieroClients p)) else mHieroClients p)
          in (case FileBased_new (pe_E P) communityId topicId folder (length hieroClients) (fbp_disk p) (fbp_fs p) of
             Inl e \<Rightarrow> Some (Inl e, p)
           | Inr c \<Rightarrow>
               (case FileBasedProvider_updateListenerCommunity communityId alias g (fbp_clients p) c of
                  (Inl e, cs, _) \<Rightarrow> Some (Inl e, p\<lparr>fbp_clients := cs\<rparr>)
                | (Inr _, cs, c1) \<Rightarrow>
                    let inserted = (map_of (mBlockchainsPerGroup p) communityId = None);
                        p1 = p\<lparr>fbp_clients := cs, mBlockchainsPerGroup := omap_insert communityId c1 (mBlockchainsPerGroup p)\<rparr>;
                        back = (\<lambda>c2. if inserted then put_chain communityId c2 p1 else p1\<lparr>fbp_fs := fb_fs c2\<rparr>)
                    in (case FileBased_init (pe_E P) (pe_fuel P) (pe_last20 P) (pe_last1500 P) (pe_all P) False c1 of
                          None \<Rightarrow> None
                        | Some (Inl e, c2) \<Rightarrow> Some (Inl e, back c2)
                        | Some (Inr False, c2) \<Rightarrow>
                            Some (Inr False, (back c2)\<lparr>mBlockchainsPerGroup := omap_erase communityId (mBlockchainsPerGroup (back c2)),
                              fbp_disk := chain_disks c2 (fbp_disk p)\<rparr>)
                        | Some (Inr True, c2) \<Rightarrow>
                            (case Dictionary_getOrAddIndexForString (ce_L (pe_E P)) (ce_octet (pe_E P)) communityId (mCommunityIdIndex p) of
                               (r, d) \<Rightarrow> Some (map_sum id (\<lambda>_. True) r, (back c2)\<lparr>mCommunityIdIndex := d\<rparr>))))))"

text \<open>The flag \<open>resetIndices\<close> is not used.\<close>

definition FileBasedProvider_addCommunity where
  "FileBasedProvider_addCommunity P communityId topicId alias (resetIndices :: bool) p =
     (case mGroupIndex p of
        None \<Rightarrow> Some (Inl UndefinedBehaviour, p)
      | Some g \<Rightarrow>
          (case add_community_steps P communityId topicId alias g p of
             Some (Inl (Gradido _), p') \<Rightarrow> Some (Inr False, p')
           | r \<Rightarrow> r))"

section \<open>Starting and stopping\<close>

text \<open>One community of the configuration in \<open>init\<close>, with its topic id, whose constructor is outside the try.\<close>

definition init_community where
  "init_community P reset g communityId =
     bindF (\<lambda>p. Some (bindR (GroupIndex_getCommunityDetails communityId g) (\<lambda>details.
              bindR (pe_topic P (gi_topicId details)) (\<lambda>t. Inr (details, t))), p)) (\<lambda>(details, t).
       FileBasedProvider_addCommunity P communityId t (gi_alias details) reset)"

fun init_communities where
  "init_communities P reset g [] p = Some (Inr True, p)"
| "init_communities P reset g (communityId # ids) p =
     (case init_community P reset g communityId p of
        Some (Inr True, p') \<Rightarrow> init_communities P reset g ids p'
      | r \<Rightarrow> r)"

text \<open>The catch-up of every blockchain: the topic of the state is made a topic id, the task is scheduled.\<close>

fun start_tasks where
  "start_tasks P [] p = (Inr (), p)"
| "start_tasks P ((communityId, c) # cs) p =
     (case bindR (FileBased_initOnline (pe_E P) c) (\<lambda>(n, topic). bindR (pe_topic P topic) (\<lambda>t. Inr (n, t))) of
        Inl e \<Rightarrow> (Inl e, p)
      | Inr (n, t) \<Rightarrow> start_tasks P cs (p\<lparr>fbp_tasks := fbp_tasks p @ [(communityId, n, t)]\<rparr>))"

definition init_blockchains where
  "init_blockchains P read configFile reset p =
     (case GroupIndex_update (pe_chk P) read (GroupIndex_new configFile) of
        (Inl e, g) \<Rightarrow> Some (Inl e, p\<lparr>mGroupIndex := Some g\<rparr>)
      | (Inr _, g) \<Rightarrow>
          (case init_communities P reset g (GroupIndex_listCommunitiesIds (pe_order P) g) (p\<lparr>mGroupIndex := Some g\<rparr>) of
             Some (Inr True, p1) \<Rightarrow>
               (case start_tasks P (mBlockchainsPerGroup p1) p1 of (r, p2) \<Rightarrow> Some (map_sum id (\<lambda>_. True) r, p2))
           | r \<Rightarrow> r))"

definition FileBasedProvider_init where
  "FileBasedProvider_init P read configFile hieroClients hieroClientsPerCommunity p0 =
     (let p = p0\<lparr>mInitalized_FBP := True, mHieroClientsPerCommunity := hieroClientsPerCommunity, mHieroClients := hieroClients\<rparr> in
      if unat hieroClientsPerCommunity > length hieroClients then Some (Inr False, p)
      else case Dictionary_init (ce_L (pe_E P)) (ce_octet (pe_E P)) mega_bytes (mCommunityIdIndex p) of
        (Inl e, d) \<Rightarrow> Some (Inl e, p\<lparr>mCommunityIdIndex := d\<rparr>)
      | (Inr ok, d) \<Rightarrow>
          init_blockchains P read configFile (\<not> ok)
            (p\<lparr>mCommunityIdIndex := (if ok then d else Dictionary_reset (ce_L (pe_E P)) d)\<rparr>))"

text \<open>\<open>exit\<close>, blockchain after blockchain; one that others still hold lives on outside of the provider.\<close>

fun exit_chains where
  "exit_chains P [] p = (Inr (), p)"
| "exit_chains P ((communityId, c) # cs) p =
     (case FileBased_exit (pe_E P) (c\<lparr>fb_fs := fbp_fs p\<rparr>) of
        (Inl e, c1) \<Rightarrow> (Inl e, put_chain communityId c1 p)
      | (Inr _, c1) \<Rightarrow>
          exit_chains P cs ((put_chain communityId c1 p)\<lparr>fbp_disk := chain_disks c1 (fbp_disk p)\<rparr>))"

definition FileBasedProvider_exit where
  "FileBasedProvider_exit P p =
     (case exit_chains P (mBlockchainsPerGroup p) (p\<lparr>mInitalized_FBP := False\<rparr>) of
        (Inl e, p1) \<Rightarrow> (Inl e, p1)
      | (Inr _, p1) \<Rightarrow>
          (Inr (), p1\<lparr>mBlockchainsPerGroup := [], mCommunityIdIndex := Dictionary_exit (mCommunityIdIndex p1)\<rparr>))"

text \<open>One community in \<open>reloadConfig\<close>; the result is how many blockchains were added.\<close>

definition reload_community where
  "reload_community P g communityId =
     bindF (\<lambda>p. Some (GroupIndex_getCommunityDetails communityId g, p)) (\<lambda>details p.
       case map_of (mBlockchainsPerGroup p) communityId of
         None \<Rightarrow>
           bindF (\<lambda>p. Some (pe_topic P (gi_topicId details), p)) (\<lambda>t.
           bindF (FileBasedProvider_addCommunity P communityId t (gi_alias details) False) (\<lambda>added.
             returnF (if added then 1 else 0 :: nat))) p
       | Some c \<Rightarrow>
           (case FileBasedProvider_updateListenerCommunity communityId (gi_alias details) g (fbp_clients p) c of
              (r, cs, c1) \<Rightarrow> Some (map_sum id (\<lambda>_. 0) r, p\<lparr>fbp_clients := cs, mBlockchainsPerGroup :=
                map (\<lambda>(k, c'). (k, if k = communityId then c1 else c')) (mBlockchainsPerGroup p)\<rparr>)))"

fun reload_communities where
  "reload_communities P g [] count p = Some (Inr count, p)"
| "reload_communities P g (communityId # ids) count p =
     (case reload_community P g communityId p of
        None \<Rightarrow> None
      | Some (Inl e, p') \<Rightarrow> Some (Inl e, p')
      | Some (Inr n, p') \<Rightarrow> reload_communities P g ids (count + n) p')"

definition FileBasedProvider_reloadConfig where
  "FileBasedProvider_reloadConfig P read p =
     (if \<not> mInitalized_FBP p then Some (Inl (Gradido ClassNotInitalized), p)
      else case mGroupIndex p of
        None \<Rightarrow> Some (Inl UndefinedBehaviour, p)
      | Some g0 \<Rightarrow>
          (case GroupIndex_update (pe_chk P) read g0 of
             (Inl e, g) \<Rightarrow> Some (Inl e, p\<lparr>mGroupIndex := Some g\<rparr>)
           | (Inr _, g) \<Rightarrow>
               reload_communities P g (GroupIndex_listCommunitiesIds (pe_order P) g) 0 (p\<lparr>mGroupIndex := Some g\<rparr>)))"

definition FileBasedProvider_getCommunityIdIndex where
  "FileBasedProvider_getCommunityIdIndex P communityId p =
     Dictionary_getIndexForString (ce_L (pe_E P)) (ce_octet (pe_E P)) communityId (mCommunityIdIndex p)"

definition FileBasedProvider_getCommunityIdString where
  "FileBasedProvider_getCommunityIdString P index p =
     Dictionary_getStringForIndex (ce_L (pe_E P)) index (mCommunityIdIndex p)"

definition FileBasedProvider_listCommunityIds where
  "FileBasedProvider_listCommunityIds P p =
     (case mGroupIndex p of
        None \<Rightarrow> Inl UndefinedBehaviour
      | Some g \<Rightarrow> Inr (GroupIndex_listCommunitiesIds (pe_order P) g))"

section \<open>The communities after the start\<close>

definition index_ok :: "(string \<times> CommunityIndexEntry) list \<Rightarrow> bool" where
  "index_ok m = (distinct (map fst m) \<and> (\<forall>(k, entry) \<in> set m. k = gi_communityId entry))"

lemma index_ok_add: "index_ok m \<Longrightarrow> map_of m (gi_communityId e) = None \<Longrightarrow> index_ok ((gi_communityId e, e) # m)"
  by (auto simp: index_ok_def map_of_eq_None_iff)

lemma add_communities_ok: "index_ok m \<Longrightarrow> index_ok (snd (add_communities chk js m))"
  by (induction js arbitrary: m) (auto simp: index_ok_add split: sum.splits option.splits)

lemma GroupIndex_update_ok: "index_ok (mCommunities (snd (GroupIndex_update chk read g)))"
proof -
  have "index_ok (snd (add_communities chk js []))" for js by (rule add_communities_ok) (simp add: index_ok_def)
  moreover have "index_ok []" by (simp add: index_ok_def)
  ultimately show ?thesis
    by (auto simp: GroupIndex_update_def split: sum.splits json.splits prod.splits error.splits) (metis snd_conv)+
qed

text \<open>The communities that have a blockchain.\<close>

definition communities where
  "communities p = fst ` set (mBlockchainsPerGroup p)"

lemma communities_simps [simp]:
  "communities (p\<lparr>mCommunityIdIndex := d\<rparr>) = communities p" "communities (p\<lparr>fbp_fs := fs\<rparr>) = communities p"
  "communities (p\<lparr>fbp_clients := cs\<rparr>) = communities p" "communities (p\<lparr>fbp_tasks := ts\<rparr>) = communities p"
  "communities (p\<lparr>mGroupIndex := g\<rparr>) = communities p" "communities (p\<lparr>mBlockchainsPerGroup := m\<rparr>) = fst ` set m"
  by (simp_all add: communities_def)

lemma map_of_communities: "map_of (mBlockchainsPerGroup p) k = None \<longleftrightarrow> k \<notin> communities p"
  by (simp add: communities_def map_of_eq_None_iff)

lemma put_chain_simps [simp]:
  "communities (put_chain k c p) = communities p" "map fst (mBlockchainsPerGroup (put_chain k c p)) = map fst (mBlockchainsPerGroup p)"
  "mInitalized_FBP (put_chain k c p) = mInitalized_FBP p" "mGroupIndex (put_chain k c p) = mGroupIndex p"
  "fbp_tasks (put_chain k c p) = fbp_tasks p"
proof -
  show keys: "map fst (mBlockchainsPerGroup (put_chain k c p)) = map fst (mBlockchainsPerGroup p)"
    by (simp add: put_chain_def case_prod_beta comp_def)
  show "communities (put_chain k c p) = communities p"
    using arg_cong [OF keys, of set] by (simp add: communities_def)
qed (simp_all add: put_chain_def)

lemma set_omap_insert: "fst ` set (omap_insert k v m) = insert k (fst ` set m)"
proof (cases "map_of m k")
  case (Some w)
  then have "k \<in> fst ` set m" by (metis fst_conv image_eqI map_of_SomeD)
  then show ?thesis using Some by (auto simp: omap_insert_def)
qed (simp add: omap_insert_def fst_set_omap_put)

text \<open>What adding a community does to the rest of the provider, exceptions included.\<close>

lemma add_community_steps_frame:
  assumes "add_community_steps P communityId t alias g p = Some (r, p')"
  shows "mInitalized_FBP p' = mInitalized_FBP p \<and> mGroupIndex p' = mGroupIndex p \<and> fbp_tasks p' = fbp_tasks p \<and>
    (r = Inr True \<longrightarrow> communities p' = insert communityId (communities p))"
  using assms
  by (auto simp: add_community_steps_def Let_def set_omap_insert communities_def [symmetric]
      split: sum.splits prod.splits option.splits bool.splits if_splits)

lemma add_community_frame:
  assumes "FileBasedProvider_addCommunity P communityId t alias reset p = Some (r, p')"
  shows "mInitalized_FBP p' = mInitalized_FBP p" "mGroupIndex p' = mGroupIndex p" "fbp_tasks p' = fbp_tasks p"
    and "r = Inr True \<Longrightarrow> communities p' = insert communityId (communities p)"
proof -
  have "mInitalized_FBP p' = mInitalized_FBP p \<and> mGroupIndex p' = mGroupIndex p \<and> fbp_tasks p' = fbp_tasks p \<and>
    (r = Inr True \<longrightarrow> communities p' = insert communityId (communities p))"
    using assms by (auto simp: FileBasedProvider_addCommunity_def split: option.splits prod.splits sum.splits error.splits
        dest: add_community_steps_frame)
  then show "mInitalized_FBP p' = mInitalized_FBP p" "mGroupIndex p' = mGroupIndex p" "fbp_tasks p' = fbp_tasks p"
    "r = Inr True \<Longrightarrow> communities p' = insert communityId (communities p)" by simp_all
qed

lemma init_communities_result:
  assumes "init_communities P reset g ids p = Some (Inr True, p')"
  shows "mInitalized_FBP p' = mInitalized_FBP p \<and> mGroupIndex p' = mGroupIndex p \<and> fbp_tasks p' = fbp_tasks p \<and>
    communities p' = communities p \<union> set ids \<and>
    (\<forall>i \<in> set ids. \<exists>entry. map_of (mCommunities g) i = Some entry \<and> is_ok (pe_topic P (gi_topicId entry)))"
  using assms
proof (induction ids arbitrary: p)
  case (Cons i ids)
  from Cons.prems obtain p1 where one: "init_community P reset g i p = Some (Inr True, p1)"
    and rest: "init_communities P reset g ids p1 = Some (Inr True, p')"
    by (auto split: option.splits prod.splits sum.splits bool.splits)
  from one obtain entry t where entry: "map_of (mCommunities g) i = Some entry" "pe_topic P (gi_topicId entry) = Inr t"
    and add: "FileBasedProvider_addCommunity P i t (gi_alias entry) reset p = Some (Inr True, p1)"
    by (auto simp: init_community_def bindF_def bindR_def GroupIndex_getCommunityDetails_def split: sum.splits option.splits)
  show ?case using Cons.IH [OF rest] add_community_frame [OF add] entry by auto
qed simp

lemma start_tasks_result:
  assumes "start_tasks P cs p = (Inr (), p')"
  shows "p' = p\<lparr>fbp_tasks := fbp_tasks p'\<rparr> \<and> map fst (fbp_tasks p') = map fst (fbp_tasks p) @ map fst cs"
  using assms
proof (induction cs arbitrary: p)
  case (Cons c cs)
  then obtain n t where "start_tasks P cs (p\<lparr>fbp_tasks := fbp_tasks p @ [(fst c, n, t)]\<rparr>) = (Inr (), p')"
    by (cases c) (auto split: sum.splits prod.splits)
  from Cons.IH [OF this] show ?case by (cases c) (auto simp: FileBasedProvider.simps)
qed simp

lemma find_topic_result:
  assumes "\<forall>(k, entry) \<in> set m. is_ok (pe_topic P (gi_topicId entry))"
    and "(k, entry) \<in> set m" and "pe_topic P (gi_topicId entry) = Inr t"
  shows "\<exists>k' entry'. (k', entry') \<in> set m \<and> pe_topic P (gi_topicId entry') = Inr t \<and> find_topic (pe_topic P) t m = Inr entry'"
  using assms by (induction m) (auto simp: bindR_def is_ok_def split: sum.splits, blast+)

lemma map_sum_Inr [simp]: "map_sum id f r = Inr v \<longleftrightarrow> (\<exists>a. r = Inr a \<and> v = f a)"
  by (cases r) auto

lemma init_serves:
  assumes start: "FileBasedProvider_init P read configFile clients per p0 = Some (Inr True, p)"
    and new: "mBlockchainsPerGroup p0 = []" "fbp_tasks p0 = []" and order: "\<And>m. set (pe_order P m) = set m"
  shows "\<exists>g. mGroupIndex p = Some g \<and> communities p = fst ` set (mCommunities g) \<and>
    map fst (fbp_tasks p) = map fst (mBlockchainsPerGroup p) \<and>
    (\<forall>i entry. map_of (mCommunities g) i = Some entry \<longrightarrow> FileBasedProvider_findBlockchain P i p = Inr (Some i) \<and>
       (\<forall>name t. pe_topic P name = Inr t \<and> pe_topic P (gi_topicId entry) = Inr t \<and> name \<notin> communities p \<longrightarrow>
          (\<exists>i' entry'. map_of (mCommunities g) i' = Some entry' \<and> pe_topic P (gi_topicId entry') = Inr t \<and>
             FileBasedProvider_findBlockchain P name p = Inr (Some i'))))"
proof -
  define g where "g = snd (GroupIndex_update (pe_chk P) read (GroupIndex_new configFile))"
  obtain ok d0 where "Dictionary_init (ce_L (pe_E P)) (ce_octet (pe_E P)) mega_bytes (mCommunityIdIndex p0) = (Inr ok, d0)"
    using start by (auto simp: FileBasedProvider_init_def Let_def split: if_splits prod.splits sum.splits)
  then have "init_blockchains P read configFile (\<not> ok) (p0\<lparr>mInitalized_FBP := True, mHieroClientsPerCommunity := per, mHieroClients := clients,
      mCommunityIdIndex := (if ok then d0 else Dictionary_reset (ce_L (pe_E P)) d0)\<rparr>) = Some (Inr True, p)"
    using start by (simp add: FileBasedProvider_init_def Let_def split: if_splits)
  then obtain reset d where init: "init_blockchains P read configFile reset
      (p0\<lparr>mInitalized_FBP := True, mHieroClientsPerCommunity := per, mHieroClients := clients, mCommunityIdIndex := d\<rparr>) = Some (Inr True, p)"
    by (rule that)
  obtain p1 where run: "init_communities P reset g (GroupIndex_listCommunitiesIds (pe_order P) g)
      (p0\<lparr>mInitalized_FBP := True, mHieroClientsPerCommunity := per, mHieroClients := clients, mCommunityIdIndex := d,
          mGroupIndex := Some g\<rparr>) = Some (Inr True, p1)"
    and tasks: "start_tasks P (mBlockchainsPerGroup p1) p1 = (Inr (), p)"
    using init unfolding init_blockchains_def g_def
    by (cases "GroupIndex_update (pe_chk P) read (GroupIndex_new configFile)")
      (auto split: prod.splits sum.splits option.splits bool.splits)
  have ids: "set (GroupIndex_listCommunitiesIds (pe_order P) g) = fst ` set (mCommunities g)"
    by (simp add: GroupIndex_listCommunitiesIds_def order)
  have p1: "mInitalized_FBP p1" "mGroupIndex p1 = Some g" "fbp_tasks p1 = []" "communities p1 = fst ` set (mCommunities g)"
    "\<And>i. i \<in> fst ` set (mCommunities g) \<Longrightarrow> \<exists>entry. map_of (mCommunities g) i = Some entry \<and> is_ok (pe_topic P (gi_topicId entry))"
    using init_communities_result [OF run] new ids by (auto simp: communities_def)
  obtain ts where p: "p = p1\<lparr>fbp_tasks := ts\<rparr>" "map fst ts = map fst (mBlockchainsPerGroup p1)"
    using start_tasks_result [OF tasks] p1(3) by (elim conjE) (rule that [of "fbp_tasks p"], assumption, simp)
  then have fields: "mInitalized_FBP p" "mGroupIndex p = Some g" "communities p = fst ` set (mCommunities g)"
    "map fst (fbp_tasks p) = map fst (mBlockchainsPerGroup p)"
    using p1 by simp_all
  have g_ok: "index_ok (mCommunities g)" unfolding g_def by (rule GroupIndex_update_ok)
  have topics: "\<forall>(k, entry) \<in> set (pe_order P (mCommunities g)). is_ok (pe_topic P (gi_topicId entry))"
    using p1(5) g_ok order [of "mCommunities g"] unfolding index_ok_def by (auto dest: map_of_is_SomeI) (metis image_eqI fst_conv map_of_is_SomeI option.inject)
  have by_topic: "\<exists>i' entry'. map_of (mCommunities g) i' = Some entry' \<and> pe_topic P (gi_topicId entry') = Inr t \<and>
      FileBasedProvider_findBlockchain P name p = Inr (Some i')"
    if e: "map_of (mCommunities g) i = Some entry" and t: "pe_topic P name = Inr t" "pe_topic P (gi_topicId entry) = Inr t"
      and name: "name \<notin> communities p" for i entry name t
  proof -
    have "(i, entry) \<in> set (pe_order P (mCommunities g))" using e order by (simp add: map_of_SomeD)
    from find_topic_result [OF topics this t(2)] obtain k' entry' where
      k: "(k', entry') \<in> set (mCommunities g)" "pe_topic P (gi_topicId entry') = Inr t"
      "find_topic (pe_topic P) t (pe_order P (mCommunities g)) = Inr entry'"
      using order by auto
    then have m: "map_of (mCommunities g) k' = Some entry'" "k' = gi_communityId entry'"
      using g_ok unfolding index_ok_def by auto
    have "k' \<in> communities p" using k fields by force
    then have "FileBasedProvider_findBlockchain P name p = Inr (Some k')"
      using name fields k m t by (simp add: FileBasedProvider_findBlockchain_def map_of_communities
          GroupIndex_getCommunityDetailsByTopic_def bindR_def)
    then show ?thesis using k m by blast
  qed
  have by_id: "FileBasedProvider_findBlockchain P i p = Inr (Some i)" if "map_of (mCommunities g) i = Some entry" for i entry
  proof -
    have "i \<in> communities p" using map_of_SomeD [OF that] fields by force
    then show ?thesis using fields by (simp add: FileBasedProvider_findBlockchain_def map_of_communities)
  qed
  show ?thesis using fields by_id by_topic by blast
qed


section \<open>A community that fails\<close>

lemma map_of_map_eq: "map_of m i = Some y \<Longrightarrow> map_of (map (\<lambda>(k, v). (k, if k = i then x else v)) m) i = Some x"
  by (induction m) (auto split: if_splits)

text \<open>C0: A community whose blockchain fails in its initialisation stays: \<open>addCommunity\<close> catches the exception and
  answers that there is no blockchain, but it has put it into the map before, where everyone finds it. It has
  not been initialised, and the next reload of the configuration takes the community as known and does not try
  again.\<close>

theorem FileBasedProvider_failed_stays:
  assumes p: "mInitalized_FBP p" "mGroupIndex p = Some g" "communityId \<notin> communities p"
    and folder: "GroupIndex_getFolder (pe_filesPath P) (pe_mkdir P) communityId g = Inr folder"
    and sorted: "omap_ok (mBlockchainsPerGroup p)"
    and new: "\<And>n. 0 < n \<Longrightarrow> FileBased_new (pe_E P) communityId t folder n (fbp_disk p) (fbp_fs p) = Inr c"
    and clients: "mHieroClients p \<noteq> []" "0 < unat (mHieroClientsPerCommunity p)" "\<And>xs. length (pe_shuffle P xs) = length xs"
    and listen: "FileBasedProvider_updateListenerCommunity communityId alias g (fbp_clients p) c = (Inr (), cs, c1)"
    and fails: "FileBased_init (pe_E P) (pe_fuel P) (pe_last20 P) (pe_last1500 P) (pe_all P) False c1 = Some (Inl (Gradido e), c2)"
  shows "\<exists>p'. FileBasedProvider_addCommunity P communityId t alias reset p = Some (Inr False, p') \<and>
    FileBasedProvider_findBlockchain P communityId p' = Inr (Some communityId) \<and>
    map_of (mBlockchainsPerGroup p') communityId = Some c2 \<and>
    (\<forall>r p''. reload_community P g communityId p' = Some (Inr r, p'') \<longrightarrow>
       r = 0 \<and> map_option mBlockchainState (map_of (mBlockchainsPerGroup p'') communityId) = Some (mBlockchainState c2))"
proof -
  let ?per = "unat (mHieroClientsPerCommunity p)"
  define n where "n = length (if length (mHieroClients p) > ?per then take ?per (pe_shuffle P (mHieroClients p)) else mHieroClients p)"
  have "pe_shuffle P (mHieroClients p) \<noteq> []" using clients(1,3) by (metis length_0_conv)
  then have "0 < n" using clients by (auto simp: n_def)
  define p1 where "p1 = p\<lparr>fbp_clients := cs, mBlockchainsPerGroup := omap_insert communityId c1 (mBlockchainsPerGroup p)\<rparr>"
  define p' where "p' = put_chain communityId c2 p1"
  have add: "FileBasedProvider_addCommunity P communityId t alias reset p = Some (Inr False, p')"
    using p folder new [OF \<open>0 < n\<close>] listen fails
    by (simp add: FileBasedProvider_addCommunity_def add_community_steps_def Let_def n_def [symmetric] map_of_communities
        p1_def [symmetric] p'_def [symmetric])
  have "map_of (mBlockchainsPerGroup p) communityId = None" using p(3) map_of_communities [of p communityId] by simp
  then have known: "map_of (mBlockchainsPerGroup p1) communityId = Some c1"
    by (simp add: p1_def omap_insert_def map_of_omap_put sorted)
  have stays: "map_of (mBlockchainsPerGroup p') communityId = Some c2"
    using known by (simp add: p'_def put_chain_def map_of_map_eq)
  have found: "FileBasedProvider_findBlockchain P communityId p' = Inr (Some communityId)"
    using p stays by (simp add: FileBasedProvider_findBlockchain_def p'_def p1_def)
  have again: "r = 0 \<and> map_option mBlockchainState (map_of (mBlockchainsPerGroup p'') communityId) = Some (mBlockchainState c2)"
    if "reload_community P g communityId p' = Some (Inr r, p'')" for r p''
    using that stays
    by (auto simp: reload_community_def bindF_def map_of_map_eq FileBasedProvider_updateListenerCommunity_def Let_def
        FileBased_setListeningCommunityServer_def split: sum.splits prod.splits if_splits)
  show ?thesis using add found stays again by blast
qed

lemma add_communities_append:
  "add_communities chk (js @ js') m = (case add_communities chk js m of
     (Inl e, m') \<Rightarrow> (Inl e, m') | (Inr _, m') \<Rightarrow> add_communities chk js' m')"
  by (induction js arbitrary: m) (auto split: sum.splits option.splits prod.splits)

text \<open>A broken entry in the configuration does not start the node without communities, as the warning says:
  the entries before it are kept, those behind it are lost, and the caller gets the number of the first ones as
  if this were the whole configuration.\<close>

theorem GroupIndex_update_broken_entry:
  assumes "read (mConfig g) = JSON_DOCUMENT (JArr (js @ j # js'))"
    and "add_communities chk js [] = (Inr (), m)" and "community_entry chk j = Inl (Gradido e)"
  shows "GroupIndex_update chk read g = (Inr (length m), g\<lparr>mCommunities := m\<rparr>)"
  using assms by (simp add: GroupIndex_update_def JsonFile_load_def add_communities_append)

end
