(* ===== verification/ProviderEx.thy ===== *)
theory ProviderEx
  imports Provider ChainEx
begin

text \<open>Two communities with the blockchains of \<open>ChainEx\<close>, for the examples of the properties of \<open>Provider\<close>.\<close>

type_synonym demo_blockchain = "((string \<times> string) list, (u64 \<times> nat) option, (u32 \<times> nat) list, (string \<times> u64) list, (bytes \<times> u64) list,
    int, u64 \<times> int) FileBased"

definition demo_filter :: "nat \<Rightarrow> (nat, (int \<times> nat) list) chain_filter" where
  "demo_filter n = \<lparr>flt_index = plain_filter (\<lambda>_. True), flt_page = n\<rparr>"

definition demo_provider where
  "demo_provider = \<lparr>pe_E = demo_chain, pe_fuel = 1, pe_last20 = demo_filter 20, pe_last1500 = demo_filter 1500, pe_all = demo_filter 0,
     pe_chk = check_member, pe_topic = (\<lambda>s. if s = [] then Inl (Gradido InvalidHieroId) else Inr s), pe_order = rev,
     pe_filesPath = ''f'', pe_mkdir = (\<lambda>_. True), pe_shuffle = rev\<rparr>"

definition demo_community :: "string \<Rightarrow> json" where
  "demo_community c = JObj [(''alias'', JStr (''alias '' @ c)), (''communityId'', JStr c), (''folder'', JStr c),
     (''hieroTopicId'', JStr (''0.0.'' @ c)), (''newBlockUri'', JStr ''u''), (''blockUriType'', JStr ''json'')]"

definition demo_config :: "string \<Rightarrow> json_file" where
  "demo_config name = JSON_DOCUMENT (JArr [demo_community ''1'', demo_community ''2''])"

definition demo_node where
  "demo_node = FileBasedProvider_new demo_provider no_files (\<lambda>_. [])"

definition demo_started where
  "demo_started = snd (the (FileBasedProvider_init demo_provider demo_config ''c'' [7, 8, 9, 10] 3 demo_node))"

lemma demo_started: "FileBasedProvider_init demo_provider demo_config ''c'' [7, 8, 9, 10] 3 demo_node = Some (Inr True, demo_started)"
proof -
  have "map_option fst (FileBasedProvider_init demo_provider demo_config ''c'' [7, 8, 9, 10] 3 demo_node) = Some (Inr True)"
    by code_simp
  then show ?thesis by (auto simp: demo_started_def)
qed


text \<open>A state file that cannot be opened.\<close>

definition bad_disk :: "(string \<times> string) list" where
  "bad_disk = [(''bad'', [])]"

definition bad_chain where
  "bad_chain = demo_chain\<lparr>ce_L := alist_leveldb\<lparr>db_open := (\<lambda>n locked d. if d = bad_disk then LDB_Other else db_open alist_leveldb n locked d)\<rparr>\<rparr>"

definition bad_provider where
  "bad_provider = \<lparr>pe_E = bad_chain, pe_fuel = 1, pe_last20 = demo_filter 20, pe_last1500 = demo_filter 1500, pe_all = demo_filter 0,
     pe_chk = check_member, pe_topic = (\<lambda>s. if s = [] then Inl (Gradido InvalidHieroId) else Inr s), pe_order = rev,
     pe_filesPath = ''f'', pe_mkdir = (\<lambda>_. True), pe_shuffle = rev\<rparr>"

definition bad_index :: GroupIndex where
  "bad_index = snd (GroupIndex_update check_member demo_config (GroupIndex_new ''c''))"

definition bad_node :: "((string \<times> string) list, demo_blockchain) FileBasedProvider" where
  "bad_node = (FileBasedProvider_new bad_provider no_files (\<lambda>f. if f = ''f/1/.state'' then bad_disk else []))
     \<lparr>mInitalized_FBP := True, mGroupIndex := Some bad_index, mHieroClients := [7], mHieroClientsPerCommunity := 1\<rparr>"

definition bad_new :: demo_blockchain where
  "bad_new = (case FileBased_new bad_chain ''1'' ''0.0.1'' ''f/1'' 1 (fbp_disk bad_node) no_files of Inr c \<Rightarrow> c | Inl _ \<Rightarrow> undefined)"

definition bad_started :: demo_blockchain where
  "bad_started = snd (the (FileBased_init bad_chain 1 (demo_filter 20) (demo_filter 1500) (demo_filter 0) False (bad_new\<lparr>mCommunityServer := Some 0\<rparr>)))"

lemma bad_start:
  "FileBased_init bad_chain 1 (demo_filter 20) (demo_filter 1500) (demo_filter 0) False (bad_new\<lparr>mCommunityServer := Some 0\<rparr>) =
     Some (Inl (Gradido ClassNotInitalized), bad_started)"
proof -
  have "map_option fst (FileBased_init bad_chain 1 (demo_filter 20) (demo_filter 1500) (demo_filter 0) False
    (bad_new\<lparr>mCommunityServer := Some 0\<rparr>)) = Some (Inl (Gradido ClassNotInitalized))"
    by code_simp
  then show ?thesis by (auto simp: bad_started_def)
qed

lemma FileBasedProvider_failed_stays_witness:
  "\<exists>p'. FileBasedProvider_addCommunity bad_provider ''1'' ''0.0.1'' ''alias 1'' False bad_node = Some (Inr False, p') \<and>
     FileBasedProvider_findBlockchain bad_provider ''1'' p' = Inr (Some ''1'') \<and>
     map_of (mBlockchainsPerGroup p') ''1'' = Some bad_started"
proof -
  have p: "mInitalized_FBP bad_node" "mGroupIndex bad_node = Some bad_index" "''1'' \<notin> communities bad_node" "omap_ok (mBlockchainsPerGroup bad_node)"
    "mHieroClients bad_node \<noteq> []" "0 < unat (mHieroClientsPerCommunity bad_node)"
    by (simp_all add: bad_node_def FileBasedProvider_new_def communities_def)
  have folder: "GroupIndex_getFolder (pe_filesPath bad_provider) (pe_mkdir bad_provider) ''1'' bad_index = Inr ''f/1''"
    by code_simp
  have new: "FileBased_new (pe_E bad_provider) ''1'' ''0.0.1'' ''f/1'' n (fbp_disk bad_node) (fbp_fs bad_node) = Inr bad_new" if "0 < n" for n
    using that by (simp add: bad_new_def bad_provider_def bad_node_def FileBasedProvider_new_def FileBased_new_def)
  have listen: "FileBasedProvider_updateListenerCommunity ''1'' ''alias 1'' bad_index (fbp_clients bad_node) bad_new =
      (Inr (), [Base_setGroupAlias ''alias 1'' (JsonRPC_new ''u'' True)], bad_new\<lparr>mCommunityServer := Some 0\<rparr>)"
  proof -
    have "map_sum id (\<lambda>c. (gi_newBlockUri c, gi_blockUriType c)) (GroupIndex_getCommunityDetails ''1'' bad_index) = Inr (''u'', ''json'')"
      by code_simp
    moreover have "fbp_clients bad_node = []" by (simp add: bad_node_def FileBasedProvider_new_def)
    ultimately show ?thesis
      by (auto simp: FileBasedProvider_updateListenerCommunity_def FileBased_setListeningCommunityServer_def Let_def)
  qed
  have fails: "FileBased_init (pe_E bad_provider) (pe_fuel bad_provider) (pe_last20 bad_provider) (pe_last1500 bad_provider) (pe_all bad_provider)
      False (bad_new\<lparr>mCommunityServer := Some 0\<rparr>) = Some (Inl (Gradido ClassNotInitalized), bad_started)"
    using bad_start by (simp add: bad_provider_def)
  have shuffle: "length (pe_shuffle bad_provider xs) = length xs" for xs by (simp add: bad_provider_def)
  show ?thesis
    by (rule exE [OF FileBasedProvider_failed_stays [where reset = False, OF p(1-3) folder p(4) _ p(5,6) shuffle listen fails]], erule new)
      (elim conjE, intro exI conjI, assumption+)
qed

lemma GroupIndex_update_broken_entry_witness:
  "\<exists>m. GroupIndex_update check_member (\<lambda>_. JSON_DOCUMENT (JArr [demo_community ''1'', JObj [], demo_community ''2''])) (GroupIndex_new ''c'') =
     (Inr (length m), (GroupIndex_new ''c'')\<lparr>mCommunities := m\<rparr>) \<and> map fst m = [''1'']"
proof -
  define m where "m = snd (add_communities check_member [demo_community ''1''] [])"
  have "fst (add_communities check_member [demo_community ''1''] []) = Inr ()" by code_simp
  then have m: "add_communities check_member [demo_community ''1''] [] = (Inr (), m)" by (simp add: m_def prod_eq_iff)
  have bad: "community_entry check_member (JObj []) = Inl (Gradido InvalidMember)" by code_simp
  have keys: "map fst m = [''1'']" unfolding m_def by code_simp
  have cfg: "(\<lambda>_. JSON_DOCUMENT (JArr [demo_community ''1'', JObj [], demo_community ''2''])) (mConfig (GroupIndex_new ''c'')) =
      JSON_DOCUMENT (JArr ([demo_community ''1''] @ JObj [] # [demo_community ''2'']))" by simp
  show ?thesis by (intro exI [of _ m] conjI GroupIndex_update_broken_entry [OF cfg m bad] keys)
qed

end
