(* ===== verification/Recovery.thy ===== *)
theory Recovery
  imports BlockLog
begin

text \<open>
  A block whose index file is missing: \<open>cache::Block::init\<close> reads the block file line by line, has a worker
  make entries of the lines and adds them to the index. The result is the block that was there before.
\<close>

section \<open>Adding an entry that has its cursor\<close>

text \<open>It is the same as adding it without a cursor and then the cursor.\<close>

lemma update_min_max_cursors:
  "update_min_max nr (c\<lparr>mTransactionNrsFileCursors := m\<rparr>) = (update_min_max nr c)\<lparr>mTransactionNrsFileCursors := m\<rparr>"
  "update_min_max nr (c\<lparr>mDirty := b\<rparr>) = (update_min_max nr c)\<lparr>mDirty := b\<rparr>"
  "update_min_max nr (update_min_max nr c) = update_min_max nr c"
  by (simp_all add: update_min_max_def Let_def)

lemma update_min_max_keeps [simp]:
  "mTransactionNrsFileCursors (update_min_max nr c) = mTransactionNrsFileCursors c"
  "mYearMonthAddressIndexEntries (update_min_max nr c) = mYearMonthAddressIndexEntries c"
  by (simp_all add: update_min_max_def Let_def)

lemma addEntry_two_steps:
  assumes cur: "0 \<le> sint (ne_fileCursor e)" and ok: "omap_ok (mTransactionNrsFileCursors c)"
    and new: "map_of (mTransactionNrsFileCursors c) (ne_transactionNr e) = None"
    and first: "ne_fileCursor e = 0 \<longrightarrow> \<not> mMinTransactionNr (update_min_max (ne_transactionNr e) c) < ne_transactionNr e"
    and add: "BlockIndexCache_addEntry gci (e\<lparr>ne_fileCursor := - 10\<rparr>) c = (Inr True, c1)"
    and put: "BlockIndexCache_addFileCursorForTransaction (ne_transactionNr e) (ne_fileCursor e) c1 = (Inr True, c2)"
  shows "BlockIndexCache_addEntry gci e c = (Inr True, c2)"
proof -
  let ?nr = "ne_transactionNr e" let ?cur = "ne_fileCursor e"
  let ?m = "omap_put ?nr ?cur (mTransactionNrsFileCursors c)"
  have got: "map_of ?m ?nr = Some ?cur" using ok by (simp add: map_of_omap_put)
  have twice: "BlockIndexCache_addFileCursorForTransaction ?nr ?cur d = (Inr (?cur = 0), d\<lparr>mDirty := True\<rparr>)"
    if "mTransactionNrsFileCursors d = ?m" "?cur = 0 \<longrightarrow> \<not> mMinTransactionNr d < ?nr" for d
  proof -
    have "omap_put ?nr ?cur (mTransactionNrsFileCursors d) = mTransactionNrsFileCursors d" using that(1) by simp
    then have "d\<lparr>mDirty := True, mTransactionNrsFileCursors := omap_put ?nr ?cur (mTransactionNrsFileCursors d)\<rparr> = d\<lparr>mDirty := True\<rparr>"
      by simp
    then show ?thesis using cur that got by (auto simp: BlockIndexCache_addFileCursorForTransaction_def Let_def)
  qed
  have c1: "mTransactionNrsFileCursors c1 = mTransactionNrsFileCursors c"
    "mMinTransactionNr c1 = mMinTransactionNr (update_min_max ?nr c)"
    using add by (auto simp: BlockIndexCache_addEntry_def BlockIndexCache_addIndices_def Let_def update_min_max_cursors
        BlockIndexCache_addFileCursorForTransaction_def split: if_splits sum.splits)
  have c2: "c2 = c1\<lparr>mTransactionNrsFileCursors := ?m, mDirty := True\<rparr>"
    using put cur first new c1 by (auto simp: BlockIndexCache_addFileCursorForTransaction_def Let_def split: if_splits)
  have one: "BlockIndexCache_addFileCursorForTransaction ?nr ?cur (update_min_max ?nr c) =
      (Inr True, (update_min_max ?nr c)\<lparr>mTransactionNrsFileCursors := ?m, mDirty := True\<rparr>)"
    using cur first new by (auto simp: BlockIndexCache_addFileCursorForTransaction_def Let_def)
  let ?d = "update_min_max ?nr c"
  obtain coin where coin: "(if ne_coinCommunityId e \<noteq> [] then gci (ne_coinCommunityId e) else Inr 0) = Inr coin"
    using add by (cases "ne_coinCommunityId e = []"; cases "gci (ne_coinCommunityId e)")
      (auto simp: BlockIndexCache_addEntry_def Let_def)
  have skip: "BlockIndexCache_addFileCursorForTransaction ?nr (- 10) x = (Inr False, x)" for x
    by (simp add: BlockIndexCache_addFileCursorForTransaction_def)
  have "BlockIndexCache_addEntry gci e c =
      BlockIndexCache_addIndices (ne_transactionType e) coin (ne_year e) (ne_month e) ?nr ?cur (ne_addressIndices e)
        (word_of_nat (length (ne_addressIndices e))) (?d\<lparr>mTransactionNrsFileCursors := ?m, mDirty := True\<rparr>)"
    using cur one coin by (simp add: BlockIndexCache_addEntry_def Let_def)
  moreover have "BlockIndexCache_addIndices (ne_transactionType e) coin (ne_year e) (ne_month e) ?nr (- 10) (ne_addressIndices e)
        (word_of_nat (length (ne_addressIndices e))) ?d = (Inr True, c1)"
    using add coin by (auto simp: BlockIndexCache_addEntry_def Let_def split: if_splits)
  ultimately show ?thesis
    using first twice unfolding BlockIndexCache_addIndices_def Let_def c2
    by (auto simp: update_min_max_cursors skip split: if_splits)
qed

lemma addEntry_cursor_rep:
  assumes rep: "index_rep n0 ls (length ls) c" and n0: "0 < n0" and small: "n0 + length (ls @ [l]) < 2 ^ 31"
    and sz: "length (enc_lines (ls @ [l])) < 2 ^ 31"
    and nr: "ne_transactionNr e = nr_at n0 (length ls)" and cur: "ne_fileCursor e = word_of_nat (cursor_of (ls @ [l]) (length ls))"
    and addrs: "length (ne_addressIndices e) < 256" and coin: "ne_coinCommunityId e = [] \<or> (\<exists>i. gci (ne_coinCommunityId e) = Inr i)"
  shows "\<exists>c'. BlockIndexCache_addEntry gci e c = (Inr True, c') \<and> index_rep n0 (ls @ [l]) (length (ls @ [l])) c' \<and>
    mFolderPath_Index c' = mFolderPath_Index c \<and> mBlockNr_Index c' = mBlockNr_Index c"
proof -
  let ?ls' = "ls @ [l]" let ?n = "length ls"
  from addEntry_rep [OF rep n0, of "e\<lparr>ne_fileCursor := - 10\<rparr>" gci l] small nr addrs coin obtain c1 where
    c1: "BlockIndexCache_addEntry gci (e\<lparr>ne_fileCursor := - 10\<rparr>) c = (Inr True, c1)" "index_rep n0 ?ls' ?n c1"
      "mFolderPath_Index c1 = mFolderPath_Index c" "mBlockNr_Index c1 = mBlockNr_Index c" by auto
  from addFileCursor_rep [OF c1(2) n0 _ sz small] obtain c2 where
    c2: "BlockIndexCache_addFileCursorForTransaction (ne_transactionNr e) (ne_fileCursor e) c1 = (Inr True, c2)"
      "index_rep n0 ?ls' (Suc ?n) c2" "mFolderPath_Index c2 = mFolderPath_Index c1" "mBlockNr_Index c2 = mBlockNr_Index c1"
    unfolding nr cur by auto
  have lt: "cursor_of ?ls' ?n < 2 ^ 31" using cursor_of_less [of ?n ?ls'] sz by simp
  have un: "unat (nr_at n0 ?n) = n0 + ?n" using small by (simp add: unat_nr_at)
  have ok: "omap_ok (mTransactionNrsFileCursors c)" using rep by (simp add: index_rep_def index_inv_def)
  have none: "map_of (mTransactionNrsFileCursors c) (ne_transactionNr e) = None" using rep un nr by (simp add: index_rep_def)
  have mm: "mMinTransactionNr c = (if ls = [] then 0 else nr_at n0 0)"
    "mMaxTransactionNr c = (if ls = [] then 0 else nr_at n0 (?n - 1))" using rep by (simp_all add: index_rep_def)
  have min: "mMinTransactionNr (update_min_max (ne_transactionNr e) c) = nr_at n0 0"
    unfolding nr by (rule min_max_nr_at(1) [OF n0 _ mm]) (use small in simp)
  have "?n = 0" if "ne_fileCursor e = 0"
  proof (rule ccontr)
    assume "?n \<noteq> 0"
    then have "0 < cursor_of ?ls' ?n" by (intro cursor_of_pos) simp_all
    moreover have "unat (ne_fileCursor e) = cursor_of ?ls' ?n" using lt cur by simp
    ultimately show False using that by simp
  qed
  then have first: "ne_fileCursor e = 0 \<longrightarrow> \<not> mMinTransactionNr (update_min_max (ne_transactionNr e) c) < ne_transactionNr e"
    using min nr by auto
  have "0 \<le> sint (ne_fileCursor e)" using lt cur by (simp add: sint_word_of_nat_u32)
  from addEntry_two_steps [OF this ok none first c1(1) c2(1)] c1 c2 show ?thesis by auto
qed

section \<open>The loops of a rebuild\<close>

text \<open>
  What the worker needs: every line is a confirmed transaction with the number of its place, whose entry
  takes the given cursor, has less than 256 addresses and a known community.
\<close>

definition rebuild_ok :: "block_env \<Rightarrow> (bytes \<Rightarrow> 'ct option result) \<Rightarrow> ('ct \<Rightarrow> u32 \<Rightarrow> node_entry result) \<Rightarrow> nat
    \<Rightarrow> bytes list \<Rightarrow> bool" where
  "rebuild_ok E deser mkEntry n0 ls =
     (\<forall>i < length ls. \<exists>ct e. deser (ls ! i) = Inr (Some ct) \<and> (\<forall>cur. mkEntry ct cur = Inr (e\<lparr>ne_fileCursor := cur\<rparr>)) \<and>
        ne_transactionNr e = nr_at n0 i \<and> length (ne_addressIndices e) < 256 \<and>
        (ne_coinCommunityId e = [] \<or> (\<exists>k. bv_coin E (ne_coinCommunityId e) = Inr k)))"

definition rebuilt_entry :: "block_env \<Rightarrow> nat \<Rightarrow> bytes list \<Rightarrow> nat \<Rightarrow> node_entry \<Rightarrow> bool" where
  "rebuilt_entry E n0 ls i e =
     (ne_transactionNr e = nr_at n0 i \<and> ne_fileCursor e = word_of_nat (cursor_of ls i) \<and> length (ne_addressIndices e) < 256 \<and>
      (ne_coinCommunityId e = [] \<or> (\<exists>k. bv_coin E (ne_coinCommunityId e) = Inr k)))"

lemma run_pending_rep:
  assumes "rebuild_ok E deser mkEntry n0 ls" and "k + length js = length ls" and "js = [k..<length ls]"
    and "\<forall>i < length es. rebuilt_entry E n0 ls i (es ! i)" and "length es = k"
  shows "\<exists>es'. run_pending deser mkEntry (map (\<lambda>i. (word_of_nat (cursor_of ls i), ls ! i)) js) es =
      (Inr (), \<lparr>mPendingFileCursorLine = [], mTransactionEntries = es'\<rparr>) \<and> length es' = length ls \<and>
      (\<forall>i < length ls. rebuilt_entry E n0 ls i (es' ! i))"
  using assms
proof (induction js arbitrary: k es)
  case Nil
  then show ?case by simp
next
  case (Cons j js)
  then have k: "k < length ls" by (cases "k < length ls") simp_all
  then have "j # js = k # [Suc k..<length ls]" using Cons.prems(3) by (simp add: upt_rec [of k])
  then have js: "j = k" "js = [Suc k..<length ls]" by simp_all
  from Cons.prems(1) k obtain ct e where ct: "deser (ls ! k) = Inr (Some ct)"
    "\<forall>cur. mkEntry ct cur = Inr (e\<lparr>ne_fileCursor := cur\<rparr>)"
    and e: "ne_transactionNr e = nr_at n0 k" "length (ne_addressIndices e) < 256"
      "ne_coinCommunityId e = [] \<or> (\<exists>k. bv_coin E (ne_coinCommunityId e) = Inr k)" unfolding rebuild_ok_def by blast
  let ?e = "e\<lparr>ne_fileCursor := word_of_nat (cursor_of ls k)\<rparr>"
  have "rebuilt_entry E n0 ls k ?e" using e by (simp add: rebuilt_entry_def)
  then have "\<forall>i < length (es @ [?e]). rebuilt_entry E n0 ls i ((es @ [?e]) ! i)"
    using Cons.prems(4,5) by (simp add: nth_append less_Suc_eq)
  from Cons.IH [OF Cons.prems(1) _ js(2) this] Cons.prems(2,5) ct show ?case by (simp add: js(1))
qed

lemma add_rebuilt_rep:
  assumes "index_rep n0 (take i ls) i c" and "i \<le> length ls" and "0 < n0" and "n0 + length ls < 2 ^ 31"
    and "length (enc_lines ls) < 2 ^ 31" and "length es = length ls" and "\<forall>j < length ls. rebuilt_entry E n0 ls j (es ! j)"
    and "prev = (if i = 0 then 0 else nr_at n0 (i - 1))"
  shows "\<exists>c'. add_rebuilt (bv_coin E) (drop i es) prev c = (Inr (), c') \<and> index_rep n0 ls (length ls) c' \<and>
    mFolderPath_Index c' = mFolderPath_Index c \<and> mBlockNr_Index c' = mBlockNr_Index c"
  using assms
proof (induction "length ls - i" arbitrary: i c prev)
  case 0
  then show ?case by simp
next
  case (Suc n)
  then have i: "i < length ls" by simp
  have drop: "drop i es = es ! i # drop (Suc i) es" using i Suc.prems(6) by (simp add: Cons_nth_drop_Suc)
  have take: "take (Suc i) ls = take i ls @ [ls ! i]" using i by (simp add: take_Suc_conv_app_nth)
  have e: "rebuilt_entry E n0 ls i (es ! i)" using Suc.prems(7) i by simp
  have li: "length (take i ls) = i" using i by simp
  have "enc_lines ls = enc_lines (take (Suc i) ls) @ enc_lines (drop (Suc i) ls)"
    using append_take_drop_id [of "Suc i" ls] by (metis enc_lines_simps(3))
  then have sz: "length (enc_lines (take i ls @ [ls ! i])) < 2 ^ 31" using Suc.prems(5) unfolding take [symmetric] by simp
  have cur: "cursor_of (take i ls @ [ls ! i]) i = cursor_of ls i" unfolding take [symmetric] by (simp add: cursor_of_def)
  have "\<exists>c'. BlockIndexCache_addEntry (bv_coin E) (es ! i) c = (Inr True, c') \<and>
      index_rep n0 (take i ls @ [ls ! i]) (length (take i ls @ [ls ! i])) c' \<and>
      mFolderPath_Index c' = mFolderPath_Index c \<and> mBlockNr_Index c' = mBlockNr_Index c"
    by (rule addEntry_cursor_rep) (use Suc.prems(1,3,4) sz e i in \<open>simp_all add: rebuilt_entry_def cur li del: enc_lines_simps\<close>)
  then obtain c1 where c1: "BlockIndexCache_addEntry (bv_coin E) (es ! i) c = (Inr True, c1)"
    "index_rep n0 (take (Suc i) ls) (Suc i) c1" "mFolderPath_Index c1 = mFolderPath_Index c" "mBlockNr_Index c1 = mBlockNr_Index c"
    unfolding take using i by auto
  have nr: "ne_transactionNr (es ! i) = nr_at n0 i" using e by (simp add: rebuilt_entry_def)
  have "\<not> nr_at n0 i \<le> prev"
    using Suc.prems(3,4,8) i by (auto simp: word_le_nat_alt unat_nr_at)
  then have step: "add_rebuilt (bv_coin E) (drop i es) prev c = add_rebuilt (bv_coin E) (drop (Suc i) es) (nr_at n0 i) c1"
    using nr c1(1) by (simp add: drop)
  have "\<exists>c'. add_rebuilt (bv_coin E) (drop (Suc i) es) (nr_at n0 i) c1 = (Inr (), c') \<and> index_rep n0 ls (length ls) c' \<and>
    mFolderPath_Index c' = mFolderPath_Index c1 \<and> mBlockNr_Index c' = mBlockNr_Index c1"
    by (rule Suc.hyps(1)) (use Suc.hyps(2) Suc.prems(3-7) c1(2) i in simp_all)
  then show ?case unfolding step using c1(3,4) by simp
qed

lemma length_chain: "\<forall>x. length (ghash x) = 32 \<Longrightarrow> length h = 32 \<Longrightarrow> length (chain_from ghash h ls) = 32"
  by (induction ls arbitrary: h) (simp_all add: calculateOneHashStep_def)

section \<open>Starting with a block file and no index file\<close>

lemma BlockFile_new_existing:
  assumes "fs_files fs (BlockFile_fileName folder nr) = Some (enc_lines ls @ h)" and "length h = 32" and "ls \<noteq> []"
    and "length (enc_lines ls) + 32 < 2 ^ 31" and "\<forall>l \<in> set ls. length l < 2 ^ 16" and "io_open io"
  shows "\<exists>b. BlockFile_new io folder nr fs = (Inr (), b, fs) \<and> bf_rep ls h (b, fs) \<and> mBlockPath b = BlockFile_fileName folder nr"
proof -
  have "enc_lines ls \<noteq> []" using assms(3) by (cases ls) simp_all
  then show ?thesis using assms
    by (simp add: BlockFile_new_def BlockFile_getOpenFile_def bf_rep_def bf_content_def bf_stream_def rep_view_def Let_def)
qed

text \<open>The file of the index is missing or empty.\<close>

definition no_index :: "string \<Rightarrow> node_fs \<Rightarrow> bool" where
  "no_index ipath fs = (fs_files fs ipath = None \<or> fs_files fs ipath = Some [])"

lemma load_no_index:
  assumes "no_index (BlockIndexFile_fileName folder nr) fs" and "\<not> held (BlockIndexFile_fileName folder nr) (fs_locks fs)"
  shows "BlockIndexCache_loadFromFile env ghash junk enum_contains fuel (BlockIndexCache_new folder nr) fs =
    Some (Inr False, BlockIndexCache_new folder nr,
      \<lparr>fs_locks = (fs_locks fs)(BlockIndexFile_fileName folder nr \<mapsto> False),
       fs_files = (fs_files fs)(BlockIndexFile_fileName folder nr \<mapsto> [])\<rparr>)"
proof -
  let ?n = "BlockIndexFile_fileName folder nr"
  have "FileLockManager_tryLockTimeout env ?n 100 (fs_locks fs) = (Inr True, (fs_locks fs)(?n \<mapsto> True))"
    by (rule tryLockTimeout_free [OF assms(2)]) simp
  moreover have "(fs_files fs)(?n \<mapsto> []) = fs_files fs" if "fs_files fs ?n = Some []" using that by auto
  ultimately show ?thesis using assms(1)
    by (auto simp: BlockIndexCache_loadFromFile_def BlockIndexCache_new_def BlockIndexFile_new_def Let_def no_index_def
        BlockIndexFile_readFromFile_def VirtualFile_readFromFile_def FileLockManager_unlock_def)
qed

lemma reset_new_index:
  assumes "\<not> held (BlockIndexFile_fileName folder nr) (fs_locks fs)"
  shows "\<exists>fs'. BlockIndexCache_reset env (BlockIndexCache_new folder nr) fs = (Inr (), BlockIndexCache_new folder nr, fs') \<and>
    fs_locks fs' = (fs_locks fs)(BlockIndexFile_fileName folder nr \<mapsto> False) \<and>
    (\<forall>n. n \<noteq> BlockIndexFile_fileName folder nr \<longrightarrow> fs_files fs' n = fs_files fs n)"
proof -
  let ?n = "BlockIndexFile_fileName folder nr"
  have "FileLockManager_tryLockTimeout env ?n 100 (fs_locks fs) = (Inr True, (fs_locks fs)(?n \<mapsto> True))"
    by (rule tryLockTimeout_free [OF assms]) simp
  then show ?thesis
    by (auto simp: BlockIndexCache_reset_def BlockIndexCache_new_def BlockIndexFile_new_def Let_def clearIndex_def
        BlockIndexFile_reset_def FileLockManager_unlock_def)
qed

lemma bf_rep_other_files:
  assumes "bf_rep ls h (b, fs)" and "fs_files fs' (mBlockPath b) = fs_files fs (mBlockPath b)"
  shows "bf_rep ls h (b, fs')"
  using assms by (simp add: bf_rep_def bf_content_def bf_stream_def)

lemma rebuild_loop_entries:
  "rebuild_loop io ghash junk fuel cur h t s = Some (Inr (h', t'), s') \<Longrightarrow> mTransactionEntries t' = mTransactionEntries t"
proof (induction fuel arbitrary: cur h t s)
  case (Suc fuel)
  then show ?case
    by (auto simp: RebuildBlockIndexTask_pushLine_def split: if_splits sum.splits prod.splits dest: Suc.IH)
qed simp

lemma rebuildBlockIndex_entries:
  fixes t :: "'e RebuildBlockIndexTask"
  assumes "BlockFile_rebuildBlockIndex io ghash junk fuel s = Some (Inr t, s')"
  shows "mTransactionEntries t = []"
proof -
  from assms obtain h b fs and t' :: "'e RebuildBlockIndexTask" where
    loop: "rebuild_loop io ghash junk fuel 0 (replicate 32 0) RebuildBlockIndexTask_new s = Some (Inr (h, t'), b, fs)"
    unfolding BlockFile_rebuildBlockIndex_def by (auto split: option.splits sum.splits prod.splits)
  then have "t' = t"
    using assms unfolding BlockFile_rebuildBlockIndex_def
    by (auto simp: bindS_def throwS_def returnS_def split: sum.splits prod.splits if_splits)
  then show ?thesis using rebuild_loop_entries [OF loop] by (simp add: RebuildBlockIndexTask_new_def)
qed

lemma CacheBlock_rebuild_rep:
  fixes s :: "'x block_sys"
  assumes env: "env_ok E X" and lok: "lines_ok E n0 ls" and rb: "rebuild_ok E deser mkEntry n0 ls" and ne: "ls \<noteq> []"
    and fuel: "length ls < fuel" and idx: "blockIndex s = BlockIndexCache_new folder nr"
    and frep: "file_rep E ls (BlockIndexFile_fileName folder nr) (blockFile s)"
  shows "\<exists>c f. CacheBlock_rebuild E fuel deser mkEntry s = Some (Inr True, s\<lparr>blockFile := f, blockIndex := c\<rparr>) \<and>
    index_rep n0 ls (length ls) c \<and> index_path c = BlockIndexFile_fileName folder nr \<and>
    file_rep E ls (BlockIndexFile_fileName folder nr) f"
proof -
  let ?ip = "BlockIndexFile_fileName folder nr" let ?h = "chain (bv_ghash E) ls"
  have f: "bf_rep ls ?h (blockFile s)" "bf_free (blockFile s)" "\<not> held ?ip (fs_locks (snd (blockFile s)))"
    "mBlockPath (fst (blockFile s)) \<noteq> ?ip" using frep by (simp_all add: file_rep_def)
  have io: "io_open (bv_io E)" using env by (simp add: env_ok_def)
  have n0: "0 < n0" "n0 + length ls < 2 ^ 31" "length (enc_lines ls) < 2 ^ 31" "\<forall>l \<in> set ls. 27 \<le> length l"
    using lok by (auto simp: lines_ok_def)
  from rebuildBlockIndex_rep [OF f(1,2) io n0(4) ne fuel, of "bv_ghash E" "bv_junk E"] obtain t b fs where
    t: "BlockFile_rebuildBlockIndex (bv_io E) (bv_ghash E) (bv_junk E) fuel (blockFile s) = Some (Inr (t :: node_entry RebuildBlockIndexTask), b, fs)"
      "mPendingFileCursorLine t = lines_with_cursors ls" "bf_rep ls ?h (b, fs)" "bf_free (b, fs)"
      "mBlockPath b = mBlockPath (fst (blockFile s))" "\<forall>n. n \<noteq> mBlockPath b \<longrightarrow> fs_locks fs n = fs_locks (snd (blockFile s)) n"
    by (auto split: prod.splits)
  have pth: "mBlockPath b \<noteq> ?ip" using t(5) f(4) by simp
  then have free: "\<not> held ?ip (fs_locks fs)" using t(6) f(3) by (auto simp: held_def)
  from run_pending_rep [OF rb, where k = 0 and js = "[0..<length ls]" and es = "[]"] obtain es where
    es: "RebuildBlockIndexTask_run deser mkEntry t = (Inr (), \<lparr>mPendingFileCursorLine = [], mTransactionEntries = es\<rparr>)"
      "length es = length ls" "\<forall>i < length ls. rebuilt_entry E n0 ls i (es ! i)"
    using t(2) rebuildBlockIndex_entries [OF t(1)] by (auto simp: RebuildBlockIndexTask_run_def lines_with_cursors_def)
  from reset_new_index [OF free, of "bv_lock E"] obtain fs' where
    r: "BlockIndexCache_reset (bv_lock E) (BlockIndexCache_new folder nr) fs = (Inr (), BlockIndexCache_new folder nr, fs')"
      "fs_locks fs' = (fs_locks fs)(?ip \<mapsto> False)" "\<forall>n. n \<noteq> ?ip \<longrightarrow> fs_files fs' n = fs_files fs n" by blast
  have "index_rep n0 (take 0 ls) 0 (BlockIndexCache_new folder nr)" by (simp add: index_rep_new)
  from add_rebuilt_rep [OF this _ n0(1-3) es(2,3), of 0] obtain c where
    c: "add_rebuilt (bv_coin E) es 0 (BlockIndexCache_new folder nr) = (Inr (), c)" "index_rep n0 ls (length ls) c"
      "index_path c = ?ip" by (auto simp: index_path_def BlockIndexCache_new_def)
  have "CacheBlock_rebuild E fuel deser mkEntry s = Some (Inr True, s\<lparr>blockFile := (b, fs'), blockIndex := c\<rparr>)"
    using t(1) es(1) r(1) c(1) idx by (simp add: CacheBlock_rebuild_def)
  moreover have "file_rep E ls ?ip (b, fs')"
    using bf_rep_other_files [OF t(3)] r(2,3) pth t(4) by (simp add: file_rep_def bf_free_def held_def)
  ultimately show ?thesis using c(2,3) by blast
qed

lemma CacheBlock_init_rebuilds:
  assumes env: "env_ok E X" and lok: "lines_ok E n0 ls" and rb: "rebuild_ok E deser mkEntry n0 ls" and ne: "ls \<noteq> []"
    and fuel: "length ls < fuel" and blk: "fs_files fs (BlockFile_fileName folder nr) = Some (enc_lines ls @ chain (bv_ghash E) ls)"
    and idx: "no_index (BlockIndexFile_fileName folder nr) fs"
    and free: "\<not> held (BlockFile_fileName folder nr) (fs_locks fs)" "\<not> held (BlockIndexFile_fileName folder nr) (fs_locks fs)"
  shows "\<exists>s s'. CacheBlock_new E X folder nr fs = (Inr (), s) \<and>
    CacheBlock_init E fuel enum_contains deser mkEntry s = Some (Inr True, s') \<and>
    block_rep E X n0 \<lparr>log_lines = ls, log_written = length ls, log_pending = False\<rparr> s'"
proof -
  let ?ip = "BlockIndexFile_fileName folder nr" let ?h = "chain (bv_ghash E) ls"
  have io: "io_open (bv_io E)" and xl: "expire_laws X" and h: "length ?h = 32"
    using env by (auto simp: env_ok_def length_chain)
  have sz: "length (enc_lines ls) + 32 < 2 ^ 31" "\<forall>l \<in> set ls. length l < 2 ^ 16" using lok by (auto simp: lines_ok_def)
  from BlockFile_new_existing [OF blk h ne sz io] obtain b where
    b: "BlockFile_new (bv_io E) folder nr fs = (Inr (), b, fs)" "bf_rep ls ?h (b, fs)" "mBlockPath b = BlockFile_fileName folder nr" by blast
  define s where "s = snd (CacheBlock_new E X folder nr fs)"
  have new: "CacheBlock_new E X folder nr fs = (Inr (), s)" using b(1) by (simp add: CacheBlock_new_def s_def)
  have s: "blockFile s = (b, fs)" "blockIndex s = BlockIndexCache_new folder nr" "entries s = []"
    "observer s = \<lparr>mBlockWriteTasks = [], mTransactionsFromPendingTasks = []\<rparr>"
    "cacheBlock s = \<lparr>mBlockNr_Cache = nr, mSerializedTransactions = ec_new X, mTransactionWriteTask = None, mExitCalled_Cache = False\<rparr>"
    using b(1) by (simp_all add: CacheBlock_new_def s_def)
  define fs1 where "fs1 = \<lparr>fs_locks = (fs_locks fs)(?ip \<mapsto> False), fs_files = (fs_files fs)(?ip \<mapsto> [])\<rparr>"
  define s1 where "s1 = s\<lparr>blockFile := (b, fs1)\<rparr>"
  have frep: "file_rep E ls ?ip (blockFile s1)"
    using bf_rep_other_files [OF b(2), of fs1] b(3) free block_paths_differ
    by (simp add: file_rep_def s1_def fs1_def bf_free_def held_def)
  have idx1: "blockIndex s1 = BlockIndexCache_new folder nr" by (simp add: s1_def s)
  from CacheBlock_rebuild_rep [OF env lok rb ne fuel idx1 frep] obtain c f where
    r: "CacheBlock_rebuild E fuel deser mkEntry s1 = Some (Inr True, s1\<lparr>blockFile := f, blockIndex := c\<rparr>)"
      "index_rep n0 ls (length ls) c" "index_path c = ?ip" "file_rep E ls ?ip f" by blast
  have "enc_lines ls \<noteq> []" using ne by (cases ls) simp_all
  moreover have "unat (mCurrentFileSize b) = length (enc_lines ls)" using b(2) by (auto simp: bf_rep_def intro: rep_view_size)
  ultimately have nz: "mCurrentFileSize b \<noteq> 0" by auto
  have s1: "s\<lparr>blockIndex := BlockIndexCache_new folder nr, blockFile := (b, fs1)\<rparr> = s1" "blockFile s1 = (b, fs1)"
    by (simp_all add: s1_def flip: s(2))
  then have init: "CacheBlock_init E fuel enum_contains deser mkEntry s = Some (Inr True, s1\<lparr>blockFile := f, blockIndex := c\<rparr>)"
    using load_no_index [OF idx free(2), folded fs1_def] r(1) nz by (simp add: CacheBlock_init_def s(1,2) s1 Let_def)
  have "cache_rep X n0 ls [] (ec_new X)" using expire_lawsD(1) [OF xl] by (auto simp: cache_rep_def)
  then have "block_rep E X n0 \<lparr>log_lines = ls, log_written = length ls, log_pending = False\<rparr> (s1\<lparr>blockFile := f, blockIndex := c\<rparr>)"
    using env lok r by (simp add: block_rep_def queue_rep_def s1_def s)
  with new init show ?thesis by blast
qed

section \<open>The files of a block\<close>

text \<open>No operation changes the names of the files.\<close>

definition block_paths :: "'z block_data_scheme \<Rightarrow> string \<times> string" where
  "block_paths s = (mBlockPath (fst (blockFile s)), index_path (blockIndex s))"

lemma bf_path_simps [simp]:
  "mBlockPath (fst (bf_seek n s)) = mBlockPath (fst s)" "mBlockPath (fst (snd (bf_read n s))) = mBlockPath (fst s)"
  "mBlockPath (fst (bf_write bs s)) = mBlockPath (fst s)" "mBlockPath (fst (snd (bf_lock io s))) = mBlockPath (fst s)"
  "mBlockPath (fst (snd (bf_unlock s))) = mBlockPath (fst s)" "mBlockPath (fst (snd (BlockFile_getOpenFile io s))) = mBlockPath (fst s)"
  by (auto simp: bf_seek_def bf_read_def bf_write_def bf_lock_def bf_unlock_def BlockFile_getOpenFile_def Let_def
      split: prod.splits option.splits)

lemma bindS_path:
  assumes "\<And>s. mBlockPath (fst (snd (m s))) = mBlockPath (fst s)" and "\<And>a s. mBlockPath (fst (snd (f a s))) = mBlockPath (fst s)"
  shows "mBlockPath (fst (snd (bindS m f s))) = mBlockPath (fst s)"
proof -
  obtain r s' where "m s = (r, s')" by (rule prod.exhaust)
  then show ?thesis using assms(1) [of s] assms(2) by (cases r) (simp_all add: bindS_def)
qed

lemma readLine_path: "mBlockPath (fst (snd (BlockFile_readLine io junk cursor s))) = mBlockPath (fst s)"
  by (simp add: BlockFile_readLine_def bindS_path case_prod_beta Let_def returnS_def throwS_def split: if_split)

lemma append_loop_path: "mBlockPath (fst (snd (append_loop ghash lines ps h s))) = mBlockPath (fst s)"
  by (induction ghash lines ps h s rule: append_loop.induct) (simp_all add: Let_def)

lemma appendLines_path: "mBlockPath (fst (snd (BlockFile_appendLines io ghash lines s))) = mBlockPath (fst s)"
proof -
  have "mBlockPath (fst (snd (read_current_hash s))) = mBlockPath (fst s)" for s
    by (simp add: read_current_hash_def case_prod_beta)
  then show ?thesis by (simp add: BlockFile_appendLines_def bindS_path case_prod_beta append_loop_path returnS_def)
qed

lemma index_path_simps [simp]:
  "index_path (update_min_max nr c) = index_path c" "index_path (c\<lparr>mDirty := b\<rparr>) = index_path c"
  "index_path (c\<lparr>mTransactionNrsFileCursors := m\<rparr>) = index_path c" "index_path (c\<lparr>mYearMonthAddressIndexEntries := M\<rparr>) = index_path c"
  by (simp_all add: index_path_def)

lemma index_path_add [simp]:
  "index_path (snd (BlockIndexCache_addFileCursorForTransaction nr cur c)) = index_path c"
  "index_path (snd (BlockIndexCache_addIndices ty coin y mo nr cur addrs n c)) = index_path c"
  "index_path (snd (BlockIndexCache_addEntry gci e c)) = index_path c"
proof -
  show 1: "index_path (snd (BlockIndexCache_addFileCursorForTransaction nr cur c)) = index_path c" for nr cur c
    by (simp add: BlockIndexCache_addFileCursorForTransaction_def Let_def split: option.split)
  show 2: "index_path (snd (BlockIndexCache_addIndices ty coin y mo nr cur addrs n c)) = index_path c" for ty coin y mo nr cur addrs n c
    using 1 [of nr cur] by (simp add: BlockIndexCache_addIndices_def Let_def case_prod_beta split: sum.split)
  show "index_path (snd (BlockIndexCache_addEntry gci e c)) = index_path c"
    by (simp add: BlockIndexCache_addEntry_def Let_def case_prod_beta 1 2 split: sum.split)
qed

lemma store_cursors_paths: "block_paths (snd (store_cursors isFirst ts cs s)) = block_paths s"
proof (induction isFirst ts cs s rule: store_cursors.induct)
  case (1 isFirst uu p ts cursor cursors s)
  then show ?case
    by (cases "BlockIndexCache_addFileCursorForTransaction (entry_nr (entries s ! p)) cursor (blockIndex s)")
      (use index_path_add(1) [of "entry_nr (entries s ! p)" cursor "blockIndex s"] in
        \<open>auto simp: Let_def block_paths_def split: sum.split\<close>)
qed simp_all

lemma run_paths: "block_paths (snd (WriteTransactionsToBlockTask_run E t s)) = block_paths s"
proof -
  have app: "block_paths (s\<lparr>blockFile := snd (BlockFile_appendLines io ghash lines (blockFile s))\<rparr>) = block_paths s" for io ghash lines
    by (simp add: block_paths_def appendLines_path)
  have idx: "block_paths (s'\<lparr>blockFile := (fst (blockFile s'), fs)\<rparr>) = block_paths s'" for s' :: "'a block_data_scheme" and fs
    by (simp add: block_paths_def)
  show ?thesis
    by (simp add: WriteTransactionsToBlockTask_run_def Let_def case_prod_beta idx store_cursors_paths app split: sum.split)
qed

lemma block_paths_simps [simp]:
  "block_paths (s\<lparr>entries := x\<rparr>) = block_paths s" "block_paths (s\<lparr>writeTasks := y\<rparr>) = block_paths s"
  "block_paths (s\<lparr>observer := z\<rparr>) = block_paths s" "block_paths (update_task t f s) = block_paths s"
  by (simp_all add: block_paths_def update_task_def)

lemma block_paths_cache [simp]: "block_paths (s\<lparr>cacheBlock := w\<rparr>) = block_paths s"
  by (simp add: block_paths_def)

lemma push_paths: "block_paths (snd (CacheBlock_pushTransaction E X p s)) = block_paths s"
proof -
  have w: "block_paths (snd (with_write_task s)) = block_paths s" by (simp add: with_write_task_def split: option.split)
  have a: "block_paths (snd (WriteTransactionsToBlockTask_addSerializedTransaction E t p s)) = block_paths s" for t and s :: "'a block_sys"
    by (simp add: WriteTransactionsToBlockTask_addSerializedTransaction_def Let_def case_prod_beta)
      (simp add: block_paths_def update_task_def)
  show ?thesis by (simp add: CacheBlock_pushTransaction_def case_prod_beta a w split: sum.split)
qed

lemma get_paths:
  assumes "bv_wait E = (\<lambda>_ c. c)"
  shows "block_paths (snd (CacheBlock_getTransaction E X nr s)) = block_paths s"
proof -
  have fl: "block_paths (snd (getTransaction_file E X nr cur s)) = block_paths s" for cur and s :: "'a block_sys"
    using readLine_path [of "bv_io E" "bv_junk E" cur "blockFile s"]
    by (auto simp: getTransaction_file_def CacheBlock_addTransaction_def block_paths_def Let_def
        split: sum.split prod.split error.split gradido_exception.split)
  show ?thesis
    by (simp add: CacheBlock_getTransaction_def Let_def case_prod_beta fl getTransaction_cursor_id [OF assms]
        split: sum.split option.split)
qed

lemma block_step_paths:
  assumes "bv_wait E = (\<lambda>_ c. c)"
  shows "block_paths (snd (block_step E X op s)) = block_paths s"
proof (cases op)
  case (OpPush e)
  then show ?thesis by (simp add: block_step_def case_prod_beta push_paths split: sum.split)
next
  case (OpTimer locked now timeout)
  then show ?thesis
    by (simp add: block_step_def CacheBlock_callFromTimer_def TaskObserver_addBlockWriteTask_def case_prod_beta split: option.split)
next
  case OpWork
  then show ?thesis
    by (auto simp: block_step_def run_scheduled_def TaskObserverFinishCommand_taskFinished_def TaskObserver_removeTask_def
        TaskObserver_removeBlockWriteTask_def case_prod_beta run_paths split: list.split sum.split)
next
  case (OpGet nr)
  then show ?thesis using get_paths [OF assms, of X nr s] by (simp add: block_step_def case_prod_beta split: sum.split)
qed

lemma run_steps_paths:
  "bv_wait E = (\<lambda>_ c. c) \<Longrightarrow> block_paths (snd (run_steps (block_step E X) ops s)) = block_paths s"
  by (induction ops arbitrary: s) (simp_all add: case_prod_beta block_step_paths)

section \<open>Properties\<close>

text \<open>What a new process finds: no locks, and the index file of the block is gone.\<close>

definition without_index :: "string \<Rightarrow> node_fs \<Rightarrow> node_fs" where
  "without_index ipath fs = \<lparr>fs_locks = Map.empty, fs_files = (fs_files fs)(ipath := None)\<rparr>"

definition written_log :: "bytes list \<Rightarrow> block_log" where
  "written_log ls = \<lparr>log_lines = ls, log_written = length ls, log_pending = False\<rparr>"

lemma lines_ok_take:
  assumes "lines_ok E n0 ls"
  shows "lines_ok E n0 (take w ls)"
proof -
  have "enc_lines ls = enc_lines (take w ls) @ enc_lines (drop w ls)"
    using append_take_drop_id [of w ls] by (metis enc_lines_simps(3))
  then have "length (enc_lines (take w ls)) \<le> length (enc_lines ls)" by simp
  moreover have "length (take w ls) \<le> length ls" by simp
  ultimately show ?thesis using assms by (auto simp: lines_ok_def dest: in_set_takeD)
qed

lemma block_restart:
  assumes frep: "file_rep E ls ip f" and paths: "mBlockPath (fst f) = BlockFile_fileName folder nr"
    and env: "env_ok E X" "lines_ok E n0 ls" "rebuild_ok E deser mkEntry n0 ls" "ls \<noteq> []" "length ls < fuel"
  shows "\<exists>s s'. CacheBlock_new E X folder nr (without_index (BlockIndexFile_fileName folder nr) (snd f)) = (Inr (), s) \<and>
    CacheBlock_init E fuel enum_contains deser mkEntry s = Some (Inr True, s') \<and> block_rep E X n0 (written_log ls) s'"
proof -
  let ?fs = "without_index (BlockIndexFile_fileName folder nr) (snd f)"
  have "fs_files (snd f) (mBlockPath (fst f)) = Some (enc_lines ls @ chain (bv_ghash E) ls)"
    using frep env(4) by (auto simp: file_rep_def bf_rep_def bf_content_def rep_view_def)
  then have blk: "fs_files ?fs (BlockFile_fileName folder nr) = Some (enc_lines ls @ chain (bv_ghash E) ls)"
    using paths block_paths_differ by (simp add: without_index_def)
  have "no_index (BlockIndexFile_fileName folder nr) ?fs" "\<not> held n (fs_locks ?fs)" for n
    by (simp_all add: no_index_def without_index_def held_def)
  from CacheBlock_init_rebuilds [OF env blk this this(2)] show ?thesis by (simp add: written_log_def)
qed

lemma new_paths:
  assumes "CacheBlock_new E X folder nr fs = (r, s)"
  shows "block_paths s = (BlockFile_fileName folder nr, BlockIndexFile_fileName folder nr)"
proof -
  have "mBlockPath (fst (snd (BlockFile_new (bv_io E) folder nr fs))) = BlockFile_fileName folder nr"
    by (simp add: BlockFile_new_def)
  then show ?thesis using assms
    by (auto simp: CacheBlock_new_def block_paths_def index_path_def BlockIndexCache_new_def split: prod.splits)
qed


text \<open>An example: five operations of the example of \<open>BlockLog\<close>, two written transactions, then the process ends.\<close>

definition crash_ops :: "block_op list" where
  "crash_ops = [OpPush (example_entry 1), OpPush (example_entry 2), OpTimer False 10 5, OpWork, OpPush (example_entry 3)]"

definition example_deser :: "bytes \<Rightarrow> bytes option result" where
  "example_deser bs = Inr (Some bs)"

definition example_mkEntry :: "bytes \<Rightarrow> u32 \<Rightarrow> node_entry result" where
  "example_mkEntry bs cursor = Inr (example_index (ucast (hd bs)) cursor)"

lemma crash_log:
  "snd (run_steps (log_step 1) crash_ops empty_log) =
     \<lparr>log_lines = [1 # replicate 30 7, 2 # replicate 30 7, 3 # replicate 30 7], log_written = 2, log_pending = False\<rparr>"
  by (simp add: crash_ops_def log_step_def empty_log_def example_entry_def)

lemma example_rebuild: "rebuild_ok example_env example_deser example_mkEntry 1 [1 # replicate 30 7, 2 # replicate 30 7]"
proof -
  have "\<exists>ct e. example_deser ([1 # replicate 30 7, 2 # replicate 30 7] ! i) = Inr (Some ct) \<and>
      (\<forall>cur. example_mkEntry ct cur = Inr (e\<lparr>ne_fileCursor := cur\<rparr>)) \<and> ne_transactionNr e = nr_at 1 i \<and>
      length (ne_addressIndices e) < 256 \<and>
      (ne_coinCommunityId e = [] \<or> (\<exists>k. bv_coin example_env (ne_coinCommunityId e) = Inr k))" if "i < 2" for i
    using that
    by (intro exI [of _ "[1 # replicate 30 7, 2 # replicate 30 7] ! i"] exI [of _ "example_index (nr_at 1 i) 0"])
      (auto simp: example_deser_def example_mkEntry_def example_index_def nr_at_def less_2_cases_iff)
  then show ?thesis by (simp add: rebuild_ok_def)
qed




end
