(* ===== verification/Base58.thy ===== *)
theory Base58
  imports Prelude
begin

text \<open>
  Base 58 texts: \<open>src/lib/base58.c\<close>, a copy of libbase58 with changes of the node's authors, and
  \<open>src/lib/BinTextConverter.cpp\<close> on top of it. The encoder is proved equal to the definition of the
  encoding; the decoder writes behind its buffer.
\<close>

section \<open>The encoder\<close>

definition b58digits_ordered :: string where
  "b58digits_ordered = ''123456789ABCDEFGHJKLMNPQRSTUVWXYZabcdefghijkmnopqrstuvwxyz''"

definition b58_digit :: "u8 \<Rightarrow> char" where
  "b58_digit d = b58digits_ordered ! unat d"

text \<open>
  One byte goes into the number in \<open>buf\<close>, from its last digit on: the digits behind \<open>high\<close> and as long as
  there is a carry. The result is the position where the loop stopped. The carry is an \<open>int\<close> below 14848.
\<close>

function enc_byte :: "nat \<Rightarrow> nat \<Rightarrow> nat \<Rightarrow> u8 list \<Rightarrow> nat \<times> u8 list" where
  "enc_byte high carry j buf =
     (if j > high \<or> carry \<noteq> 0 then
        let c = carry + 256 * unat (buf ! j);
            buf' = buf[j := word_of_nat (c mod 58)]
        in if j = 0 then (j, buf') else enc_byte high (c div 58) (j - 1) buf'
      else (j, buf))"
  by pat_completeness auto
termination by (relation "measure (\<lambda>(high, carry, j, buf). j)") auto

declare enc_byte.simps [simp del]

fun enc_bytes :: "nat \<Rightarrow> u8 list \<Rightarrow> nat \<Rightarrow> u8 list \<Rightarrow> u8 list" where
  "enc_bytes bufsz [] high buf = buf"
| "enc_bytes bufsz (b # bs) high buf =
     (case enc_byte high (unat b) (bufsz - 1) buf of (high', buf') \<Rightarrow> enc_bytes bufsz bs high' buf')"

text \<open>
  \<open>b58enc\<close>: the result says whether the text fits the buffer of \<open>b58sz\<close> characters, the new value of
  \<open>b58sz\<close>, and the text without its zero at the end.
\<close>

definition b58enc :: "nat \<Rightarrow> bytes \<Rightarrow> bool \<times> nat \<times> string" where
  "b58enc b58sz bin =
     (let zcount = length (takeWhile (\<lambda>b. b = 0) bin);
          bufsz = (length bin - zcount) * 138 div 100 + 1;
          buf = enc_bytes bufsz (drop zcount bin) (bufsz - 1) (replicate bufsz 0);
          j = length (takeWhile (\<lambda>d. d = 0) buf)
      in if b58sz \<le> zcount + bufsz - j then (False, zcount + bufsz - j + 1, [])
         else (True, zcount + bufsz - j + 1, replicate zcount (CHR ''1'') @ map b58_digit (drop j buf)))"

section \<open>The decoder\<close>

text \<open>
  The buffer of \<open>b58tobin\<close> has \<open>outisz\<close> words of 32 bits, but \<open>malloc\<close> is given \<open>outisz\<close> bytes; a write
  behind them is undefined.
\<close>

fun clear_outi :: "nat \<Rightarrow> nat \<Rightarrow> u32 list \<Rightarrow> u32 list result" where
  "clear_outi allocated 0 outi = Inr outi"
| "clear_outi allocated (Suc n) outi =
     (if 4 * (length outi + 1) > allocated then Inl UndefinedBehaviour
      else clear_outi allocated n (outi @ [0]))"

definition word_bytes :: "nat \<Rightarrow> u32 \<Rightarrow> bytes" where
  "word_bytes n w = map (\<lambda>i. word_of_nat (unat w div 2 ^ (8 * i) mod 256)) (rev [0..<n])"

text \<open>
  The checks of a digit stand without braces in front of \<open>free\<close> and \<open>return false\<close>: the first digit that
  is no leading 1 ends the function. The result is the truth value, the new size and the bytes.
\<close>

definition b58tobin :: "nat \<Rightarrow> string \<Rightarrow> (bool \<times> nat \<times> bytes) result" where
  "b58tobin binsz b58 =
     (let outisz = (binsz + 4 - 1) div 4;
          bytesleft = binsz mod 4
      in bindR (clear_outi outisz outisz []) (\<lambda>outi.
        let zerocount = length (takeWhile (\<lambda>c. c = CHR ''1'') b58) in
        if zerocount < length b58 then Inr (False, binsz, [])
        else
          let bin = (if bytesleft \<noteq> 0 then word_bytes bytesleft (hd outi) @ concat (map (word_bytes 4) (tl outi))
                     else concat (map (word_bytes 4) outi))
          in Inr (True, binsz - length (takeWhile (\<lambda>b. b = 0) bin) + zerocount, bin)))"

section \<open>Texts with a check sum\<close>

text \<open>The hash function is a pointer that is null until the program sets it; it may fail.\<close>

type_synonym sha256 = "(bytes \<Rightarrow> bytes option) option"

definition my_dblsha256 :: "sha256 \<Rightarrow> bytes \<Rightarrow> bytes option result" where
  "my_dblsha256 sha bs =
     (case sha of
        None \<Rightarrow> Inl UndefinedBehaviour
      | Some h \<Rightarrow> (case h bs of None \<Rightarrow> Inr None | Some buf \<Rightarrow> Inr (h buf)))"

text \<open>The loop over the zeros runs behind the arrays when both end together.\<close>

fun check_zeros :: "bytes \<Rightarrow> string \<Rightarrow> bool result" where
  "check_zeros (b # bs) (c # cs) =
     (if b = 0 \<and> c = CHR ''1'' then check_zeros bs cs else Inr (b = 0 \<or> c = CHR ''1''))"
| "check_zeros [] cs = Inl UndefinedBehaviour"
| "check_zeros (b # bs) [] = Inr (b = 0)"

definition b58check :: "sha256 \<Rightarrow> bytes \<Rightarrow> string \<Rightarrow> int result" where
  "b58check sha bin base58str =
     (if length bin < 4 then Inr (- 4)
      else bindR (my_dblsha256 sha (take (length bin - 4) bin)) (\<lambda>hash.
        case hash of
          None \<Rightarrow> Inr (- 2)
        | Some buf \<Rightarrow>
            if drop (length bin - 4) bin \<noteq> take 4 buf then Inr (- 1)
            else bindR (check_zeros bin base58str) (\<lambda>wrong. Inr (if wrong then - 3 else uint (hd bin)))))"

definition b58check_enc :: "sha256 \<Rightarrow> nat \<Rightarrow> u8 \<Rightarrow> bytes \<Rightarrow> (bool \<times> nat \<times> string) result" where
  "b58check_enc sha b58c_sz ver data =
     bindR (my_dblsha256 sha (ver # data)) (\<lambda>hash.
       case hash of
         None \<Rightarrow> Inr (False, 0, [])
       | Some h \<Rightarrow> Inr (b58enc b58c_sz (ver # data @ take 4 h)))"

section \<open>BinTextConverter\<close>

datatype StringTransportType =
    STRING_TRANSPORT_TYPE_BASE64
  | STRING_TRANSPORT_TYPE_BASE58
  | STRING_TRANSPORT_TYPE_HEX
  | STRING_TRANSPORT_TYPE_UNKNOWN

definition in_range :: "char \<Rightarrow> char \<Rightarrow> char \<Rightarrow> bool" where
  "in_range a b c = (of_char a \<le> (of_char c :: nat) \<and> of_char c \<le> (of_char b :: nat))"

definition is_hex_char :: "char \<Rightarrow> bool" where
  "is_hex_char c = (in_range (CHR ''a'') (CHR ''f'') c \<or> in_range (CHR ''A'') (CHR ''F'') c \<or> in_range (CHR ''0'') (CHR ''9'') c)"

definition is_base58_char :: "char \<Rightarrow> bool" where
  "is_base58_char c = (in_range (CHR ''1'') (CHR ''9'') c \<or> in_range (CHR ''A'') (CHR ''H'') c \<or>
     in_range (CHR ''J'') (CHR ''N'') c \<or> in_range (CHR ''P'') (CHR ''Z'') c \<or> in_range (CHR ''a'') (CHR ''k'') c \<or>
     in_range (CHR ''m'') (CHR ''z'') c)"

definition is_base64_char :: "char \<Rightarrow> bool" where
  "is_base64_char c = (in_range (CHR ''0'') (CHR ''9'') c \<or> in_range (CHR ''A'') (CHR ''Z'') c \<or>
     in_range (CHR ''a'') (CHR ''z'') c \<or> c = CHR ''+'' \<or> c = CHR ''/'')"

definition getStringTransportType :: "string \<Rightarrow> StringTransportType" where
  "getStringTransportType input =
     (if list_all is_hex_char input then STRING_TRANSPORT_TYPE_HEX
      else if list_all is_base58_char input then STRING_TRANSPORT_TYPE_BASE58
      else if list_all (\<lambda>c. c = CHR ''='') (dropWhile is_base64_char input) then STRING_TRANSPORT_TYPE_BASE64
      else STRING_TRANSPORT_TYPE_UNKNOWN)"

text \<open>\<open>ceil\<close> of three quarters of the length; the first bytes of the buffer become the result.\<close>

definition convertBase58ToBin :: "string \<Rightarrow> bytes result" where
  "convertBase58ToBin base58String =
     (let binSize = (3 * length base58String + 3) div 4 in
      bindR (b58tobin binSize base58String) (\<lambda>(ok, binSize', bin).
        if \<not> ok then Inr []
        else if binSize' > length bin then Inl UndefinedBehaviour
        else Inr (take binSize' bin)))"

definition convertBinToBase58 :: "bytes \<Rightarrow> string" where
  "convertBinToBase58 binString =
     (case b58enc (length binString * 138 div 100 + 1) binString of
        (ok, encodedSize, text) \<Rightarrow> if \<not> ok then [] else take (encodedSize - 1) text)"

text \<open>Hexadecimal and base 64 belong to the blocks of memory of the library.\<close>

definition convertBinTransportStringToBin ::
    "(string \<Rightarrow> bytes result) \<Rightarrow> (string \<Rightarrow> bytes result) \<Rightarrow> string \<Rightarrow> bytes result" where
  "convertBinTransportStringToBin fromHex fromBase64 input =
     (case getStringTransportType input of
        STRING_TRANSPORT_TYPE_BASE58 \<Rightarrow> convertBase58ToBin input
      | STRING_TRANSPORT_TYPE_BASE64 \<Rightarrow> fromBase64 input
      | STRING_TRANSPORT_TYPE_HEX \<Rightarrow> fromHex input
      | STRING_TRANSPORT_TYPE_UNKNOWN \<Rightarrow> Inl (Gradido UnhandledEnum))"

section \<open>What the encoder computes\<close>

text \<open>The number a list of digits stands for, the digits of a number, and the encoding of bytes.\<close>

definition number :: "nat \<Rightarrow> u8 list \<Rightarrow> nat" where
  "number base ds = foldl (\<lambda>v d. v * base + unat d) 0 ds"

fun digits58 :: "nat \<Rightarrow> nat list" where
  "digits58 n = (if n = 0 then [] else digits58 (n div 58) @ [n mod 58])"

declare digits58.simps [simp del]

definition base58 :: "bytes \<Rightarrow> string" where
  "base58 bin = replicate (length (takeWhile (\<lambda>b. b = 0) bin)) (CHR ''1'') @ map ((!) b58digits_ordered) (digits58 (number 256 bin))"

lemma number_simps [simp]:
  "number B [] = 0" "number B (ds @ [d]) = number B ds * B + unat d"
  by (simp_all add: number_def)

lemma number_append: "number B (xs @ ys) = number B xs * B ^ length ys + number B ys"
  by (induction ys rule: rev_induct) (simp_all add: append_assoc [symmetric] algebra_simps del: append_assoc)

lemma number_Cons: "number B (d # ds) = unat d * B ^ length ds + number B ds"
  using number_append [of B "[d]" ds] by (simp add: number_def)

lemma number_single [simp]: "number B [d] = unat d"
  by (simp add: number_Cons)

lemma number_zeros [simp]: "number B (replicate n 0) = 0"
  by (induction n) (simp_all add: number_Cons)

lemma number_bound: "\<forall>d \<in> set ds. unat d < B \<Longrightarrow> number B ds < B ^ length ds"
proof (induction ds)
  case (Cons d ds)
  then have "number B ds < B ^ length ds" "unat d + 1 \<le> B" by simp_all
  then have "unat d * B ^ length ds + number B ds < (unat d + 1) * B ^ length ds" by simp
  also have "\<dots> \<le> B * B ^ length ds" using \<open>unat d + 1 \<le> B\<close> by (rule mult_le_mono1)
  finally show ?case by (simp add: number_Cons)
qed simp

lemma number_update:
  assumes "j < length ds"
  shows "number B (ds[j := d]) + unat (ds ! j) * B ^ (length ds - Suc j) = number B ds + unat d * B ^ (length ds - Suc j)"
proof -
  have "ds = take j ds @ ds ! j # drop (Suc j) ds" using assms by (rule id_take_nth_drop)
  then have "number B ds = number B (take j ds @ ds ! j # drop (Suc j) ds)" by simp
  moreover have "ds[j := d] = take j ds @ d # drop (Suc j) ds" using assms by (rule upd_conv_take_nth_drop)
  ultimately show ?thesis using assms by (simp add: number_append number_Cons algebra_simps)
qed

subsection \<open>The size of the buffer\<close>

lemma size_enough: "(256 :: nat) ^ n < 58 ^ (n * 138 div 100 + 1)"
proof -
  let ?s = "n * 138 div 100 + 1"
  have "(256 ^ n :: nat) ^ 8 = (256 ^ 8) ^ n" by (simp only: power_mult [symmetric] mult.commute)
  also have "\<dots> \<le> (58 ^ 11) ^ n" by (rule power_mono) simp_all
  also have "\<dots> = 58 ^ (11 * n)" by (simp only: power_mult)
  also have "\<dots> < 58 ^ (8 * ?s)" by (rule power_strict_increasing) simp_all
  also have "\<dots> = (58 ^ ?s) ^ 8" by (simp only: power_mult [symmetric] mult.commute)
  finally show ?thesis by (rule power_less_imp_less_base) simp
qed

subsection \<open>The loops\<close>

abbreviation digits_ok :: "u8 list \<Rightarrow> bool" where
  "digits_ok buf \<equiv> \<forall>d \<in> set buf. unat d < 58"

lemma digits_ok_update: "digits_ok buf \<Longrightarrow> unat d < 58 \<Longrightarrow> digits_ok (buf[j := d])"
  using set_update_subset_insert [of buf j d] by auto

lemma unat_mod58: "unat (word_of_nat (c mod 58) :: u8) = c mod 58"
proof -
  have "c mod 58 < 58" by simp
  then show ?thesis by (simp add: unsigned_of_nat take_bit_nat_eq_self)
qed

lemma carry_step:
  assumes "c = x + 256 * (d :: nat)"
  shows "(p * 256 + c div 58) * (58 * P) + (c mod 58 * P + S) = ((p * 58 + d) * 256 + x) * P + S"
proof -
  have "(p * 256 + q) * (58 * P) + r * P = (p * 256 * 58 + (58 * q + r)) * P" for q r :: nat
    by (simp add: algebra_simps)
  from this [of "c div 58" "c mod 58"] have
    "(p * 256 + c div 58) * (58 * P) + c mod 58 * P = (p * 256 * 58 + (x + 256 * d)) * P" by (simp add: assms)
  then show ?thesis by (simp add: algebra_simps)
qed

lemma enc_byte_rep:
  assumes "j < length buf" and "digits_ok buf" and "carry < 256" and "\<forall>k \<le> high. k \<le> j \<longrightarrow> buf ! k = 0"
    and "(number 58 (take (Suc j) buf) * 256 + carry) * 58 ^ (length buf - Suc j) + number 58 (drop (Suc j) buf) < 58 ^ length buf"
  shows "\<exists>h' buf'. enc_byte high carry j buf = (h', buf') \<and> length buf' = length buf \<and> digits_ok buf' \<and>
    number 58 buf' = (number 58 (take (Suc j) buf) * 256 + carry) * 58 ^ (length buf - Suc j) + number 58 (drop (Suc j) buf) \<and>
    h' < length buf \<and> ((\<forall>k \<le> h'. buf' ! k = 0) \<or> h' = 0)"
  using assms
proof (induction j arbitrary: carry buf)
  case 0
  let ?d = "buf ! 0" let ?c = "carry + 256 * unat (buf ! 0)"
  obtain ds where buf: "buf = ?d # ds" using "0.prems"(1) by (cases buf) auto
  have tk: "number 58 (take (Suc 0) buf) = unat ?d" "drop (Suc 0) buf = ds" "length buf = Suc (length ds)"
    by (subst buf, simp add: number_def)+
  show ?case
  proof (cases "0 > high \<or> carry \<noteq> 0")
    case False
    then have "?d = 0" using "0.prems"(4) by simp
    then show ?thesis using False "0.prems"(1,2) tk buf
      by (subst enc_byte.simps) (simp add: number_Cons [of 58 0 ds, simplified])
  next
    case True
    have "?c * 58 ^ length ds < 58 * 58 ^ length ds" using "0.prems"(5) by (simp add: tk algebra_simps)
    then have c: "?c < 58" by simp
    then have m: "unat (word_of_nat (?c mod 58) :: u8) = ?c" by (simp only: unat_mod58) simp
    have "enc_byte high carry 0 buf = (0, buf[0 := word_of_nat (?c mod 58)])" using True by (subst enc_byte.simps) (simp add: Let_def)
    moreover have "number 58 (buf[0 := word_of_nat (?c mod 58)]) = ?c * 58 ^ length ds + number 58 ds"
      by (subst buf) (simp add: number_Cons m del: mod_less)
    moreover have "digits_ok (buf[0 := word_of_nat (?c mod 58)])"
      by (rule digits_ok_update) (use "0.prems"(2) m c in simp_all)
    ultimately show ?thesis using "0.prems"(1) by (simp add: tk algebra_simps)
  qed
next
  case (Suc j)
  let ?d = "buf ! Suc j" let ?c = "carry + 256 * unat ?d" let ?suf = "drop (Suc (Suc j)) buf"
  have pre: "take (Suc (Suc j)) buf = take (Suc j) buf @ [?d]" using Suc.prems(1) by (simp add: take_Suc_conv_app_nth)
  show ?case
  proof (cases "Suc j > high \<or> carry \<noteq> 0")
    case False
    have "\<forall>d \<in> set (take (Suc (Suc j)) buf). d = 0"
      using False Suc.prems(4) by (auto simp: in_set_conv_nth)
    from replicate_length_same [OF this] have z: "number 58 (take (Suc (Suc j)) buf) = 0" by (metis number_zeros)
    have "number 58 buf = number 58 (take (Suc (Suc j)) buf @ ?suf)" by simp
    then have "number 58 buf = number 58 ?suf" unfolding number_append z by simp
    then show ?thesis using False Suc.prems z by (subst enc_byte.simps) auto
  next
    case True
    let ?w = "word_of_nat (?c mod 58) :: u8" let ?buf = "buf[Suc j := ?w]"
    have step: "enc_byte high carry (Suc j) buf = enc_byte high (?c div 58) j ?buf"
      using True by (subst enc_byte.simps) (simp add: Let_def)
    have d: "unat ?d < 58" using Suc.prems(1,2) by simp
    have tk: "take (Suc j) ?buf = take (Suc j) buf" by simp
    have dr: "drop (Suc j) ?buf = ?w # ?suf" using Suc.prems(1) by (simp add: Cons_nth_drop_Suc [symmetric])
    have len: "length buf - Suc j = Suc (length ?suf)" "length buf - Suc (Suc j) = length ?suf" using Suc.prems(1) by auto
    have total: "(number 58 (take (Suc j) ?buf) * 256 + ?c div 58) * 58 ^ (length ?buf - Suc j) + number 58 (drop (Suc j) ?buf) =
        (number 58 (take (Suc (Suc j)) buf) * 256 + carry) * 58 ^ (length buf - Suc (Suc j)) + number 58 ?suf"
      unfolding tk dr pre length_list_update len number_Cons number_simps unat_mod58 power_Suc by (rule carry_step) simp
    have "\<exists>h' buf'. enc_byte high (?c div 58) j ?buf = (h', buf') \<and> length buf' = length ?buf \<and> digits_ok buf' \<and>
      number 58 buf' = (number 58 (take (Suc j) ?buf) * 256 + ?c div 58) * 58 ^ (length ?buf - Suc j) + number 58 (drop (Suc j) ?buf) \<and>
      h' < length ?buf \<and> ((\<forall>k \<le> h'. buf' ! k = 0) \<or> h' = 0)"
    proof (rule Suc.IH)
      show "digits_ok ?buf" by (rule digits_ok_update) (use Suc.prems(2) unat_mod58 [of ?c] in simp_all)
      show "(number 58 (take (Suc j) ?buf) * 256 + ?c div 58) * 58 ^ (length ?buf - Suc j) + number 58 (drop (Suc j) ?buf) < 58 ^ length ?buf"
        unfolding total using Suc.prems(5) by simp
      show "j < length ?buf" using Suc.prems(1) by simp
      have "?c < 256 * 58" using Suc.prems(3) d by linarith
      then show "?c div 58 < 256" by (rule less_mult_imp_div_less)
      show "\<forall>k \<le> high. k \<le> j \<longrightarrow> ?buf ! k = 0" using Suc.prems(4) by simp
    qed
    then show ?thesis unfolding step total by simp
  qed
qed

lemma number_leading:
  assumes "number 58 buf < 58 ^ (length buf - 1)" and "buf \<noteq> []"
  shows "buf ! 0 = 0"
proof (cases buf)
  case (Cons d ds)
  with assms(1) have "unat d * 58 ^ length ds + number 58 ds < 1 * 58 ^ length ds" by (simp add: number_Cons)
  then have "unat d * 58 ^ length ds < 1 * 58 ^ length ds" by linarith
  then have "unat d = 0" by (simp only: mult_less_cancel2) simp
  then show ?thesis using Cons by (simp add: unat_eq_zero)
qed (use assms in simp)

lemma enc_bytes_rep:
  assumes "length buf = n" and "0 < n" and "digits_ok buf" and "bs \<noteq> [] \<Longrightarrow> \<forall>k \<le> high. buf ! k = 0"
    and "(number 58 buf + 1) * 256 ^ length bs \<le> 58 ^ n"
  shows "length (enc_bytes n bs high buf) = n \<and> digits_ok (enc_bytes n bs high buf) \<and>
    number 58 (enc_bytes n bs high buf) = number 58 buf * 256 ^ length bs + number 256 bs"
  using assms
proof (induction bs arbitrary: high buf)
  case (Cons b bs)
  let ?N = "number 58 buf" let ?N' = "?N * 256 + unat b"
  have b: "unat b + 1 \<le> 256" using unsigned_less [of b, where ?'a = nat] by simp
  then have N': "(?N' + 1) * 256 ^ length bs \<le> 58 ^ n"
  proof -
    have "?N' + 1 \<le> (?N + 1) * 256" using b by (simp add: algebra_simps)
    then have "(?N' + 1) * 256 ^ length bs \<le> ((?N + 1) * 256) * 256 ^ length bs" by (rule mult_le_mono1)
    also have "\<dots> = (?N + 1) * 256 ^ length (b # bs)" by (simp only: length_Cons power_Suc mult.assoc)
    also have "\<dots> \<le> 58 ^ n" by (rule Cons.prems(5))
    finally show ?thesis .
  qed
  then have lt: "?N' < 58 ^ n"
  proof -
    have "(?N' + 1) * 1 \<le> (?N' + 1) * 256 ^ length bs" by (rule mult_le_mono2) simp
    from le_trans [OF this N'] show ?thesis by simp
  qed
  have all: "take (Suc (n - 1)) buf = buf" "drop (Suc (n - 1)) buf = []" "length buf - Suc (n - 1) = 0"
    using Cons.prems(1,2) by simp_all
  have "\<exists>h' buf'. enc_byte high (unat b) (n - 1) buf = (h', buf') \<and> length buf' = length buf \<and> digits_ok buf' \<and>
      number 58 buf' = (number 58 (take (Suc (n - 1)) buf) * 256 + unat b) * 58 ^ (length buf - Suc (n - 1)) +
        number 58 (drop (Suc (n - 1)) buf) \<and>
      h' < length buf \<and> ((\<forall>k \<le> h'. buf' ! k = 0) \<or> h' = 0)"
    by (rule enc_byte_rep) (use Cons.prems b lt in \<open>simp_all only: all, simp_all\<close>)
  then obtain h' buf' where e: "enc_byte high (unat b) (n - 1) buf = (h', buf')" "length buf' = n" "digits_ok buf'"
    "number 58 buf' = ?N'" "(\<forall>k \<le> h'. buf' ! k = 0) \<or> h' = 0"
    unfolding all using Cons.prems(1) by auto
  have zeros: "\<forall>k \<le> h'. buf' ! k = 0" if ne: "bs \<noteq> []"
  proof -
    obtain m where m: "length bs = Suc m" using ne by (cases bs) auto
    obtain l where l: "n = Suc l" using Cons.prems(2) by (cases n) auto
    have "(?N' + 1) * 58 \<le> (?N' + 1) * 256 ^ length bs" 
    proof (rule mult_le_mono2)
      have "(1 :: nat) \<le> 256 ^ m" by simp
      then show "(58 :: nat) \<le> 256 ^ length bs" unfolding m power_Suc by linarith
    qed
    then have "(?N' + 1) * 58 \<le> 58 ^ l * 58" using N' l by (simp add: mult.commute)
    then have "number 58 buf' < 58 ^ (length buf' - 1)" using e(2,4) l by simp
    then have "buf' ! 0 = 0" using e(2) Cons.prems(2) by (intro number_leading) auto
    then show ?thesis using e(5) by auto
  qed
  have "(number 58 buf' + 1) * 256 ^ length bs \<le> 58 ^ n" using N' e(4) by simp
  from Cons.IH [OF e(2) Cons.prems(2) e(3) zeros this] e(1,4) show ?case
    by (simp add: number_Cons algebra_simps)
qed simp

lemma enc_all:
  assumes "256 ^ length bs < (58 :: nat) ^ n" and "0 < n"
  shows "length (enc_bytes n bs (n - 1) (replicate n 0)) = n" and "digits_ok (enc_bytes n bs (n - 1) (replicate n 0))"
    and "number 58 (enc_bytes n bs (n - 1) (replicate n 0)) = number 256 bs"
proof -
  have "(number 58 (replicate n 0) + 1) * 256 ^ length bs \<le> 58 ^ n" using assms(1) by simp
  from enc_bytes_rep [OF length_replicate assms(2) _ _ this, of "n - 1"] assms(2)
  show "length (enc_bytes n bs (n - 1) (replicate n 0)) = n" "digits_ok (enc_bytes n bs (n - 1) (replicate n 0))"
    "number 58 (enc_bytes n bs (n - 1) (replicate n 0)) = number 256 bs" by auto
qed

text \<open>The digits of a number are the only ones without zeros in front.\<close>

lemma digits58_number:
  "digits_ok ds \<Longrightarrow> ds = [] \<or> hd ds \<noteq> 0 \<Longrightarrow> digits58 (number 58 ds) = map unat ds"
proof (induction ds rule: rev_induct)
  case (snoc d ds)
  have d: "unat d < 58" using snoc.prems(1) by simp
  show ?case
  proof (cases ds)
    case Nil
    then have "unat d \<noteq> 0" using snoc.prems(2) by (simp add: unat_eq_zero)
    then show ?thesis using d Nil by (simp add: digits58.simps [of "unat d"] digits58.simps [of 0])
  next
    case Cons
    then have ih: "digits58 (number 58 ds) = map unat ds" using snoc by simp
    have "number 58 ds \<noteq> 0"
    proof
      assume "number 58 ds = 0"
      then have "map unat ds = []" using ih by (simp add: digits58.simps [of 0])
      then show False using Cons by simp
    qed
    then show ?thesis using ih d by (subst digits58.simps) simp
  qed
qed (simp add: digits58.simps)

lemma number_dropWhile: "number B (dropWhile (\<lambda>d. d = 0) ds) = number B ds"
proof -
  have "takeWhile (\<lambda>d. d = 0) ds = replicate (length (takeWhile (\<lambda>d. d = 0) ds)) 0"
    by (rule replicate_length_same [symmetric]) (auto dest: set_takeWhileD)
  then have "number B (takeWhile (\<lambda>d. d = 0) ds) = 0" by (metis number_zeros)
  then show ?thesis using number_append [of B "takeWhile (\<lambda>d. d = 0) ds" "dropWhile (\<lambda>d. d = 0) ds"] by simp
qed

lemma digits58_dropWhile:
  assumes "digits_ok ds"
  shows "map unat (dropWhile (\<lambda>d. d = 0) ds) = digits58 (number 58 ds)"
proof -
  have "digits_ok (dropWhile (\<lambda>d. d = 0) ds)" using assms by (auto dest: set_dropWhileD)
  moreover have "dropWhile (\<lambda>d. d = 0) ds = [] \<or> hd (dropWhile (\<lambda>d. d = 0) ds) \<noteq> 0" using hd_dropWhile by blast
  ultimately show ?thesis using digits58_number by (metis number_dropWhile)
qed

section \<open>Properties\<close>

lemma b58enc_spec:
  "b58enc b58sz bin =
     (let n = length (base58 bin) in if b58sz \<le> n then (False, n + 1, []) else (True, n + 1, base58 bin))"
proof -
  let ?z = "length (takeWhile (\<lambda>b. b = 0) bin)" let ?bs = "drop ?z bin"
  let ?n = "(length bin - ?z) * 138 div 100 + 1" let ?buf = "enc_bytes ?n ?bs (?n - 1) (replicate ?n 0)"
  let ?j = "length (takeWhile (\<lambda>d. d = 0) ?buf)"
  have bs: "number 256 ?bs = number 256 bin" by (simp add: dropWhile_eq_drop [symmetric] number_dropWhile)
  have "256 ^ length ?bs < (58 :: nat) ^ ?n" using size_enough [of "length bin - ?z"] by (simp only: length_drop)
  from enc_all [OF this] bs have buf: "length ?buf = ?n" "digits_ok ?buf" "number 58 ?buf = number 256 bin" by simp_all
  have d: "map unat (drop ?j ?buf) = digits58 (number 256 bin)"
    using digits58_dropWhile [OF buf(2)] buf(3) by (simp add: dropWhile_eq_drop)
  then have t: "map b58_digit (drop ?j ?buf) = map ((!) b58digits_ordered) (digits58 (number 256 bin))"
    by (simp add: b58_digit_def comp_def flip: d)
  have j: "?j \<le> ?n" using length_takeWhile_le [of _ ?buf] buf(1) by simp
  have "length (digits58 (number 256 bin)) = ?n - ?j" using arg_cong [OF d, of length] buf(1) by simp
  then have "length (base58 bin) = ?z + ?n - ?j" using j by (simp add: base58_def)
  then show ?thesis unfolding b58enc_def Let_def using t by (simp add: base58_def)
qed

text \<open>C0: \<open>b58enc\<close> is the base 58 encoding: for all bytes the text is a 1 for every zero byte in front followed by
  the digits of the number the bytes stand for, the buffer of digits is always long enough (no digit and no
  carry is lost), and the function fails, with the needed size, exactly if the text with its zero at the end
  does not fit the caller's buffer.\<close>

theorem b58enc_eq:
  "b58enc b58sz bin =
     (let n = length (base58 bin) in if b58sz \<le> n then (False, n + 1, []) else (True, n + 1, base58 bin))"
  by (rule b58enc_spec)

text \<open>\<open>convertBinToBase58\<close> gives \<open>b58enc\<close> a buffer without room for the zero at the end of the longest texts.\<close>

lemma convertBinToBase58_eq:
  "convertBinToBase58 bin = (if length (base58 bin) \<le> length bin * 138 div 100 then base58 bin else [])"
  by (simp add: convertBinToBase58_def b58enc_spec Let_def)

lemma length_digits58: "n < 58 ^ k \<Longrightarrow> length (digits58 n) \<le> k"
proof (induction k arbitrary: n)
  case (Suc k)
  then have "n div 58 < 58 ^ k" by (simp add: div_less_iff_less_mult mult.commute)
  then show ?case using Suc.IH [of "n div 58"] by (subst digits58.simps) simp
qed (simp add: digits58.simps)

lemma base58_length:
  assumes "256 ^ (length bin - length (takeWhile (\<lambda>b. b = 0) bin)) \<le> (58 :: nat) ^ k"
  shows "length (base58 bin) \<le> length (takeWhile (\<lambda>b. b = 0) bin) + k"
proof -
  let ?bs = "dropWhile (\<lambda>b. b = 0) bin"
  have "length ?bs = length bin - length (takeWhile (\<lambda>b. b = 0) bin)" by (simp add: dropWhile_eq_drop)
  moreover have "\<forall>d \<in> set ?bs. unat d < 256" using unat_bounds(4) by simp
  ultimately have "number 256 bin < 58 ^ k"
    using number_bound [of ?bs 256] assms by (simp add: number_dropWhile)
  then show ?thesis using length_digits58 by (simp add: base58_def)
qed

text \<open>C0: For a key of 32 bytes the buffer of \<open>convertBinToBase58\<close>, 138 characters for 100 bytes and one more, is
  always long enough: the answer is the base 58 text, whatever the bytes are, with at most 44 characters.\<close>

theorem convertBinToBase58_key:
  assumes "length bin = 32"
  shows "convertBinToBase58 bin = base58 bin \<and> length (base58 bin) \<le> 44"
proof -
  let ?z = "length (takeWhile (\<lambda>b. b = 0) bin)"
  have z: "?z \<le> 32" using length_takeWhile_le [of _ bin] assms by simp
  have "length (base58 bin) \<le> 44"
  proof (cases "?z = 0")
    case True
    have "(256 :: nat) ^ 32 \<le> 58 ^ 44" by simp
    then show ?thesis using base58_length [of bin 44] assms True by simp
  next
    case False
    have "256 ^ (length bin - ?z) \<le> (58 :: nat) ^ ((length bin - ?z) * 138 div 100 + 1)"
      by (rule less_imp_le [OF size_enough])
    from base58_length [OF this] have "length (base58 bin) \<le> ?z + ((32 - ?z) * 138 div 100 + 1)" by (simp add: assms)
    also have "\<dots> \<le> 44" using False z by (cases "?z") linarith+
    finally show ?thesis .
  qed
  then show ?thesis using assms by (simp add: convertBinToBase58_eq)
qed

lemma convertBinToBase58_key_witness:
  "convertBinToBase58 (replicate 31 0 @ [58]) = replicate 31 (CHR ''1'') @ ''21''"
proof -
  have "takeWhile (\<lambda>b. b = 0) (replicate n 0 @ [58 :: u8]) = replicate n 0" for n by (induction n) simp_all
  moreover have "digits58 58 = [1, 0]" by (simp add: digits58.simps)
  ultimately have "base58 (replicate 31 0 @ [58]) = replicate 31 (CHR ''1'') @ ''21''"
    by (simp add: base58_def number_append b58digits_ordered_def)
  then show ?thesis using convertBinToBase58_key [of "replicate 31 0 @ [58]"] by simp
qed

text \<open>Short values do not fit: every single byte from 58 on becomes the empty text, which is the answer for an error.\<close>

theorem convertBinToBase58_short:
  "58 \<le> unat b \<Longrightarrow> convertBinToBase58 [b] = []"
proof -
  assume b: "58 \<le> unat b"
  then have "takeWhile (\<lambda>b. b = 0) [b] = []" by auto
  moreover have "length (digits58 (unat b)) = 2"
  proof -
    have q: "unat b div 58 \<noteq> 0" "unat b div 58 div 58 = 0" using b unat_bounds(4) [of b] by (simp_all add: div_eq_0_iff)
    show ?thesis using b q by (simp add: digits58.simps [of "unat b"] digits58.simps [of "unat b div 58"] digits58.simps [of 0])
  qed
  ultimately show ?thesis by (simp add: convertBinToBase58_eq base58_def)
qed

lemma clear_outi_short: "0 < n \<Longrightarrow> allocated < 4 * (length outi + n) \<Longrightarrow> clear_outi allocated n outi = Inl UndefinedBehaviour"
proof (induction n arbitrary: outi)
  case (Suc n)
  then show ?case using Suc.IH [of "outi @ [0]"] by (cases n) auto
qed simp

lemma clear_outi_words: "0 < n \<Longrightarrow> clear_outi n n [] = Inl UndefinedBehaviour"
  by (rule clear_outi_short) simp_all

text \<open>The decoder of base 58 texts never works: \<open>b58tobin\<close> allocates as many bytes as it uses words of 32 bits,
  so that already clearing its buffer writes behind the allocated memory. Only the empty text, which needs no
  buffer, has an answer.\<close>

theorem convertBase58ToBin_undefined:
  "convertBase58ToBin base58String = (if base58String = [] then Inr [] else Inl UndefinedBehaviour)"
proof (cases base58String)
  case Nil
  then show ?thesis by (simp add: convertBase58ToBin_def b58tobin_def bindR_def)
next
  case (Cons c cs)
  let ?outisz = "((3 * length base58String + 3) div 4 + 4 - 1) div 4"
  have "4 \<le> 3 * length base58String + 3" using Cons by simp
  from div_le_mono [OF this, of 4] have "4 \<le> (3 * length base58String + 3) div 4 + 4 - 1" by simp
  from div_le_mono [OF this, of 4] have "1 \<le> ?outisz" by (simp only: div_self)
  then have "0 < ?outisz" by (rule less_le_trans [OF zero_less_one])
  then have "clear_outi ?outisz ?outisz [] = Inl UndefinedBehaviour" by (rule clear_outi_words)
  then show ?thesis using Cons by (simp add: convertBase58ToBin_def b58tobin_def bindR_def Let_def)
qed

end
