(* ===== verification/Grpc.thy ===== *)
theory Grpc
  imports Subscription Timer
begin

text \<open>
  The channels to the servers of the network: \<open>client::hiero::MemoryBlock\<close>, \<open>CertificateVerifier\<close>,
  \<open>ConsensusClient\<close>, \<open>MirrorNetworkEndpoints\<close>, the constructor of \<open>MirrorClient\<close>, and
  \<open>SubscriptionReactor\<close>, all in \<open>src/client/hiero\<close>. A channel is known by what it was created with; gRPC calls
  the verifier and the reactor.
\<close>

section \<open>Buffers\<close>

text \<open>A buffer of gRPC is a list of slices; a default constructed one has none.\<close>

type_synonym ByteBuffer = "bytes list"

definition MemoryBlock_fromGrpc :: "ByteBuffer \<Rightarrow> bytes" where
  "MemoryBlock_fromGrpc byteBufferRef = concat byteBufferRef"

definition MemoryBlock_createGrpcBuffer :: "bytes option \<Rightarrow> ByteBuffer" where
  "MemoryBlock_createGrpcBuffer buffer =
     (case buffer of None \<Rightarrow> [] | Some b \<Rightarrow> if length b = 0 then [] else [b])"

lemma MemoryBlock_roundtrip: "MemoryBlock_fromGrpc (MemoryBlock_createGrpcBuffer (Some b)) = b"
  by (simp add: MemoryBlock_fromGrpc_def MemoryBlock_createGrpcBuffer_def)

section \<open>The certificate of a node\<close>

datatype verify_status = VERIFY_OK | UNAUTHENTICATED

text \<open>\<open>Verify\<close> answers at once; \<open>sha384\<close> is that of OpenSSL. A missing hash is a null pointer.\<close>

definition CertificateVerifier_Verify :: "(bytes \<Rightarrow> bytes) \<Rightarrow> bytes option \<Rightarrow> bytes \<Rightarrow> verify_status result" where
  "CertificateVerifier_Verify sha384 expectedHash certChain =
     (if certChain = [] then Inr UNAUTHENTICATED
      else case expectedHash of
        None \<Rightarrow> Inl UndefinedBehaviour
      | Some expected \<Rightarrow> if expected = sha384 certChain then Inr VERIFY_OK else Inr UNAUTHENTICATED)"

section \<open>ConsensusClient\<close>

datatype ChannelCredentials = InsecureCredentials | TlsVerified "bytes option" | TlsDefault

record Channel =
  ch_target :: string
  ch_credentials :: ChannelCredentials
  ch_arguments :: "(string \<times> int) list"

definition channel_arguments :: "(string \<times> int) list" where
  "channel_arguments = [(''grpc.enable_retries'', 0), (''grpc.keepalive_timeout_ms'', 10000), (''grpc.keepalive_permit_without_calls'', 1)]"

text \<open>\<open>tls\<close> says whether gRPC has TLS, \<open>create\<close> whether it creates a channel.\<close>

definition ConsensusClient_getTlsChannelCredentials :: "bool \<Rightarrow> bytes option \<Rightarrow> ChannelCredentials result" where
  "ConsensusClient_getTlsChannelCredentials tls certificateHash =
     (if tls then Inr (TlsVerified certificateHash) else Inl (Gradido SSLError))"

definition ConsensusClient_createForTarget ::
    "bool \<Rightarrow> (Channel \<Rightarrow> bool) \<Rightarrow> string \<Rightarrow> bool \<Rightarrow> bytes option \<Rightarrow> Channel result" where
  "ConsensusClient_createForTarget tls create targetUrl isTransportSecurity certificateHash =
     bindR (if isTransportSecurity then ConsensusClient_getTlsChannelCredentials tls certificateHash else Inr InsecureCredentials)
       (\<lambda>credentials.
          let channel = \<lparr>ch_target = targetUrl, ch_credentials = credentials, ch_arguments = channel_arguments\<rparr> in
          if create channel then Inr channel else Inl (Gradido ChannelError))"

text \<open>What a channel makes of the certificates of a server; the default check is gRPC's.\<close>

definition channel_accepts :: "(bytes \<Rightarrow> bytes) \<Rightarrow> (string \<Rightarrow> bytes \<Rightarrow> bool) \<Rightarrow> Channel \<Rightarrow> bytes \<Rightarrow> bool result" where
  "channel_accepts sha384 standard channel certChain =
     (case ch_credentials channel of
        InsecureCredentials \<Rightarrow> Inr True
      | TlsVerified h \<Rightarrow> bindR (CertificateVerifier_Verify sha384 h certChain) (\<lambda>st. Inr (st = VERIFY_OK))
      | TlsDefault \<Rightarrow> Inr (standard (ch_target channel) certChain))"

text \<open>A call of one request: the name of the method and the bytes that are sent.\<close>

record unary_call =
  uc_method :: string
  uc_request :: ByteBuffer

definition unaryCall ::
    "('t, 'i, 'a, 'p, 'm) hiero_lib \<Rightarrow> ('m QueryMessage \<Rightarrow> bytes option) \<Rightarrow> ('i, 'p) Query \<Rightarrow> bool \<Rightarrow> string \<Rightarrow> unary_call result" where
  "unaryCall L encode q responseListener callName =
     bindR (protopuf_serialize encode (\<lambda>q. Inr (Query_getMessage L q)) q) (\<lambda>rawRequest.
       if \<not> responseListener then Inl (Gradido NullPointer)
       else Inr \<lparr>uc_method = callName, uc_request = MemoryBlock_createGrpcBuffer (Some rawRequest)\<rparr>)"

definition ConsensusClient_getTransactionReceipts where
  "ConsensusClient_getTransactionReceipts L encode transactionId responseListener =
     unaryCall L encode
       \<lparr>mTransactionGetReceiptQuery = Some \<lparr>mHeader_Receipt = \<lparr>mResponseType = ANSWER_ONLY\<rparr>, mTransactionId = transactionId,
          mIncludeDuplicates = True, mIncludeChildReceipts = False\<rparr>, mConsensusGetTopicInfoQuery = None\<rparr>
       responseListener ''/proto.CryptoService/getTransactionReceipts''"

definition ConsensusClient_getTopicInfo where
  "ConsensusClient_getTopicInfo L encode topicId responseListener =
     unaryCall L encode
       \<lparr>mTransactionGetReceiptQuery = None,
        mConsensusGetTopicInfoQuery = Some \<lparr>mHeader_Info = \<lparr>mResponseType = ANSWER_ONLY\<rparr>, mTopicId_Info = topicId\<rparr>\<rparr>
       responseListener ''/proto.ConsensusService/getTopicInfo''"

section \<open>MirrorClient\<close>

definition MirrorNetworkEndpoints_getByEndpointName :: "string \<Rightarrow> string option" where
  "MirrorNetworkEndpoints_getByEndpointName endpointName =
     (if endpointName = ''testnet'' then Some ''testnet.mirrornode.hedera.com''
      else if endpointName = ''previewnet'' then Some ''previewnet.mirrornode.hedera.com''
      else if endpointName = ''mainnet'' then Some ''mainnet-public.mirrornode.hedera.com''
      else None)"

record MirrorClient =
  mNetworkType :: string
  mChannel :: Channel

text \<open>The constructor makes a \<open>std::string\<close> of the host, a null pointer for every other name of a network.\<close>

definition MirrorClient_new :: "string \<Rightarrow> MirrorClient result" where
  "MirrorClient_new networkType =
     (case MirrorNetworkEndpoints_getByEndpointName networkType of
        None \<Rightarrow> Inl UndefinedBehaviour
      | Some host \<Rightarrow> Inr \<lparr>mNetworkType = networkType,
          mChannel = \<lparr>ch_target = host, ch_credentials = TlsDefault, ch_arguments = channel_arguments\<rparr>\<rparr>)"

section \<open>SubscriptionReactor\<close>

text \<open>
  The reactor of a stream: its observer, its buffer, the number of reads it has started and whether it has deleted
  itself. gRPC fills the buffer before it calls \<open>OnReadDone\<close>.
\<close>

record 's SubscriptionReactor =
  sr_observer :: 's
  sr_buffer :: ByteBuffer
  sr_reads :: nat
  sr_deleted :: bool

record ('msg, 's) observer_ops =
  ob_decode :: "bytes \<Rightarrow> 'msg option"
  ob_arrived :: "'msg \<Rightarrow> 's \<Rightarrow> unit result \<times> 's"
  ob_closed :: "'s \<Rightarrow> 's"

definition SubscriptionReactor_new :: "'s option \<Rightarrow> bytes option \<Rightarrow> 's SubscriptionReactor result" where
  "SubscriptionReactor_new messageObserver rawRequest =
     (case messageObserver of
        None \<Rightarrow> Inl (Gradido NullPointer)
      | Some s \<Rightarrow> Inr \<lparr>sr_observer = s, sr_buffer = MemoryBlock_createGrpcBuffer rawRequest, sr_reads = 0, sr_deleted = False\<rparr>)"

definition StartRead :: "'s SubscriptionReactor \<Rightarrow> 's SubscriptionReactor" where
  "StartRead r = r\<lparr>sr_reads := sr_reads r + 1\<rparr>"

definition SubscriptionReactor_callFromTimer :: "'s SubscriptionReactor \<Rightarrow> TimerReturn \<times> 's SubscriptionReactor" where
  "SubscriptionReactor_callFromTimer r = (REMOVE_ME, StartRead r)"

definition SubscriptionReactor_OnWriteDone :: "('msg, 's) observer_ops \<Rightarrow> bool \<Rightarrow> 's SubscriptionReactor \<Rightarrow> 's SubscriptionReactor" where
  "SubscriptionReactor_OnWriteDone B ok r =
     StartRead (if \<not> ok then r\<lparr>sr_observer := ob_closed B (sr_observer r)\<rparr> else r)"

definition SubscriptionReactor_OnReadDone ::
    "('msg, 's) observer_ops \<Rightarrow> bool \<Rightarrow> 's SubscriptionReactor \<Rightarrow> unit result \<times> 's SubscriptionReactor" where
  "SubscriptionReactor_OnReadDone B ok r =
     (if \<not> ok then (Inr (), r)
      else case ob_decode B (MemoryBlock_fromGrpc (sr_buffer r)) of
        None \<Rightarrow> (Inr (), StartRead r)
      | Some message \<Rightarrow>
          (case ob_arrived B message (sr_observer r) of
             (Inl e, s) \<Rightarrow> (Inl e, r\<lparr>sr_observer := s\<rparr>)
           | (Inr _, s) \<Rightarrow> (Inr (), StartRead (r\<lparr>sr_observer := s\<rparr>))))"

definition SubscriptionReactor_OnDone :: "('msg, 's) observer_ops \<Rightarrow> 's SubscriptionReactor \<Rightarrow> 's SubscriptionReactor" where
  "SubscriptionReactor_OnDone B r = r\<lparr>sr_observer := ob_closed B (sr_observer r), sr_deleted := True\<rparr>"

text \<open>What the observer gets of a stream: the messages that can be decoded, in the order they were read.\<close>

fun stream_reads :: "('msg, 's) observer_ops \<Rightarrow> ByteBuffer list \<Rightarrow> 's SubscriptionReactor \<Rightarrow> unit result \<times> 's SubscriptionReactor" where
  "stream_reads B [] r = (Inr (), r)"
| "stream_reads B (b # bs) r =
     (case SubscriptionReactor_OnReadDone B True (r\<lparr>sr_buffer := b\<rparr>) of
        (Inl e, r') \<Rightarrow> (Inl e, r')
      | (Inr _, r') \<Rightarrow> stream_reads B bs r')"

lemma SubscriptionReactor_delivers:
  assumes "\<And>m s. fst (ob_arrived B m s) = Inr ()"
  shows "\<exists>r'. stream_reads B bs r = (Inr (), r') \<and> sr_reads r' = sr_reads r + length bs \<and>
    sr_observer r' = fold (\<lambda>m s. snd (ob_arrived B m s)) (List.map_filter (ob_decode B \<circ> concat) bs) (sr_observer r)"
proof (induction bs arbitrary: r)
  case (Cons b bs)
  show ?case
  proof (cases "ob_decode B (concat b)")
    case None
    then show ?thesis using Cons.IH [of "StartRead (r\<lparr>sr_buffer := b\<rparr>)"]
      by (auto simp: SubscriptionReactor_OnReadDone_def MemoryBlock_fromGrpc_def StartRead_def map_filter_simps)
  next
    case (Some m)
    obtain s where s: "ob_arrived B m (sr_observer r) = (Inr (), s)"
      using assms [of m "sr_observer r"] by (cases "ob_arrived B m (sr_observer r)") auto
    then show ?thesis using Some Cons.IH [of "StartRead (r\<lparr>sr_buffer := b, sr_observer := s\<rparr>)"]
      by (auto simp: SubscriptionReactor_OnReadDone_def MemoryBlock_fromGrpc_def StartRead_def map_filter_simps)
  qed
qed (simp add: map_filter_simps)

text \<open>After a write that failed the observer is told twice that the connection is closed.\<close>

lemma SubscriptionReactor_closed_twice:
  "sr_observer (SubscriptionReactor_OnDone B (SubscriptionReactor_OnWriteDone B False r)) = ob_closed B (ob_closed B (sr_observer r))"
  by (simp add: SubscriptionReactor_OnDone_def SubscriptionReactor_OnWriteDone_def StartRead_def)

section \<open>Which servers a channel accepts\<close>

lemma createForTarget_accepts:
  assumes "ConsensusClient_createForTarget tls create url secure (Some h) = Inr channel"
  shows "ch_target channel = url \<and>
    channel_accepts sha384 standard channel certChain = Inr (secure \<longrightarrow> certChain \<noteq> [] \<and> h = sha384 certChain)"
  using assms
  by (auto simp: ConsensusClient_createForTarget_def ConsensusClient_getTlsChannelCredentials_def bindR_def Let_def channel_accepts_def
      CertificateVerifier_Verify_def split: if_splits)

end
