(* ===== verification/Threads.thy ===== *)
theory Threads
  imports Tasks
begin

text \<open>
  \<open>task::Thread\<close> (\<open>src/task/Thread.cpp\<close>): the loop of a thread and its end by \<open>exit\<close>, as a machine of
  interleaved steps; the setters of \<open>task::Task\<close> and the constructor of \<open>task::CPUTask\<close>.
\<close>

section \<open>Setters of a task\<close>

definition Task_setParentTaskPtrInArray :: "nat option \<Rightarrow> nat \<Rightarrow> Task \<Rightarrow> unit result \<times> Task" where
  "Task_setParentTaskPtrInArray t index s =
     (if index < length (mParentTaskPtrArray s) then (Inr (), s\<lparr>mParentTaskPtrArray := (mParentTaskPtrArray s)[index := t]\<rparr>)
      else (Inl AssertFailed, s))"

definition Task_setFinishCommand :: "bool \<Rightarrow> Task \<Rightarrow> Task" where
  "Task_setFinishCommand command s = s\<lparr>mFinishCommand := command\<rparr>"

text \<open>The task with the number of tasks of the node, \<open>g_NumberExistingTasks\<close>.\<close>

definition CPUTask_new :: "bool \<Rightarrow> nat \<Rightarrow> nat \<Rightarrow> (Task \<times> nat) result" where
  "CPUTask_new scheduler taskDependenceCount existing =
     (if scheduler then Inr (Task_new (replicate taskDependenceCount None) False, existing + 1) else Inl AssertFailed)"

definition CPUTask_delete :: "nat \<Rightarrow> nat" where
  "CPUTask_delete existing = existing - 1"

section \<open>The loop of a thread\<close>

text \<open>
  Where \<open>run\<close> is: before the test of \<open>mExitCalled\<close>, before it locks the mutex, in \<open>wait\<close>, behind it, in
  \<open>ThreadFunction\<close>, or returned. It has the mutex from the return of \<open>wait\<close> to the end of the round.
\<close>

datatype run_phase = Run_Test | Run_Lock | Run_Wait | Run_Woken | Run_Function | Run_End

text \<open>Where \<open>exit\<close> is: not called, behind its critical section, behind \<open>join\<close>.\<close>

datatype exit_phase = Exit_Start | Exit_Posted | Exit_Joined

record Thread =
  mExitCalled_Thread :: bool
  run_phase :: run_phase
  exit_phase :: exit_phase
  terminated :: bool

definition Thread_init :: Thread where
  "Thread_init = \<lparr>mExitCalled_Thread = False, run_phase = Run_Test, exit_phase = Exit_Start, terminated = False\<rparr>"

text \<open>\<open>notify_one\<close> wakes the thread if it waits, and is lost otherwise.\<close>

definition Thread_condSignal :: "Thread \<Rightarrow> Thread" where
  "Thread_condSignal s = (if run_phase s = Run_Wait then s\<lparr>run_phase := Run_Woken\<rparr> else s)"

text \<open>
  The steps of the thread itself, with the result of \<open>ThreadFunction\<close> (\<open>None\<close> is an exception, which terminates the
  application), and the two steps of \<open>exit\<close>.
\<close>

inductive Thread_step :: "Thread \<Rightarrow> Thread \<Rightarrow> bool" where
  test: "run_phase s = Run_Test \<Longrightarrow>
    Thread_step s (s\<lparr>run_phase := if mExitCalled_Thread s then Run_End else Run_Lock\<rparr>)"
| lock: "run_phase s = Run_Lock \<Longrightarrow> Thread_step s (s\<lparr>run_phase := Run_Wait\<rparr>)"
| woken: "run_phase s = Run_Woken \<Longrightarrow>
    Thread_step s (s\<lparr>run_phase := if mExitCalled_Thread s then Run_End else Run_Function\<rparr>)"
| returned: "run_phase s = Run_Function \<Longrightarrow> Thread_step s (s\<lparr>run_phase := if ret \<noteq> (0 :: int) then Run_End else Run_Test\<rparr>)"
| threw: "run_phase s = Run_Function \<Longrightarrow> Thread_step s (s\<lparr>run_phase := Run_End, terminated := True\<rparr>)"
| join: "exit_phase s = Exit_Posted \<Longrightarrow> run_phase s = Run_End \<Longrightarrow> Thread_step s (s\<lparr>exit_phase := Exit_Joined\<rparr>)"

definition Thread_exit :: "Thread \<Rightarrow> Thread option" where
  "Thread_exit s =
     (if run_phase s \<in> {Run_Woken, Run_Function} then None
      else Some ((Thread_condSignal (s\<lparr>mExitCalled_Thread := True\<rparr>))\<lparr>exit_phase := Exit_Posted\<rparr>))"

inductive Thread_reachable :: "Thread \<Rightarrow> bool" where
  start: "Thread_reachable Thread_init"
| step: "Thread_reachable s \<Longrightarrow> Thread_step s s' \<Longrightarrow> Thread_reachable s'"
| signal: "Thread_reachable s \<Longrightarrow> Thread_reachable (Thread_condSignal s)"
| exit: "Thread_reachable s \<Longrightarrow> exit_phase s = Exit_Start \<Longrightarrow> Thread_exit s = Some s' \<Longrightarrow> Thread_reachable s'"

inductive_cases Thread_stepE: "Thread_step s s'"

text \<open>Only \<open>exit\<close> sets the flag.\<close>

lemma Thread_flag: "Thread_reachable s \<Longrightarrow> mExitCalled_Thread s = (exit_phase s \<noteq> Exit_Start)"
proof (induction rule: Thread_reachable.induct)
  case (step s s')
  from step.hyps(2) step.IH show ?case by (cases rule: Thread_step.cases) auto
qed (auto simp: Thread_init_def Thread_condSignal_def Thread_exit_def split: if_splits)

section \<open>The end of a thread\<close>

text \<open>How far a thread is from its end once \<open>exit\<close> was called.\<close>

definition steps_left :: "Thread \<Rightarrow> nat" where
  "steps_left s = (case exit_phase s of Exit_Joined \<Rightarrow> 0 | _ \<Rightarrow>
     (case run_phase s of Run_End \<Rightarrow> 1 | Run_Test \<Rightarrow> 2 | Run_Woken \<Rightarrow> 2 | Run_Function \<Rightarrow> 3 | Run_Wait \<Rightarrow> 4 | Run_Lock \<Rightarrow> 5))"

definition ending :: "Thread \<Rightarrow> bool" where
  "ending s = (mExitCalled_Thread s \<and> exit_phase s \<noteq> Exit_Start \<and> run_phase s \<in> {Run_Test, Run_Woken, Run_End} \<and>
     (exit_phase s = Exit_Joined \<longrightarrow> run_phase s = Run_End))"

lemma ending_step: "ending s \<Longrightarrow> Thread_step s s' \<Longrightarrow> ending s' \<and> steps_left s' < steps_left s"
  by (erule Thread_stepE) (auto simp: ending_def steps_left_def split: exit_phase.splits)

lemma ending_goes_on: "ending s \<Longrightarrow> exit_phase s \<noteq> Exit_Joined \<Longrightarrow> \<exists>s'. Thread_step s s'"
  by (cases "run_phase s"; cases "exit_phase s") (auto simp: ending_def intro: Thread_step.intros)

lemma ending_run: "ending s \<Longrightarrow> (Thread_step ^^ n) s s' \<Longrightarrow> ending s' \<and> n + steps_left s' \<le> steps_left s"
proof (induction n arbitrary: s')
  case (Suc n)
  from Suc.prems(2) obtain s1 where s1: "(Thread_step ^^ n) s s1" "Thread_step s1 s'" by auto
  from Suc.IH [OF Suc.prems(1) s1(1)] ending_step [OF _ s1(2)] show ?case by auto
qed simp

lemma stuck_waiting: "run_phase s = Run_Wait \<Longrightarrow> \<not> Thread_step s s'"
  by (auto elim: Thread_stepE)

text \<open>C0: \<open>exit\<close> ends a thread unless it comes at the wrong moment. If the thread has not just tested
  \<open>mExitCalled\<close> without having locked its mutex, \<open>exit\<close> joins it after at most two steps, whatever they are. But in
  that moment the signal of \<open>exit\<close> is lost: the thread goes to sleep and is stuck there, so that \<open>exit\<close> waits in
  \<open>join\<close> for ever, unless somebody else signals.\<close>

theorem Thread_exit_joins:
  assumes "Thread_exit s = Some s1" and "(Thread_step ^^ n) s1 s2"
  shows "if run_phase s = Run_Lock
    then exit_phase s2 = Exit_Posted \<and> (0 < n \<longrightarrow> n = 1 \<and> run_phase s2 = Run_Wait \<and> (\<forall>s3. \<not> Thread_step s2 s3))
    else n \<le> 2 \<and> (exit_phase s2 = Exit_Joined \<or> (\<exists>s3. Thread_step s2 s3))"
proof (cases "run_phase s = Run_Lock")
  case True
  then have s1: "s1 = s\<lparr>mExitCalled_Thread := True, exit_phase := Exit_Posted\<rparr>"
    using assms(1) by (simp add: Thread_exit_def Thread_condSignal_def)
  have only: "s' = s1\<lparr>run_phase := Run_Wait\<rparr>" if "Thread_step s1 s'" for s'
    using that True s1 by (auto elim!: Thread_stepE)
  have "n = 0 \<and> s2 = s1 \<or> n = 1 \<and> s2 = s1\<lparr>run_phase := Run_Wait\<rparr>"
  proof (cases n)
    case (Suc m)
    then obtain s' where "Thread_step s1 s'" "(Thread_step ^^ m) s' s2" using assms(2) by (blast elim: relpowp_Suc_E2)
    then have m: "(Thread_step ^^ m) (s1\<lparr>run_phase := Run_Wait\<rparr>) s2" using only by simp
    have "m = 0"
    proof (rule ccontr)
      assume "m \<noteq> 0"
      then obtain k where "m = Suc k" by (cases m) auto
      with m obtain s' where "Thread_step (s1\<lparr>run_phase := Run_Wait\<rparr>) s'" by (blast elim: relpowp_Suc_E2)
      then show False using stuck_waiting [of "s1\<lparr>run_phase := Run_Wait\<rparr>"] by simp
    qed
    then show ?thesis using m Suc by simp
  qed (use assms(2) in simp)
  then show ?thesis using True s1 stuck_waiting [of s2] by auto
next
  case False
  have "exit_phase s1 = Exit_Posted" "mExitCalled_Thread s1" "run_phase s1 \<in> {Run_Test, Run_Woken, Run_End}"
    using assms(1) False
    by (auto simp: Thread_exit_def Thread_condSignal_def split: if_splits) (cases "run_phase s"; simp)+
  then have e: "ending s1" and le: "steps_left s1 \<le> 2" by (auto simp: ending_def steps_left_def)
  from ending_run [OF e assms(2)] le have "ending s2" "n \<le> 2" by auto
  then show ?thesis using False ending_goes_on by auto
qed

text \<open>The wrong moment is reached at the start of every thread.\<close>

lemma Thread_exit_joins_witness:
  "\<exists>s s1 s2. Thread_reachable s \<and> Thread_exit s = Some s1 \<and> Thread_step s1 s2 \<and> exit_phase s2 = Exit_Posted \<and>
     (\<forall>s3. \<not> Thread_step s2 s3)"
proof -
  let ?s = "Thread_init\<lparr>run_phase := Run_Lock\<rparr>"
  let ?s1 = "?s\<lparr>mExitCalled_Thread := True, exit_phase := Exit_Posted\<rparr>" and ?s2 = "?s\<lparr>mExitCalled_Thread := True, exit_phase := Exit_Posted, run_phase := Run_Wait\<rparr>"
  have "Thread_step Thread_init (Thread_init\<lparr>run_phase := if mExitCalled_Thread Thread_init then Run_End else Run_Lock\<rparr>)"
    by (rule Thread_step.test) (simp add: Thread_init_def)
  then have "Thread_step Thread_init ?s" by (simp add: Thread_init_def)
  then have r: "Thread_reachable ?s" by (rule Thread_reachable.step [OF Thread_reachable.start])
  have x: "Thread_exit ?s = Some ?s1" by (simp add: Thread_exit_def Thread_condSignal_def)
  have st: "Thread_step ?s1 ?s2" using Thread_step.lock [of ?s1] by simp
  then have "(Thread_step ^^ 1) ?s1 ?s2" unfolding relpowp_1 .
  from Thread_exit_joins [OF x this] have "exit_phase ?s2 = Exit_Posted \<and> (\<forall>s3. \<not> Thread_step ?s2 s3)"
    by (simp add: Thread_init_def)
  then show ?thesis using r x st by blast
qed

end
