(* ===== verification/IndexJson.thy ===== *)
theory IndexJson
  imports IndexCache Json
begin

text \<open>
  \<open>cache::BlockIndex::serializeToJson\<close> (\<open>src/cache/BlockIndex.cpp\<close>), which \<open>serialization::toJson\<close>
  (\<open>src/serialization/cacheToJson.cpp\<close>) calls: the index of a block as a JSON document. The texts of years, months
  and types are the library's.
\<close>

text \<open>\<open>AddMember\<close> wants an object and a name that is a string.\<close>

definition js_add :: "json \<Rightarrow> json \<Rightarrow> json \<Rightarrow> json result" where
  "js_add name v obj =
     (case (name, obj) of
        (JStr k, JObj ms) \<Rightarrow> Inr (JObj (ms @ [(k, v)]))
      | _ \<Rightarrow> Inl AssertFailed)"

definition index_entry_json :: "(u8 \<Rightarrow> json) \<Rightarrow> (u64 \<times> u32) list \<Rightarrow> BlockIndexEntry \<Rightarrow> json result" where
  "index_entry_json toType cursors e =
     (let n = unat (be_addressIndiceCount e) in
      if length (be_addressIndices e) < n then Inl UndefinedBehaviour
      else Inr (JObj
        ([(''transactionNr'', JInt (uint (be_transactionNr e))), (''transactionType'', toType (be_transactionType e))]
         @ (if be_coinCommunityIdIndex e \<noteq> 0 then [(''coinCommunityIdIndex'', JInt (uint (be_coinCommunityIdIndex e)))] else [])
         @ (if n \<noteq> 0 then [(''addressIndices'', JArr (map (JInt \<circ> uint) (take n (be_addressIndices e))))] else [])
         @ (case map_of cursors (be_transactionNr e) of None \<Rightarrow> [] | Some cur \<Rightarrow> [(''fileCursor'', JInt (sint cur))]))))"

fun months_json :: "(nat \<Rightarrow> json) \<Rightarrow> (u8 \<Rightarrow> json) \<Rightarrow> (u64 \<times> u32) list \<Rightarrow> month_map \<Rightarrow> json \<Rightarrow> json result" where
  "months_json toMonth toType cursors [] yearEntry = Inr yearEntry"
| "months_json toMonth toType cursors ((m, es) # ms) yearEntry =
     bindR (mapR (index_entry_json toType cursors) es) (\<lambda>monthEntry.
     bindR (js_add (toMonth m) (JArr monthEntry) yearEntry) (months_json toMonth toType cursors ms))"

fun years_json :: "(int \<Rightarrow> json) \<Rightarrow> (nat \<Rightarrow> json) \<Rightarrow> (u8 \<Rightarrow> json) \<Rightarrow> (u64 \<times> u32) list \<Rightarrow> (int \<times> month_map) list \<Rightarrow> json \<Rightarrow> json result" where
  "years_json toYear toMonth toType cursors [] rootJson = Inr rootJson"
| "years_json toYear toMonth toType cursors ((y, ms) # ys) rootJson =
     bindR (months_json toMonth toType cursors ms (JObj [])) (\<lambda>yearEntry.
     bindR (js_add (toYear y) yearEntry rootJson) (years_json toYear toMonth toType cursors ys))"

definition BlockIndexCache_serializeToJson ::
    "(int \<Rightarrow> json) \<Rightarrow> (nat \<Rightarrow> json) \<Rightarrow> (u8 \<Rightarrow> json) \<Rightarrow> BlockIndexCache \<Rightarrow> json result" where
  "BlockIndexCache_serializeToJson toYear toMonth toType c =
     (if mYearMonthAddressIndexEntries c = [] \<and> mTransactionNrsFileCursors c = [] \<and> mMaxTransactionNr c = 0 \<and> mMinTransactionNr c = 0
      then Inr JNull
      else years_json toYear toMonth toType (mTransactionNrsFileCursors c) (mYearMonthAddressIndexEntries c) (JObj []))"

section \<open>What the document shows\<close>

text \<open>The numbers of the transactions of a document, in the order of the document.\<close>

definition entry_number :: "json \<Rightarrow> int" where
  "entry_number j = (case map_of (js_members j) ''transactionNr'' of Some (JInt i) \<Rightarrow> i | _ \<Rightarrow> 0)"

definition year_numbers :: "json \<Rightarrow> int list" where
  "year_numbers j = concat (map (\<lambda>(m, v). case v of JArr js \<Rightarrow> map entry_number js | _ \<Rightarrow> []) (js_members j))"

definition document_numbers :: "json \<Rightarrow> int list" where
  "document_numbers j = concat (map (year_numbers \<circ> snd) (js_members j))"

abbreviation entry_sized :: "BlockIndexEntry \<Rightarrow> bool" where
  "entry_sized e \<equiv> length (be_addressIndices e) = unat (be_addressIndiceCount e)"

lemma mapR_all: "\<forall>x \<in> set xs. \<exists>y. f x = Inr y \<and> g y = h x \<Longrightarrow> \<exists>ys. mapR f xs = Inr ys \<and> map g ys = map h xs"
proof (induction xs)
  case (Cons x xs)
  then obtain y ys where "f x = Inr y" "g y = h x" "mapR f xs = Inr ys" "map g ys = map h xs" by auto
  then show ?case by simp
qed simp

lemma index_entry_json_number: "entry_sized e \<Longrightarrow> \<exists>j. index_entry_json toType cursors e = Inr j \<and> entry_number j = uint (be_transactionNr e)"
  by (simp add: index_entry_json_def Let_def entry_number_def)

lemma months_json_numbers:
  assumes "\<And>m. toMonth m = JStr (mt m)" and "\<forall>(m, es) \<in> set ms. \<forall>e \<in> set es. entry_sized e"
  shows "\<exists>ps'. months_json toMonth toType cursors ms (JObj ps) = Inr (JObj ps') \<and>
    year_numbers (JObj ps') = year_numbers (JObj ps) @ concat (map (\<lambda>(m, es). map (uint \<circ> be_transactionNr) es) ms)"
  using assms(2)
proof (induction ms arbitrary: ps)
  case (Cons p ms)
  obtain m es where p: "p = (m, es)" by (cases p)
  have "\<forall>e \<in> set es. \<exists>j. index_entry_json toType cursors e = Inr j \<and> entry_number j = (uint \<circ> be_transactionNr) e"
    using Cons.prems p index_entry_json_number by auto
  from mapR_all [OF this] obtain js where js: "mapR (index_entry_json toType cursors) es = Inr js"
    "map entry_number js = map (uint \<circ> be_transactionNr) es" by blast
  have "\<forall>(m, es) \<in> set ms. \<forall>e \<in> set es. entry_sized e" using Cons.prems by simp
  from Cons.IH [OF this, of "ps @ [(mt m, JArr js)]"] show ?case
    using p js assms(1) by (auto simp: js_add_def year_numbers_def)
qed simp

lemma years_json_numbers:
  assumes "\<And>y. toYear y = JStr (yt y)" and "\<And>m. toMonth m = JStr (mt m)"
    and "\<forall>(y, ms) \<in> set ys. \<forall>(m, es) \<in> set ms. \<forall>e \<in> set es. entry_sized e"
  shows "\<exists>ps'. years_json toYear toMonth toType cursors ys (JObj ps) = Inr (JObj ps') \<and>
    document_numbers (JObj ps') = document_numbers (JObj ps) @
      concat (map (\<lambda>(y, ms). concat (map (\<lambda>(m, es). map (uint \<circ> be_transactionNr) es) ms)) ys)"
  using assms(3)
proof (induction ys arbitrary: ps)
  case (Cons p ys)
  obtain y ms where p: "p = (y, ms)" by (cases p)
  have ms: "\<forall>(m, es) \<in> set ms. \<forall>e \<in> set es. entry_sized e" and ys: "\<forall>(y, ms) \<in> set ys. \<forall>(m, es) \<in> set ms. \<forall>e \<in> set es. entry_sized e"
    using Cons.prems p by auto
  from months_json_numbers [where toMonth = toMonth and mt = mt and ps = "[]" and toType = toType and cursors = cursors, OF assms(2) ms] obtain qs where
    qs: "months_json toMonth toType cursors ms (JObj []) = Inr (JObj qs)"
    "year_numbers (JObj qs) = concat (map (\<lambda>(m, es). map (uint \<circ> be_transactionNr) es) ms)"
    by (auto simp: year_numbers_def)
  from Cons.IH [OF ys, of "ps @ [(yt y, JObj qs)]"] show ?case
    using p qs assms(1) by (auto simp: js_add_def document_numbers_def comp_def)
qed simp

text \<open>The document has every transaction of the index, in the order of the index.\<close>

theorem BlockIndexCache_serializeToJson_complete:
  assumes "\<And>y. toYear y = JStr (yt y)" and "\<And>m. toMonth m = JStr (mt m)"
    and "\<forall>e \<in> set (all_of (mYearMonthAddressIndexEntries c)). entry_sized e"
  shows "\<exists>j. BlockIndexCache_serializeToJson toYear toMonth toType c = Inr j \<and>
    document_numbers j = map (uint \<circ> be_transactionNr) (all_of (mYearMonthAddressIndexEntries c))"
proof -
  have "\<forall>(y, ms) \<in> set (mYearMonthAddressIndexEntries c). \<forall>(m, es) \<in> set ms. \<forall>e \<in> set es. entry_sized e"
    using assms(3) by (fastforce simp: all_of_def)
  from years_json_numbers [where toYear = toYear and yt = yt and toMonth = toMonth and mt = mt and ps = "[]" and toType = toType and cursors = "mTransactionNrsFileCursors c", OF assms(1,2) this] obtain ps' where
    "years_json toYear toMonth toType (mTransactionNrsFileCursors c) (mYearMonthAddressIndexEntries c) (JObj []) = Inr (JObj ps')"
    "document_numbers (JObj ps') = concat (map (\<lambda>(y, ms). concat (map (\<lambda>(m, es). map (uint \<circ> be_transactionNr) es) ms))
      (mYearMonthAddressIndexEntries c))"
    by (auto simp: document_numbers_def)
  moreover have "concat (map (\<lambda>(y, ms). concat (map (\<lambda>(m, es). map (uint \<circ> be_transactionNr) es) ms)) M) =
      map (uint \<circ> be_transactionNr) (all_of M)" for M
    by (induction M) (auto simp: all_of_def map_concat comp_def case_prod_beta)
  ultimately show ?thesis
    by (auto simp: BlockIndexCache_serializeToJson_def document_numbers_def all_of_def)
qed

end
