(* ===== verification/Node.thy ===== *)
theory Node
  imports ProviderEx Hiero Tasks Grpc
begin

text \<open>
  The node as a whole: \<open>MainServer\<close> (\<open>src/MainServer.cpp\<close>), the global objects it creates
  (\<open>src/ServerGlobals.cpp\<close>) and \<open>main\<close> (\<open>src/main.cpp\<close>). The configuration of the library, the file of the
  address book, random numbers, the connection to a node of the network and the HTTP server are parameters.
\<close>

section \<open>ServerGlobals\<close>

record config =
  cfg_getInt :: "string \<Rightarrow> int \<Rightarrow> int"
  cfg_getBool :: "string \<Rightarrow> bool \<Rightarrow> bool"
  cfg_getString :: "string \<Rightarrow> string \<Rightarrow> string"

record ServerGlobals =
  g_CPUScheduler :: "CPUSheduler option"
  g_WriteFileCPUScheduler :: "CPUSheduler option"
  g_FilesPath :: string
  g_CacheTimeout :: int
  g_TimeoutCheck :: int
  g_WriteToDiskTimeout :: int
  g_LogTransactions :: bool
  g_isOfflineMode :: bool
  g_HieroMirrorNode :: "MirrorClient option"

definition ServerGlobals_start :: ServerGlobals where
  "ServerGlobals_start = \<lparr>g_CPUScheduler = None, g_WriteFileCPUScheduler = None, g_FilesPath = [], g_CacheTimeout = 600,
     g_TimeoutCheck = 60, g_WriteToDiskTimeout = 10, g_LogTransactions = False, g_isOfflineMode = False,
     g_HieroMirrorNode = None\<rparr>"

definition ServerGlobals_loadTimeouts :: "config \<Rightarrow> ServerGlobals \<Rightarrow> ServerGlobals" where
  "ServerGlobals_loadTimeouts cfg g = g\<lparr>g_CacheTimeout := cfg_getInt cfg ''cache.timeout'' (g_CacheTimeout g),
     g_TimeoutCheck := cfg_getInt cfg ''cache.checks_interval'' (g_TimeoutCheck g),
     g_WriteToDiskTimeout := cfg_getInt cfg ''cache.write_to_disk_interval'' (g_WriteToDiskTimeout g)\<rparr>"

definition ServerGlobals_initHiero :: "string \<Rightarrow> ServerGlobals \<Rightarrow> bool result \<times> ServerGlobals" where
  "ServerGlobals_initHiero hieroNetworkType g =
     (case MirrorClient_new hieroNetworkType of
        Inl e \<Rightarrow> (Inl e, g)
      | Inr m \<Rightarrow> (Inr True, g\<lparr>g_HieroMirrorNode := Some m\<rparr>))"

definition ServerGlobals_clearMemory :: "ServerGlobals \<Rightarrow> ServerGlobals" where
  "ServerGlobals_clearMemory g = g\<lparr>g_CPUScheduler := None, g_WriteFileCPUScheduler := None, g_HieroMirrorNode := None\<rparr>"

section \<open>MainServer\<close>

text \<open>
  What starting the node uses: the home directory of the environment, which files exist, the configuration of a file,
  the content of the address book with its decoding, random numbers, the time, whether gRPC has TLS and creates a
  channel, the communities file and the HTTP server.
\<close>

record ('t, 'i, 'a, 'p, 'm) main_env =
  mn_home :: "string option"
  mn_isFile :: "string \<Rightarrow> bool"
  mn_config :: "string \<Rightarrow> config"
  mn_lib :: "('t, 'i, 'a, 'p, 'm) hiero_lib"
  mn_addressbook :: "string \<Rightarrow> bytes option"
  mn_decode :: "bytes \<Rightarrow> 'm NodeAddressMessage list option"
  mn_rand :: "nat \<Rightarrow> nat"
  mn_now :: int
  mn_tls :: bool
  mn_createChannel :: "Channel \<Rightarrow> bool"
  mn_readJson :: "string \<Rightarrow> json_file"
  mn_serve :: "u16 \<Rightarrow> unit result"
  mn_tasks :: "nat \<Rightarrow> Task"

text \<open>The clients for the network belong to the provider, which knows them by their positions.\<close>

record ('db, 'chain) node =
  nd_globals :: ServerGlobals
  nd_timer :: FuzzyTimer
  nd_provider :: "('db, 'chain) FileBasedProvider"
  nd_clients :: "Channel list"
  mHttpServer :: "u16 option"

definition MainServer_getHomeDir :: "('t, 'i, 'a, 'p, 'm) main_env \<Rightarrow> string result" where
  "MainServer_getHomeDir N = (case mn_home N of None \<Rightarrow> Inl UndefinedBehaviour | Some h \<Rightarrow> Inr h)"

definition MainServer_findConfigFile :: "('t, 'i, 'a, 'p, 'm) main_env \<Rightarrow> string result" where
  "MainServer_findConfigFile N =
     bindR (MainServer_getHomeDir N) (\<lambda>home.
       let homePath = home @ ''/.gradido/gradido.yaml'' in
       if mn_isFile N ''gradido.yaml'' then Inr ''gradido.yaml''
       else if mn_isFile N homePath then Inr homePath
       else Inr [])"

text \<open>
  The loop over the clients: the i-th takes two random numbers. A client that cannot be made is an exception, never
  the null pointer that the code tests for.
\<close>

definition connect_node where
  "connect_node N book i =
     bindR (NodeAddressBook_pickRandomNode (mn_rand N (2 * i)) book) (\<lambda>hieroNode.
     bindR (NodeAddress_pickRandomEndpoint (mn_rand N (2 * i + 1)) hieroNode) (\<lambda>endpoint.
     bindR (ServiceEndpoint_getConnectionString endpoint) (\<lambda>url.
       ConsensusClient_createForTarget (mn_tls N) (mn_createChannel N) url (mPort endpoint = 50212) (mNodeCertHash hieroNode))))"

fun connect_nodes where
  "connect_nodes N book [] clients = Inr clients"
| "connect_nodes N book (i # js) clients =
     bindR (connect_node N book i) (\<lambda>client. connect_nodes N book js (clients @ [client]))"

definition connect_all where
  "connect_all N networkType hieroNodeCount g =
     (if g_isOfflineMode g then Inr []
      else bindR (Addressbook_load (mn_lib N) (mn_decode N)
                    (mn_addressbook N (g_FilesPath g @ ''/addressbook/'' @ networkType @ ''.pb''))) (\<lambda>book.
        connect_nodes N book [0..<unat (hieroNodeCount :: u8)] []))"

text \<open>The numbers of the configuration are narrowed to 16 and 8 bits.\<close>

definition config_port :: "config \<Rightarrow> u16" where
  "config_port cfg = word_of_int (cfg_getInt cfg ''server.json_rpc'' 8340)"

definition config_nodeCount :: "config \<Rightarrow> u8" where
  "config_nodeCount cfg = word_of_int (cfg_getInt cfg ''clients.hiero.nodeCount'' 3)"

definition config_perCommunity :: "config \<Rightarrow> u8" where
  "config_perCommunity cfg = word_of_int (cfg_getInt cfg ''clients.hiero.nodeCountPerCommunity'' 3)"

text \<open>The global objects; the scheduler of the tasks is called by the timer every 100 milliseconds.\<close>

definition init_globals where
  "init_globals N cfg home nd =
     (let io = (word_of_int (cfg_getInt cfg ''io.worker_count'' 2) :: u8);
          g1 = ServerGlobals_loadTimeouts cfg ((nd_globals nd)\<lparr>g_FilesPath := home @ ''/.gradido''\<rparr>);
          g2 = g1\<lparr>g_LogTransactions := cfg_getBool cfg ''logging.log_transactions'' (g_LogTransactions g1),
                  g_CPUScheduler := Some (CPUSheduler_new 2 (mn_tasks N)),
                  g_WriteFileCPUScheduler := Some (CPUSheduler_new (unat io) (mn_tasks N))\<rparr>
      in map_prod id (\<lambda>g. nd\<lparr>nd_globals := g,
            nd_timer := snd (FuzzyTimer_addTimer (mn_now N) ''mainCPUScheduler'' (Some 0) 100 (- 1) (nd_timer nd))\<rparr>)
         (ServerGlobals_initHiero (cfg_getString cfg ''clients.hiero.networkType'' ''testnet'') g2))"

definition start_server where
  "start_server N cfg nd =
     (case mn_serve N (config_port cfg) of
        Inl e \<Rightarrow> (Inl e, nd\<lparr>mHttpServer := Some (config_port cfg)\<rparr>)
      | Inr _ \<Rightarrow> (Inr True, nd\<lparr>mHttpServer := Some (config_port cfg)\<rparr>))"

text \<open>\<open>init\<close>: counts of nodes that do not fit together are only logged. \<open>None\<close> is that the fuel of a loop ran out.\<close>

definition MainServer_init where
  "MainServer_init N P nd0 =
     (case bindR (MainServer_getHomeDir N) (\<lambda>home. bindR (MainServer_findConfigFile N) (\<lambda>name. Inr (home, mn_config N name))) of
        Inl e \<Rightarrow> Some (Inl e, nd0)
      | Inr (home, cfg) \<Rightarrow>
          (case init_globals N cfg home nd0 of
             (Inl e, nd) \<Rightarrow> Some (Inl e, nd)
           | (Inr _, nd) \<Rightarrow>
               (case connect_all N (cfg_getString cfg ''clients.hiero.networkType'' ''testnet'') (config_nodeCount cfg) (nd_globals nd) of
                  Inl e \<Rightarrow> Some (Inl e, nd)
                | Inr clients \<Rightarrow>
                    (case FileBasedProvider_init P (mn_readJson N) (g_FilesPath (nd_globals nd) @ ''/communities.json'')
                            [0..<length clients] (config_perCommunity cfg) (nd_provider nd) of
                       None \<Rightarrow> None
                     | Some (Inl e, p) \<Rightarrow> Some (Inl e, nd\<lparr>nd_clients := clients, nd_provider := p\<rparr>)
                     | Some (Inr False, p) \<Rightarrow> Some (Inr False, nd\<lparr>nd_clients := clients, nd_provider := p\<rparr>)
                     | Some (Inr True, p) \<Rightarrow> Some (start_server N cfg (nd\<lparr>nd_clients := clients, nd_provider := p\<rparr>))))))"

text \<open>\<open>exit\<close>: the server, the timer, the schedulers, the communities. A scheduler that was never made is a null pointer.\<close>

definition MainServer_exit where
  "MainServer_exit P nd0 =
     (let nd = nd0\<lparr>mHttpServer := None, nd_timer := FuzzyTimer_stop (nd_timer nd0)\<rparr> in
      case (g_CPUScheduler (nd_globals nd), g_WriteFileCPUScheduler (nd_globals nd)) of
        (Some cpu, Some write) \<Rightarrow>
          (case FileBasedProvider_exit P (nd_provider nd) of
             (r, p) \<Rightarrow> (r, nd\<lparr>nd_provider := p, nd_globals := (nd_globals nd)\<lparr>g_CPUScheduler := Some (CPUSheduler_stop cpu),
                g_WriteFileCPUScheduler := Some (CPUSheduler_stop write)\<rparr>\<rparr>))
      | (Some cpu, None) \<Rightarrow>
          (Inl UndefinedBehaviour, nd\<lparr>nd_globals := (nd_globals nd)\<lparr>g_CPUScheduler := Some (CPUSheduler_stop cpu)\<rparr>\<rparr>)
      | (None, _) \<Rightarrow> (Inl UndefinedBehaviour, nd))"

section \<open>main\<close>

definition parseParameter :: "string list \<Rightarrow> int" where
  "parseParameter argv = (if ''--version'' \<in> set (drop 1 argv) then 1 else 0)"

text \<open>The value \<open>main\<close> returns; \<open>run\<close> is what the application of the library does, \<open>None\<close> an end without a return.\<close>

definition main_return :: "string list \<Rightarrow> int \<Rightarrow> unit result \<Rightarrow> int option" where
  "main_return argv sodium run =
     (if parseParameter argv = 1 then Some 0
      else if parseParameter argv = - 1 then Some (- 1)
      else if sodium < 0 then Some (- 1)
      else case run of
        Inr _ \<Rightarrow> Some 0
      | Inl (Gradido _) \<Rightarrow> Some (- 1)
      | Inl (Std _) \<Rightarrow> Some (- 2)
      | Inl _ \<Rightarrow> None)"

section \<open>Starting\<close>

lemma connect_nodes_all:
  "connect_nodes N book js clients = Inr cs \<Longrightarrow>
    \<exists>cs'. cs = clients @ cs' \<and> length cs' = length js \<and> (\<forall>c \<in> set cs'. \<exists>i. connect_node N book i = Inr c)"
proof (induction js arbitrary: clients)
  case (Cons j js)
  then obtain c where c: "connect_node N book j = Inr c" "connect_nodes N book js (clients @ [c]) = Inr cs"
    by (cases "connect_node N book j") auto
  from Cons.IH [OF c(2)] obtain cs' where "cs = (clients @ [c]) @ cs'" "length cs' = length js"
    "\<forall>c \<in> set cs'. \<exists>i. connect_node N book i = Inr c" by blast
  then show ?case using c(1) by (intro exI [of _ "c # cs'"]) auto
qed simp

lemma connect_all_clients:
  assumes "connect_all N nt n g = Inr cs"
  shows "length cs = (if g_isOfflineMode g then 0 else unat n)"
    and "\<not> g_isOfflineMode g \<Longrightarrow> \<exists>book. Addressbook_load (mn_lib N) (mn_decode N)
        (mn_addressbook N (g_FilesPath g @ ''/addressbook/'' @ nt @ ''.pb'')) = Inr book \<and>
      (\<forall>c \<in> set cs. \<exists>i. connect_node N book i = Inr c)"
  using assms by (auto simp: connect_all_def bindR_def dest!: connect_nodes_all split: if_splits sum.splits)

lemma init_globals_simps:
  assumes "init_globals N cfg home nd = (r, nd')"
  shows "g_isOfflineMode (nd_globals nd') = g_isOfflineMode (nd_globals nd)" "nd_provider nd' = nd_provider nd"
  using assms
  by (auto simp: init_globals_def Let_def ServerGlobals_initHiero_def ServerGlobals_loadTimeouts_def split: sum.splits)

text \<open>The steps of a start that succeeds.\<close>

lemma MainServer_init_steps:
  assumes "MainServer_init N P nd0 = Some (Inr True, nd)"
  obtains home name nd1 r cs p where "MainServer_getHomeDir N = Inr home" "MainServer_findConfigFile N = Inr name"
    "init_globals N (mn_config N name) home nd0 = (Inr r, nd1)"
    "connect_all N (cfg_getString (mn_config N name) ''clients.hiero.networkType'' ''testnet'') (config_nodeCount (mn_config N name))
       (nd_globals nd1) = Inr cs"
    "FileBasedProvider_init P (mn_readJson N) (g_FilesPath (nd_globals nd1) @ ''/communities.json'') [0..<length cs]
       (config_perCommunity (mn_config N name)) (nd_provider nd1) = Some (Inr True, p)"
    "mn_serve N (config_port (mn_config N name)) = Inr ()"
    "nd = nd1\<lparr>nd_clients := cs, nd_provider := p, mHttpServer := Some (config_port (mn_config N name))\<rparr>"
proof -
  obtain home name where 1: "MainServer_getHomeDir N = Inr home" "MainServer_findConfigFile N = Inr name"
    using assms by (auto simp: MainServer_init_def bindR_def split: sum.splits)
  obtain r nd1 where 2: "init_globals N (mn_config N name) home nd0 = (Inr r, nd1)"
    using assms 1 by (auto simp: MainServer_init_def bindR_def split: sum.splits prod.splits)
  obtain cs where 3: "connect_all N (cfg_getString (mn_config N name) ''clients.hiero.networkType'' ''testnet'')
      (config_nodeCount (mn_config N name)) (nd_globals nd1) = Inr cs"
    using assms 1 2 by (auto simp: MainServer_init_def bindR_def split: sum.splits)
  obtain p where 4: "FileBasedProvider_init P (mn_readJson N) (g_FilesPath (nd_globals nd1) @ ''/communities.json'') [0..<length cs]
      (config_perCommunity (mn_config N name)) (nd_provider nd1) = Some (Inr True, p)"
    and s: "start_server N (mn_config N name) (nd1\<lparr>nd_clients := cs, nd_provider := p\<rparr>) = (Inr True, nd)"
    using assms 1 2 3 by (auto simp: MainServer_init_def bindR_def split: option.splits prod.splits sum.splits bool.splits)
  show thesis by (rule that [OF 1 2 3 4]) (use s in \<open>auto simp: start_server_def split: sum.splits\<close>)
qed

text \<open>Every node of an address book that was read has a hash.\<close>

lemma Addressbook_load_hash:
  assumes "Addressbook_load L dec content = Inr book" and "n \<in> set (mNodeAddresses book)"
  shows "mNodeCertHash n \<noteq> None"
proof -
  have "mapR (NodeAddress_of_message L) ms = Inr ns \<Longrightarrow> n \<in> set ns \<Longrightarrow> mNodeCertHash n \<noteq> None" for ms ns
    by (induction ms arbitrary: ns) (auto simp: bindR_def NodeAddress_of_message_def split: sum.splits)
  then show ?thesis using assms
    by (auto simp: Addressbook_load_def NodeAddressBook_of_message_def bindR_def split: option.splits sum.splits)
qed

lemma connect_node_accepts:
  assumes "Addressbook_load (mn_lib N) dec content = Inr book" and "connect_node N book i = Inr c"
  shows "\<exists>n \<in> set (mNodeAddresses book). \<exists>e \<in> set (mServiceEndpoint n). \<exists>h.
    mNodeCertHash n = Some h \<and> ServiceEndpoint_getConnectionString e = Inr (ch_target c) \<and>
    (\<forall>certChain. channel_accepts sha384 standard c certChain = Inr (mPort e = 50212 \<longrightarrow> certChain \<noteq> [] \<and> h = sha384 certChain))"
proof -
  from assms(2) obtain n e url where n: "NodeAddressBook_pickRandomNode (mn_rand N (2 * i)) book = Inr n"
    and e: "NodeAddress_pickRandomEndpoint (mn_rand N (2 * i + 1)) n = Inr e"
    and url: "ServiceEndpoint_getConnectionString e = Inr url"
    and c: "ConsensusClient_createForTarget (mn_tls N) (mn_createChannel N) url (mPort e = 50212) (mNodeCertHash n) = Inr c"
    by (auto simp: connect_node_def bindR_def split: sum.splits)
  have in_book: "n \<in> set (mNodeAddresses book)" "e \<in> set (mServiceEndpoint n)"
    using n e by (auto simp: NodeAddressBook_pickRandomNode_def NodeAddress_pickRandomEndpoint_def split: if_splits)
  obtain h where h: "mNodeCertHash n = Some h" using Addressbook_load_hash [OF assms(1) in_book(1)] by blast
  have "ch_target c = url"
    "\<forall>certChain. channel_accepts sha384 standard c certChain = Inr (mPort e = 50212 \<longrightarrow> certChain \<noteq> [] \<and> h = sha384 certChain)"
    using createForTarget_accepts [OF c [unfolded h]] by auto
  then show ?thesis using in_book h url by blast
qed



text \<open>A node of two communities with three nodes of the network, its configuration that of the defaults.\<close>

definition default_config :: config where
  "default_config = \<lparr>cfg_getInt = (\<lambda>_ d. d), cfg_getBool = (\<lambda>_ d. d), cfg_getString = (\<lambda>_ d. d)\<rparr>"

definition demo_address :: "string \<Rightarrow> lib_message NodeAddressMessage" where
  "demo_address s = \<lparr>na_RSA_Pubkey = Some ''key'', na_nodeId = Some 3, na_nodeAccountId = Some (LM_text ''0.0.3''),
     na_nodeCertHash = Some [48], na_serviceEndpoint = [\<lparr>se_ipAddressV4 = Some [34, 94, 106, 61], se_port = Some 50212, se_domain_name = None\<rparr>],
     na_description = Some s\<rparr>"

definition demo_main :: "(int \<times> int, ((int \<times> int) \<times> string \<times> int \<times> bool) option, string, string, lib_message) main_env" where
  "demo_main = \<lparr>mn_home = Some ''/h'', mn_isFile = (\<lambda>_. False), mn_config = (\<lambda>_. default_config), mn_lib = example_lib,
     mn_addressbook = (\<lambda>n. if n = ''/h/.gradido/addressbook/testnet.pb'' then Some [1, 2, 3] else None),
     mn_decode = (\<lambda>b. Some (map (\<lambda>n. demo_address [char_of (unat n)]) b)), mn_rand = (\<lambda>i. 5 * i), mn_now = 0,
     mn_tls = True, mn_createChannel = (\<lambda>c. ch_target c = ''34.94.106.61:50212''), mn_readJson = demo_config, mn_serve = (\<lambda>_. Inr ()),
     mn_tasks = (\<lambda>_. \<lparr>mParentTaskPtrArray = [], mTaskScheduled = False, mFinishCommand = False, mFinished = False\<rparr>)\<rparr>"

definition demo_main_start :: "((string \<times> string) list, demo_blockchain) node" where
  "demo_main_start = \<lparr>nd_globals = ServerGlobals_start, nd_timer = FuzzyTimer_new, nd_provider = demo_node, nd_clients = [], mHttpServer = None\<rparr>"

definition demo_main_provider where
  "demo_main_provider = snd (the (FileBasedProvider_init demo_provider demo_config ''/h/.gradido/communities.json'' [0, 1, 2] 3 demo_node))"

lemma demo_main_provider:
  "FileBasedProvider_init demo_provider demo_config ''/h/.gradido/communities.json'' [0, 1, 2] 3 demo_node = Some (Inr True, demo_main_provider)"
proof -
  have "map_option fst (FileBasedProvider_init demo_provider demo_config ''/h/.gradido/communities.json'' [0, 1, 2] 3 demo_node) = Some (Inr True)"
    by code_simp
  then show ?thesis by (auto simp: demo_main_provider_def)
qed

definition demo_endpoint :: ServiceEndpoint where
  "demo_endpoint = \<lparr>mIpAddressV4 = [34, 94, 106, 61], mPort = 50212, mDomainName = []\<rparr>"

definition demo_book :: "string NodeAddressBook" where
  "demo_book = \<lparr>mNodeAddresses = map (\<lambda>n. \<lparr>mRsaPubkey = ''key'', mNodeId = 3, mNodeAccountId = ''0.0.3'',
     mNodeCertHash = Some [48], mServiceEndpoint = [demo_endpoint], mDescription = [char_of n]\<rparr>) [1 :: nat, 2, 3]\<rparr>"

definition demo_client :: Channel where
  "demo_client = \<lparr>ch_target = ''34.94.106.61:50212'', ch_credentials = TlsVerified (Some [48]), ch_arguments = channel_arguments\<rparr>"

lemma demo_book: "Addressbook_load (mn_lib demo_main) (mn_decode demo_main)
    (mn_addressbook demo_main ''/h/.gradido/addressbook/testnet.pb'') = Inr demo_book"
  by (simp add: Addressbook_load_def demo_main_def NodeAddressBook_of_message_def demo_address_def NodeAddress_of_message_def
      bindR_def opt_value_def example_lib_def ServiceEndpoint_of_message_def demo_endpoint_def demo_book_def plain_bytes_def)

lemma demo_connect: "connect_node demo_main demo_book i = Inr demo_client"
proof -
  have "dotted [34, 94, 106, 61] = ''34.94.106.61''" by code_simp
  moreover have "digit_char 5 = CHR ''5''" "digit_char 0 = CHR ''0''" "digit_char 2 = CHR ''2''" "digit_char (Suc 0) = CHR ''1''"
    by code_simp+
  then have "to_string_int 50212 = ''50212''" by (simp add: to_string_int_def to_string.simps)
  ultimately have url: "ServiceEndpoint_getConnectionString demo_endpoint = Inr ''34.94.106.61:50212''"
    by (simp add: ServiceEndpoint_getConnectionString_def ServiceEndpoint_getIpAddressV4String_def demo_endpoint_def)
  have port: "mPort demo_endpoint = 50212" by (simp add: demo_endpoint_def)
  have "n mod 3 \<in> {0, 1, 2}" for n :: nat by auto
  then have "n mod 3 = 0 \<or> n mod 3 = 1 \<or> n mod 3 = 2" for n :: nat by blast
  from this [of "mn_rand demo_main (2 * i)"] show ?thesis
    by (auto simp: connect_node_def bindR_def NodeAddressBook_pickRandomNode_def NodeAddress_pickRandomEndpoint_def url port demo_book_def)
      (simp_all add: ConsensusClient_createForTarget_def ConsensusClient_getTlsChannelCredentials_def demo_main_def demo_client_def)
qed

definition demo_main_globals :: ServerGlobals where
  "demo_main_globals = snd (ServerGlobals_initHiero ''testnet'' (ServerGlobals_start\<lparr>g_FilesPath := ''/h/.gradido'',
     g_CPUScheduler := Some (CPUSheduler_new 2 (mn_tasks demo_main)), g_WriteFileCPUScheduler := Some (CPUSheduler_new 2 (mn_tasks demo_main))\<rparr>))"

definition demo_main_node where
  "demo_main_node = demo_main_start\<lparr>nd_globals := demo_main_globals,
     nd_timer := snd (FuzzyTimer_addTimer 0 ''mainCPUScheduler'' (Some 0) 100 (- 1) FuzzyTimer_new),
     nd_clients := replicate 3 demo_client, nd_provider := demo_main_provider, mHttpServer := Some 8340\<rparr>"

lemma demo_globals_simps:
  "g_FilesPath demo_main_globals = ''/h/.gradido''" "\<not> g_isOfflineMode demo_main_globals" "\<not> g_isOfflineMode (nd_globals demo_main_start)"
  by (simp_all add: demo_main_globals_def demo_main_start_def ServerGlobals_initHiero_def MirrorClient_new_def
      MirrorNetworkEndpoints_getByEndpointName_def ServerGlobals_start_def)

lemma demo_defaults:
  "mn_config demo_main = (\<lambda>_. default_config)" "config_port default_config = 8340" "config_nodeCount default_config = 3"
  "config_perCommunity default_config = 3" "cfg_getString default_config k d = d"
  by (simp_all add: demo_main_def config_port_def config_nodeCount_def config_perCommunity_def default_config_def)

lemma demo_home: "MainServer_getHomeDir demo_main = Inr ''/h''" "MainServer_findConfigFile demo_main = Inr []"
  by (simp_all add: MainServer_getHomeDir_def MainServer_findConfigFile_def demo_main_def bindR_def)

lemma demo_main_init: "MainServer_init demo_main demo_provider demo_main_start = Some (Inr True, demo_main_node)"
proof -
  have globals: "init_globals demo_main default_config ''/h'' demo_main_start = (Inr True, demo_main_start\<lparr>nd_globals := demo_main_globals,
      nd_timer := snd (FuzzyTimer_addTimer 0 ''mainCPUScheduler'' (Some 0) 100 (- 1) FuzzyTimer_new)\<rparr>)"
    by (simp add: init_globals_def ServerGlobals_initHiero_def ServerGlobals_loadTimeouts_def demo_main_start_def ServerGlobals_start_def
        MirrorClient_new_def MirrorNetworkEndpoints_getByEndpointName_def default_config_def demo_main_globals_def)
      (simp add: demo_main_def)
  have "connect_nodes demo_main demo_book js cs = Inr (cs @ replicate (length js) demo_client)" for js cs
    by (induction js arbitrary: cs) (simp_all add: demo_connect)
  then have "connect_all demo_main ''testnet'' 3 demo_main_globals = Inr (replicate 3 demo_client)"
    using demo_book by (simp add: connect_all_def demo_globals_simps)
  moreover have "nd_provider demo_main_start = demo_node" by (simp add: demo_main_start_def)
  moreover have "mn_readJson demo_main = demo_config" "mn_serve demo_main p = Inr ()" for p by (simp_all add: demo_main_def)
  moreover have "[0..<3] = [0, 1, 2]" by (simp add: upt_conv_Cons)
  ultimately show ?thesis using demo_home demo_main_provider demo_defaults demo_globals_simps globals
    by (simp add: MainServer_init_def start_server_def demo_main_node_def)
qed



section \<open>Stopping\<close>


text \<open>One confirmed transaction, whose block the timer has handed to the scheduler.\<close>

definition demo_handed where
  "demo_handed = put_block 0 (snd (CacheBlock_callFromTimer False 10 5 (block_view (demo_confirmed demo_line) 0))) (demo_confirmed demo_line)"

definition demo_tasks :: "nat \<Rightarrow> Task" where
  "demo_tasks = mn_tasks demo_main"

definition demo_queue :: CPUSheduler where
  "demo_queue = (CPUSheduler_new 2 demo_tasks)\<lparr>mPendingTasks := [0]\<rparr>"

definition demo_busy where
  "demo_busy = \<lparr>nd_globals = ServerGlobals_start\<lparr>g_CPUScheduler := Some (CPUSheduler_new 2 demo_tasks),
       g_WriteFileCPUScheduler := Some demo_queue\<rparr>,
     nd_timer = FuzzyTimer_new,
     nd_provider = demo_node\<lparr>mBlockchainsPerGroup := [(''1'', demo_handed)], fbp_fs := fb_fs demo_handed\<rparr>, nd_clients = [], mHttpServer = Some 8340\<rparr>"

lemma demo_handed_rep:
  "chain_rep demo_chain 1 \<lparr>log_lines = [demo_line], log_written = 0, log_pending = True\<rparr> 0 demo_handed"
proof -
  let ?a = "empty_log\<lparr>log_lines := [demo_line]\<rparr>"
  have rep: "0 < length (fb_blocks (demo_confirmed demo_line))"
    "block_rep (ce_block demo_chain) (ce_X demo_chain) 1 ?a (block_view (demo_confirmed demo_line) 0)"
    using demo_confirmed_rep by (simp_all add: chain_rep_def)
  have "snd (log_step 1 (OpTimer False 10 5) ?a) = \<lparr>log_lines = [demo_line], log_written = 0, log_pending = True\<rparr>"
    by (simp add: log_step_def empty_log_def)
  with timer_rep [OF rep(2), of False 10 5] rep(1) demo_confirmed_rep show ?thesis
    by (simp add: demo_handed_def chain_rep_def)
qed


end
