(* ===== verification/Spec2Isabelle.thy ===== *)
theory Spec2Isabelle
  imports Files KeyValue Timer Dict IndexFile BlockFile IndexCache IdCaches Trigger Tasks Json Hiero Ordering Sync WriteTask CacheBlock BlockLog Chain ChainEx Apollo Rpc Api Client Subscription Provider ProviderEx Recovery Base58 Grpc Threads IndexJson Node
begin

text \<open>
  The Gradido node (\<open>src/src\<close>): a process that follows the topics of the Hiero network, puts the
  transactions it finds there into one blockchain per community, keeps the blockchains in files and answers
  questions about them over JSON-RPC. This library is a shallow embedding of its C++ code: records for its
  classes, one definition per method, theorems about them.

  \<^bold>\<open>How the parts work together.\<close>
  \<open>MainServer::init\<close> (theory \<open>Node\<close>) reads the configuration, starts the schedulers and the communities. The
  provider (\<open>Provider\<close>) reads the list of the communities (\<open>cache::GroupIndex\<close>) and makes a blockchain for
  each (\<open>Chain\<close>, \<open>blockchain::FileBased\<close>). A blockchain is a sequence of blocks. A block (\<open>CacheBlock\<close>) has an
  index in memory (\<open>IndexCache\<close>) with its file (\<open>IndexFile\<close>), the block file with the transactions
  (\<open>BlockFile\<close>) and a write task (\<open>WriteTask\<close>), which a timer (\<open>Timer\<close>) hands to the workers (\<open>Tasks\<close>). Next
  to the blocks the blockchain keeps the dictionary of public keys (\<open>Dict\<close>), the caches of identifiers
  (\<open>IdCaches\<close>), the events that are due later (\<open>Trigger\<close>) and its state values (\<open>KeyValue\<close>). The messages
  of a topic come from a mirror node, page by page over REST when the node starts (\<open>Sync\<close>) and then from a
  gRPC subscription (\<open>Subscription\<close>), as the message classes of \<open>Hiero\<close>. The ordering manager (\<open>Ordering\<close>) puts
  them into the order of their sequence numbers, has them deserialised by tasks and hands the transactions to
  the blockchain, which tells the community server about them (\<open>Client\<close>). Questions come in through
  \<open>Rpc\<close> and \<open>Api\<close>; \<open>Apollo\<close> makes the list of the wallet.

  \<^bold>\<open>Theories, in the order of imports.\<close>
  \<^item> \<open>Prelude\<close>: machine words, the exceptions as values (\<open>error\<close>, \<open>result\<close>), \<open>std::map\<close> and \<open>std::multimap\<close> as
    sorted lists, numbers as text and bytes, the locales \<open>step_invariant\<close>, \<open>step_monotone\<close> and \<open>simulation\<close>.
  \<^item> \<open>Files\<close>: \<open>FileLockManager\<close>, \<open>VirtualFile\<close>. Locks exclude each other, what is written is read back.
  \<^item> \<open>KeyValue\<close>: \<open>LevelDBWrapper\<close>, \<open>cache::State\<close>, \<open>DefaultStateKeys\<close>. The locale \<open>key_value_store\<close> states what
    both promise; both are instances.
  \<^item> \<open>Timer\<close>: \<open>FuzzyTimer\<close>. The queue stays sorted, a removed callback is not called again.
  \<^item> \<open>Dict\<close>: \<open>cache::Dictionary\<close>. Numbers and strings belong together, also after the file is opened again.
  \<^item> \<open>IndexFile\<close>, \<open>BlockFile\<close>: \<open>model::files::BlockIndex\<close>, \<open>model::files::Block\<close> and the task that rebuilds
    an index. Round trips, what the hashes protect, termination of the reading loop.
  \<^item> \<open>IndexCache\<close>: \<open>cache::BlockIndex\<close>. Its invariant, writing and loading, searching and counting.
    \<open>IndexJson\<close>: its \<open>serializeToJson\<close>.
  \<^item> \<open>IdCaches\<close>: \<open>cache::MessageId\<close>, \<open>cache::HieroTransactionId\<close>, \<open>cache::TransactionHash\<close>; the locale
    \<open>id_index\<close> with the two indices as instances.
  \<^item> \<open>Trigger\<close>: \<open>cache::TransactionTriggerEvent\<close> with its copy in a state.
  \<^item> \<open>Tasks\<close>: \<open>task::Task\<close>, \<open>CPUTask\<close>, \<open>CPUSheduler\<close>, \<open>CPUShedulerThread\<close> as a machine of interleaved
    steps. \<open>Threads\<close>: \<open>task::Thread\<close>, when \<open>exit\<close> ends a thread and when it waits for ever.
  \<^item> \<open>Json\<close>, \<open>Hiero\<close>: the message classes of \<open>src/hiero\<close>.
  \<^item> \<open>Ordering\<close>: \<open>controller::SimpleOrderingManager\<close>, \<open>task::HieroMessageToTransactionTask\<close>.
  \<^item> \<open>Sync\<close>: \<open>client::hiero::MirrorClient\<close>, \<open>task::SyncTopicOnStartup\<close>, the listeners.
  \<^item> \<open>WriteTask\<close>, \<open>CacheBlock\<close>, \<open>BlockLog\<close>: \<open>task::WriteTransactionsToBlockTask\<close>, \<open>TaskObserver\<close>,
    \<open>cache::Block\<close>. \<open>BlockLog\<close> states the abstract block, a list of lines, and proves the simulation.
  \<^item> \<open>Recovery\<close>: a block whose index file is lost is built again from its block file.
  \<^item> \<open>Chain\<close>, \<open>ChainEx\<close>: \<open>blockchain::FileBased\<close>, and an instance for the examples.
  \<^item> \<open>Apollo\<close>: \<open>model::Apollo\<close>. \<open>Rpc\<close>, \<open>Api\<close>: \<open>server::json_rpc\<close>. \<open>Client\<close>: \<open>client::Base\<close>, \<open>JsonRPC\<close>,
    \<open>GraphQL\<close>, \<open>NotifyClient\<close>. \<open>Subscription\<close>: \<open>TopicMessageQuery\<close> and the request reactors. \<open>Grpc\<close>: \<open>ConsensusClient\<close>,
    \<open>CertificateVerifier\<close>, which servers a channel accepts.
  \<^item> \<open>Provider\<close>, \<open>ProviderEx\<close>: \<open>JsonFile\<close>, \<open>GroupIndex\<close>, \<open>FileBasedProvider\<close>.
  \<^item> \<open>Node\<close>: \<open>MainServer\<close>, \<open>ServerGlobals\<close>.
  \<^item> \<open>Base58\<close>: \<open>src/lib/base58.c\<close> and \<open>BinTextConverter\<close>.

  \<^bold>\<open>Conventions.\<close>
  A method of a class is a definition \<open>Class_method\<close> that takes the object last and returns its result with
  the new object, also when it throws: the state at the throw is kept. A result is \<open>Inr\<close> or the exception
  \<open>Inl\<close>. Values of the type \<open>error\<close> are the classes of exceptions of the node, \<open>AssertFailed\<close> for a failed
  \<open>assert\<close>, rapidjson assertion or \<open>LOG_F(FATAL)\<close>, and \<open>UndefinedBehaviour\<close> where C++ leaves the behaviour
  open (a null pointer, an index beyond the end, a signed overflow). Other logging is left out. Machine
  integers keep their width. A mutex that only guards one method makes the method one step; where threads can
  act in between, the method is cut into steps (\<open>Tasks\<close>, \<open>Ordering\<close>, \<open>Subscription\<close>), and loops that wait have
  an argument \<open>env\<close> for what the others do meanwhile. Memory that is not initialised is an argument \<open>junk\<close>.
  Objects that are shared live in stores (lists) and are named by their positions.

  Code that is not in \<open>src/src\<close> is a parameter: the blockchain library (transactions, validation, filters,
  amounts), LevelDB, sodium's hash, rapidjson's parser, gRPC, the HTTP client and server. What the code relies
  on of them is a named hypothesis (\<open>leveldb_laws\<close>, \<open>expire_laws\<close> and others next to the parameters), and every
  property with such a hypothesis has a witness with a concrete instance (\<open>alist_leveldb\<close>, the chains of
  \<open>ChainEx\<close>, the two communities of \<open>ProviderEx\<close>).

  \<^bold>\<open>Fuel.\<close>
  Loops over bytes of a file, which C++ may repeat without end, take fuel and answer \<open>None\<close> when it runs out.
  Reading an index file needs no more rounds than the file has bytes (\<open>BlockIndexFile_read_terminates\<close>), and
  rebuilding an index no more than the block file has lines (\<open>rebuildBlockIndex_rep\<close>, fuel \<open>length ls + 1\<close>);
  the properties state an amount that is enough, never only what holds if the loop ends. The loops over blocks,
  queues and pages are recursive functions with a termination proof.

  \<^bold>\<open>Not modelled.\<close>
  The code for the former IOTA network (\<open>src/iota\<close>, \<open>OrderingManager\<close>, \<open>IotaMessageToTransactionTask\<close>,
  \<open>CheckForCrossGroupPairTask\<close>): it is commented out of \<open>MainServer\<close> or excluded by \<open>_USING_IOTA\<close>. The texts of
  exceptions (the classes are constructors of \<open>error\<close>). Enums of constants (\<open>ResponseCodeEnum\<close>). Naming of threads, destructors that only free memory.
\<close>

end
